(* ===== verification/Prelude.thy ===== *)
theory Prelude
  imports Main "HOL-Library.Word" "HOL-Library.Finite_Map"
begin

text \<open>
  Shared vocabulary of the development: machine integers with Rust's checked operations, results
  (\<open>'e + 'a\<close>, with \<open>Inl\<close> for \<open>Err\<close>), operations on a mutable state that keep the state when they
  fail, and \<open>BTreeMap\<close> as a finite map whose iteration runs over the keys in increasing order.
  The lemmas are collected in \<open>op_simps\<close> (inversion of successful runs), \<open>checked_simps\<close>
  (checked arithmetic in terms of integers) and \<open>res_simps\<close> (results).
\<close>

named_theorems op_simps
named_theorems res_simps
named_theorems checked_simps

section \<open>Types\<close>

type_synonym u8 = "8 word"
type_synonym u32 = "32 word"
type_synonym u64 = "64 word"
type_synonym u128 = "128 word"
type_synonym i128 = "128 word"
type_synonym u256 = "256 word"
type_synonym bytes = "8 word list"

text \<open>The 256-bit identifiers, ordered as their big-endian bytes are.\<close>

type_synonym h256 = "256 word"

section \<open>Checked machine arithmetic\<close>

text \<open>Rust's \<open>checked_add\<close>, \<open>checked_sub\<close>, \<open>checked_mul\<close>, \<open>checked_div\<close> and \<open>checked_rem\<close> on unsigned integers.\<close>

definition checked_add :: "'l::len word \<Rightarrow> 'l word \<Rightarrow> 'l word option" where
  "checked_add a b = (if uint a + uint b < 2 ^ LENGTH('l) then Some (a + b) else None)"

definition checked_sub :: "'l::len word \<Rightarrow> 'l word \<Rightarrow> 'l word option" where
  "checked_sub a b = (if uint b \<le> uint a then Some (a - b) else None)"

definition checked_mul :: "'l::len word \<Rightarrow> 'l word \<Rightarrow> 'l word option" where
  "checked_mul a b = (if uint a * uint b < 2 ^ LENGTH('l) then Some (a * b) else None)"

definition checked_div :: "'l::len word \<Rightarrow> 'l word \<Rightarrow> 'l word option" where
  "checked_div a b = (if b = 0 then None else Some (a div b))"

definition checked_rem :: "'l::len word \<Rightarrow> 'l word \<Rightarrow> 'l word option" where
  "checked_rem a b = (if b = 0 then None else Some (a mod b))"

text \<open>The same on signed (two's complement) integers.\<close>

definition signed_range :: "'l::len itself \<Rightarrow> int \<Rightarrow> bool" where
  "signed_range _ i \<longleftrightarrow> - (2 ^ (LENGTH('l) - 1)) \<le> i \<and> i < 2 ^ (LENGTH('l) - 1)"

definition checked_sadd :: "'l::len word \<Rightarrow> 'l word \<Rightarrow> 'l word option" where
  "checked_sadd a b = (if signed_range TYPE('l) (sint a + sint b) then Some (a + b) else None)"

definition checked_ssub :: "'l::len word \<Rightarrow> 'l word \<Rightarrow> 'l word option" where
  "checked_ssub a b = (if signed_range TYPE('l) (sint a - sint b) then Some (a - b) else None)"

definition checked_sneg :: "'l::len word \<Rightarrow> 'l word option" where
  "checked_sneg a = (if signed_range TYPE('l) (- sint a) then Some (- a) else None)"

lemma uint_range: "0 \<le> uint (a :: 'l::len word) \<and> uint a < 2 ^ LENGTH('l)"
  by simp

lemma signed_range_sint: "signed_range TYPE('l) (sint (a :: 'l::len word))"
  using sint_greater_eq [of a] sint_lt [of a] by (simp add: signed_range_def)

lemma checked_add_Some [checked_simps]:
  "checked_add a b = Some c \<longleftrightarrow> uint c = uint a + uint b" for a b c :: "'l::len word"
proof
  assume "checked_add a b = Some c"
  then have "uint a + uint b < 2 ^ LENGTH('l)" and "c = a + b"
    by (auto simp: checked_add_def split: if_splits)
  then show "uint c = uint a + uint b"
    by (simp add: uint_word_ariths(1) take_bit_eq_mod)
next
  assume c: "uint c = uint a + uint b"
  then have lt: "uint a + uint b < 2 ^ LENGTH('l)" using uint_range [of c] by simp
  then have "uint (a + b) = uint c"
    by (simp add: c uint_word_ariths(1) take_bit_eq_mod)
  with lt show "checked_add a b = Some c" by (simp add: checked_add_def word_uint_eq_iff)
qed

lemma checked_add_None [checked_simps]:
  "checked_add a b = None \<longleftrightarrow> 2 ^ LENGTH('l) \<le> uint a + uint b" for a b :: "'l::len word"
  by (auto simp: checked_add_def)

lemma checked_sub_Some [checked_simps]:
  "checked_sub a b = Some c \<longleftrightarrow> uint c = uint a - uint b" for a b c :: "'l::len word"
proof
  assume "checked_sub a b = Some c"
  then have "uint b \<le> uint a" and "c = a - b"
    by (auto simp: checked_sub_def split: if_splits)
  moreover have "uint a - uint b < 2 ^ LENGTH('l)"
    using uint_range [of a] uint_range [of b] by linarith
  ultimately show "uint c = uint a - uint b"
    by (simp add: uint_word_ariths(2) take_bit_eq_mod)
next
  assume c: "uint c = uint a - uint b"
  then have le: "uint b \<le> uint a" using uint_range [of c] by simp
  have "uint (a - b) = uint c"
    using c uint_range [of c] by (simp add: uint_word_ariths(2) take_bit_eq_mod)
  with le show "checked_sub a b = Some c" by (simp add: checked_sub_def word_uint_eq_iff)
qed

lemma checked_sub_None [checked_simps]:
  "checked_sub a b = None \<longleftrightarrow> uint a < uint b" for a b :: "'l::len word"
  by (auto simp: checked_sub_def)

lemma checked_mul_Some [checked_simps]:
  "checked_mul a b = Some c \<longleftrightarrow> uint c = uint a * uint b" for a b c :: "'l::len word"
proof
  assume "checked_mul a b = Some c"
  then have "uint a * uint b < 2 ^ LENGTH('l)" and "c = a * b"
    by (auto simp: checked_mul_def split: if_splits)
  then show "uint c = uint a * uint b"
    by (simp add: uint_word_ariths(3) take_bit_eq_mod)
next
  assume c: "uint c = uint a * uint b"
  then have lt: "uint a * uint b < 2 ^ LENGTH('l)" using uint_range [of c] by simp
  then have "uint (a * b) = uint c"
    by (simp add: c uint_word_ariths(3) take_bit_eq_mod)
  with lt show "checked_mul a b = Some c" by (simp add: checked_mul_def word_uint_eq_iff)
qed

lemma checked_mul_None [checked_simps]:
  "checked_mul a b = None \<longleftrightarrow> 2 ^ LENGTH('l) \<le> uint a * uint b" for a b :: "'l::len word"
  by (auto simp: checked_mul_def)

lemma checked_div_Some [checked_simps]:
  "checked_div a b = Some c \<longleftrightarrow> uint b \<noteq> 0 \<and> uint c = uint a div uint b" for a b c :: "'l::len word"
  by (auto simp: checked_div_def uint_div uint_0_iff intro: word_uint_eqI)

lemma checked_div_None [checked_simps]:
  "checked_div a b = None \<longleftrightarrow> uint b = 0" for a b :: "'l::len word"
  by (auto simp: checked_div_def uint_0_iff)

lemma signed_take_bit_signed_range:
  "signed_range TYPE('l) i \<Longrightarrow> signed_take_bit (LENGTH('l::len) - Suc 0) i = i"
  by (simp add: signed_range_def signed_take_bit_int_eq_self)

lemma checked_sadd_Some [checked_simps]:
  "checked_sadd a b = Some c \<longleftrightarrow> sint c = sint a + sint b" for a b c :: "'l::len word"
proof
  assume "checked_sadd a b = Some c"
  then have "signed_range TYPE('l) (sint a + sint b)" and "c = a + b"
    by (auto simp: checked_sadd_def split: if_splits)
  then show "sint c = sint a + sint b"
    by (simp add: sint_word_ariths(1) signed_take_bit_signed_range)
next
  assume c: "sint c = sint a + sint b"
  then have r: "signed_range TYPE('l) (sint a + sint b)" using signed_range_sint [of c] by simp
  then have "sint (a + b) = sint c"
    by (simp add: c sint_word_ariths(1) signed_take_bit_signed_range)
  then have "a + b = c" by (simp add: signed_word_eqI)
  with r show "checked_sadd a b = Some c" by (simp add: checked_sadd_def)
qed

lemma checked_sadd_None [checked_simps]:
  "checked_sadd a b = None \<longleftrightarrow> \<not> signed_range TYPE('l) (sint a + sint b)" for a b :: "'l::len word"
  by (auto simp: checked_sadd_def)

lemma checked_ssub_Some [checked_simps]:
  "checked_ssub a b = Some c \<longleftrightarrow> sint c = sint a - sint b" for a b c :: "'l::len word"
proof
  assume "checked_ssub a b = Some c"
  then have "signed_range TYPE('l) (sint a - sint b)" and "c = a - b"
    by (auto simp: checked_ssub_def split: if_splits)
  then show "sint c = sint a - sint b"
    by (simp add: sint_word_ariths(2) signed_take_bit_signed_range)
next
  assume c: "sint c = sint a - sint b"
  then have r: "signed_range TYPE('l) (sint a - sint b)" using signed_range_sint [of c] by simp
  then have "sint (a - b) = sint c"
    by (simp add: c sint_word_ariths(2) signed_take_bit_signed_range)
  then have "a - b = c" by (simp add: signed_word_eqI)
  with r show "checked_ssub a b = Some c" by (simp add: checked_ssub_def)
qed

lemma checked_sneg_Some [checked_simps]:
  "checked_sneg a = Some c \<longleftrightarrow> sint c = - sint a" for a c :: "'l::len word"
proof
  assume "checked_sneg a = Some c"
  then have "signed_range TYPE('l) (- sint a)" and "c = - a"
    by (auto simp: checked_sneg_def split: if_splits)
  then show "sint c = - sint a"
    by (simp add: sint_word_ariths(4) signed_take_bit_signed_range)
next
  assume c: "sint c = - sint a"
  then have r: "signed_range TYPE('l) (- sint a)" using signed_range_sint [of c] by simp
  then have "sint (- a) = sint c"
    by (simp add: c sint_word_ariths(4) signed_take_bit_signed_range)
  then have "- a = c" by (simp add: signed_word_eqI)
  with r show "checked_sneg a = Some c" by (simp add: checked_sneg_def)
qed

lemma checked_sneg_None [checked_simps]:
  "checked_sneg a = None \<longleftrightarrow> \<not> signed_range TYPE('l) (- sint a)" for a :: "'l::len word"
  by (auto simp: checked_sneg_def)

section \<open>Results\<close>

text \<open>\<open>Option::ok_or\<close>, \<open>Result::map_err\<close> and the \<open>?\<close> operator on results.\<close>

definition ok_or :: "'e \<Rightarrow> 'a option \<Rightarrow> 'e + 'a" where
  "ok_or e x = (case x of None \<Rightarrow> Inl e | Some a \<Rightarrow> Inr a)"

definition map_err :: "('e \<Rightarrow> 'f) \<Rightarrow> 'e + 'a \<Rightarrow> 'f + 'a" where
  "map_err g r = (case r of Inl e \<Rightarrow> Inl (g e) | Inr a \<Rightarrow> Inr a)"

definition map_ok :: "('a \<Rightarrow> 'b) \<Rightarrow> 'e + 'a \<Rightarrow> 'e + 'b" where
  "map_ok g r = (case r of Inl e \<Rightarrow> Inl e | Inr a \<Rightarrow> Inr (g a))"

definition res_bind :: "'e + 'a \<Rightarrow> ('a \<Rightarrow> 'e + 'b) \<Rightarrow> 'e + 'b" where
  "res_bind r f = (case r of Inl e \<Rightarrow> Inl e | Inr a \<Rightarrow> f a)"

text \<open>
  Code that can also panic, by \<open>expect\<close>, an assertion or an overflow check, has the error type \<open>'f fault\<close>.
\<close>

datatype 'f fault = Err 'f | Panic

text \<open>A call that returns an error value, from code that can panic.\<close>

abbreviation lift_err :: "'e + 'a \<Rightarrow> 'e fault + 'a" where
  "lift_err \<equiv> map_err Err"

definition expect :: "'a option \<Rightarrow> 'e fault + 'a" where
  "expect x = ok_or Panic x"

text \<open>Collecting an iterator of results: the first error, or the list of the values.\<close>

fun res_map :: "('a \<Rightarrow> 'e + 'b) \<Rightarrow> 'a list \<Rightarrow> 'e + 'b list" where
  "res_map f [] = Inr []"
| "res_map f (x # xs) = res_bind (f x) (\<lambda>y. res_bind (res_map f xs) (\<lambda>ys. Inr (y # ys)))"

lemma expect_simps [simp]: "expect (Some a) = Inr a" "expect None = Inl Panic"
  by (simp_all add: expect_def ok_or_def)

lemma ok_or_Inr [res_simps]: "ok_or e x = Inr a \<longleftrightarrow> x = Some a"
  by (auto simp: ok_or_def split: option.splits)

lemma ok_or_Inl [res_simps]: "ok_or e x = Inl f \<longleftrightarrow> x = None \<and> f = e"
  by (auto simp: ok_or_def split: option.splits)

lemma expect_Inr [res_simps]: "expect x = Inr a \<longleftrightarrow> x = Some a"
  by (simp add: expect_def res_simps)

lemma expect_Inl [res_simps]: "expect x = Inl e \<longleftrightarrow> x = None \<and> e = Panic"
  by (simp add: expect_def res_simps)

lemma map_err_Inr [res_simps]: "map_err g r = Inr a \<longleftrightarrow> r = Inr a"
  by (auto simp: map_err_def split: sum.splits)

lemma map_err_Inl [res_simps]: "map_err g r = Inl f \<longleftrightarrow> (\<exists>e. r = Inl e \<and> f = g e)"
  by (auto simp: map_err_def split: sum.splits)

lemma map_ok_Inr [res_simps]: "map_ok g r = Inr b \<longleftrightarrow> (\<exists>a. r = Inr a \<and> b = g a)"
  by (auto simp: map_ok_def split: sum.splits)

lemma map_ok_Inl [res_simps]: "map_ok g r = Inl e \<longleftrightarrow> r = Inl e"
  by (auto simp: map_ok_def split: sum.splits)

lemma res_bind_Inr [res_simps]: "res_bind r f = Inr b \<longleftrightarrow> (\<exists>a. r = Inr a \<and> f a = Inr b)"
  by (auto simp: res_bind_def split: sum.splits)

lemma res_bind_Inl [res_simps]: "res_bind r f = Inl e \<longleftrightarrow> r = Inl e \<or> (\<exists>a. r = Inr a \<and> f a = Inl e)"
  by (auto simp: res_bind_def split: sum.splits)

lemma res_intro_simps [simp]:
  "ok_or e (Some a) = Inr a" "ok_or e None = Inl e"
  "map_err g (Inr a) = Inr a" "map_err g (Inl x) = Inl (g x)"
  "map_ok h (Inr a) = Inr (h a)" "map_ok h (Inl x) = Inl x"
  "res_bind (Inr a) f = f a" "res_bind (Inl x) f = Inl x"
  by (simp_all add: ok_or_def map_err_def map_ok_def res_bind_def)

lemma res_map_Inr [res_simps]: "res_map f xs = Inr ys \<longleftrightarrow> list_all2 (\<lambda>x y. f x = Inr y) xs ys"
  by (induction xs arbitrary: ys) (auto simp: res_simps list_all2_Cons1)

section \<open>Operations on a mutable state\<close>

text \<open>
  A method on \<open>&mut self\<close> returning \<open>Result\<close> is a function from the state to the result and the new
  state. When it fails, the changes made before the failure stay in the state, as they do in the code.
\<close>

type_synonym ('s, 'e, 'a) op = "'s \<Rightarrow> ('e + 'a) \<times> 's"

definition op_return :: "'a \<Rightarrow> ('s, 'e, 'a) op" where
  "op_return a s = (Inr a, s)"

definition op_fail :: "'e \<Rightarrow> ('s, 'e, 'a) op" where
  "op_fail e s = (Inl e, s)"

definition op_bind :: "('s, 'e, 'a) op \<Rightarrow> ('a \<Rightarrow> ('s, 'e, 'b) op) \<Rightarrow> ('s, 'e, 'b) op" where
  "op_bind m f s = (case m s of (Inl e, t) \<Rightarrow> (Inl e, t) | (Inr a, t) \<Rightarrow> f a t)"

text \<open>\<open>op_read\<close> is a fallible query on \<open>&self\<close>, \<open>op_ensure\<close> the macro \<open>ensure!\<close>.\<close>

definition op_read :: "('s \<Rightarrow> 'e + 'a) \<Rightarrow> ('s, 'e, 'a) op" where
  "op_read f s = (f s, s)"

definition op_ensure :: "bool \<Rightarrow> 'e \<Rightarrow> ('s, 'e, unit) op" where
  "op_ensure b e s = ((if b then Inr () else Inl e), s)"

definition op_modify :: "('s \<Rightarrow> 's) \<Rightarrow> ('s, 'e, unit) op" where
  "op_modify f s = (Inr (), f s)"

definition op_map_err :: "('e \<Rightarrow> 'f) \<Rightarrow> ('s, 'e, 'a) op \<Rightarrow> ('s, 'f, 'a) op" where
  "op_map_err g m s = (case m s of (r, t) \<Rightarrow> (map_err g r, t))"

text \<open>\<open>op_zoom\<close> runs a method of one field of the state.\<close>

definition op_zoom :: "('s \<Rightarrow> 'f) \<Rightarrow> ('f \<Rightarrow> 's \<Rightarrow> 's) \<Rightarrow> ('f, 'e, 'a) op \<Rightarrow> ('s, 'e, 'a) op" where
  "op_zoom field upd m s = (case m (field s) of (r, f) \<Rightarrow> (r, upd f s))"

text \<open>Iteration that stops at the first error: \<open>map(..).collect::<Result<_, _>>()\<close> and \<open>try_for_each\<close>.\<close>

fun op_map :: "('x \<Rightarrow> ('s, 'e, 'a) op) \<Rightarrow> 'x list \<Rightarrow> ('s, 'e, 'a list) op" where
  "op_map f [] = op_return []"
| "op_map f (x # xs) = op_bind (f x) (\<lambda>a. op_bind (op_map f xs) (\<lambda>as. op_return (a # as)))"

definition op_for_each :: "('x \<Rightarrow> ('s, 'e, 'a) op) \<Rightarrow> 'x list \<Rightarrow> ('s, 'e, unit) op" where
  "op_for_each f xs = op_bind (op_map f xs) (\<lambda>_. op_return ())"

lemma op_return_eq [op_simps]: "op_return a s = (r, t) \<longleftrightarrow> r = Inr a \<and> t = s"
  by (auto simp: op_return_def)

lemma op_fail_eq [op_simps]: "op_fail e s = (r, t) \<longleftrightarrow> r = Inl e \<and> t = s"
  by (auto simp: op_fail_def)

lemma op_bind_Inr [op_simps]:
  "op_bind m f s = (Inr b, u) \<longleftrightarrow> (\<exists>a t. m s = (Inr a, t) \<and> f a t = (Inr b, u))"
  by (auto simp: op_bind_def split: prod.splits sum.splits)

lemma op_bind_Inl [op_simps]:
  "op_bind m f s = (Inl e, u) \<longleftrightarrow> m s = (Inl e, u) \<or> (\<exists>a t. m s = (Inr a, t) \<and> f a t = (Inl e, u))"
  by (auto simp: op_bind_def split: prod.splits sum.splits)

lemma op_read_eq [op_simps]: "op_read f s = (r, t) \<longleftrightarrow> f s = r \<and> t = s"
  by (auto simp: op_read_def)

lemma op_ensure_Inr [op_simps]: "op_ensure b e s = (Inr u, t) \<longleftrightarrow> b \<and> t = s"
  by (auto simp: op_ensure_def)

lemma op_ensure_Inl [op_simps]: "op_ensure b e s = (Inl f, t) \<longleftrightarrow> \<not> b \<and> f = e \<and> t = s"
  by (auto simp: op_ensure_def)

lemma op_modify_eq [op_simps]: "op_modify f s = (r, t) \<longleftrightarrow> r = Inr () \<and> t = f s"
  by (auto simp: op_modify_def)

lemma op_map_err_Inr [op_simps]: "op_map_err g m s = (Inr a, t) \<longleftrightarrow> m s = (Inr a, t)"
  by (auto simp: op_map_err_def res_simps split: prod.splits)

lemma op_map_err_Inl [op_simps]: "op_map_err g m s = (Inl f, t) \<longleftrightarrow> (\<exists>e. m s = (Inl e, t) \<and> f = g e)"
  by (auto simp: op_map_err_def res_simps split: prod.splits)

lemma op_zoom_eq [op_simps]:
  "op_zoom field upd m s = (r, t) \<longleftrightarrow> (\<exists>f. m (field s) = (r, f) \<and> t = upd f s)"
  by (auto simp: op_zoom_def split: prod.splits)

lemma op_for_each_Inr [op_simps]:
  "op_for_each f xs s = (Inr u, t) \<longleftrightarrow> (\<exists>as. op_map f xs s = (Inr as, t))"
  by (auto simp: op_for_each_def op_simps)

lemma op_for_each_Inl [op_simps]:
  "op_for_each f xs s = (Inl e, t) \<longleftrightarrow> op_map f xs s = (Inl e, t)"
  by (auto simp: op_for_each_def op_simps)

lemma op_map_append:
  "op_map f (xs @ ys) s = (Inr as, t) \<longleftrightarrow>
    (\<exists>bs cs u. op_map f xs s = (Inr bs, u) \<and> op_map f ys u = (Inr cs, t) \<and> as = bs @ cs)"
proof (induction xs arbitrary: s as)
  case Nil
  then show ?case by (auto simp: op_simps)
next
  case (Cons x xs)
  then show ?case by (simp add: op_simps) (metis append_Cons)
qed

lemma op_for_each_append:
  "op_for_each f (xs @ ys) s = (Inr u, t) \<longleftrightarrow>
    (\<exists>m. op_for_each f xs s = (Inr u, m) \<and> op_for_each f ys m = (Inr u, t))"
  by (auto simp: op_simps op_map_append)

lemma op_for_each_Cons:
  "op_for_each f (x # xs) s = (Inr u, t) \<longleftrightarrow>
    (\<exists>a m. f x s = (Inr a, m) \<and> op_for_each f xs m = (Inr u, t))"
  by (auto simp: op_simps)

lemma op_for_each_Nil [simp]: "op_for_each f [] s = (Inr (), s)"
  by (simp add: op_for_each_def op_bind_def op_return_def)

lemma op_bind_cong [fundef_cong]:
  assumes "m s = m' s'" and "\<And>a t. m' s' = (Inr a, t) \<Longrightarrow> f a t = f' a t"
  shows "op_bind m f s = op_bind m' f' s'"
  using assms by (auto simp: op_bind_def split: prod.splits sum.splits)

lemma op_map_invariant:
  assumes "op_map f xs s = (r, t)" and "I s"
    and "\<And>x s r t. x \<in> set xs \<Longrightarrow> I s \<Longrightarrow> f x s = (r, t) \<Longrightarrow> I t"
  shows "I t"
  using assms
proof (induction xs arbitrary: s r)
  case Nil
  then show ?case by (auto simp: op_simps)
next
  case (Cons x xs)
  obtain q u where q: "f x s = (q, u)" by fastforce
  with Cons.prems have "I u" by (meson list.set_intros(1))
  show ?case
  proof (cases q)
    case (Inl e)
    with Cons.prems(1) q have "t = u" by (auto simp: op_bind_def)
    with \<open>I u\<close> show ?thesis by simp
  next
    case (Inr a)
    with Cons.prems(1) q obtain r' where "op_map f xs u = (r', t)"
      by (auto simp: op_bind_def op_return_def split: prod.splits sum.splits)
    with Cons.IH \<open>I u\<close> Cons.prems(3) show ?thesis by (meson list.set_intros(2))
  qed
qed

lemma op_map_map: "op_map f (map g xs) = op_map (\<lambda>x. f (g x)) xs"
  by (induction xs) simp_all

lemma op_for_each_map: "op_for_each f (map g xs) = op_for_each (\<lambda>x. f (g x)) xs"
  by (simp add: op_for_each_def op_map_map)

lemma op_for_each_Cons_eq: "op_for_each f (x # xs) = op_bind (f x) (\<lambda>_. op_for_each f xs)"
  by (simp add: op_for_each_def fun_eq_iff op_bind_def op_return_def split: prod.splits sum.splits)

lemma op_for_each_error: "op_for_each f xs s = (Inl e, s') \<Longrightarrow> \<exists>x \<in> set xs. \<exists>t t'. f x t = (Inl e, t')"
  by (induction xs arbitrary: s) (fastforce simp: op_for_each_Cons_eq op_bind_def split: prod.splits sum.splits)+

lemma op_for_each_zoom:
  assumes "\<And>f s. field (upd f s) = f" and "\<And>f g s. upd f (upd g s) = upd f s" and "\<And>s. upd (field s) s = s"
  shows "op_for_each (\<lambda>x. op_zoom field upd (f x)) xs = op_zoom field upd (op_for_each f xs)"
proof (induction xs)
  case Nil
  then show ?case by (simp add: fun_eq_iff op_zoom_def assms(3))
next
  case (Cons x xs)
  then show ?case
    by (auto simp: fun_eq_iff op_for_each_Cons_eq op_bind_def op_zoom_def assms split: prod.splits sum.splits)
qed

lemma op_bind_ok: "m s = (Inr a, t) \<Longrightarrow> op_bind m f s = f a t"
  by (simp add: op_bind_def)

lemma op_bind_err: "m s = (Inl e, t) \<Longrightarrow> op_bind m f s = (Inl e, t)"
  by (simp add: op_bind_def)

lemma op_for_each_filter:
  "op_for_each (\<lambda>x. if p x then op_bind (f x) (\<lambda>_. op_return ()) else op_return ()) xs = op_for_each f (filter p xs)"
proof (induction xs)
  case (Cons x xs)
  then show ?case
    by (simp add: op_for_each_Cons_eq fun_eq_iff op_bind_def op_return_def split: prod.splits sum.splits)
qed (simp add: fun_eq_iff)

lemma op_for_each_guarded:
  "op_for_each (\<lambda>x. if \<not> p x then op_fail e else f x) xs s = (Inr u, t) \<Longrightarrow> op_for_each f xs s = (Inr u, t)"
  by (induction xs arbitrary: s) (auto simp: op_for_each_Cons op_simps split: if_splits)

lemma op_for_each_guard:
  "op_for_each (\<lambda>x. if \<not> p x then op_fail e else f x) xs s = (Inr u, t) \<Longrightarrow> x \<in> set xs \<Longrightarrow> p x"
  by (induction xs arbitrary: s) (auto simp: op_for_each_Cons op_simps split: if_splits)

lemma op_map_length: "op_map f xs s = (Inr ys, t) \<Longrightarrow> length ys = length xs"
  by (induction xs arbitrary: s ys) (auto simp: op_simps)

section \<open>Ordered maps\<close>

text \<open>
  \<open>BTreeMap<K, V>\<close> is \<open>('k, 'v) fmap\<close>: \<open>get\<close> is \<open>fmlookup\<close>, \<open>insert\<close> is \<open>fmupd\<close>, \<open>remove\<close> is \<open>fmdrop\<close>,
  and iteration runs over \<open>sorted_list_of_fmap\<close>. \<open>fm_put\<close> writes an optional value into a slot.
\<close>

definition fm_put :: "'k \<Rightarrow> 'v option \<Rightarrow> ('k, 'v) fmap \<Rightarrow> ('k, 'v) fmap" where
  "fm_put k x m = (case x of None \<Rightarrow> fmdrop k m | Some v \<Rightarrow> fmupd k v m)"

lemma fmlookup_fm_put [simp]: "fmlookup (fm_put k x m) k' = (if k' = k then x else fmlookup m k')"
  by (auto simp: fm_put_def split: option.splits)

lemma fm_put_simps [simp]: "fm_put k None m = fmdrop k m" "fm_put k (Some v) m = fmupd k v m"
  by (simp_all add: fm_put_def)

lemma distinct_sorted_list_of_fmap [simp]: "distinct (map fst (sorted_list_of_fmap m))"
  by (simp add: sorted_list_of_fmap_def comp_def sorted_list_of_fset.rep_eq)

lemma sorted_sorted_list_of_fmap [simp]: "sorted (map fst (sorted_list_of_fmap m))"
  by (simp add: sorted_list_of_fmap_def comp_def sorted_list_of_fset.rep_eq)

lemma in_sorted_list_of_fmap [simp]: "x \<in> set (sorted_list_of_fmap m) \<longleftrightarrow> fmlookup m (fst x) = Some (snd x)"
  using map_of_eq_Some_iff [OF distinct_sorted_list_of_fmap, of m "fst x" "snd x"] by simp

lemma fst_sorted_list_of_fmap: "k \<in> fst ` set (sorted_list_of_fmap m) \<longleftrightarrow> fmlookup m k \<noteq> None"
  by (metis dom_map_of_conv_image_fst map_of_sorted_list domIff)

lemma ball_sorted_list_of_fmap:
  "(\<forall>(k, v) \<in> set (sorted_list_of_fmap m). P k v) \<longleftrightarrow> (\<forall>k v. fmlookup m k = Some v \<longrightarrow> P k v)"
proof
  assume "\<forall>(k, v) \<in> set (sorted_list_of_fmap m). P k v"
  then show "\<forall>k v. fmlookup m k = Some v \<longrightarrow> P k v" by (metis (no_types, lifting) case_prodD fst_conv in_sorted_list_of_fmap snd_conv)
qed auto

lemma sorted_list_of_fmap_empty [simp]: "sorted_list_of_fmap fmempty = []"
  by (simp add: sorted_list_of_fmap_def sorted_list_of_fset.rep_eq)

lemma sorted_list_of_fmap_single [simp]: "sorted_list_of_fmap (fmupd k v fmempty) = [(k, v)]"
  by (simp add: sorted_list_of_fmap_def sorted_list_of_fset.rep_eq)

lemma fmlookup_fmap_of_list: "fmlookup (fmap_of_list xs) = map_of xs"
  by (induction xs) auto

section \<open>Operations that act on one slot of a map\<close>

text \<open>
  Most batch operations of the program walk over a map and, for every key, read the slot of that key in
  a store and write it back. The contract of such an operation is a function on the content of the slot;
  the locale lifts it to the batch: with distinct keys every step sees the slot as it was at the start.
\<close>

locale keyed_op =
  fixes look :: "'s \<Rightarrow> 'k \<Rightarrow> 'v option"
    and put :: "'k \<Rightarrow> 'v option \<Rightarrow> 's \<Rightarrow> 's"
    and key :: "'x \<Rightarrow> 'k"
    and step :: "'x \<Rightarrow> ('s, 'e, 'u) op"
    and slot :: "'x \<Rightarrow> 'v option \<Rightarrow> ('e + 'u) \<times> 'v option"
  assumes look_put: "look (put k v s) k' = (if k' = k then v else look s k')"
    and step_slot: "\<exists>v. slot x (look s (key x)) = (fst (step x s), v) \<and>
      (snd (step x s) = put (key x) v s \<or> v = look s (key x) \<and> snd (step x s) = s)"
begin

lemma step_Inr:
  assumes "step x s = (Inr u, t)"
  shows "slot x (look s (key x)) = (Inr u, look t (key x))"
    and "k \<noteq> key x \<Longrightarrow> look t k = look s k"
  using step_slot [of x s] assms by (auto simp: look_put)

lemma map_Inr:
  assumes "op_map step xs s = (Inr us, t)" and "distinct (map key xs)"
  shows "list_all2 (\<lambda>x u. slot x (look s (key x)) = (Inr u, look t (key x))) xs us
    \<and> (\<forall>k. k \<notin> key ` set xs \<longrightarrow> look t k = look s k)"
  using assms
proof (induction xs arbitrary: s us)
  case Nil
  then show ?case by (auto simp: op_simps)
next
  case (Cons x xs)
  then obtain u s' us' where x: "step x s = (Inr u, s')" and xs: "op_map step xs s' = (Inr us', t)"
    and us: "us = u # us'" by (auto simp: op_simps)
  have IH: "list_all2 (\<lambda>x u. slot x (look s' (key x)) = (Inr u, look t (key x))) xs us'"
    "\<forall>k. k \<notin> key ` set xs \<longrightarrow> look t k = look s' k"
    using Cons.IH [OF xs] Cons.prems by auto
  have "look s' (key y) = look s (key y)" if "y \<in> set xs" for y
    using Cons.prems(2) that by (intro step_Inr(2) [OF x]) (auto intro: rev_image_eqI)
  then have "list_all2 (\<lambda>x u. slot x (look s (key x)) = (Inr u, look t (key x))) xs us'"
    using IH(1) by (metis (mono_tags, lifting) list.rel_mono_strong)
  then show ?case
    using IH(2) Cons.prems(2) step_Inr [OF x] us by auto
qed

lemma map_Inr_slot:
  assumes "op_map step xs s = (Inr us, t)" and "distinct (map key xs)" and "x \<in> set xs"
  shows "\<exists>u \<in> set us. slot x (look s (key x)) = (Inr u, look t (key x))"
proof -
  obtain i where i: "i < length xs" "xs ! i = x" using assms(3) by (auto simp: in_set_conv_nth)
  then have "slot x (look s (key x)) = (Inr (us ! i), look t (key x))" "us ! i \<in> set us"
    using map_Inr [OF assms(1,2)] by (auto simp: list_all2_conv_all_nth)
  then show ?thesis by blast
qed

lemma map_Inr_other:
  assumes "op_map step xs s = (Inr us, t)" and "distinct (map key xs)" and "k \<notin> key ` set xs"
  shows "look t k = look s k"
  using map_Inr [OF assms(1,2)] assms(3) by blast

lemma map_results:
  assumes "op_map step xs s = (Inr us, t)" and "distinct (map key xs)"
    and "\<And>x u v w. x \<in> set xs \<Longrightarrow> slot x v = (Inr u, w) \<Longrightarrow> u = f x"
  shows "us = map f xs"
proof -
  have *: "length xs = length us"
    "\<And>i. i < length xs \<Longrightarrow> slot (xs ! i) (look s (key (xs ! i))) = (Inr (us ! i), look t (key (xs ! i)))"
    using map_Inr [OF assms(1,2)] by (simp_all add: list_all2_conv_all_nth)
  have "us ! i = f (xs ! i)" if "i < length xs" for i
    using assms(3) [OF _ *(2)] that by simp
  then show ?thesis using *(1) by (intro nth_equalityI) simp_all
qed

lemma map_succeeds:
  assumes "distinct (map key xs)"
    and "\<And>x. x \<in> set xs \<Longrightarrow> \<exists>u v. slot x (look s (key x)) = (Inr u, v)"
  shows "\<exists>us t. op_map step xs s = (Inr us, t)"
  using assms
proof (induction xs arbitrary: s)
  case Nil
  then show ?case by (auto simp: op_simps)
next
  case (Cons x xs)
  obtain u v where "slot x (look s (key x)) = (Inr u, v)" using Cons.prems(2) [of x] by auto
  then obtain t where x: "step x s = (Inr u, t)" using step_slot [of x s] by (cases "step x s") auto
  have "\<exists>us t'. op_map step xs t = (Inr us, t')"
  proof (rule Cons.IH)
    fix y assume y: "y \<in> set xs"
    then have "key y \<noteq> key x" using Cons.prems(1) by (auto intro: rev_image_eqI)
    then have "look t (key y) = look s (key y)" by (rule step_Inr(2) [OF x])
    then show "\<exists>u v. slot y (look t (key y)) = (Inr u, v)"
      using Cons.prems(2) y by auto
  qed (use Cons.prems in auto)
  then show ?case using x by (auto simp: op_simps)
qed

lemma map_Inl:
  assumes "op_map step xs s = (Inl e, t)" and "distinct (map key xs)"
  shows "\<exists>x \<in> set xs. \<exists>v. slot x (look s (key x)) = (Inl e, v)"
  using assms
proof (induction xs arbitrary: s)
  case Nil
  then show ?case by (auto simp: op_simps)
next
  case (Cons x xs)
  show ?case
  proof (cases "step x s")
    case (Pair r s')
    show ?thesis
    proof (cases r)
      case (Inl e')
      then show ?thesis using Cons.prems(1) Pair step_slot [of x s] by (auto simp: op_simps)
    next
      case (Inr u)
      with Pair have x: "step x s = (Inr u, s')" by simp
      then obtain y v where y: "y \<in> set xs" "slot y (look s' (key y)) = (Inl e, v)"
        using Cons.prems Cons.IH [of s'] by (auto simp: op_simps)
      then have "key y \<noteq> key x" using Cons.prems(2) by (auto intro: rev_image_eqI)
      then have "look s' (key y) = look s (key y)" by (rule step_Inr(2) [OF x])
      then show ?thesis using y by auto
    qed
  qed
qed

lemma map_frame:
  assumes "op_map step xs s = (r, t)" and "\<And>k v s. f (put k v s) = f s"
  shows "f t = f s"
proof -
  have "f v = f s" if "f u = f s" "step x u = (q, v)" for x u q v
    using step_slot [of x u] that assms(2) by auto
  then show ?thesis using op_map_invariant [OF assms(1), of "\<lambda>t. f t = f s"] by blast
qed

end

end
