(* ===== verification/Amounts.thy ===== *)
theory Amounts
  imports Prelude "HOL-Library.Signed_Division"
begin

text \<open>
  The amount types of \<open>common/src/primitives/amount\<close>: \<open>Amount\<close> over \<open>u128\<close> and \<open>SignedAmount\<close> over
  \<open>i128\<close>. Every arithmetic operation is checked and returns an option. The lemmas characterise each of
  them over the integers \<open>amt\<close> and \<open>samt\<close> that the amounts stand for: an operation succeeds exactly
  when the mathematical result is representable, and then returns it. The accounting components only
  use these characterisations.
\<close>

unbundle bit_operations_syntax

section \<open>Unsigned amounts\<close>

datatype amount = Amount (atoms: u128)

definition from_atoms :: "u128 \<Rightarrow> amount" where
  "from_atoms v = Amount v"

definition into_atoms :: "amount \<Rightarrow> u128" where
  "into_atoms a = atoms a"

definition amount_MAX :: amount where
  "amount_MAX = from_atoms (- 1)"

definition amount_ZERO :: amount where
  "amount_ZERO = from_atoms 0"

definition amount_add :: "amount \<Rightarrow> amount \<Rightarrow> amount option" where
  "amount_add a b = map_option Amount (checked_add (atoms a) (atoms b))"

definition amount_sub :: "amount \<Rightarrow> amount \<Rightarrow> amount option" where
  "amount_sub a b = map_option Amount (checked_sub (atoms a) (atoms b))"

definition amount_mul :: "amount \<Rightarrow> u128 \<Rightarrow> amount option" where
  "amount_mul a n = map_option Amount (checked_mul (atoms a) n)"

definition amount_div :: "amount \<Rightarrow> u128 \<Rightarrow> amount option" where
  "amount_div a n = map_option Amount (checked_div (atoms a) n)"

definition amount_rem :: "amount \<Rightarrow> u128 \<Rightarrow> amount option" where
  "amount_rem a n = map_option Amount (checked_rem (atoms a) n)"

definition amount_bitand :: "amount \<Rightarrow> amount \<Rightarrow> amount" where
  "amount_bitand a b = Amount (atoms a AND atoms b)"

definition amount_bitor :: "amount \<Rightarrow> amount \<Rightarrow> amount" where
  "amount_bitor a b = Amount (atoms a OR atoms b)"

definition amount_bitxor :: "amount \<Rightarrow> amount \<Rightarrow> amount" where
  "amount_bitxor a b = Amount (atoms a XOR atoms b)"

definition amount_not :: "amount \<Rightarrow> amount" where
  "amount_not a = Amount (NOT (atoms a))"

text \<open>\<open>checked_shl\<close> and \<open>checked_shr\<close> fail when the shift is at least the width; bits shifted out are lost.\<close>

definition amount_shl :: "amount \<Rightarrow> u32 \<Rightarrow> amount option" where
  "amount_shl a n = (if unat n < 128 then Some (Amount (push_bit (unat n) (atoms a))) else None)"

definition amount_shr :: "amount \<Rightarrow> u32 \<Rightarrow> amount option" where
  "amount_shr a n = (if unat n < 128 then Some (Amount (drop_bit (unat n) (atoms a))) else None)"

text \<open>\<open>Iterator::try_fold\<close> and the sum built on it.\<close>

fun amount_try_fold :: "amount \<Rightarrow> amount list \<Rightarrow> amount option" where
  "amount_try_fold acc [] = Some acc"
| "amount_try_fold acc (x # xs) =
    (case amount_add acc x of None \<Rightarrow> None | Some acc' \<Rightarrow> amount_try_fold acc' xs)"

definition amount_sum :: "amount list \<Rightarrow> amount option" where
  "amount_sum xs = amount_try_fold amount_ZERO xs"

text \<open>The macro \<open>amount_sum!\<close> with its first argument apart.\<close>

fun amount_sum_macro :: "amount option \<Rightarrow> amount list \<Rightarrow> amount option" where
  "amount_sum_macro result [] = result"
| "amount_sum_macro result (x # xs) =
    amount_sum_macro (case result of Some v \<Rightarrow> amount_add v x | None \<Rightarrow> None) xs"

section \<open>Signed amounts\<close>

text \<open>Signed division truncates towards zero; dividing the minimum by \<open>-1\<close> overflows.\<close>

definition checked_smul :: "i128 \<Rightarrow> i128 \<Rightarrow> i128 option" where
  "checked_smul a b = (if signed_range TYPE(128) (sint a * sint b) then Some (a * b) else None)"

definition checked_sdiv :: "i128 \<Rightarrow> i128 \<Rightarrow> i128 option" where
  "checked_sdiv a b = (if b \<noteq> 0 \<and> signed_range TYPE(128) (sint a sdiv sint b)
    then Some (word_of_int (sint a sdiv sint b)) else None)"

definition checked_srem :: "i128 \<Rightarrow> i128 \<Rightarrow> i128 option" where
  "checked_srem a b = (if b \<noteq> 0 \<and> signed_range TYPE(128) (sint a sdiv sint b)
    then Some (word_of_int (sint a smod sint b)) else None)"

datatype signed_amount = SignedAmount (sval: i128)

definition signed_from_atoms :: "i128 \<Rightarrow> signed_amount" where
  "signed_from_atoms v = SignedAmount v"

definition signed_ZERO :: signed_amount where
  "signed_ZERO = signed_from_atoms 0"

definition signed_MAX :: signed_amount where
  "signed_MAX = signed_from_atoms (word_of_int (2 ^ 127 - 1))"

definition signed_MIN :: signed_amount where
  "signed_MIN = signed_from_atoms (word_of_int (- (2 ^ 127)))"

definition signed_add :: "signed_amount \<Rightarrow> signed_amount \<Rightarrow> signed_amount option" where
  "signed_add a b = map_option SignedAmount (checked_sadd (sval a) (sval b))"

definition signed_sub :: "signed_amount \<Rightarrow> signed_amount \<Rightarrow> signed_amount option" where
  "signed_sub a b = map_option SignedAmount (checked_ssub (sval a) (sval b))"

definition signed_neg :: "signed_amount \<Rightarrow> signed_amount option" where
  "signed_neg a = map_option SignedAmount (checked_sneg (sval a))"

definition signed_mul :: "signed_amount \<Rightarrow> i128 \<Rightarrow> signed_amount option" where
  "signed_mul a n = map_option SignedAmount (checked_smul (sval a) n)"

definition signed_div :: "signed_amount \<Rightarrow> i128 \<Rightarrow> signed_amount option" where
  "signed_div a n = map_option SignedAmount (checked_sdiv (sval a) n)"

definition signed_rem :: "signed_amount \<Rightarrow> i128 \<Rightarrow> signed_amount option" where
  "signed_rem a n = map_option SignedAmount (checked_srem (sval a) n)"

fun signed_try_fold :: "signed_amount \<Rightarrow> signed_amount list \<Rightarrow> signed_amount option" where
  "signed_try_fold acc [] = Some acc"
| "signed_try_fold acc (x # xs) =
    (case signed_add acc x of None \<Rightarrow> None | Some acc' \<Rightarrow> signed_try_fold acc' xs)"

definition signed_sum :: "signed_amount list \<Rightarrow> signed_amount option" where
  "signed_sum xs = signed_try_fold (signed_from_atoms 0) xs"

section \<open>Conversions\<close>

text \<open>\<open>try_into\<close> between \<open>u128\<close> and \<open>i128\<close> keeps the bits and fails when the value changes.\<close>

definition into_signed :: "amount \<Rightarrow> signed_amount option" where
  "into_signed a = (if uint (atoms a) < 2 ^ 127 then Some (signed_from_atoms (atoms a)) else None)"

definition from_unsigned :: "amount \<Rightarrow> signed_amount option" where
  "from_unsigned a = (if uint (into_atoms a) < 2 ^ 127 then Some (signed_from_atoms (into_atoms a)) else None)"

definition into_unsigned :: "signed_amount \<Rightarrow> amount option" where
  "into_unsigned s = (if 0 \<le> sint (sval s) then Some (from_atoms (sval s)) else None)"

definition from_signed :: "signed_amount \<Rightarrow> amount option" where
  "from_signed s = (if 0 \<le> sint (sval s) then Some (from_atoms (sval s)) else None)"

section \<open>The integers that amounts stand for\<close>

definition amt :: "amount \<Rightarrow> int" where
  "amt a = uint (atoms a)"

definition samt :: "signed_amount \<Rightarrow> int" where
  "samt s = sint (sval s)"

abbreviation u128_range :: "int \<Rightarrow> bool" where
  "u128_range i \<equiv> 0 \<le> i \<and> i < 2 ^ 128"

abbreviation i128_range :: "int \<Rightarrow> bool" where
  "i128_range i \<equiv> - (2 ^ 127) \<le> i \<and> i < 2 ^ 127"

named_theorems amount_simps \<open>amount operations over the integers\<close>

lemma amt_range: "0 \<le> amt a" "amt a < 2 ^ 128"
  using uint_range [of "atoms a"] by (simp_all add: amt_def)

lemma samt_range: "- (2 ^ 127) \<le> samt s" "samt s < 2 ^ 127"
  using signed_range_sint [of "sval s"] by (simp_all add: samt_def signed_range_def)

lemmas amt_range_simps [simp] = amt_range [simplified]
lemmas samt_range_simps [simp] = samt_range [simplified]

lemma amt_inject [simp]: "amt a = amt b \<longleftrightarrow> a = b"
  by (cases a, cases b) (simp add: amt_def word_uint_eq_iff)

lemma samt_inject [simp]: "samt a = samt b \<longleftrightarrow> a = b"
  by (cases a, cases b) (auto simp: samt_def intro: signed_word_eqI)

lemma amt_exists: "u128_range i \<Longrightarrow> \<exists>a. amt a = i"
  by (rule exI [of _ "Amount (word_of_int i)"]) (simp add: amt_def uint_word_of_int)

lemma samt_exists: "i128_range i \<Longrightarrow> \<exists>s. samt s = i"
  by (rule exI [of _ "SignedAmount (word_of_int i)"])
    (simp add: samt_def signed_of_int signed_take_bit_int_eq_self)

lemma amt_ZERO [simp]: "amt amount_ZERO = 0"
  by (simp add: amt_def amount_ZERO_def from_atoms_def)

lemma samt_ZERO [simp]: "samt signed_ZERO = 0"
  by (simp add: samt_def signed_ZERO_def signed_from_atoms_def)

lemma amt_MAX: "amt amount_MAX = 2 ^ 128 - 1"
  by (simp add: amt_def amount_MAX_def from_atoms_def unsigned_minus_1_eq_mask mask_eq_exp_minus_1)

lemma amt_zero_iff [simp]: "amt a = 0 \<longleftrightarrow> a = amount_ZERO"
  by (metis amt_ZERO amt_inject)

lemma samt_zero_iff [simp]: "samt a = 0 \<longleftrightarrow> a = signed_ZERO"
  by (metis samt_ZERO samt_inject)

instantiation amount :: linorder
begin

definition less_eq_amount :: "amount \<Rightarrow> amount \<Rightarrow> bool" where
  "less_eq_amount a b \<longleftrightarrow> atoms a \<le> atoms b"

definition less_amount :: "amount \<Rightarrow> amount \<Rightarrow> bool" where
  "less_amount a b \<longleftrightarrow> atoms a < atoms b"

instance
  by standard (auto simp: less_eq_amount_def less_amount_def amount.expand)

end

lemma amount_le [amount_simps]: "a \<le> b \<longleftrightarrow> amt a \<le> amt b"
  by (simp add: less_eq_amount_def amt_def word_le_def)

lemma amount_less [amount_simps]: "a < b \<longleftrightarrow> amt a < amt b"
  by (simp add: less_amount_def amt_def word_less_def)

lemma amount_add_Some [amount_simps]: "amount_add a b = Some c \<longleftrightarrow> amt c = amt a + amt b"
  by (cases c) (auto simp: amount_add_def amt_def checked_simps)

lemma amount_add_None [amount_simps]: "amount_add a b = None \<longleftrightarrow> \<not> amt a + amt b < 2 ^ 128"
  by (auto simp: amount_add_def amt_def checked_simps)

lemma amount_sub_Some [amount_simps]: "amount_sub a b = Some c \<longleftrightarrow> amt c = amt a - amt b"
  by (cases c) (auto simp: amount_sub_def amt_def checked_simps)

lemma amount_sub_None [amount_simps]: "amount_sub a b = None \<longleftrightarrow> amt a < amt b"
  by (auto simp: amount_sub_def amt_def checked_simps)

lemma amount_mul_Some [amount_simps]: "amount_mul a n = Some c \<longleftrightarrow> amt c = amt a * uint n"
  by (cases c) (auto simp: amount_mul_def amt_def checked_simps)

lemma amount_div_Some [amount_simps]: "amount_div a n = Some c \<longleftrightarrow> n \<noteq> 0 \<and> amt c = amt a div uint n"
  by (cases c) (auto simp: amount_div_def amt_def checked_simps uint_0_iff)

lemma signed_add_Some [amount_simps]: "signed_add a b = Some c \<longleftrightarrow> samt c = samt a + samt b"
  by (cases c) (auto simp: signed_add_def samt_def checked_simps)

lemma signed_add_None [amount_simps]: "signed_add a b = None \<longleftrightarrow> \<not> i128_range (samt a + samt b)"
  by (auto simp: signed_add_def samt_def checked_simps signed_range_def)

lemma signed_neg_Some [amount_simps]: "signed_neg a = Some c \<longleftrightarrow> samt c = - samt a"
  by (cases c) (auto simp: signed_neg_def samt_def checked_simps)

lemma signed_neg_None [amount_simps]: "signed_neg a = None \<longleftrightarrow> \<not> i128_range (- samt a)"
  by (auto simp: signed_neg_def samt_def checked_simps signed_range_def)

lemma sint_uint_small: "uint w < 2 ^ 127 \<Longrightarrow> sint w = uint w" for w :: "128 word"
proof -
  assume "uint w < 2 ^ 127"
  moreover have "- (2 ^ 127) \<le> uint w" by (rule order_trans [of _ 0]) simp_all
  ultimately show ?thesis by (simp add: sint_uint signed_take_bit_int_eq_self)
qed

lemma sint_nonneg_uint: "0 \<le> sint w \<Longrightarrow> uint w = sint w" for w :: "128 word"
  using sint_lt [of w] by (simp add: uint_sint take_bit_int_eq_self)

lemma into_signed_Some [amount_simps]: "into_signed a = Some s \<longleftrightarrow> samt s = amt a"
proof -
  have "samt (SignedAmount (atoms a)) = amt a" if "amt a < 2 ^ 127"
    using that by (simp add: samt_def amt_def sint_uint_small)
  moreover have "amt a < 2 ^ 127" if "samt s = amt a"
    using that samt_range(2) [of s] by simp
  ultimately show ?thesis
    by (auto simp: into_signed_def signed_from_atoms_def amt_def [symmetric] simp flip: samt_inject)
qed

lemma into_signed_None [amount_simps]: "into_signed a = None \<longleftrightarrow> \<not> amt a < 2 ^ 127"
  by (auto simp: into_signed_def amt_def)

lemma into_unsigned_Some [amount_simps]: "into_unsigned s = Some a \<longleftrightarrow> amt a = samt s"
proof -
  have "amt (Amount (sval s)) = samt s" if "0 \<le> samt s"
    using that by (simp add: samt_def amt_def sint_nonneg_uint)
  moreover have "0 \<le> samt s" if "amt a = samt s"
    using that amt_range(1) [of a] by simp
  ultimately show ?thesis
    by (auto simp: into_unsigned_def from_atoms_def samt_def [symmetric] simp flip: amt_inject)
qed

lemma into_unsigned_None [amount_simps]: "into_unsigned s = None \<longleftrightarrow> samt s < 0"
  by (auto simp: into_unsigned_def samt_def)

lemma from_signed_eq: "from_signed s = into_unsigned s"
  by (simp add: from_signed_def into_unsigned_def)

lemma from_unsigned_eq: "from_unsigned a = into_signed a"
  by (simp add: from_unsigned_def into_signed_def into_atoms_def)

lemma amount_try_fold_Some:
  "amount_try_fold acc xs = Some c \<longleftrightarrow> amt c = amt acc + (\<Sum>x\<leftarrow>xs. amt x)"
proof (induction xs arbitrary: acc)
  case Nil
  then show ?case by auto
next
  case (Cons x xs)
  show ?case
  proof (cases "amount_add acc x")
    case None
    then have "\<not> amt acc + amt x < 2 ^ 128" by (simp add: amount_add_None)
    moreover have "0 \<le> (\<Sum>x\<leftarrow>xs. amt x)" by (induction xs) auto
    ultimately have "amt c \<noteq> amt acc + (\<Sum>x\<leftarrow>x # xs. amt x)" using amt_range(2) [of c] by (auto simp del: amt_range_simps)
    with None show ?thesis by simp
  next
    case (Some d)
    then have "amt d = amt acc + amt x" by (simp add: amount_simps)
    with Some show ?thesis by (simp add: Cons.IH add.assoc)
  qed
qed

lemma amount_sum_Some [amount_simps]: "amount_sum xs = Some c \<longleftrightarrow> amt c = (\<Sum>x\<leftarrow>xs. amt x)"
  by (simp add: amount_sum_def amount_try_fold_Some)

lemma signed_mul_Some: "signed_mul a n = Some c \<longleftrightarrow> samt c = samt a * sint n"
proof -
  have "sint (sval a * n) = sint (sval a) * sint n" if "signed_range TYPE(128) (sint (sval a) * sint n)"
    using that signed_take_bit_signed_range [OF that] by (simp add: sint_word_ariths(3))
  then show ?thesis
    using signed_range_sint [of "sval c"] signed_word_eqI [of "sval a * n" "sval c", where 'a = int]
    by (cases c) (auto simp: signed_mul_def checked_smul_def samt_def)
qed

text \<open>The same facts as existence statements.\<close>

lemma into_signed_exists: "amt a < 2 ^ 127 \<Longrightarrow> \<exists>s. into_signed a = Some s \<and> samt s = amt a"
  using into_signed_None [of a] into_signed_Some [of a] by (cases "into_signed a") auto

lemma into_unsigned_exists: "0 \<le> samt s \<Longrightarrow> \<exists>a. into_unsigned s = Some a \<and> amt a = samt s"
  using into_unsigned_None [of s] into_unsigned_Some [of s] by (cases "into_unsigned s") auto

lemma signed_add_exists:
  "i128_range (samt a + samt b) \<Longrightarrow> \<exists>c. signed_add a b = Some c \<and> samt c = samt a + samt b"
  using signed_add_None [of a b] signed_add_Some [of a b] by (cases "signed_add a b") auto

lemma signed_neg_exists: "i128_range (- samt a) \<Longrightarrow> \<exists>c. signed_neg a = Some c \<and> samt c = - samt a"
  using signed_neg_None [of a] signed_neg_Some [of a] by (cases "signed_neg a") auto

lemma amount_add_exists: "amt a + amt b < 2 ^ 128 \<Longrightarrow> \<exists>c. amount_add a b = Some c \<and> amt c = amt a + amt b"
  using amount_add_None [of a b] amount_add_Some [of a b] by (cases "amount_add a b") auto

lemma amount_sub_exists: "amt b \<le> amt a \<Longrightarrow> \<exists>c. amount_sub a b = Some c \<and> amt c = amt a - amt b"
  using amount_sub_None [of a b] amount_sub_Some [of a b] by (cases "amount_sub a b") auto

end
