(* ===== verification/Accounting.thy ===== *)
theory Accounting
  imports Amounts
begin

text \<open>
  The \<open>accounting\<close> crate: collections of signed amount deltas and of data deltas, with merging and undo.
  A delta collection is a map from keys to deltas; \<open>net\<close> and \<open>data_at\<close> read it as a function, and the
  lemmas show that merging is addition of amounts and composition of data deltas per key, and that the
  undo operations restore the collection exactly.
\<close>

section \<open>Errors\<close>

datatype accounting_error =
    ArithmeticErrorToUnsignedFailed
  | ArithmeticErrorToSignedFailed
  | ArithmeticErrorDeltaAdditionFailed
  | ArithmeticErrorSumToUnsignedFailed
  | ArithmeticErrorSumToSignedFailed
  | DataCreatedMultipleTimes
  | ModifyNonexistingData
  | RemoveNonexistingData
  | DeltaDataCreatedMultipleTimes
  | DeltaDataDeletedMultipleTimes
  | DeltaDataModifyAfterDelete
  | DeltaUndoNegationError
  | DeltaOverUndoApplied
  | DeltaDataMismatch

section \<open>Amount deltas\<close>

text \<open>\<open>DeltaAmountCollection<K>\<close> is a struct of one map.\<close>

type_synonym 'k delta_amounts = "('k, signed_amount) fmap"

definition combine_signed_amount_delta ::
  "signed_amount option \<Rightarrow> signed_amount \<Rightarrow> accounting_error + signed_amount" where
  "combine_signed_amount_delta lhs rhs = (case lhs of
      None \<Rightarrow> Inr rhs
    | Some v1 \<Rightarrow> ok_or ArithmeticErrorDeltaAdditionFailed (signed_add v1 rhs))"

definition merge_delta_amount_element ::
  "'k \<Rightarrow> signed_amount \<Rightarrow> ('k delta_amounts, accounting_error, unit) op" where
  "merge_delta_amount_element key other_amount =
    op_bind (op_read (\<lambda>data. combine_signed_amount_delta (fmlookup data key) other_amount)) (\<lambda>new_bal.
    if new_bal = signed_ZERO then op_modify (fmdrop key) else op_modify (fmupd key new_bal))"

definition merge_delta_amounts ::
  "'k::linorder delta_amounts \<Rightarrow> ('k delta_amounts, accounting_error, unit) op" where
  "merge_delta_amounts delta_to_apply =
    op_for_each (\<lambda>(key, other_amount). merge_delta_amount_element key other_amount)
      (sorted_list_of_fmap delta_to_apply)"

definition undo_merge_delta_amounts ::
  "'k::linorder delta_amounts \<Rightarrow> ('k delta_amounts, accounting_error, unit) op" where
  "undo_merge_delta_amounts delta_to_remove =
    op_for_each (\<lambda>(key, other_amount).
        op_bind (op_read (\<lambda>_. ok_or DeltaUndoNegationError (signed_neg other_amount))) (\<lambda>negated.
        merge_delta_amount_element key negated))
      (sorted_list_of_fmap delta_to_remove)"

definition add_unsigned :: "'k \<Rightarrow> amount \<Rightarrow> ('k delta_amounts, accounting_error, unit) op" where
  "add_unsigned i to_add =
    op_bind (op_read (\<lambda>_. ok_or ArithmeticErrorToSignedFailed (into_signed to_add))) (\<lambda>signed_amount_to_add.
    merge_delta_amount_element i signed_amount_to_add)"

definition sub_unsigned :: "'k \<Rightarrow> amount \<Rightarrow> ('k delta_amounts, accounting_error, unit) op" where
  "sub_unsigned i to_sub =
    op_bind (op_read (\<lambda>_. ok_or ArithmeticErrorToSignedFailed (into_signed to_sub))) (\<lambda>signed_amount.
    op_bind (op_read (\<lambda>_. ok_or ArithmeticErrorToSignedFailed (signed_neg signed_amount))) (\<lambda>signed_amount_to_sub.
    merge_delta_amount_element i signed_amount_to_sub))"

section \<open>Data deltas\<close>

datatype 'a data_delta = DataDelta (old: "'a option") (new: "'a option")

datatype 'a data_delta_undo = DataDeltaUndo (as_delta: "'a data_delta")

definition invert :: "'a data_delta \<Rightarrow> 'a data_delta_undo" where
  "invert d = DataDeltaUndo (DataDelta (new d) (old d))"

datatype 'a get_data_result = Present 'a | Deleted | Missing

type_synonym ('k, 'a) delta_data = "('k, 'a data_delta) fmap"

type_synonym ('k, 'a) delta_data_undo = "('k, 'a data_delta_undo) fmap"

definition get_data :: "('k, 'a) delta_data \<Rightarrow> 'k \<Rightarrow> 'a get_data_result" where
  "get_data data key = (case fmlookup data key of
      Some delta \<Rightarrow> (case new delta of None \<Rightarrow> Deleted | Some d \<Rightarrow> Present d)
    | None \<Rightarrow> Missing)"

definition combine_delta_data :: "'a data_delta \<Rightarrow> 'a data_delta \<Rightarrow> accounting_error + 'a data_delta" where
  "combine_delta_data lhs rhs =
    (if new lhs = old rhs then Inr (DataDelta (old lhs) (new rhs)) else Inl DeltaDataMismatch)"

text \<open>An occupied entry is removed before the combination is checked, so a failure loses it.\<close>

definition merge_delta_data_element ::
  "'k \<Rightarrow> 'a data_delta \<Rightarrow> (('k, 'a) delta_data, accounting_error, 'a data_delta_undo) op" where
  "merge_delta_data_element key other =
    op_bind (\<lambda>data. case fmlookup data key of
        Some e \<Rightarrow> (combine_delta_data e other, fmdrop key data)
      | None \<Rightarrow> (Inr other, data)) (\<lambda>el.
    op_bind (op_modify (fmupd key el)) (\<lambda>_.
    op_return (invert other)))"

definition merge_delta_data ::
  "('k::linorder, 'a) delta_data \<Rightarrow> (('k, 'a) delta_data, accounting_error, ('k, 'a) delta_data_undo) op" where
  "merge_delta_data other =
    op_bind (op_map (\<lambda>(key, other_pool_data).
        op_bind (merge_delta_data_element key other_pool_data) (\<lambda>undo. op_return (key, undo)))
      (sorted_list_of_fmap other)) (\<lambda>data_undo.
    op_return (fmap_of_list data_undo))"

definition undo_merge_delta_data_element ::
  "'k \<Rightarrow> 'a data_delta_undo \<Rightarrow> (('k, 'a) delta_data, accounting_error, unit) op" where
  "undo_merge_delta_data_element key undo =
    op_bind (merge_delta_data_element key (as_delta undo)) (\<lambda>_. op_return ())"

definition undo_merge_delta_data ::
  "('k::linorder, 'a) delta_data_undo \<Rightarrow> (('k, 'a) delta_data, accounting_error, unit) op" where
  "undo_merge_delta_data undo_data =
    op_for_each (\<lambda>(key, data). undo_merge_delta_data_element key data) (sorted_list_of_fmap undo_data)"

section \<open>Combining a value with a delta\<close>

fun combine_data_with_delta :: "'a option \<Rightarrow> 'a data_delta option \<Rightarrow> accounting_error + 'a option" where
  "combine_data_with_delta lhs None = Inr lhs"
| "combine_data_with_delta None (Some d) = (case (old d, new d) of
      (None, next) \<Rightarrow> Inr next
    | (Some _, None) \<Rightarrow> Inl RemoveNonexistingData
    | (Some _, Some _) \<Rightarrow> Inl ModifyNonexistingData)"
| "combine_data_with_delta (Some data) (Some d) = (case (old d, new d) of
      (None, None) \<Rightarrow> Inl DeltaDataMismatch
    | (None, Some _) \<Rightarrow> Inl DataCreatedMultipleTimes
    | (Some prev, next) \<Rightarrow> if data = prev then Inr next else Inl DeltaDataMismatch)"

definition combine_amount_delta :: "amount \<Rightarrow> signed_amount option \<Rightarrow> accounting_error + amount" where
  "combine_amount_delta lhs rhs = (case rhs of
      None \<Rightarrow> Inr lhs
    | Some v2 \<Rightarrow>
        res_bind (ok_or ArithmeticErrorToSignedFailed (into_signed lhs)) (\<lambda>v1.
        res_bind (ok_or ArithmeticErrorDeltaAdditionFailed (signed_add v1 v2)) (\<lambda>sum.
        ok_or ArithmeticErrorSumToUnsignedFailed (into_unsigned sum))))"

section \<open>Block undo\<close>

datatype block_undo_error =
    UndoAlreadyExists h256
  | MissingTxUndo h256
  | UndoAlreadyExistsForReward

record 'u block_undo =
  reward_undos :: "'u list option"
  tx_undos :: "(h256, 'u list) fmap"

section \<open>Amount deltas as integer-valued functions\<close>

text \<open>
  \<open>net c k\<close> is the amount that the collection adds at \<open>k\<close>. A collection stores no zero (\<open>wf_amounts\<close>),
  so it is determined by \<open>net\<close>.
\<close>

definition net :: "'k delta_amounts \<Rightarrow> 'k \<Rightarrow> int" where
  "net c k = (case fmlookup c k of None \<Rightarrow> 0 | Some s \<Rightarrow> samt s)"

definition wf_amounts :: "'k delta_amounts \<Rightarrow> bool" where
  "wf_amounts c \<longleftrightarrow> (\<forall>k. fmlookup c k \<noteq> Some signed_ZERO)"

definition net_slot :: "int \<Rightarrow> signed_amount option" where
  "net_slot i = (if i = 0 then None else Some (SignedAmount (word_of_int i)))"

lemma net_range: "i128_range (net c k)"
  by (auto simp: net_def split: option.splits)

lemma net_empty [simp]: "net fmempty k = 0"
  by (simp add: net_def)

lemma wf_amounts_empty [simp]: "wf_amounts fmempty"
  by (simp add: wf_amounts_def)

lemma net_fm_put [simp]:
  "i128_range i \<Longrightarrow> net (fm_put k (net_slot i) c) k' = (if k' = k then i else net c k')"
  by (auto simp: net_def net_slot_def samt_def signed_of_int signed_take_bit_int_eq_self)

lemma net_slot_samt: "net_slot (samt s) = (if s = signed_ZERO then None else Some s)"
  by (simp add: net_slot_def) (simp add: samt_def)

lemma net_slot_net: "wf_amounts c \<Longrightarrow> net_slot (net c k) = fmlookup c k"
  by (auto simp: net_def net_slot_samt wf_amounts_def split: option.splits) (simp add: net_slot_def)

lemma wf_amounts_fm_put: "wf_amounts c \<Longrightarrow> i128_range i \<Longrightarrow> wf_amounts (fm_put k (net_slot i) c)"
  by (auto simp: wf_amounts_def net_slot_def samt_def signed_of_int signed_take_bit_int_eq_self simp flip: samt_zero_iff)

lemma wf_amounts_eqI: "wf_amounts c \<Longrightarrow> wf_amounts c' \<Longrightarrow> (\<And>k. net c k = net c' k) \<Longrightarrow> c = c'"
  by (rule fmap_ext) (metis net_slot_net)

text \<open>The result of one merge step, on every branch.\<close>

lemma merge_delta_amount_element_eq:
  "merge_delta_amount_element k d c =
    (if i128_range (net c k + samt d) then (Inr (), fm_put k (net_slot (net c k + samt d)) c)
     else (Inl ArithmeticErrorDeltaAdditionFailed, c))"
proof (cases "fmlookup c k")
  case None
  then show ?thesis
    by (auto simp: merge_delta_amount_element_def op_bind_def op_read_def op_modify_def
        combine_signed_amount_delta_def net_def net_slot_samt)
next
  case (Some v)
  show ?thesis
  proof (cases "signed_add v d")
    case None
    then have "\<not> i128_range (net c k + samt d)" using Some by (simp add: net_def amount_simps)
    with None Some show ?thesis
      by (simp add: merge_delta_amount_element_def op_bind_def op_read_def combine_signed_amount_delta_def)
  next
    case (Some w)
    with \<open>fmlookup c k = Some v\<close> have "samt w = net c k + samt d"
      by (simp add: net_def amount_simps)
    with Some \<open>fmlookup c k = Some v\<close> show ?thesis
      by (auto simp: merge_delta_amount_element_def op_bind_def op_read_def op_modify_def
          combine_signed_amount_delta_def net_slot_samt simp flip: \<open>samt w = net c k + samt d\<close>)
  qed
qed

lemma merge_delta_amount_element_Inr:
  assumes "wf_amounts c"
  shows "merge_delta_amount_element k d c = (Inr u, c') \<longleftrightarrow>
    wf_amounts c' \<and> (\<forall>k'. net c' k' = net c k' + (if k' = k then samt d else 0))"
proof
  assume "merge_delta_amount_element k d c = (Inr u, c')"
  then show "wf_amounts c' \<and> (\<forall>k'. net c' k' = net c k' + (if k' = k then samt d else 0))"
    using assms by (auto simp: merge_delta_amount_element_eq wf_amounts_fm_put split: if_splits)
next
  assume *: "wf_amounts c' \<and> (\<forall>k'. net c' k' = net c k' + (if k' = k then samt d else 0))"
  then have r: "i128_range (net c k + samt d)" using net_range [of c' k] by simp
  then have "c' = fm_put k (net_slot (net c k + samt d)) c"
    using * assms by (intro wf_amounts_eqI) (auto simp: wf_amounts_fm_put)
  with r show "merge_delta_amount_element k d c = (Inr u, c')"
    by (simp add: merge_delta_amount_element_eq)
qed

definition merge_amount_slot ::
  "'k \<times> signed_amount \<Rightarrow> signed_amount option \<Rightarrow> (accounting_error + unit) \<times> signed_amount option" where
  "merge_amount_slot x v = (let n = (case v of None \<Rightarrow> 0 | Some s \<Rightarrow> samt s) + samt (snd x) in
    if i128_range n then (Inr (), net_slot n) else (Inl ArithmeticErrorDeltaAdditionFailed, v))"

definition undo_amount_slot ::
  "'k \<times> signed_amount \<Rightarrow> signed_amount option \<Rightarrow> (accounting_error + unit) \<times> signed_amount option" where
  "undo_amount_slot x v = (case signed_neg (snd x) of
      None \<Rightarrow> (Inl DeltaUndoNegationError, v)
    | Some d \<Rightarrow> merge_amount_slot (fst x, d) v)"

interpretation merge_amounts: keyed_op fmlookup fm_put fst
  "\<lambda>(key, other_amount). merge_delta_amount_element key other_amount" merge_amount_slot
  by unfold_locales
    (auto simp: merge_delta_amount_element_eq merge_amount_slot_def net_def Let_def split: option.splits)

interpretation undo_amounts: keyed_op fmlookup fm_put fst
  "\<lambda>(key, other_amount). op_bind (op_read (\<lambda>_. ok_or DeltaUndoNegationError (signed_neg other_amount)))
    (\<lambda>negated. merge_delta_amount_element key negated)" undo_amount_slot
  by unfold_locales
    (auto simp: merge_delta_amount_element_eq merge_amount_slot_def undo_amount_slot_def net_def Let_def
      op_bind_def op_read_def split: option.splits)

lemma merge_amount_slot_Inr:
  "merge_amount_slot (k, d) (fmlookup c k) = (Inr u, v) \<longleftrightarrow>
    i128_range (net c k + samt d) \<and> v = net_slot (net c k + samt d)"
  by (auto simp: merge_amount_slot_def net_def Let_def)

lemma net_no_entry: "k \<notin> fst ` set (sorted_list_of_fmap d) \<Longrightarrow> net d k = 0"
  by (auto simp: fst_sorted_list_of_fmap net_def domIff)

lemma keyed_amounts_result:
  assumes "wf_amounts c"
    and d: "\<And>k x. fmlookup d k = Some x \<Longrightarrow> fmlookup c' k = net_slot (net c k + f x) \<and> i128_range (net c k + f x)"
    and other: "\<And>k. fmlookup d k = None \<Longrightarrow> fmlookup c' k = fmlookup c k"
  shows "wf_amounts c' \<and> (\<forall>k. net c' k = net c k + (case fmlookup d k of None \<Rightarrow> 0 | Some x \<Rightarrow> f x))"
proof -
  have "fmlookup c' k \<noteq> Some signed_ZERO" for k
    using assms wf_amounts_fm_put [of c "net c k + f (the (fmlookup d k))" k]
    by (cases "fmlookup d k") (auto simp: wf_amounts_def split: if_splits)
  moreover have "net c' k = net c k + (case fmlookup d k of None \<Rightarrow> 0 | Some x \<Rightarrow> f x)" for k
    using d [of k] other [of k] net_fm_put [of "net c k + f (the (fmlookup d k))" k c k]
    by (cases "fmlookup d k") (auto simp: net_def)
  ultimately show ?thesis by (simp add: wf_amounts_def)
qed

text \<open>Merging adds the nets, and succeeds exactly when a collection with the summed nets exists.\<close>

lemma merge_delta_amounts_Inr:
  assumes "wf_amounts c"
  shows "merge_delta_amounts d c = (Inr u, c') \<longleftrightarrow> wf_amounts c' \<and> (\<forall>k. net c' k = net c k + net d k)"
    (is "?L c' \<longleftrightarrow> ?R c'")
proof -
  have LR: "?R c'" if L: "?L c'" for c'
  proof -
    obtain us where m: "op_map (\<lambda>(key, other_amount). merge_delta_amount_element key other_amount)
        (sorted_list_of_fmap d) c = (Inr us, c')"
      using L by (auto simp: merge_delta_amounts_def op_simps)
    have "fmlookup c' k = net_slot (net c k + samt x) \<and> i128_range (net c k + samt x)"
      if "fmlookup d k = Some x" for k x
      using merge_amounts.map_Inr_slot [OF m, of "(k, x)"] that by (auto simp: merge_amount_slot_Inr)
    moreover have "fmlookup c' k = fmlookup c k" if "fmlookup d k = None" for k
      using merge_amounts.map_Inr_other [OF m, of k] that by (auto simp: fst_sorted_list_of_fmap)
    ultimately show ?thesis
      using keyed_amounts_result [OF assms, of d c' samt] by (simp add: net_def [of d])
  qed
  have "?L c'" if "?R c'"
  proof -
    have "\<exists>us t. op_map (\<lambda>(key, other_amount). merge_delta_amount_element key other_amount)
        (sorted_list_of_fmap d) c = (Inr us, t)"
    proof (rule merge_amounts.map_succeeds)
      fix x assume "x \<in> set (sorted_list_of_fmap d)"
      then have "net c (fst x) + samt (snd x) = net c' (fst x)"
        using that by (simp add: net_def [of d])
      then show "\<exists>u v. merge_amount_slot x (fmlookup c (fst x)) = (Inr u, v)"
        using net_range [of c' "fst x"] merge_amount_slot_Inr [of "fst x" "snd x" c] by simp
    qed simp
    then obtain t where "?L t" by (auto simp: merge_delta_amounts_def op_simps)
    moreover from LR [OF this] that assms have "t = c'" by (intro wf_amounts_eqI) auto
    ultimately show ?thesis by simp
  qed
  with LR show ?thesis by blast
qed

lemma undo_amount_slot_Inr:
  "undo_amount_slot (k, d) (fmlookup c k) = (Inr u, v) \<longleftrightarrow>
    i128_range (- samt d) \<and> i128_range (net c k - samt d) \<and> v = net_slot (net c k - samt d)"
proof (cases "signed_neg d")
  case None
  then have "\<not> i128_range (- samt d)" by (simp add: amount_simps)
  with None show ?thesis by (auto simp: undo_amount_slot_def)
next
  case (Some e)
  then have "samt e = - samt d" by (simp add: amount_simps)
  moreover have "i128_range (samt e)" by simp
  ultimately show ?thesis using Some by (simp add: undo_amount_slot_def merge_amount_slot_Inr)
qed

lemma undo_merge_delta_amounts_Inr:
  assumes "wf_amounts c"
  shows "undo_merge_delta_amounts d c = (Inr u, c') \<longleftrightarrow>
    wf_amounts c' \<and> (\<forall>k. net c' k = net c k - net d k) \<and> (\<forall>k. i128_range (- net d k))"
    (is "?L c' \<longleftrightarrow> ?R c'")
proof -
  let ?step = "\<lambda>(key, other_amount). op_bind (op_read (\<lambda>_. ok_or DeltaUndoNegationError (signed_neg other_amount)))
    (\<lambda>negated. merge_delta_amount_element key negated)"
  have neg: "net d k = - (case fmlookup d k of None \<Rightarrow> 0 | Some x \<Rightarrow> - samt x)" for k
    by (simp add: net_def split: option.splits)
  have LR: "?R c'" if L: "?L c'" for c'
  proof -
    obtain us where m: "op_map ?step (sorted_list_of_fmap d) c = (Inr us, c')"
      using L by (auto simp: undo_merge_delta_amounts_def op_simps)
    have s: "fmlookup c' k = net_slot (net c k + - samt x) \<and> i128_range (net c k + - samt x) \<and> i128_range (- samt x)"
      if "fmlookup d k = Some x" for k x
      using undo_amounts.map_Inr_slot [OF m, of "(k, x)"] that by (auto simp: undo_amount_slot_Inr)
    moreover have "fmlookup c' k = fmlookup c k" if "fmlookup d k = None" for k
      using undo_amounts.map_Inr_other [OF m, of k] that by (auto simp: fst_sorted_list_of_fmap)
    ultimately have "wf_amounts c' \<and> (\<forall>k. net c' k = net c k - net d k)"
      using keyed_amounts_result [OF assms, of d c' "\<lambda>x. - samt x"] by (simp add: neg)
    moreover have "i128_range (- net d k)" for k
      using s [of k] by (cases "fmlookup d k") (simp_all add: net_def [of d])
    ultimately show ?thesis by simp
  qed
  have "?L c'" if "?R c'"
  proof -
    have "\<exists>us t. op_map ?step (sorted_list_of_fmap d) c = (Inr us, t)"
    proof (rule undo_amounts.map_succeeds)
      fix x assume "x \<in> set (sorted_list_of_fmap d)"
      then have x: "net d (fst x) = samt (snd x)" by (simp add: net_def [of d])
      then have "net c (fst x) - samt (snd x) = net c' (fst x)" "i128_range (- samt (snd x))"
        using that by (metis, metis)
      then show "\<exists>u v. undo_amount_slot x (fmlookup c (fst x)) = (Inr u, v)"
        using net_range [of c' "fst x"] undo_amount_slot_Inr [of "fst x" "snd x" c] by simp
    qed simp
    then obtain t where "?L t" by (auto simp: undo_merge_delta_amounts_def op_simps)
    moreover from LR [OF this] that assms have "t = c'" by (intro wf_amounts_eqI) auto
    ultimately show ?thesis by simp
  qed
  with LR show ?thesis by blast
qed

lemma add_unsigned_Inr:
  assumes "wf_amounts c"
  shows "add_unsigned k a c = (Inr u, c') \<longleftrightarrow>
    amt a < 2 ^ 127 \<and> wf_amounts c' \<and> (\<forall>k'. net c' k' = net c k' + (if k' = k then amt a else 0))"
proof (cases "into_signed a")
  case None
  then have "\<not> amt a < 2 ^ 127" by (simp add: amount_simps)
  with None show ?thesis by (auto simp: add_unsigned_def op_simps)
next
  case (Some s)
  then have "samt s = amt a" by (simp add: amount_simps)
  moreover have "samt s < 2 ^ 127" by simp
  ultimately show ?thesis
    using Some by (simp add: add_unsigned_def op_simps merge_delta_amount_element_Inr assms)
qed

lemma sub_unsigned_Inr:
  assumes "wf_amounts c"
  shows "sub_unsigned k a c = (Inr u, c') \<longleftrightarrow>
    amt a < 2 ^ 127 \<and> wf_amounts c' \<and> (\<forall>k'. net c' k' = net c k' - (if k' = k then amt a else 0))"
proof (cases "into_signed a")
  case None
  then have "\<not> amt a < 2 ^ 127" by (simp add: amount_simps)
  with None show ?thesis by (auto simp: sub_unsigned_def op_simps)
next
  case (Some s)
  then have s: "samt s = amt a" by (simp add: amount_simps)
  moreover have "samt s < 2 ^ 127" by simp
  moreover obtain n where n: "signed_neg s = Some n"
  proof (cases "signed_neg s")
    case None
    then have "\<not> i128_range (- samt s)" by (simp add: amount_simps)
    moreover have "0 \<le> amt a" "samt s < 2 ^ 127" by simp_all
    ultimately show ?thesis using s by (simp del: samt_range_simps)
  qed
  moreover have "samt n = - samt s" using n by (simp add: amount_simps)
  ultimately show ?thesis
    using Some by (auto simp: sub_unsigned_def op_simps merge_delta_amount_element_Inr assms)
qed

section \<open>Data deltas as composable changes\<close>

text \<open>
  \<open>delta_comp\<close> composes the changes of one key; \<open>composable\<close> says that the second starts where the first
  ends. Over a base map, \<open>based\<close> says that every delta starts at the base value, and \<open>data_at\<close> is the
  base map with the deltas applied.
\<close>

fun delta_comp :: "'a data_delta option \<Rightarrow> 'a data_delta option \<Rightarrow> 'a data_delta option" where
  "delta_comp None y = y"
| "delta_comp x None = x"
| "delta_comp (Some x) (Some y) = Some (DataDelta (old x) (new y))"

fun composable :: "'a data_delta option \<Rightarrow> 'a data_delta option \<Rightarrow> bool" where
  "composable (Some x) (Some y) \<longleftrightarrow> new x = old y"
| "composable _ _ \<longleftrightarrow> True"

definition based :: "('k \<Rightarrow> 'a option) \<Rightarrow> ('k, 'a) delta_data \<Rightarrow> bool" where
  "based base c \<longleftrightarrow> (\<forall>k d. fmlookup c k = Some d \<longrightarrow> old d = base k)"

definition data_at :: "('k \<Rightarrow> 'a option) \<Rightarrow> ('k, 'a) delta_data \<Rightarrow> 'k \<Rightarrow> 'a option" where
  "data_at base c k = (case fmlookup c k of None \<Rightarrow> base k | Some d \<Rightarrow> new d)"

lemma delta_comp_None_right [simp]: "delta_comp x None = x"
  by (cases x) simp_all

lemma composable_None_right [simp]: "composable x None"
  by (cases x) simp_all

lemma delta_comp_assoc: "delta_comp (delta_comp x y) z = delta_comp x (delta_comp y z)"
  by (cases x; cases y; cases z) simp_all

lemma based_empty [simp]: "based base fmempty"
  by (simp add: based_def)

lemma data_at_empty [simp]: "data_at base fmempty = base"
  by (simp add: data_at_def fun_eq_iff)

lemma get_data_at:
  "data_at base c k = (case get_data c k of Present a \<Rightarrow> Some a | Deleted \<Rightarrow> None | Missing \<Rightarrow> base k)"
  by (simp add: data_at_def get_data_def split: option.splits)

text \<open>One merge step, on every branch.\<close>

lemma merge_delta_data_element_eq:
  "merge_delta_data_element k d c =
    (if composable (fmlookup c k) (Some d) then (Inr (invert d), fm_put k (delta_comp (fmlookup c k) (Some d)) c)
     else (Inl DeltaDataMismatch, fmdrop k c))"
  by (cases "fmlookup c k")
    (auto simp: merge_delta_data_element_def op_bind_def op_modify_def op_return_def combine_delta_data_def
      intro: fmap_ext)

lemma merge_delta_data_element_Inr [op_simps]:
  "merge_delta_data_element k d c = (Inr u, c') \<longleftrightarrow> composable (fmlookup c k) (Some d) \<and> u = invert d
    \<and> c' = fm_put k (delta_comp (fmlookup c k) (Some d)) c"
  by (auto simp: merge_delta_data_element_eq)

lemma undo_merge_delta_data_element_Inr [op_simps]:
  "undo_merge_delta_data_element k u c = (Inr r, c') \<longleftrightarrow> composable (fmlookup c k) (Some (as_delta u))
    \<and> c' = fm_put k (delta_comp (fmlookup c k) (Some (as_delta u))) c"
  by (auto simp: undo_merge_delta_data_element_def op_simps)

definition merge_data_slot ::
  "'a data_delta \<Rightarrow> 'a data_delta option \<Rightarrow> (accounting_error + 'a data_delta_undo) \<times> 'a data_delta option" where
  "merge_data_slot d v = (if composable v (Some d) then (Inr (invert d), delta_comp v (Some d))
    else (Inl DeltaDataMismatch, None))"

interpretation merge_data: keyed_op fmlookup fm_put fst
  "\<lambda>(key, other_pool_data). op_bind (merge_delta_data_element key other_pool_data) (\<lambda>undo. op_return (key, undo))"
  "\<lambda>(k, d) v. case merge_data_slot d v of (r, w) \<Rightarrow> (map_ok (Pair k) r, w)"
  by unfold_locales
    (auto simp: merge_delta_data_element_eq merge_data_slot_def op_bind_def op_return_def)

interpretation undo_data: keyed_op fmlookup fm_put fst
  "\<lambda>(key, data). undo_merge_delta_data_element key data"
  "\<lambda>(k, u) v. case merge_data_slot (as_delta u) v of (r, w) \<Rightarrow> (map_ok (\<lambda>_. ()) r, w)"
  by unfold_locales
    (auto simp: merge_delta_data_element_eq undo_merge_delta_data_element_def merge_data_slot_def op_bind_def
      op_return_def)

lemma merge_delta_data_Inr:
  "merge_delta_data d c = (Inr u, c') \<longleftrightarrow>
    (\<forall>k. composable (fmlookup c k) (fmlookup d k)) \<and>
    (\<forall>k. fmlookup c' k = delta_comp (fmlookup c k) (fmlookup d k)) \<and> u = fmmap invert d"
    (is "?L u c' \<longleftrightarrow> ?R u c'")
proof -
  let ?step = "\<lambda>(key, other_pool_data).
    op_bind (merge_delta_data_element key other_pool_data) (\<lambda>undo. op_return (key, undo))"
  have LR: "?R u c'" if L: "?L u c'" for u c'
  proof -
    obtain us where m: "op_map ?step (sorted_list_of_fmap d) c = (Inr us, c')" and u: "u = fmap_of_list us"
      using L by (auto simp: merge_delta_data_def op_simps)
    have some: "composable (fmlookup c k) (Some x) \<and> fmlookup c' k = delta_comp (fmlookup c k) (Some x)"
      if "fmlookup d k = Some x" for k x
      using merge_data.map_Inr_slot [OF m, of "(k, x)"] that
      by (auto simp: merge_data_slot_def res_simps split: if_splits)
    have none: "fmlookup c' k = fmlookup c k" if "fmlookup d k = None" for k
      using merge_data.map_Inr_other [OF m, of k] that by (auto simp: fst_sorted_list_of_fmap)
    have "us = map (\<lambda>(k, d). (k, invert d)) (sorted_list_of_fmap d)"
      by (rule merge_data.map_results [OF m])
        (auto simp: merge_data_slot_def res_simps split: if_splits prod.splits)
    then have "u = fmmap invert d"
      by (intro fmap_ext) (simp add: u fmlookup_fmap_of_list map_of_map)
    then show ?thesis
      using some none by (auto simp: all_conj_distrib) (metis composable_None_right option.exhaust, metis delta_comp_None_right option.exhaust)
  qed
  have "?L u c'" if R: "?R u c'"
  proof -
    have "\<exists>us t. op_map ?step (sorted_list_of_fmap d) c = (Inr us, t)"
    proof (rule merge_data.map_succeeds)
      fix x assume "x \<in> set (sorted_list_of_fmap d)"
      then have "composable (fmlookup c (fst x)) (Some (snd x))" using R by (metis in_sorted_list_of_fmap)
      then show "\<exists>u v. (case x of (k, d) \<Rightarrow> \<lambda>v. case merge_data_slot d v of (r, w) \<Rightarrow> (map_ok (Pair k) r, w))
          (fmlookup c (fst x)) = (Inr u, v)"
        by (cases x) (simp add: merge_data_slot_def)
    qed simp
    then obtain v t where "?L v t" by (auto simp: merge_delta_data_def op_simps)
    moreover from LR [OF this] R have "t = c'" "v = u" by (auto intro: fmap_ext)
    ultimately show ?thesis by simp
  qed
  with LR show ?thesis by blast
qed

lemma undo_merge_delta_data_Inr:
  "undo_merge_delta_data u c = (Inr r, c') \<longleftrightarrow>
    (\<forall>k. composable (fmlookup c k) (map_option as_delta (fmlookup u k))) \<and>
    (\<forall>k. fmlookup c' k = delta_comp (fmlookup c k) (map_option as_delta (fmlookup u k)))"
    (is "?L c' \<longleftrightarrow> ?R c'")
proof -
  let ?step = "\<lambda>(key, data). undo_merge_delta_data_element key data"
  have LR: "?R c'" if L: "?L c'" for c'
  proof -
    obtain us where m: "op_map ?step (sorted_list_of_fmap u) c = (Inr us, c')"
      using L by (auto simp: undo_merge_delta_data_def op_simps)
    have some: "composable (fmlookup c k) (Some (as_delta x)) \<and>
        fmlookup c' k = delta_comp (fmlookup c k) (Some (as_delta x))" if "fmlookup u k = Some x" for k x
      using undo_data.map_Inr_slot [OF m, of "(k, x)"] that
      by (auto simp: merge_data_slot_def res_simps split: if_splits)
    have none: "fmlookup c' k = fmlookup c k" if "fmlookup u k = None" for k
      using undo_data.map_Inr_other [OF m, of k] that by (auto simp: fst_sorted_list_of_fmap)
    have "composable (fmlookup c k) (map_option as_delta (fmlookup u k)) \<and>
        fmlookup c' k = delta_comp (fmlookup c k) (map_option as_delta (fmlookup u k))" for k
      using some [of k] none [of k] by (cases "fmlookup u k") simp_all
    then show ?thesis by blast
  qed
  have "?L c'" if R: "?R c'"
  proof -
    have "\<exists>us t. op_map ?step (sorted_list_of_fmap u) c = (Inr us, t)"
    proof (rule undo_data.map_succeeds)
      fix x assume "x \<in> set (sorted_list_of_fmap u)"
      then have "fmlookup u (fst x) = Some (snd x)" by simp
      then have "composable (fmlookup c (fst x)) (Some (as_delta (snd x)))" using R by (metis option.map(2))
      then show "\<exists>u v. (case x of (k, u) \<Rightarrow> \<lambda>v. case merge_data_slot (as_delta u) v of
          (r, w) \<Rightarrow> (map_ok (\<lambda>_. ()) r, w)) (fmlookup c (fst x)) = (Inr u, v)"
        by (cases x) (simp add: merge_data_slot_def)
    qed simp
    then obtain t where "?L t" by (auto simp: undo_merge_delta_data_def op_simps)
    moreover from LR [OF this] R have "t = c'" by (auto intro: fmap_ext)
    ultimately show ?thesis by simp
  qed
  with LR show ?thesis by blast
qed

lemma merge_delta_data_based:
  assumes "based base c"
  shows "merge_delta_data d c = (Inr u, c') \<Longrightarrow> based (data_at base c) d \<Longrightarrow>
      based base c' \<and> data_at base c' = data_at (data_at base c) d"
    and "based (data_at base c) d \<Longrightarrow> \<exists>u c'. merge_delta_data d c = (Inr u, c')"
proof -
  assume *: "merge_delta_data d c = (Inr u, c')" "based (data_at base c) d"
  have "(\<forall>e. fmlookup c' k = Some e \<longrightarrow> old e = base k) \<and> data_at base c' k = data_at (data_at base c) d k" for k
    using * assms
    by (cases "fmlookup c k"; cases "fmlookup d k")
      (auto simp: merge_delta_data_Inr based_def data_at_def dest: spec [of _ k])
  then show "based base c' \<and> data_at base c' = data_at (data_at base c) d"
    by (auto simp: based_def fun_eq_iff)
next
  assume b: "based (data_at base c) d"
  have c: "composable (fmlookup c k) (fmlookup d k)" for k
    using b by (cases "fmlookup c k"; cases "fmlookup d k") (auto simp: based_def data_at_def)
  have "\<exists>us t. op_map (\<lambda>(key, other_pool_data).
      op_bind (merge_delta_data_element key other_pool_data) (\<lambda>undo. op_return (key, undo)))
      (sorted_list_of_fmap d) c = (Inr us, t)"
    by (rule merge_data.map_succeeds) (use c in \<open>auto simp: merge_data_slot_def split: prod.splits, metis\<close>)
  then show "\<exists>u c'. merge_delta_data d c = (Inr u, c')"
    by (auto simp: merge_delta_data_def op_simps)
qed

section \<open>Values with deltas\<close>

lemma combine_data_with_delta_Inr [res_simps]:
  "combine_data_with_delta v x = Inr r \<longleftrightarrow>
    (case x of None \<Rightarrow> r = v | Some d \<Rightarrow> old d = v \<and> r = new d)"
  by (cases v; cases x) (auto split: option.splits)

lemma combine_amount_delta_Inr [res_simps]:
  "combine_amount_delta a x = Inr b \<longleftrightarrow>
    (case x of None \<Rightarrow> b = a | Some v \<Rightarrow> amt a < 2 ^ 127 \<and> amt b < 2 ^ 127 \<and> amt b = amt a + samt v)"
proof (cases x)
  case None
  then show ?thesis by (auto simp: combine_amount_delta_def)
next
  case (Some v)
  show ?thesis
  proof (cases "into_signed a")
    case None
    then have "\<not> amt a < 2 ^ 127" by (simp add: amount_simps)
    with None Some show ?thesis by (simp add: combine_amount_delta_def)
  next
    case s: (Some s)
    then have a: "samt s = amt a" by (simp add: amount_simps)
    then have "amt a < 2 ^ 127" using samt_range(2) [of s] by simp
    show ?thesis
    proof (cases "signed_add s v")
      case None
      then have "\<not> i128_range (amt a + samt v)" by (simp add: amount_simps a)
      moreover have "0 \<le> amt b" by simp
      ultimately have "\<not> (amt b < 2 ^ 127 \<and> amt b = amt a + samt v)" by (auto simp del: amt_range_simps)
      with None Some s show ?thesis by (simp add: combine_amount_delta_def)
    next
      case t: (Some t)
      then have "samt t = amt a + samt v" by (simp add: amount_simps a)
      with t Some s \<open>amt a < 2 ^ 127\<close> samt_range(2) [of t] show ?thesis
        by (auto simp: combine_amount_delta_def res_simps into_unsigned_Some)
    qed
  qed
qed

lemmas merge_laws = merge_delta_amounts_Inr undo_merge_delta_amounts_Inr merge_delta_data_Inr
  undo_merge_delta_data_Inr

section \<open>Properties\<close>

text \<open>
  Merging amount deltas is addition of the signed amounts per key, exactly: on a collection that
  stores no zero, \<open>merge_delta_amounts\<close> returns a collection if and only if that collection stores no zero
  and adds the two amounts at every key. In particular it fails if and only if a sum leaves the \<open>i128\<close> range.
\<close>

theorem merge_delta_amounts_adds:
  "wf_amounts c \<Longrightarrow>
    merge_delta_amounts d c = (Inr u, c') \<longleftrightarrow> wf_amounts c' \<and> (\<forall>k. net c' k = net c k + net d k)"
  by (rule merge_delta_amounts_Inr)

definition sample_amounts :: "nat delta_amounts" where
  "sample_amounts = fmap_of_list [(1, SignedAmount 5), (2, SignedAmount (- 3))]"

lemma sample_amounts_wf: "wf_amounts sample_amounts"
  by (auto simp: wf_amounts_def sample_amounts_def fmlookup_fmap_of_list signed_ZERO_def signed_from_atoms_def)

lemma net_sample_amounts: "net sample_amounts k = (if k = 1 then 5 else if k = 2 then - 3 else 0)"
  by (simp add: net_def sample_amounts_def fmlookup_fmap_of_list samt_def)

theorem merge_delta_amounts_adds_witness:
  "merge_delta_amounts sample_amounts fmempty = (Inr (), sample_amounts)"
  using merge_delta_amounts_adds [of "fmempty :: nat delta_amounts" sample_amounts "()" sample_amounts]
  by (simp add: sample_amounts_wf)

text \<open>
  Undoing a merge of amount deltas restores the collection exactly, and needs no undo data: negating
  each amount is enough. The only merged delta that cannot be undone is one that holds the least \<open>i128\<close>,
  whose negation does not exist; then the undo reports an error.
\<close>

theorem undo_merge_delta_amounts_restores:
  assumes "wf_amounts c" and "merge_delta_amounts d c = (Inr u, c')"
  shows "undo_merge_delta_amounts d c' = (Inr (), c) \<longleftrightarrow> (\<forall>k. net d k \<noteq> - (2 ^ 127))"
proof -
  have *: "wf_amounts c'" "\<And>k. net c' k = net c k + net d k"
    using assms(2) by (simp_all add: merge_delta_amounts_Inr [OF assms(1)])
  have "i128_range (- net d k) \<longleftrightarrow> net d k \<noteq> - (2 ^ 127)" for k
    using net_range [of d k] by auto
  with * show ?thesis
    by (simp add: undo_merge_delta_amounts_Inr assms(1))
qed

theorem undo_merge_delta_amounts_restores_witness:
  "undo_merge_delta_amounts sample_amounts sample_amounts = (Inr (), fmempty)"
proof -
  have "merge_delta_amounts sample_amounts fmempty = (Inr (), sample_amounts)"
    by (simp add: merge_delta_amounts_Inr sample_amounts_wf)
  from undo_merge_delta_amounts_restores [OF wf_amounts_empty this] show ?thesis
    by (simp add: net_sample_amounts)
qed

text \<open>
  Data deltas refine updates of a map. If the deltas of a collection start at the values of a base map
  and those of a second collection start at the values the first leads to, then merging the second into
  the first succeeds, the result again starts at the base map, applying it is applying one after the
  other, and the undo data are the inverted deltas.
\<close>

theorem merge_delta_data_refines_composition:
  assumes "based base c" and "based (data_at base c) d"
  shows "\<exists>c'. merge_delta_data d c = (Inr (fmmap invert d), c') \<and> based base c'
    \<and> data_at base c' = data_at (data_at base c) d"
proof -
  obtain u c' where m: "merge_delta_data d c = (Inr u, c')"
    using merge_delta_data_based(2) [OF assms] by blast
  moreover from m have "u = fmmap invert d" by (simp add: merge_delta_data_Inr)
  ultimately show ?thesis using merge_delta_data_based(1) [OF assms(1) m assms(2)] by blast
qed

theorem merge_delta_data_refines_composition_witness:
  "\<exists>c'. merge_delta_data (fmap_of_list [(1::nat, DataDelta (Some ''b'') None)])
      (fmap_of_list [(1, DataDelta (Some ''a'') (Some ''b''))]) =
      (Inr (fmmap invert (fmap_of_list [(1, DataDelta (Some ''b'') None)])), c')
    \<and> data_at (\<lambda>_. Some ''a'') c' 1 = None"
proof -
  let ?c = "fmap_of_list [(1::nat, DataDelta (Some ''a'') (Some ''b''))]"
  let ?d = "fmap_of_list [(1::nat, DataDelta (Some ''b'') None)]"
  have "based (\<lambda>_. Some ''a'') ?c" "based (data_at (\<lambda>_. Some ''a'') ?c) ?d"
    by (auto simp: based_def data_at_def split: if_splits)
  from merge_delta_data_refines_composition [OF this] obtain c'
    where "merge_delta_data ?d ?c = (Inr (fmmap invert ?d), c')"
      and "data_at (\<lambda>_. Some ''a'') c' = data_at (data_at (\<lambda>_. Some ''a'') ?c) ?d" by blast
  moreover have "data_at (data_at (\<lambda>_. Some ''a'') ?c) ?d 1 = None" by (simp add: data_at_def)
  ultimately show ?thesis by metis
qed

text \<open>
  Undoing a merge of data deltas with the undo data that the merge returned succeeds, and applying the
  collection afterwards gives what it gave before the merge.
\<close>

theorem undo_merge_delta_data_restores:
  assumes "based base c" and "based (data_at base c) d" and "merge_delta_data d c = (Inr u, c')"
  shows "\<exists>c''. undo_merge_delta_data u c' = (Inr (), c'') \<and> based base c'' \<and> data_at base c'' = data_at base c"
proof -
  have u: "u = fmmap invert d" and c': "\<And>k. fmlookup c' k = delta_comp (fmlookup c k) (fmlookup d k)"
    using assms(3) by (auto simp: merge_delta_data_Inr)
  define c'' where "c'' = fmmap as_delta u"
  have "old e = data_at base c' k" if "fmlookup c'' k = Some e" for k e
    using that c' [of k] by (cases "fmlookup c k"; cases "fmlookup d k") (auto simp: data_at_def c''_def u invert_def)
  then have b: "based (data_at base c') c''" by (simp add: based_def)
  have b': "based base c'" using merge_delta_data_based(1) [OF assms(1,3,2)] by simp
  obtain v e where e: "merge_delta_data c'' c' = (Inr v, e)"
    using merge_delta_data_based(2) [OF b' b] by blast
  then have "undo_merge_delta_data u c' = (Inr (), e)"
    by (simp add: merge_delta_data_Inr undo_merge_delta_data_Inr c''_def)
  moreover have "based base e" "data_at base e = data_at (data_at base c') c''"
    using merge_delta_data_based(1) [OF b' e b] by simp_all
  moreover have "data_at (data_at base c') c'' k = data_at base c k" for k
    using c' [of k] assms(2)
    by (cases "fmlookup c k"; cases "fmlookup d k") (auto simp: data_at_def based_def c''_def u invert_def)
  ultimately show ?thesis by (auto simp: fun_eq_iff)
qed

theorem undo_merge_delta_data_restores_witness:
  "\<exists>c' c''. merge_delta_data (fmap_of_list [(1::nat, DataDelta (Some ''a'') None)]) fmempty =
      (Inr (fmmap invert (fmap_of_list [(1, DataDelta (Some ''a'') None)])), c') \<and>
    undo_merge_delta_data (fmmap invert (fmap_of_list [(1, DataDelta (Some ''a'') None)])) c' = (Inr (), c'') \<and>
    data_at (\<lambda>_. Some ''a'') c'' = (\<lambda>_. Some ''a'')"
proof -
  let ?d = "fmap_of_list [(1::nat, DataDelta (Some ''a'') None)]"
  have b: "based (data_at (\<lambda>_. Some ''a'') fmempty) ?d"
    by (auto simp: based_def fmlookup_fmap_of_list split: if_splits)
  obtain u c' where m: "merge_delta_data ?d fmempty = (Inr u, c')"
    using merge_delta_data_based(2) [OF based_empty b] by blast
  moreover from m have "u = fmmap invert ?d" by (simp only: merge_delta_data_Inr)
  moreover obtain c'' where "undo_merge_delta_data u c' = (Inr (), c'')" "data_at (\<lambda>_. Some ''a'') c'' = (\<lambda>_. Some ''a'')"
    using undo_merge_delta_data_restores [OF based_empty b m] by auto
  ultimately show ?thesis by blast
qed

end
