(* ===== verification/DeltaView.thy ===== *)
theory DeltaView
  imports Accounting
begin

text \<open>
  What the accounting components have in common: a query combines the answer of a parent with a local
  delta. \<open>query_data\<close> and \<open>query_amount\<close> are the two kinds of query; the lemmas describe how the local
  operations change them, when an operation and its undo cancel, and that merging a delta into a local
  delta is the same as stacking it on top.
\<close>

section \<open>Queries\<close>

definition query_data ::
  "'f \<Rightarrow> ('k \<Rightarrow> 'e + 'a option) \<Rightarrow> ('k, 'a) delta_data \<Rightarrow> 'k \<Rightarrow> 'f + 'a option" where
  "query_data fail q c k = (case get_data c k of
      Present x \<Rightarrow> Inr (Some x) | Deleted \<Rightarrow> Inr None | Missing \<Rightarrow> map_err (\<lambda>_. fail) (q k))"

definition query_amount ::
  "'f \<Rightarrow> (accounting_error \<Rightarrow> 'f) \<Rightarrow> ('k \<Rightarrow> 'e + amount) \<Rightarrow> 'k delta_amounts \<Rightarrow> 'k \<Rightarrow> 'f + amount" where
  "query_amount fail conv q c k = res_bind (map_err (\<lambda>_. fail) (q k)) (\<lambda>a.
    map_err conv (combine_amount_delta a (fmlookup c k)))"

lemma not_positive [simp]: "\<not> amount_ZERO < b \<longleftrightarrow> b = amount_ZERO"
  using amt_range(1) [of b] amt_zero_iff [of b] unfolding amount_less amt_ZERO by linarith

lemma positive_iff [simp]: "amount_ZERO < b \<longleftrightarrow> b \<noteq> amount_ZERO"
  using not_positive [of b] by blast

section \<open>Amounts\<close>

lemma add_sub_unsigned:
  assumes "wf_amounts c" "add_unsigned k a c = (Inr u, c')"
  shows "sub_unsigned k a c' = (Inr v, c)"
  using assms add_unsigned_Inr [OF assms(1)] by (simp add: sub_unsigned_Inr)

lemma sub_add_unsigned:
  assumes "wf_amounts c" "sub_unsigned k a c = (Inr u, c')"
  shows "add_unsigned k a c' = (Inr v, c)"
  using assms sub_unsigned_Inr [OF assms(1)] by (simp add: add_unsigned_Inr)

lemma unsigned_wf:
  "wf_amounts c \<Longrightarrow> add_unsigned k a c = (Inr u, c') \<Longrightarrow> wf_amounts c'"
  "wf_amounts c \<Longrightarrow> sub_unsigned k a c = (Inr u, c') \<Longrightarrow> wf_amounts c'"
  by (simp_all add: add_unsigned_Inr sub_unsigned_Inr)

lemma combine_amount_delta_net:
  "combine_amount_delta p (fmlookup c k) = Inr b \<longleftrightarrow>
    amt b = amt p + net c k \<and> (fmlookup c k = None \<or> amt p < 2 ^ 127 \<and> amt b < 2 ^ 127)"
  by (auto simp: combine_amount_delta_Inr net_def split: option.splits)

lemma query_amount_Inr:
  "query_amount fail conv q c k = Inr b \<longleftrightarrow> (\<exists>a. q k = Inr a \<and> amt b = amt a + net c k
    \<and> (fmlookup c k = None \<or> amt a < 2 ^ 127 \<and> amt b < 2 ^ 127))"
  by (auto simp: query_amount_def res_bind_Inr map_err_Inr combine_amount_delta_net)

lemma query_after_add:
  assumes "wf_amounts c" "query_amount fail conv q c k = Inr amount_ZERO" "add_unsigned k a c = (Inr u, c')"
  shows "query_amount fail conv q c' k = Inr a"
proof -
  obtain p where p: "q k = Inr p" "amt p + net c k = 0" "fmlookup c k = None \<or> amt p < 2 ^ 127"
    using assms(2) by (auto simp: query_amount_Inr)
  have "net c' k = net c k + amt a" "amt a < 2 ^ 127"
    using assms(3) by (simp_all add: add_unsigned_Inr assms(1))
  moreover have "amt p < 2 ^ 127" using p by (auto simp: net_def [of c])
  ultimately show ?thesis using p by (simp add: query_amount_Inr)
qed

lemma query_after_sub:
  assumes "wf_amounts c" "query_amount fail conv q c k = Inr a" "sub_unsigned k a c = (Inr u, c')"
  shows "query_amount fail conv q c' k = Inr amount_ZERO"
proof -
  obtain p where p: "q k = Inr p" "amt a = amt p + net c k" "fmlookup c k = None \<or> amt p < 2 ^ 127"
    using assms(2) by (auto simp: query_amount_Inr)
  have n: "net c' k = net c k - amt a" "amt a < 2 ^ 127"
    using assms(3) by (simp_all add: sub_unsigned_Inr assms(1))
  moreover have "amt p < 2 ^ 127" using p n by (auto simp: net_def [of c])
  ultimately show ?thesis using p by (simp add: query_amount_Inr)
qed

lemma query_unsigned_other:
  assumes "wf_amounts c" "add_unsigned k a c = (Inr u, c') \<or> sub_unsigned k a c = (Inr u, c')" "j \<noteq> k"
  shows "query_amount fail conv q c' j = query_amount fail conv q c j"
proof -
  have "wf_amounts c'" "net c' j = net c j"
    using assms by (auto simp: add_unsigned_Inr sub_unsigned_Inr)
  then have "fmlookup c' j = fmlookup c j"
    using net_slot_net [OF assms(1), of j] net_slot_net [of c' j] by simp
  then show ?thesis by (simp add: query_amount_def)
qed

section \<open>Data up to deltas without effect\<close>

text \<open>
  Undoing the first change of a key leaves a delta from a value to itself. \<open>data_sim q c c'\<close> says that
  \<open>c'\<close> is \<open>c\<close> with such deltas added, for keys where the parent \<open>q\<close> has that value.
\<close>

definition data_sim :: "('k \<Rightarrow> 'e + 'a option) \<Rightarrow> ('k, 'a) delta_data \<Rightarrow> ('k, 'a) delta_data \<Rightarrow> bool" where
  "data_sim q c c' \<longleftrightarrow> (\<forall>k. fmlookup c' k = fmlookup c k \<or>
    (fmlookup c k = None \<and> (\<exists>x. q k = Inr x \<and> fmlookup c' k = Some (DataDelta x x))))"

lemma data_sim_refl [simp]: "data_sim q c c"
  by (simp add: data_sim_def)

lemma query_data_sim: "data_sim q c c' \<Longrightarrow> query_data fail q c' = query_data fail q c"
proof (rule ext)
  fix k assume "data_sim q c c'"
  then have "fmlookup c' k = fmlookup c k \<or>
      (fmlookup c k = None \<and> (\<exists>x. q k = Inr x \<and> fmlookup c' k = Some (DataDelta x x)))"
    by (simp add: data_sim_def)
  then show "query_data fail q c' k = query_data fail q c k"
    by (auto simp: query_data_def get_data_def split: option.splits)
qed

lemma query_data_lookup:
  "query_data fail q c k = Inr x \<longleftrightarrow> (case fmlookup c k of None \<Rightarrow> q k = Inr x | Some d \<Rightarrow> new d = x)"
  by (auto simp: query_data_def get_data_def res_simps split: option.splits)

lemma query_composable:
  "query_data fail q c k = Inr x \<Longrightarrow> composable (fmlookup c k) (Some (DataDelta x y))"
  by (cases "fmlookup c k") (auto simp: query_data_lookup)

lemma query_after_merge:
  "query_data fail q (fm_put k (delta_comp (fmlookup c k) (Some (DataDelta x y))) c) k' =
    (if k' = k then Inr y else query_data fail q c k')"
  by (cases "fmlookup c k"; cases y) (auto simp: query_data_def get_data_def)

lemma data_sim_undo:
  assumes "query_data fail q c k = Inr x"
    and "data_sim q (fm_put k (delta_comp (fmlookup c k) (Some (DataDelta x y))) c) e"
  shows "composable (fmlookup e k) (Some (DataDelta y x))"
    and "data_sim q c (fm_put k (delta_comp (fmlookup e k) (Some (DataDelta y x))) e)"
proof -
  have e: "fmlookup e k = delta_comp (fmlookup c k) (Some (DataDelta x y))"
    using assms(2) by (cases "fmlookup c k") (auto simp: data_sim_def dest: spec [of _ k])
  then show "composable (fmlookup e k) (Some (DataDelta y x))"
    by (cases "fmlookup c k") auto
  have "delta_comp (fmlookup e k) (Some (DataDelta y x)) = fmlookup c k \<or>
      fmlookup c k = None \<and> q k = Inr x \<and> delta_comp (fmlookup e k) (Some (DataDelta y x)) = Some (DataDelta x x)"
  proof (cases "fmlookup c k")
    case None
    then show ?thesis using e assms(1) by (simp add: query_data_lookup)
  next
    case (Some d)
    then show ?thesis using e assms(1) by (cases d) (simp add: query_data_lookup)
  qed
  moreover have "fmlookup e k' = fmlookup c k' \<or>
      fmlookup c k' = None \<and> (\<exists>x. q k' = Inr x \<and> fmlookup e k' = Some (DataDelta x x))" if "k' \<noteq> k" for k'
    using assms(2) that by (auto simp: data_sim_def dest: spec [of _ k'])
  ultimately show "data_sim q c (fm_put k (delta_comp (fmlookup e k) (Some (DataDelta y x))) e)"
    by (auto simp: data_sim_def)
qed

section \<open>Stacked deltas\<close>

text \<open>
  A delta \<open>d\<close> over a delta \<open>c\<close> over a parent answers a query as the merged delta over the parent does,
  whenever both answer.
\<close>

lemma query_data_merge:
  assumes "merge_delta_data d c = (Inr u, c')"
  shows "query_data fail q c' k = map_err (\<lambda>_. fail) (query_data fail' (query_data fail q c) d k)"
proof -
  have "fmlookup c' k = delta_comp (fmlookup c k) (fmlookup d k)"
    using assms by (simp add: merge_delta_data_Inr)
  then show ?thesis
    by (cases "fmlookup c k"; cases "fmlookup d k")
      (auto simp: query_data_def get_data_def map_err_def split: option.splits sum.splits)
qed

lemma query_amount_merge:
  assumes "wf_amounts c" "merge_delta_amounts d c = (Inr u, c')"
    and "query_amount fail conv q c' k = Inr a"
    and "query_amount fail' conv' (query_amount fail conv q c) d k = Inr b"
  shows "a = b"
proof -
  have "net c' k = net c k + net d k"
    using assms(2) by (simp add: merge_delta_amounts_Inr assms(1))
  moreover obtain p where "q k = Inr p" "amt a = amt p + net c' k"
    using assms(3) by (auto simp: query_amount_Inr)
  moreover obtain p' where "q k = Inr p'" "amt b = amt p' + net c k + net d k"
    using assms(4) by (auto simp: query_amount_Inr)
  ultimately have "amt a = amt b" by (simp del: amt_inject)
  then show ?thesis by simp
qed

end
