(* ===== verification/Chain.thy ===== *)
theory Chain
  imports Amounts "HOL-Library.Product_Lexorder"
begin

text \<open>
  The data types of \<open>common/src/chain\<close> that the components share: identifiers, destinations, outpoints,
  output values, transaction inputs and outputs. Identifiers are 256-bit hashes, ordered as the code
  orders them (byte-wise from the most significant byte, that is numerically). Public keys and VRF keys
  are byte strings. The derived orders of the outpoints and account types, used for \<open>BTreeMap\<close> keys,
  are instances of \<open>linorder\<close>.
\<close>

section \<open>Identifiers and elementary types\<close>

type_synonym pool_id = h256
type_synonym delegation_id = h256
type_synonym token_id = h256
type_synonym order_id = h256
type_synonym tx_id = h256
type_synonym block_id = h256
type_synonym public_key = bytes
type_synonym vrf_public_key = bytes
type_synonym block_height = u64
type_synonym block_timestamp = u64

text \<open>
  Errors of the storage layer. \<open>std::io::ErrorKind\<close> is represented by a number.
\<close>

datatype recoverable = TransactionFailed | TemporarilyUnavailable | DbInit | MemMapFull | RecoverableIo nat string

datatype storage_result_error = StorageResultError recoverable

datatype per_thousand = PerThousand (per_thousand_value: "16 word")

definition per_thousand_new :: "16 word \<Rightarrow> per_thousand option" where
  "per_thousand_new value = (if value \<le> 1000 then Some (PerThousand value) else None)"

datatype account_nonce = AccountNonce (nonce_value: u64)

definition nonce_increment :: "account_nonce \<Rightarrow> account_nonce option" where
  "nonce_increment n = map_option AccountNonce (checked_add (nonce_value n) 1)"

definition nonce_decrement :: "account_nonce \<Rightarrow> account_nonce option" where
  "nonce_decrement n = map_option AccountNonce (checked_sub (nonce_value n) 1)"

datatype destination =
    AnyoneCanSpend
  | PublicKeyHash "160 word"
  | PublicKey public_key
  | ScriptHash h256
  | ClassicMultisig "160 word"

section \<open>Tokens\<close>

datatype token_total_supply = Fixed amount | Lockable | Unlimited

datatype is_token_freezable = FreezableNo | FreezableYes

datatype is_token_unfreezable = UnfreezableNo | UnfreezableYes

datatype is_token_frozen = FrozenNo is_token_freezable | FrozenYes is_token_unfreezable

definition freezable_as_bool :: "is_token_freezable \<Rightarrow> bool" where
  "freezable_as_bool f = (case f of FreezableNo \<Rightarrow> False | FreezableYes \<Rightarrow> True)"

definition unfreezable_as_bool :: "is_token_unfreezable \<Rightarrow> bool" where
  "unfreezable_as_bool f = (case f of UnfreezableNo \<Rightarrow> False | UnfreezableYes \<Rightarrow> True)"

record token_issuance_v1 =
  token_ticker :: bytes
  number_of_decimals :: u8
  iss_metadata_uri :: bytes
  iss_total_supply :: token_total_supply
  iss_authority :: destination
  iss_is_freezable :: is_token_freezable

datatype token_issuance = IssuanceV1 token_issuance_v1

record nft_metadata =
  creator :: "public_key option"
  nft_name :: bytes
  description :: bytes
  nft_ticker :: bytes
  icon_uri :: "bytes option"
  additional_metadata_uri :: "bytes option"
  media_uri :: "bytes option"
  media_hash :: bytes

datatype nft_issuance = NftV0 nft_metadata

record token_transfer =
  transfer_token_id :: token_id
  transfer_amount :: amount

record token_issuance_v0 =
  v0_token_ticker :: bytes
  v0_amount_to_issue :: amount
  v0_number_of_decimals :: u8
  v0_metadata_uri :: bytes

datatype token_data_v0 =
    TokenTransfer token_transfer
  | TokenIssuanceV0 token_issuance_v0
  | NftIssuanceV0 nft_metadata

section \<open>Outputs\<close>

datatype output_value = Coin amount | TokenV0 token_data_v0 | TokenV1 token_id amount

definition coin_amount :: "output_value \<Rightarrow> amount option" where
  "coin_amount v = (case v of Coin a \<Rightarrow> Some a | TokenV0 _ \<Rightarrow> None | TokenV1 _ _ \<Rightarrow> None)"

datatype coin_or_token_id = CoinId | TokenId token_id

definition from_output_value :: "output_value \<Rightarrow> coin_or_token_id option" where
  "from_output_value v = (case v of
      Coin _ \<Rightarrow> Some CoinId
    | TokenV0 _ \<Rightarrow> None
    | TokenV1 i _ \<Rightarrow> Some (TokenId i))"

datatype output_time_lock =
    UntilHeight block_height
  | UntilTime block_timestamp
  | ForBlockCount u64
  | ForSeconds u64

record stake_pool_data =
  pledge :: amount
  staker :: destination
  stake_vrf_public_key :: vrf_public_key
  decommission_key :: destination
  stake_margin_ratio_per_thousand :: per_thousand
  stake_cost_per_block :: amount

record hashed_timelock_contract =
  secret_hash :: "160 word"
  spend_key :: destination
  refund_timelock :: output_time_lock
  refund_key :: destination

record order_data =
  conclude_key :: destination
  ask :: output_value
  give :: output_value

datatype tx_output =
    Transfer output_value destination
  | LockThenTransfer output_value destination output_time_lock
  | Burn output_value
  | CreateStakePool pool_id stake_pool_data
  | ProduceBlockFromStake destination pool_id
  | CreateDelegationId destination pool_id
  | DelegateStaking amount delegation_id
  | IssueFungibleToken token_issuance
  | IssueNft token_id nft_issuance destination
  | DataDeposit bytes
  | Htlc output_value hashed_timelock_contract
  | AnyoneCanTake order_data

definition output_timelock :: "tx_output \<Rightarrow> output_time_lock option" where
  "output_timelock out = (case out of LockThenTransfer _ _ lock \<Rightarrow> Some lock | _ \<Rightarrow> None)"

section \<open>Inputs and transactions\<close>

datatype out_point_source_id = SourceTransaction tx_id | SourceBlockReward block_id

definition get_tx_id :: "out_point_source_id \<Rightarrow> tx_id option" where
  "get_tx_id s = (case s of SourceTransaction i \<Rightarrow> Some i | _ \<Rightarrow> None)"

datatype utxo_outpoint = UtxoOutPoint (source_id: out_point_source_id) (output_index: u32)

datatype account_type = AccDelegation delegation_id | AccToken token_id | AccOrder order_id

datatype account_spending = DelegationBalance delegation_id amount

datatype account_command =
    MintTokens token_id amount
  | UnmintTokens token_id
  | LockTokenSupply token_id
  | FreezeToken token_id is_token_unfreezable
  | UnfreezeToken token_id
  | ChangeTokenAuthority token_id destination
  | ConcludeOrder order_id
  | FillOrder order_id output_value destination
  | ChangeTokenMetadataUri token_id bytes

definition account_of_spending :: "account_spending \<Rightarrow> account_type" where
  "account_of_spending s = (case s of DelegationBalance i _ \<Rightarrow> AccDelegation i)"

definition account_of_command :: "account_command \<Rightarrow> account_type" where
  "account_of_command c = (case c of
      MintTokens i _ \<Rightarrow> AccToken i
    | UnmintTokens i \<Rightarrow> AccToken i
    | LockTokenSupply i \<Rightarrow> AccToken i
    | FreezeToken i _ \<Rightarrow> AccToken i
    | UnfreezeToken i \<Rightarrow> AccToken i
    | ChangeTokenAuthority i _ \<Rightarrow> AccToken i
    | ChangeTokenMetadataUri i _ \<Rightarrow> AccToken i
    | ConcludeOrder i \<Rightarrow> AccOrder i
    | FillOrder i _ _ \<Rightarrow> AccOrder i)"

record account_outpoint =
  acc_nonce :: account_nonce
  acc_spending :: account_spending

datatype tx_input =
    Utxo utxo_outpoint
  | Account account_outpoint
  | AccountCommand account_nonce account_command

definition utxo_outpoint_of :: "tx_input \<Rightarrow> utxo_outpoint option" where
  "utxo_outpoint_of i = (case i of Utxo outpoint \<Rightarrow> Some outpoint | Account _ \<Rightarrow> None | AccountCommand _ _ \<Rightarrow> None)"

record transaction =
  flags :: u128
  inputs :: "tx_input list"
  outputs :: "tx_output list"

definition is_replaceable :: "transaction \<Rightarrow> bool" where
  "is_replaceable tx \<longleftrightarrow> and (flags tx) 1 \<noteq> 0"

section \<open>Derived orders\<close>

text \<open>Derived \<open>Ord\<close> compares the variant first, then the fields from left to right.\<close>

definition source_id_rank :: "out_point_source_id \<Rightarrow> nat \<times> h256" where
  "source_id_rank s = (case s of SourceTransaction i \<Rightarrow> (0, i) | SourceBlockReward i \<Rightarrow> (1, i))"

definition outpoint_rank :: "utxo_outpoint \<Rightarrow> (nat \<times> h256) \<times> u32" where
  "outpoint_rank p = (source_id_rank (source_id p), output_index p)"

definition account_type_rank :: "account_type \<Rightarrow> nat \<times> h256" where
  "account_type_rank a = (case a of AccDelegation i \<Rightarrow> (0, i) | AccToken i \<Rightarrow> (1, i) | AccOrder i \<Rightarrow> (2, i))"

definition coin_or_token_rank :: "coin_or_token_id \<Rightarrow> nat \<times> h256" where
  "coin_or_token_rank c = (case c of CoinId \<Rightarrow> (0, 0) | TokenId i \<Rightarrow> (1, i))"

lemma source_id_rank_inject [simp]: "source_id_rank a = source_id_rank b \<longleftrightarrow> a = b"
  by (cases a; cases b) (auto simp: source_id_rank_def)

lemma outpoint_rank_inject [simp]: "outpoint_rank a = outpoint_rank b \<longleftrightarrow> a = b"
  by (cases a; cases b) (auto simp: outpoint_rank_def)

lemma account_type_rank_inject [simp]: "account_type_rank a = account_type_rank b \<longleftrightarrow> a = b"
  by (cases a; cases b) (auto simp: account_type_rank_def)

lemma coin_or_token_rank_inject [simp]: "coin_or_token_rank a = coin_or_token_rank b \<longleftrightarrow> a = b"
  by (cases a; cases b) (auto simp: coin_or_token_rank_def)

instantiation utxo_outpoint :: linorder
begin

definition less_eq_utxo_outpoint :: "utxo_outpoint \<Rightarrow> utxo_outpoint \<Rightarrow> bool" where
  "less_eq_utxo_outpoint a b \<longleftrightarrow> outpoint_rank a \<le> outpoint_rank b"

definition less_utxo_outpoint :: "utxo_outpoint \<Rightarrow> utxo_outpoint \<Rightarrow> bool" where
  "less_utxo_outpoint a b \<longleftrightarrow> outpoint_rank a < outpoint_rank b"

instance
  by standard (auto simp: less_eq_utxo_outpoint_def less_utxo_outpoint_def simp flip: outpoint_rank_inject)

end

instantiation account_type :: linorder
begin

definition less_eq_account_type :: "account_type \<Rightarrow> account_type \<Rightarrow> bool" where
  "less_eq_account_type a b \<longleftrightarrow> account_type_rank a \<le> account_type_rank b"

definition less_account_type :: "account_type \<Rightarrow> account_type \<Rightarrow> bool" where
  "less_account_type a b \<longleftrightarrow> account_type_rank a < account_type_rank b"

instance
  by standard (auto simp: less_eq_account_type_def less_account_type_def simp flip: account_type_rank_inject)

end

instantiation coin_or_token_id :: linorder
begin

definition less_eq_coin_or_token_id :: "coin_or_token_id \<Rightarrow> coin_or_token_id \<Rightarrow> bool" where
  "less_eq_coin_or_token_id a b \<longleftrightarrow> coin_or_token_rank a \<le> coin_or_token_rank b"

definition less_coin_or_token_id :: "coin_or_token_id \<Rightarrow> coin_or_token_id \<Rightarrow> bool" where
  "less_coin_or_token_id a b \<longleftrightarrow> coin_or_token_rank a < coin_or_token_rank b"

instance
  by standard (auto simp: less_eq_coin_or_token_id_def less_coin_or_token_id_def simp flip: coin_or_token_rank_inject)

end

end
