(* ===== verification/PoSAccounting.thy ===== *)
theory PoSAccounting
  imports DeltaView Chain
begin

text \<open>
  The \<open>pos-accounting\<close> crate without its storage: pool and delegation data, the view interface, the
  delta over a parent view with its queries, the seven accounting operations and their undo, and the
  merging of deltas (\<open>pos-accounting/src/pool\<close>). A view is a record of query functions with an error
  type of its own; a delta over a parent view is again a view. The operations act on the delta data and
  keep on failure what they changed before it.
\<close>

section \<open>Data\<close>

datatype pos_error =
    AccountingError accounting_error
  | InvariantErrorPoolBalanceAlreadyExists
  | InvariantErrorPoolDataAlreadyExists
  | AttemptedDecommissionNonexistingPoolData
  | DelegationCreationFailedPoolDoesNotExist
  | DelegationDeletionFailedIdDoesNotExist
  | DelegationDeletionFailedBalanceNonZero
  | DelegationDeletionFailedPoolsShareNonZero
  | DelegationDeletionFailedPoolStillExists
  | InvariantErrorDelegationCreationFailedIdAlreadyExists
  | DelegateToNonexistingId
  | DelegateToNonexistingPool
  | SpendingShareOfNonexistingDelegation delegation_id
  | AdditionError
  | SubError
  | DelegationBalanceAdditionError
  | DelegationBalanceSubtractionError
  | PoolBalanceAdditionError
  | PoolBalanceSubtractionError
  | DelegationSharesAdditionError
  | DelegationSharesSubtractionError
  | InvariantErrorPoolCreationReversalFailedDataNotFound
  | InvariantErrorPoolCreationReversalFailedAmountChanged
  | InvariantErrorDecommissionUndoFailedPoolBalanceAlreadyExists
  | InvariantErrorDecommissionUndoFailedPoolDataAlreadyExists
  | InvariantErrorDelegationIdUndoFailedNotFound
  | InvariantErrorDelegationIdUndoFailedDataConflict
  | InvariantErrorDelegationBalanceAdditionUndoError
  | InvariantErrorPoolBalanceAdditionUndoError
  | InvariantErrorDelegationSharesAdditionUndoError
  | InvariantErrorDelegationShareNotFound
  | PledgeValueToSignedError
  | InvariantErrorDelegationUndoFailedDataNotFound delegation_id
  | DuplicatesInDeltaAndUndo
  | IncreaseStakerRewardsOfNonexistingPool
  | StakerBalanceOverflow
  | InvariantErrorIncreasePledgeUndoFailedPoolBalanceNotFound
  | InvariantErrorIncreaseStakerRewardUndoFailedPoolBalanceNotFound
  | InvariantErrorNonZeroBalanceForNonExistingDelegation
  | ViewFail
  | StorageWrite

record pool_data =
  decommission_destination :: destination
  pledge_amount :: amount
  staker_rewards :: amount
  vrf_public_key :: vrf_public_key
  margin_ratio_per_thousand :: per_thousand
  cost_per_block :: amount

definition staker_balance :: "pool_data \<Rightarrow> pos_error + amount" where
  "staker_balance p = ok_or StakerBalanceOverflow (amount_add (pledge_amount p) (staker_rewards p))"

definition data_decommission_pool :: "pool_data \<Rightarrow> pool_data" where
  "data_decommission_pool p = p\<lparr>pledge_amount := amount_ZERO, staker_rewards := amount_ZERO\<rparr>"

definition data_increase_staker_rewards :: "pool_data \<Rightarrow> amount \<Rightarrow> pos_error + pool_data" where
  "data_increase_staker_rewards p reward =
    res_bind (ok_or StakerBalanceOverflow (amount_add (staker_rewards p) reward)) (\<lambda>r.
    Inr (p\<lparr>staker_rewards := r\<rparr>))"

definition is_decommissioned :: "pool_data \<Rightarrow> bool" where
  "is_decommissioned p \<longleftrightarrow> pledge_amount p = amount_ZERO \<and> staker_rewards p = amount_ZERO"

definition pool_data_from_stake :: "stake_pool_data \<Rightarrow> pool_data" where
  "pool_data_from_stake s = \<lparr>decommission_destination = decommission_key s, pledge_amount = pledge s,
    staker_rewards = amount_ZERO, vrf_public_key = stake_vrf_public_key s,
    margin_ratio_per_thousand = stake_margin_ratio_per_thousand s, cost_per_block = stake_cost_per_block s\<rparr>"

record delegation_data =
  spend_destination :: destination
  source_pool :: pool_id

definition delegation_data_new :: "pool_id \<Rightarrow> destination \<Rightarrow> delegation_data" where
  "delegation_data_new pool dest = \<lparr>spend_destination = dest, source_pool = pool\<rparr>"

text \<open>
  The ids of pools and delegations are hashes of an encoded outpoint and a suffix. The hash function and
  the encodings are third-party code and stay abstract.
\<close>

record id_hasher =
  hash_bytes :: "bytes \<Rightarrow> h256"
  encode_outpoint :: "utxo_outpoint \<Rightarrow> bytes"
  encode_u32 :: "u32 \<Rightarrow> bytes"

definition pool_id_preimage_suffix :: u32 where
  "pool_id_preimage_suffix = 0"

definition delegation_id_preimage_suffix :: u32 where
  "delegation_id_preimage_suffix = 1"

definition make_pool_id :: "id_hasher \<Rightarrow> utxo_outpoint \<Rightarrow> pool_id" where
  "make_pool_id h input0_outpoint =
    hash_bytes h (encode_outpoint h input0_outpoint @ encode_u32 h pool_id_preimage_suffix)"

definition make_delegation_id :: "id_hasher \<Rightarrow> utxo_outpoint \<Rightarrow> delegation_id" where
  "make_delegation_id h input0_outpoint =
    hash_bytes h (encode_outpoint h input0_outpoint @ encode_u32 h delegation_id_preimage_suffix)"

section \<open>Views and deltas\<close>

text \<open>The trait \<open>PoSAccountingView\<close>.\<close>

record 'e pos_view =
  pool_exists :: "pool_id \<Rightarrow> 'e + bool"
  get_pool_balance :: "pool_id \<Rightarrow> 'e + amount"
  get_pool_data :: "pool_id \<Rightarrow> 'e + pool_data option"
  get_pool_delegations_shares :: "pool_id \<Rightarrow> 'e + (delegation_id, amount) fmap option"
  get_delegation_balance :: "delegation_id \<Rightarrow> 'e + amount"
  get_delegation_data :: "delegation_id \<Rightarrow> 'e + delegation_data option"
  get_pool_delegation_share :: "pool_id \<Rightarrow> delegation_id \<Rightarrow> 'e + amount"

record pos_delta_data =
  pool_data :: "(pool_id, pool_data) delta_data"
  pool_balances :: "pool_id delta_amounts"
  pool_delegation_shares :: "(pool_id \<times> delegation_id) delta_amounts"
  delegation_balances :: "delegation_id delta_amounts"
  delegation_data :: "(delegation_id, delegation_data) delta_data"

definition pos_delta_data_new :: pos_delta_data where
  "pos_delta_data_new = \<lparr>pool_data = fmempty, pool_balances = fmempty, pool_delegation_shares = fmempty,
    delegation_balances = fmempty, delegation_data = fmempty\<rparr>"

record pos_merge_undo =
  pool_data_undo :: "(pool_id, pool_data) delta_data_undo"
  delegation_data_undo :: "(delegation_id, delegation_data) delta_data_undo"
  pool_balances_undo :: "pool_id delta_amounts"
  pool_delegation_shares_undo :: "(pool_id \<times> delegation_id) delta_amounts"
  delegation_balances_undo :: "delegation_id delta_amounts"

text \<open>A method of one field of the delta data, with its error converted.\<close>

abbreviation on_pool_data where
  "on_pool_data m \<equiv> op_map_err AccountingError (op_zoom pool_data (\<lambda>v. pool_data_update (\<lambda>_. v)) m)"

abbreviation on_pool_balances where
  "on_pool_balances m \<equiv>
    op_map_err AccountingError (op_zoom pool_balances (\<lambda>v. pool_balances_update (\<lambda>_. v)) m)"

abbreviation on_pool_delegation_shares where
  "on_pool_delegation_shares m \<equiv>
    op_map_err AccountingError (op_zoom pool_delegation_shares (\<lambda>v. pool_delegation_shares_update (\<lambda>_. v)) m)"

abbreviation on_delegation_balances where
  "on_delegation_balances m \<equiv>
    op_map_err AccountingError (op_zoom delegation_balances (\<lambda>v. delegation_balances_update (\<lambda>_. v)) m)"

abbreviation on_delegation_data where
  "on_delegation_data m \<equiv>
    op_map_err AccountingError (op_zoom delegation_data (\<lambda>v. delegation_data_update (\<lambda>_. v)) m)"

definition pos_merge_with_delta :: "pos_delta_data \<Rightarrow> (pos_delta_data, pos_error, pos_merge_undo) op" where
  "pos_merge_with_delta other =
    op_bind (on_pool_balances (merge_delta_amounts (pool_balances other))) (\<lambda>_.
    op_bind (on_pool_delegation_shares (merge_delta_amounts (pool_delegation_shares other))) (\<lambda>_.
    op_bind (on_delegation_balances (merge_delta_amounts (delegation_balances other))) (\<lambda>_.
    op_bind (on_pool_data (merge_delta_data (pool_data other))) (\<lambda>pool_data_undo.
    op_bind (on_delegation_data (merge_delta_data (delegation_data other))) (\<lambda>delegation_data_undo.
    op_return \<lparr>pool_data_undo = pool_data_undo, delegation_data_undo = delegation_data_undo,
      pool_balances_undo = pool_balances other,
      pool_delegation_shares_undo = pool_delegation_shares other,
      delegation_balances_undo = delegation_balances other\<rparr>)))))"

definition pos_undo_delta_merge :: "pos_merge_undo \<Rightarrow> (pos_delta_data, pos_error, unit) op" where
  "pos_undo_delta_merge undo =
    op_bind (on_pool_balances (undo_merge_delta_amounts (pool_balances_undo undo))) (\<lambda>_.
    op_bind (on_pool_delegation_shares (undo_merge_delta_amounts (pool_delegation_shares_undo undo))) (\<lambda>_.
    op_bind (on_delegation_balances (undo_merge_delta_amounts (delegation_balances_undo undo))) (\<lambda>_.
    op_bind (on_pool_data (undo_merge_delta_data (pool_data_undo undo))) (\<lambda>_.
    on_delegation_data (undo_merge_delta_data (delegation_data_undo undo))))))"

text \<open>
  Inclusive range of a \<open>BTreeMap\<close>, in key order. \<open>H256::zero()\<close> and \<open>H256::repeat_byte(0xFF)\<close> are the
  least and the greatest id.
\<close>

definition fm_range :: "'k::linorder \<Rightarrow> 'k \<Rightarrow> ('k, 'v) fmap \<Rightarrow> ('k \<times> 'v) list" where
  "fm_range lo hi m = filter (\<lambda>(k, _). lo \<le> k \<and> k \<le> hi) (sorted_list_of_fmap m)"

definition get_cached_delegations_shares ::
  "pos_delta_data \<Rightarrow> pool_id \<Rightarrow> (delegation_id, signed_amount) fmap option" where
  "get_cached_delegations_shares d pool =
    (let result = fmap_of_list (map (\<lambda>((_, del_id), v). (del_id, v))
        (fm_range (pool, 0) (pool, - 1) (pool_delegation_shares d)))
     in if result = fmempty then None else Some result)"

definition signed_to_unsigned_pair :: "delegation_id \<times> signed_amount \<Rightarrow> pos_error + delegation_id \<times> amount" where
  "signed_to_unsigned_pair = (\<lambda>(k, v).
    res_bind (ok_or (AccountingError ArithmeticErrorToUnsignedFailed) (into_unsigned v)) (\<lambda>u. Inr (k, u)))"

fun sum_maps_loop :: "('k, amount) fmap \<Rightarrow> ('k \<times> signed_amount) list \<Rightarrow> pos_error + ('k, amount) fmap" where
  "sum_maps_loop m1 [] = Inr m1"
| "sum_maps_loop m1 ((k, v) # rest) =
    (let base_value = (case fmlookup m1 k of Some pv \<Rightarrow> pv | None \<Rightarrow> from_atoms 0) in
    res_bind (ok_or (AccountingError ArithmeticErrorToUnsignedFailed) (into_signed base_value)) (\<lambda>base_amount.
    res_bind (ok_or (AccountingError ArithmeticErrorSumToSignedFailed) (signed_add base_amount v)) (\<lambda>sum.
    res_bind (ok_or (AccountingError ArithmeticErrorToUnsignedFailed) (into_unsigned sum)) (\<lambda>new_amount.
    sum_maps_loop (fmupd k new_amount m1) rest))))"

definition sum_maps ::
  "('k::linorder, amount) fmap \<Rightarrow> ('k, signed_amount) fmap \<Rightarrow> pos_error + ('k, amount) fmap" where
  "sum_maps m1 m2 = sum_maps_loop m1 (sorted_list_of_fmap m2)"

definition delta_get_pool_balance :: "'e pos_view \<Rightarrow> pos_delta_data \<Rightarrow> pool_id \<Rightarrow> pos_error + amount" where
  "delta_get_pool_balance parent d pool =
    res_bind (map_err (\<lambda>_. ViewFail) (get_pool_balance parent pool)) (\<lambda>parent_balance.
    map_err AccountingError (combine_amount_delta parent_balance (fmlookup (pool_balances d) pool)))"

definition delta_get_pool_data :: "'e pos_view \<Rightarrow> pos_delta_data \<Rightarrow> pool_id \<Rightarrow> pos_error + pool_data option" where
  "delta_get_pool_data parent d pool = (case get_data (pool_data d) pool of
      Present x \<Rightarrow> Inr (Some x)
    | Deleted \<Rightarrow> Inr None
    | Missing \<Rightarrow> map_err (\<lambda>_. ViewFail) (get_pool_data parent pool))"

definition delta_pool_exists :: "'e pos_view \<Rightarrow> pos_delta_data \<Rightarrow> pool_id \<Rightarrow> pos_error + bool" where
  "delta_pool_exists parent d pool = map_ok (\<lambda>x. x \<noteq> None) (delta_get_pool_data parent d pool)"

definition delta_get_pool_delegations_shares ::
  "'e pos_view \<Rightarrow> pos_delta_data \<Rightarrow> pool_id \<Rightarrow> pos_error + (delegation_id, amount) fmap option" where
  "delta_get_pool_delegations_shares parent d pool =
    res_bind (map_err (\<lambda>_. ViewFail) (get_pool_delegations_shares parent pool)) (\<lambda>parent_shares.
    case (parent_shares, get_cached_delegations_shares d pool) of
      (None, None) \<Rightarrow> Inr None
    | (None, Some m) \<Rightarrow>
        res_bind (res_map signed_to_unsigned_pair (sorted_list_of_fmap m)) (\<lambda>r. Inr (Some (fmap_of_list r)))
    | (Some m, None) \<Rightarrow> Inr (Some m)
    | (Some m1, Some m2) \<Rightarrow> res_bind (sum_maps m1 m2) (\<lambda>m. Inr (Some m)))"

definition delta_get_delegation_balance ::
  "'e pos_view \<Rightarrow> pos_delta_data \<Rightarrow> delegation_id \<Rightarrow> pos_error + amount" where
  "delta_get_delegation_balance parent d deleg =
    res_bind (map_err (\<lambda>_. ViewFail) (get_delegation_balance parent deleg)) (\<lambda>parent_amount.
    map_err AccountingError (combine_amount_delta parent_amount (fmlookup (delegation_balances d) deleg)))"

definition delta_get_delegation_data ::
  "'e pos_view \<Rightarrow> pos_delta_data \<Rightarrow> delegation_id \<Rightarrow> pos_error + delegation_data option" where
  "delta_get_delegation_data parent d deleg = (case get_data (delegation_data d) deleg of
      Present x \<Rightarrow> Inr (Some x)
    | Deleted \<Rightarrow> Inr None
    | Missing \<Rightarrow> map_err (\<lambda>_. ViewFail) (get_delegation_data parent deleg))"

definition delta_get_pool_delegation_share ::
  "'e pos_view \<Rightarrow> pos_delta_data \<Rightarrow> pool_id \<Rightarrow> delegation_id \<Rightarrow> pos_error + amount" where
  "delta_get_pool_delegation_share parent d pool deleg =
    res_bind (map_err (\<lambda>_. ViewFail) (get_pool_delegation_share parent pool deleg)) (\<lambda>parent_amount.
    map_err AccountingError (combine_amount_delta parent_amount (fmlookup (pool_delegation_shares d) (pool, deleg))))"

definition delta_view :: "'e pos_view \<Rightarrow> pos_delta_data \<Rightarrow> pos_error pos_view" where
  "delta_view parent d = \<lparr>pool_exists = delta_pool_exists parent d,
    get_pool_balance = delta_get_pool_balance parent d,
    get_pool_data = delta_get_pool_data parent d,
    get_pool_delegations_shares = delta_get_pool_delegations_shares parent d,
    get_delegation_balance = delta_get_delegation_balance parent d,
    get_delegation_data = delta_get_delegation_data parent d,
    get_pool_delegation_share = delta_get_pool_delegation_share parent d\<rparr>"

section \<open>Operations\<close>

datatype pos_undo =
    UndoCreatePool pool_id amount "pool_data data_delta_undo"
  | UndoDecommissionPool pool_id amount "pool_data data_delta_undo"
  | UndoCreateDelegationId delegation_id "delegation_data data_delta_undo"
  | UndoDeleteDelegationId delegation_id "delegation_data data_delta_undo"
  | UndoDelegateStaking delegation_id amount
  | UndoSpendFromShare delegation_id amount
  | UndoIncreaseStakerRewards pool_id amount "pool_data data_delta_undo"

definition create_pool :: "'e pos_view \<Rightarrow> pool_id \<Rightarrow> pool_data \<Rightarrow> (pos_delta_data, pos_error, pos_undo) op" where
  "create_pool parent pool data =
    op_bind (op_read (\<lambda>d. delta_get_pool_data parent d pool)) (\<lambda>existing.
    op_bind (op_ensure (existing = None) InvariantErrorPoolDataAlreadyExists) (\<lambda>_.
    op_bind (op_read (\<lambda>d. map_err (\<lambda>_. ViewFail) (delta_get_pool_balance parent d pool))) (\<lambda>balance.
    op_bind (op_ensure (\<not> balance > amount_ZERO) InvariantErrorPoolBalanceAlreadyExists) (\<lambda>_.
    op_bind (on_pool_balances (add_unsigned pool (pledge_amount data))) (\<lambda>_.
    op_bind (on_pool_data (merge_delta_data_element pool (DataDelta None (Some data)))) (\<lambda>data_undo.
    op_return (UndoCreatePool pool (pledge_amount data) data_undo)))))))"

definition decommission_pool :: "'e pos_view \<Rightarrow> pool_id \<Rightarrow> (pos_delta_data, pos_error, pos_undo) op" where
  "decommission_pool parent pool =
    op_bind (op_read (\<lambda>d. res_bind (delta_get_pool_data parent d pool)
      (ok_or AttemptedDecommissionNonexistingPoolData))) (\<lambda>last_data.
    op_bind (op_read (\<lambda>d. delta_get_pool_balance parent d pool)) (\<lambda>last_amount.
    op_bind (on_pool_balances (sub_unsigned pool last_amount)) (\<lambda>_.
    op_bind (on_pool_data (merge_delta_data_element pool (DataDelta (Some last_data) None))) (\<lambda>data_undo.
    op_return (UndoDecommissionPool pool last_amount data_undo)))))"

definition increase_staker_rewards ::
  "'e pos_view \<Rightarrow> pool_id \<Rightarrow> amount \<Rightarrow> (pos_delta_data, pos_error, pos_undo) op" where
  "increase_staker_rewards parent pool amount_to_add =
    op_bind (op_read (\<lambda>d. res_bind (delta_get_pool_data parent d pool)
      (ok_or IncreaseStakerRewardsOfNonexistingPool))) (\<lambda>data.
    op_bind (on_pool_balances (add_unsigned pool amount_to_add)) (\<lambda>_.
    op_bind (op_read (\<lambda>_. data_increase_staker_rewards data amount_to_add)) (\<lambda>new_data.
    op_bind (on_pool_data (merge_delta_data_element pool (DataDelta (Some data) (Some new_data)))) (\<lambda>data_undo.
    op_return (UndoIncreaseStakerRewards pool amount_to_add data_undo)))))"

definition create_delegation_id ::
  "id_hasher \<Rightarrow> 'e pos_view \<Rightarrow> pool_id \<Rightarrow> destination \<Rightarrow> utxo_outpoint
    \<Rightarrow> (pos_delta_data, pos_error, delegation_id \<times> pos_undo) op" where
  "create_delegation_id h parent target_pool spend_dest input0_outpoint =
    op_bind (op_read (\<lambda>d. delta_pool_exists parent d target_pool)) (\<lambda>pe.
    op_bind (op_ensure pe DelegationCreationFailedPoolDoesNotExist) (\<lambda>_.
    let deleg = make_delegation_id h input0_outpoint in
    op_bind (op_read (\<lambda>d. delta_get_delegation_data parent d deleg)) (\<lambda>existing.
    op_bind (op_ensure (existing = None) InvariantErrorDelegationCreationFailedIdAlreadyExists) (\<lambda>_.
    op_bind (on_delegation_data (merge_delta_data_element deleg
      (DataDelta None (Some (delegation_data_new target_pool spend_dest))))) (\<lambda>data_undo.
    op_return (deleg, UndoCreateDelegationId deleg data_undo))))))"

definition delete_delegation_id ::
  "'e pos_view \<Rightarrow> delegation_id \<Rightarrow> (pos_delta_data, pos_error, pos_undo) op" where
  "delete_delegation_id parent deleg =
    op_bind (op_read (\<lambda>d. res_bind (delta_get_delegation_data parent d deleg)
      (ok_or DelegationDeletionFailedIdDoesNotExist))) (\<lambda>data.
    op_bind (op_read (\<lambda>d. delta_get_delegation_balance parent d deleg)) (\<lambda>balance.
    op_bind (op_ensure (\<not> balance > amount_ZERO) DelegationDeletionFailedBalanceNonZero) (\<lambda>_.
    op_bind (op_read (\<lambda>d. delta_get_pool_delegation_share parent d (source_pool data) deleg)) (\<lambda>share.
    op_bind (op_ensure (\<not> share > amount_ZERO) DelegationDeletionFailedPoolsShareNonZero) (\<lambda>_.
    op_bind (op_read (\<lambda>d. delta_pool_exists parent d (source_pool data))) (\<lambda>pe.
    op_bind (op_ensure (\<not> pe) DelegationDeletionFailedPoolStillExists) (\<lambda>_.
    op_bind (on_delegation_data (merge_delta_data_element deleg (DataDelta (Some data) None))) (\<lambda>data_undo.
    op_return (UndoDeleteDelegationId deleg data_undo)))))))))"

definition delegate_staking ::
  "'e pos_view \<Rightarrow> delegation_id \<Rightarrow> amount \<Rightarrow> (pos_delta_data, pos_error, pos_undo) op" where
  "delegate_staking parent delegation_target amount_to_delegate =
    op_bind (op_read (\<lambda>d. res_bind (delta_get_delegation_data parent d delegation_target)
      (ok_or DelegateToNonexistingId))) (\<lambda>data.
    let pool = source_pool data in
    op_bind (on_delegation_balances (add_unsigned delegation_target amount_to_delegate)) (\<lambda>_.
    op_bind (on_pool_balances (add_unsigned pool amount_to_delegate)) (\<lambda>_.
    op_bind (on_pool_delegation_shares (add_unsigned (pool, delegation_target) amount_to_delegate)) (\<lambda>_.
    op_return (UndoDelegateStaking delegation_target amount_to_delegate)))))"

definition spend_share_from_delegation_id ::
  "'e pos_view \<Rightarrow> delegation_id \<Rightarrow> amount \<Rightarrow> (pos_delta_data, pos_error, pos_undo) op" where
  "spend_share_from_delegation_id parent deleg amount =
    op_bind (op_read (\<lambda>d. res_bind (delta_get_delegation_data parent d deleg)
      (ok_or (SpendingShareOfNonexistingDelegation deleg)))) (\<lambda>data.
    let pool = source_pool data in
    op_bind (on_pool_delegation_shares (sub_unsigned (pool, deleg) amount)) (\<lambda>_.
    op_bind (op_read (\<lambda>d. delta_pool_exists parent d pool)) (\<lambda>pe.
    op_bind (if pe then on_pool_balances (sub_unsigned pool amount) else op_return ()) (\<lambda>_.
    op_bind (on_delegation_balances (sub_unsigned deleg amount)) (\<lambda>_.
    op_return (UndoSpendFromShare deleg amount))))))"

section \<open>Undo\<close>

definition undo_create_pool ::
  "'e pos_view \<Rightarrow> pool_id \<Rightarrow> amount \<Rightarrow> pool_data data_delta_undo \<Rightarrow> (pos_delta_data, pos_error, unit) op" where
  "undo_create_pool parent pool pledged data_undo =
    op_bind (op_read (\<lambda>d. delta_get_pool_balance parent d pool)) (\<lambda>balance.
    op_bind (op_ensure (balance = pledged) InvariantErrorPoolCreationReversalFailedAmountChanged) (\<lambda>_.
    op_bind (on_pool_balances (sub_unsigned pool pledged)) (\<lambda>_.
    op_bind (op_read (\<lambda>d. res_bind (delta_get_pool_data parent d pool)
      (ok_or InvariantErrorPoolCreationReversalFailedDataNotFound))) (\<lambda>_.
    on_pool_data (undo_merge_delta_data_element pool data_undo)))))"

definition undo_decommission_pool ::
  "'e pos_view \<Rightarrow> pool_id \<Rightarrow> amount \<Rightarrow> pool_data data_delta_undo \<Rightarrow> (pos_delta_data, pos_error, unit) op" where
  "undo_decommission_pool parent pool pool_balance data_undo =
    op_bind (op_read (\<lambda>d. delta_get_pool_data parent d pool)) (\<lambda>existing.
    op_bind (op_ensure (existing = None) InvariantErrorDecommissionUndoFailedPoolDataAlreadyExists) (\<lambda>_.
    op_bind (op_read (\<lambda>d. delta_get_pool_balance parent d pool)) (\<lambda>balance.
    op_bind (op_ensure (\<not> balance > amount_ZERO) InvariantErrorDecommissionUndoFailedPoolBalanceAlreadyExists) (\<lambda>_.
    op_bind (on_pool_balances (add_unsigned pool pool_balance)) (\<lambda>_.
    on_pool_data (undo_merge_delta_data_element pool data_undo))))))"

definition undo_create_delegation_id ::
  "'e pos_view \<Rightarrow> delegation_id \<Rightarrow> delegation_data data_delta_undo \<Rightarrow> (pos_delta_data, pos_error, unit) op" where
  "undo_create_delegation_id parent deleg data_undo =
    op_bind (op_read (\<lambda>d. res_bind (delta_get_delegation_data parent d deleg)
      (ok_or InvariantErrorDelegationIdUndoFailedNotFound))) (\<lambda>_.
    on_delegation_data (undo_merge_delta_data_element deleg data_undo))"

definition undo_delete_delegation_id ::
  "'e pos_view \<Rightarrow> delegation_id \<Rightarrow> delegation_data data_delta_undo \<Rightarrow> (pos_delta_data, pos_error, unit) op" where
  "undo_delete_delegation_id parent deleg data_undo =
    op_bind (op_read (\<lambda>d. delta_get_delegation_balance parent d deleg)) (\<lambda>balance.
    op_bind (op_ensure (\<not> balance > amount_ZERO) DelegationDeletionFailedBalanceNonZero) (\<lambda>_.
    on_delegation_data (undo_merge_delta_data_element deleg data_undo)))"

definition undo_delegate_staking ::
  "'e pos_view \<Rightarrow> delegation_id \<Rightarrow> amount \<Rightarrow> (pos_delta_data, pos_error, unit) op" where
  "undo_delegate_staking parent delegation_target amount_to_delegate =
    op_bind (op_read (\<lambda>d. res_bind (delta_get_delegation_data parent d delegation_target)
      (ok_or (InvariantErrorDelegationUndoFailedDataNotFound delegation_target)))) (\<lambda>data.
    let pool = source_pool data in
    op_bind (on_pool_delegation_shares (sub_unsigned (pool, delegation_target) amount_to_delegate)) (\<lambda>_.
    op_bind (on_pool_balances (sub_unsigned pool amount_to_delegate)) (\<lambda>_.
    on_delegation_balances (sub_unsigned delegation_target amount_to_delegate))))"

definition undo_spend_share_from_delegation_id ::
  "'e pos_view \<Rightarrow> delegation_id \<Rightarrow> amount \<Rightarrow> (pos_delta_data, pos_error, unit) op" where
  "undo_spend_share_from_delegation_id parent deleg amount =
    op_bind (op_read (\<lambda>d. res_bind (delta_get_delegation_data parent d deleg)
      (ok_or DelegationCreationFailedPoolDoesNotExist))) (\<lambda>data.
    let pool = source_pool data in
    op_bind (on_delegation_balances (add_unsigned deleg amount)) (\<lambda>_.
    op_bind (op_read (\<lambda>d. delta_pool_exists parent d pool)) (\<lambda>pe.
    op_bind (if pe then on_pool_balances (add_unsigned pool amount) else op_return ()) (\<lambda>_.
    on_pool_delegation_shares (add_unsigned (pool, deleg) amount)))))"

definition undo_increase_staker_balance ::
  "pool_id \<Rightarrow> amount \<Rightarrow> pool_data data_delta_undo \<Rightarrow> (pos_delta_data, pos_error, unit) op" where
  "undo_increase_staker_balance pool amount_added data_undo =
    op_bind (on_pool_data (undo_merge_delta_data_element pool data_undo)) (\<lambda>_.
    on_pool_balances (sub_unsigned pool amount_added))"

definition pos_undo_op :: "'e pos_view \<Rightarrow> pos_undo \<Rightarrow> (pos_delta_data, pos_error, unit) op" where
  "pos_undo_op parent undo_data = (case undo_data of
      UndoCreatePool pool a u \<Rightarrow> undo_create_pool parent pool a u
    | UndoDecommissionPool pool a u \<Rightarrow> undo_decommission_pool parent pool a u
    | UndoCreateDelegationId deleg u \<Rightarrow> undo_create_delegation_id parent deleg u
    | UndoDeleteDelegationId deleg u \<Rightarrow> undo_delete_delegation_id parent deleg u
    | UndoDelegateStaking deleg a \<Rightarrow> undo_delegate_staking parent deleg a
    | UndoSpendFromShare deleg a \<Rightarrow> undo_spend_share_from_delegation_id parent deleg a
    | UndoIncreaseStakerRewards pool a u \<Rightarrow> undo_increase_staker_balance pool a u)"

end
