(* ===== verification/PoSUndo.thy ===== *)
theory PoSUndo
  imports PoSAccounting
begin

text \<open>
  Reversibility of the accounting operations: undoing a successful operation succeeds and restores what
  every query of the delta returns, also after any further operations have been undone first.
\<close>

named_theorems pos_defs \<open>definitions of the accounting operations\<close>

declare create_pool_def [pos_defs] decommission_pool_def [pos_defs] increase_staker_rewards_def [pos_defs]
  create_delegation_id_def [pos_defs] delete_delegation_id_def [pos_defs] delegate_staking_def [pos_defs]
  spend_share_from_delegation_id_def [pos_defs] undo_create_pool_def [pos_defs]
  undo_decommission_pool_def [pos_defs] undo_create_delegation_id_def [pos_defs]
  undo_delete_delegation_id_def [pos_defs] undo_delegate_staking_def [pos_defs]
  undo_spend_share_from_delegation_id_def [pos_defs] undo_increase_staker_balance_def [pos_defs]

definition pos_wf :: "pos_delta_data \<Rightarrow> bool" where
  "pos_wf d \<longleftrightarrow> wf_amounts (pool_balances d) \<and> wf_amounts (pool_delegation_shares d)
    \<and> wf_amounts (delegation_balances d)"

lemma pos_wf_new [simp]: "pos_wf pos_delta_data_new"
  by (simp add: pos_wf_def pos_delta_data_new_def)

section \<open>Queries of a delta\<close>

lemma delta_get_data_query:
  "delta_get_pool_data P d = query_data ViewFail (get_pool_data P) (pool_data d)"
  "delta_get_delegation_data P d = query_data ViewFail (get_delegation_data P) (delegation_data d)"
  by (simp_all add: fun_eq_iff delta_get_pool_data_def delta_get_delegation_data_def query_data_def)

lemma delta_get_amount_query:
  "delta_get_pool_balance P d = query_amount ViewFail AccountingError (get_pool_balance P) (pool_balances d)"
  "delta_get_delegation_balance P d =
    query_amount ViewFail AccountingError (get_delegation_balance P) (delegation_balances d)"
  by (simp_all add: fun_eq_iff delta_get_pool_balance_def delta_get_delegation_balance_def query_amount_def)

definition pos_sim :: "'e pos_view \<Rightarrow> pos_delta_data \<Rightarrow> pos_delta_data \<Rightarrow> bool" where
  "pos_sim P d e \<longleftrightarrow> pool_balances e = pool_balances d \<and> pool_delegation_shares e = pool_delegation_shares d
    \<and> delegation_balances e = delegation_balances d
    \<and> data_sim (get_pool_data P) (pool_data d) (pool_data e)
    \<and> data_sim (get_delegation_data P) (delegation_data d) (delegation_data e)"

lemma pos_sim_refl [simp]: "pos_sim P d d"
  by (simp add: pos_sim_def)

lemma pos_sim_queries:
  assumes "pos_sim P d e"
  shows "delta_get_pool_data P e = delta_get_pool_data P d"
    and "delta_get_delegation_data P e = delta_get_delegation_data P d"
    and "delta_get_pool_balance P e = delta_get_pool_balance P d"
    and "delta_get_delegation_balance P e = delta_get_delegation_balance P d"
    and "delta_get_pool_delegation_share P e = delta_get_pool_delegation_share P d"
    and "delta_pool_exists P e = delta_pool_exists P d"
    and "delta_get_pool_delegations_shares P e = delta_get_pool_delegations_shares P d"
  using assms
  by (auto simp: pos_sim_def delta_get_data_query query_data_sim fun_eq_iff delta_get_pool_balance_def
      delta_get_delegation_balance_def delta_get_pool_delegation_share_def delta_pool_exists_def
      delta_get_pool_delegations_shares_def get_cached_delegations_shares_def)

lemma pos_sim_view: "pos_sim P d e \<Longrightarrow> delta_view P e = delta_view P d"
  by (simp add: delta_view_def pos_sim_queries)

section \<open>Undo of one operation\<close>

lemma create_pool_Inr:
  "create_pool P p data d = (Inr u, d') \<longleftrightarrow>
    (\<exists>pb. query_data ViewFail (get_pool_data P) (pool_data d) p = Inr None
      \<and> delta_get_pool_balance P d p = Inr amount_ZERO
      \<and> add_unsigned p (pledge_amount data) (pool_balances d) = (Inr (), pb)
      \<and> d' = d\<lparr>pool_balances := pb,
          pool_data := fm_put p (delta_comp (fmlookup (pool_data d) p) (Some (DataDelta None (Some data)))) (pool_data d)\<rparr>
      \<and> u = UndoCreatePool p (pledge_amount data) (DataDeltaUndo (DataDelta (Some data) None)))"
  by (auto simp: create_pool_def op_simps res_simps delta_get_data_query invert_def query_composable)

lemma decommission_pool_Inr:
  "decommission_pool P p d = (Inr u, d') \<longleftrightarrow>
    (\<exists>data bal pb. query_data ViewFail (get_pool_data P) (pool_data d) p = Inr (Some data)
      \<and> delta_get_pool_balance P d p = Inr bal
      \<and> sub_unsigned p bal (pool_balances d) = (Inr (), pb)
      \<and> d' = d\<lparr>pool_balances := pb,
          pool_data := fm_put p (delta_comp (fmlookup (pool_data d) p) (Some (DataDelta (Some data) None))) (pool_data d)\<rparr>
      \<and> u = UndoDecommissionPool p bal (DataDeltaUndo (DataDelta None (Some data))))"
  by (auto simp: decommission_pool_def op_simps res_simps delta_get_data_query invert_def query_composable)

lemma increase_staker_rewards_Inr:
  "increase_staker_rewards P p a d = (Inr u, d') \<longleftrightarrow>
    (\<exists>data data' pb. query_data ViewFail (get_pool_data P) (pool_data d) p = Inr (Some data)
      \<and> add_unsigned p a (pool_balances d) = (Inr (), pb)
      \<and> data_increase_staker_rewards data a = Inr data'
      \<and> d' = d\<lparr>pool_balances := pb,
          pool_data := fm_put p (delta_comp (fmlookup (pool_data d) p) (Some (DataDelta (Some data) (Some data')))) (pool_data d)\<rparr>
      \<and> u = UndoIncreaseStakerRewards p a (DataDeltaUndo (DataDelta (Some data') (Some data))))"
  by (auto simp: increase_staker_rewards_def op_simps res_simps delta_get_data_query invert_def query_composable)

lemma create_delegation_id_Inr:
  "create_delegation_id h P p dest i d = (Inr (del, u), d') \<longleftrightarrow>
    delta_pool_exists P d p = Inr True
      \<and> del = make_delegation_id h i
      \<and> query_data ViewFail (get_delegation_data P) (delegation_data d) del = Inr None
      \<and> d' = d\<lparr>delegation_data := fm_put del (delta_comp (fmlookup (delegation_data d) del)
          (Some (DataDelta None (Some (delegation_data_new p dest))))) (delegation_data d)\<rparr>
      \<and> u = UndoCreateDelegationId del (DataDeltaUndo (DataDelta (Some (delegation_data_new p dest)) None))"
  by (auto simp: create_delegation_id_def Let_def op_simps res_simps delta_get_data_query invert_def query_composable)

lemma delete_delegation_id_Inr:
  "delete_delegation_id P del d = (Inr u, d') \<longleftrightarrow>
    (\<exists>data. query_data ViewFail (get_delegation_data P) (delegation_data d) del = Inr (Some data)
      \<and> delta_get_delegation_balance P d del = Inr amount_ZERO
      \<and> delta_get_pool_delegation_share P d (source_pool data) del = Inr amount_ZERO
      \<and> delta_pool_exists P d (source_pool data) = Inr False
      \<and> d' = d\<lparr>delegation_data := fm_put del (delta_comp (fmlookup (delegation_data d) del)
          (Some (DataDelta (Some data) None))) (delegation_data d)\<rparr>
      \<and> u = UndoDeleteDelegationId del (DataDeltaUndo (DataDelta None (Some data))))"
  by (auto simp: delete_delegation_id_def op_simps res_simps delta_get_data_query invert_def query_composable)

lemma delegate_staking_Inr:
  "delegate_staking P del a d = (Inr u, d') \<longleftrightarrow>
    (\<exists>data db pb sh. query_data ViewFail (get_delegation_data P) (delegation_data d) del = Inr (Some data)
      \<and> add_unsigned del a (delegation_balances d) = (Inr (), db)
      \<and> add_unsigned (source_pool data) a (pool_balances d) = (Inr (), pb)
      \<and> add_unsigned (source_pool data, del) a (pool_delegation_shares d) = (Inr (), sh)
      \<and> d' = d\<lparr>pool_balances := pb, pool_delegation_shares := sh, delegation_balances := db\<rparr>
      \<and> u = UndoDelegateStaking del a)"
  by (auto simp: delegate_staking_def Let_def op_simps res_simps delta_get_data_query)

lemma spend_share_from_delegation_id_Inr:
  "spend_share_from_delegation_id P del a d = (Inr u, d') \<longleftrightarrow>
    (\<exists>data db sh. query_data ViewFail (get_delegation_data P) (delegation_data d) del = Inr (Some data)
      \<and> sub_unsigned (source_pool data, del) a (pool_delegation_shares d) = (Inr (), sh)
      \<and> sub_unsigned del a (delegation_balances d) = (Inr (), db)
      \<and> u = UndoSpendFromShare del a
      \<and> (delta_pool_exists P d (source_pool data) = Inr False
          \<and> d' = d\<lparr>pool_delegation_shares := sh, delegation_balances := db\<rparr>
        \<or> delta_pool_exists P d (source_pool data) = Inr True
          \<and> (\<exists>pb. sub_unsigned (source_pool data) a (pool_balances d) = (Inr (), pb)
            \<and> d' = d\<lparr>pool_balances := pb, pool_delegation_shares := sh, delegation_balances := db\<rparr>)))"
  by (auto simp: spend_share_from_delegation_id_def Let_def op_simps res_simps delta_get_data_query
      delta_pool_exists_def split: if_splits)

lemma undo_create_pool_sim:
  assumes "pos_wf d" "create_pool P p data d = (Inr u, d')" "pos_sim P d' e'"
  shows "\<exists>e. pos_undo_op P u e' = (Inr (), e) \<and> pos_sim P d e"
proof -
  obtain pb where q: "query_data ViewFail (get_pool_data P) (pool_data d) p = Inr None"
    and b: "delta_get_pool_balance P d p = Inr amount_ZERO"
    and a: "add_unsigned p (pledge_amount data) (pool_balances d) = (Inr (), pb)"
    and d': "d' = d\<lparr>pool_balances := pb, pool_data :=
      fm_put p (delta_comp (fmlookup (pool_data d) p) (Some (DataDelta None (Some data)))) (pool_data d)\<rparr>"
    and u: "u = UndoCreatePool p (pledge_amount data) (DataDeltaUndo (DataDelta (Some data) None))"
    using assms(2) by (auto simp: create_pool_Inr)
  have wf: "wf_amounts (pool_balances d)" using assms(1) by (simp add: pos_wf_def)
  have "delta_get_pool_balance P e' p = Inr (pledge_amount data)"
    using query_after_add [OF wf b [unfolded delta_get_amount_query] a] pos_sim_queries(3) [OF assms(3)]
    by (simp add: delta_get_amount_query d')
  moreover have "delta_get_pool_data P e' p = Inr (Some data)"
    using pos_sim_queries(1) [OF assms(3)] by (simp add: delta_get_data_query d' query_after_merge)
  moreover have s: "pool_balances e' = pb"
    "data_sim (get_pool_data P) (fm_put p (delta_comp (fmlookup (pool_data d) p)
      (Some (DataDelta None (Some data)))) (pool_data d)) (pool_data e')"
    using assms(3) by (simp_all add: pos_sim_def d')
  note data_sim_undo [OF q s(2)] add_sub_unsigned [OF wf a]
  ultimately show ?thesis
    using assms(3)
    by (simp add: u pos_undo_op_def undo_create_pool_def op_simps res_simps d' pos_sim_def delta_get_data_query)
qed

lemma undo_decommission_pool_sim:
  assumes "pos_wf d" "decommission_pool P p d = (Inr u, d')" "pos_sim P d' e'"
  shows "\<exists>e. pos_undo_op P u e' = (Inr (), e) \<and> pos_sim P d e"
proof -
  obtain data bal pb where q: "query_data ViewFail (get_pool_data P) (pool_data d) p = Inr (Some data)"
    and b: "delta_get_pool_balance P d p = Inr bal"
    and a: "sub_unsigned p bal (pool_balances d) = (Inr (), pb)"
    and d': "d' = d\<lparr>pool_balances := pb, pool_data :=
      fm_put p (delta_comp (fmlookup (pool_data d) p) (Some (DataDelta (Some data) None))) (pool_data d)\<rparr>"
    and u: "u = UndoDecommissionPool p bal (DataDeltaUndo (DataDelta None (Some data)))"
    using assms(2) by (auto simp: decommission_pool_Inr)
  have wf: "wf_amounts (pool_balances d)" using assms(1) by (simp add: pos_wf_def)
  have "delta_get_pool_balance P e' p = Inr amount_ZERO"
    using query_after_sub [OF wf b [unfolded delta_get_amount_query] a] pos_sim_queries(3) [OF assms(3)]
    by (simp add: delta_get_amount_query d')
  moreover have "delta_get_pool_data P e' p = Inr None"
    using pos_sim_queries(1) [OF assms(3)] by (simp add: delta_get_data_query d' query_after_merge)
  moreover have s: "pool_balances e' = pb"
    "data_sim (get_pool_data P) (fm_put p (delta_comp (fmlookup (pool_data d) p)
      (Some (DataDelta (Some data) None))) (pool_data d)) (pool_data e')"
    using assms(3) by (simp_all add: pos_sim_def d')
  note data_sim_undo [OF q s(2)] sub_add_unsigned [OF wf a]
  ultimately show ?thesis
    using assms(3)
    by (simp add: u pos_undo_op_def undo_decommission_pool_def op_simps res_simps d' pos_sim_def delta_get_data_query)
qed

lemma undo_increase_staker_rewards_sim:
  assumes "pos_wf d" "increase_staker_rewards P p a d = (Inr u, d')" "pos_sim P d' e'"
  shows "\<exists>e. pos_undo_op P u e' = (Inr (), e) \<and> pos_sim P d e"
proof -
  obtain data data' pb where q: "query_data ViewFail (get_pool_data P) (pool_data d) p = Inr (Some data)"
    and a: "add_unsigned p a (pool_balances d) = (Inr (), pb)"
    and d': "d' = d\<lparr>pool_balances := pb, pool_data := fm_put p (delta_comp (fmlookup (pool_data d) p)
      (Some (DataDelta (Some data) (Some data')))) (pool_data d)\<rparr>"
    and u: "u = UndoIncreaseStakerRewards p a (DataDeltaUndo (DataDelta (Some data') (Some data)))"
    using assms(2) by (auto simp: increase_staker_rewards_Inr)
  have wf: "wf_amounts (pool_balances d)" using assms(1) by (simp add: pos_wf_def)
  have s: "pool_balances e' = pb"
    "data_sim (get_pool_data P) (fm_put p (delta_comp (fmlookup (pool_data d) p)
      (Some (DataDelta (Some data) (Some data')))) (pool_data d)) (pool_data e')"
    using assms(3) by (simp_all add: pos_sim_def d')
  note data_sim_undo [OF q s(2)] add_sub_unsigned [OF wf a]
  then show ?thesis
    using assms(3) s
    by (simp add: u pos_undo_op_def undo_increase_staker_balance_def op_simps res_simps d' pos_sim_def)
qed

lemma undo_create_delegation_id_sim:
  assumes "create_delegation_id h P p dest i d = (Inr (del, u), d')" "pos_sim P d' e'"
  shows "\<exists>e. pos_undo_op P u e' = (Inr (), e) \<and> pos_sim P d e"
proof -
  let ?x = "Some (DataDelta None (Some (delegation_data_new p dest)))"
  have q: "query_data ViewFail (get_delegation_data P) (delegation_data d) del = Inr None"
    and d': "d' = d\<lparr>delegation_data := fm_put del (delta_comp (fmlookup (delegation_data d) del) ?x) (delegation_data d)\<rparr>"
    and u: "u = UndoCreateDelegationId del (DataDeltaUndo (DataDelta (Some (delegation_data_new p dest)) None))"
    using assms(1) by (auto simp: create_delegation_id_Inr)
  have "delta_get_delegation_data P e' del = Inr (Some (delegation_data_new p dest))"
    using pos_sim_queries(2) [OF assms(2)] by (simp add: delta_get_data_query d' query_after_merge)
  moreover have s: "data_sim (get_delegation_data P) (fm_put del (delta_comp (fmlookup (delegation_data d) del) ?x)
      (delegation_data d)) (delegation_data e')"
    using assms(2) by (simp_all add: pos_sim_def d')
  note data_sim_undo [OF q s]
  ultimately show ?thesis
    using assms(2)
    by (simp add: u pos_undo_op_def undo_create_delegation_id_def op_simps res_simps d' pos_sim_def delta_get_data_query)
qed

lemma undo_delete_delegation_id_sim:
  assumes "delete_delegation_id P del d = (Inr u, d')" "pos_sim P d' e'"
  shows "\<exists>e. pos_undo_op P u e' = (Inr (), e) \<and> pos_sim P d e"
proof -
  obtain data where q: "query_data ViewFail (get_delegation_data P) (delegation_data d) del = Inr (Some data)"
    and b: "delta_get_delegation_balance P d del = Inr amount_ZERO"
    and d': "d' = d\<lparr>delegation_data := fm_put del (delta_comp (fmlookup (delegation_data d) del)
      (Some (DataDelta (Some data) None))) (delegation_data d)\<rparr>"
    and u: "u = UndoDeleteDelegationId del (DataDeltaUndo (DataDelta None (Some data)))"
    using assms(1) by (auto simp: delete_delegation_id_Inr)
  have "delta_get_delegation_balance P e' del = Inr amount_ZERO"
    using b pos_sim_queries(4) [OF assms(2)] by (simp add: delta_get_delegation_balance_def d')
  moreover have s: "data_sim (get_delegation_data P) (fm_put del (delta_comp (fmlookup (delegation_data d) del)
      (Some (DataDelta (Some data) None))) (delegation_data d)) (delegation_data e')"
    using assms(2) by (simp_all add: pos_sim_def d')
  note data_sim_undo [OF q s]
  ultimately show ?thesis
    using assms(2)
    by (simp add: u pos_undo_op_def undo_delete_delegation_id_def op_simps res_simps d' pos_sim_def)
qed

lemma undo_delegate_staking_sim:
  assumes "pos_wf d" "delegate_staking P del a d = (Inr u, d')" "pos_sim P d' e'"
  shows "\<exists>e. pos_undo_op P u e' = (Inr (), e) \<and> pos_sim P d e"
proof -
  obtain data db pb sh where q: "query_data ViewFail (get_delegation_data P) (delegation_data d) del = Inr (Some data)"
    and a: "add_unsigned del a (delegation_balances d) = (Inr (), db)"
      "add_unsigned (source_pool data) a (pool_balances d) = (Inr (), pb)"
      "add_unsigned (source_pool data, del) a (pool_delegation_shares d) = (Inr (), sh)"
    and d': "d' = d\<lparr>pool_balances := pb, pool_delegation_shares := sh, delegation_balances := db\<rparr>"
    and u: "u = UndoDelegateStaking del a"
    using assms(2) by (auto simp: delegate_staking_Inr)
  have "delta_get_delegation_data P e' del = Inr (Some data)"
    using pos_sim_queries(2) [OF assms(3)] q by (simp add: delta_get_data_query d')
  moreover note add_sub_unsigned [OF _ a(1)] add_sub_unsigned [OF _ a(2)] add_sub_unsigned [OF _ a(3)]
  ultimately show ?thesis
    using assms(1,3)
    by (simp add: u pos_undo_op_def undo_delegate_staking_def Let_def op_simps res_simps d' pos_sim_def pos_wf_def)
qed

lemma undo_spend_share_sim:
  assumes "pos_wf d" "spend_share_from_delegation_id P del a d = (Inr u, d')" "pos_sim P d' e'"
  shows "\<exists>e. pos_undo_op P u e' = (Inr (), e) \<and> pos_sim P d e"
proof -
  obtain data db sh where q: "query_data ViewFail (get_delegation_data P) (delegation_data d) del = Inr (Some data)"
    and a: "sub_unsigned (source_pool data, del) a (pool_delegation_shares d) = (Inr (), sh)"
      "sub_unsigned del a (delegation_balances d) = (Inr (), db)"
    and u: "u = UndoSpendFromShare del a"
    and c: "(delta_pool_exists P d (source_pool data) = Inr False
          \<and> d' = d\<lparr>pool_delegation_shares := sh, delegation_balances := db\<rparr>)
        \<or> (delta_pool_exists P d (source_pool data) = Inr True
          \<and> (\<exists>pb. sub_unsigned (source_pool data) a (pool_balances d) = (Inr (), pb)
            \<and> d' = d\<lparr>pool_balances := pb, pool_delegation_shares := sh, delegation_balances := db\<rparr>))"
    using assms(2) by (auto simp: spend_share_from_delegation_id_Inr)
  have g: "delta_get_delegation_data P e' del = Inr (Some data)"
    using pos_sim_queries(2) [OF assms(3)] q c by (auto simp: delta_get_data_query)
  have e: "delta_pool_exists P (e'\<lparr>delegation_balances := x\<rparr>) = delta_pool_exists P d" for x
    using pos_sim_queries(6) [OF assms(3)] c
    by (auto simp: delta_pool_exists_def delta_get_data_query fun_eq_iff)
  have wf: "wf_amounts (pool_delegation_shares d)" "wf_amounts (delegation_balances d)" "wf_amounts (pool_balances d)"
    using assms(1) by (simp_all add: pos_wf_def)
  note r = sub_add_unsigned [OF wf(1) a(1)] sub_add_unsigned [OF wf(2) a(2)] sub_add_unsigned [OF wf(3)]
  from c show ?thesis
    using assms(3) g r
    by (auto simp: ex_bool_eq u pos_undo_op_def undo_spend_share_from_delegation_id_def Let_def op_simps res_simps pos_sim_def e)
qed

section \<open>Sequences of operations\<close>

text \<open>A call of one of the operations of \<open>PoSAccountingOperations\<close>, and its execution.\<close>

datatype pos_command =
    CmdCreatePool pool_id pool_data
  | CmdDecommissionPool pool_id
  | CmdIncreaseStakerRewards pool_id amount
  | CmdCreateDelegationId pool_id destination utxo_outpoint
  | CmdDeleteDelegationId delegation_id
  | CmdDelegateStaking delegation_id amount
  | CmdSpendShare delegation_id amount

definition pos_apply :: "id_hasher \<Rightarrow> 'e pos_view \<Rightarrow> pos_command \<Rightarrow> (pos_delta_data, pos_error, pos_undo) op" where
  "pos_apply h P cmd = (case cmd of
      CmdCreatePool p data \<Rightarrow> create_pool P p data
    | CmdDecommissionPool p \<Rightarrow> decommission_pool P p
    | CmdIncreaseStakerRewards p a \<Rightarrow> increase_staker_rewards P p a
    | CmdCreateDelegationId p dest i \<Rightarrow> op_bind (create_delegation_id h P p dest i) (\<lambda>(_, u). op_return u)
    | CmdDeleteDelegationId del \<Rightarrow> delete_delegation_id P del
    | CmdDelegateStaking del a \<Rightarrow> delegate_staking P del a
    | CmdSpendShare del a \<Rightarrow> spend_share_from_delegation_id P del a)"

lemma pos_apply_undo_sim:
  assumes "pos_wf d" "pos_apply h P cmd d = (Inr u, d')" "pos_sim P d' e'"
  shows "\<exists>e. pos_undo_op P u e' = (Inr (), e) \<and> pos_sim P d e"
  using assms(2)
  by (cases cmd)
    (auto simp: pos_apply_def op_simps assms(1)
      intro: undo_create_pool_sim undo_decommission_pool_sim undo_increase_staker_rewards_sim
        undo_create_delegation_id_sim undo_delete_delegation_id_sim undo_delegate_staking_sim
        undo_spend_share_sim assms(1,3))

lemma pos_apply_wf:
  assumes "pos_wf d" "pos_apply h P cmd d = (Inr u, d')"
  shows "pos_wf d'"
  using assms
  by (cases cmd)
    (auto simp: pos_apply_def op_simps pos_wf_def create_pool_Inr decommission_pool_Inr increase_staker_rewards_Inr
      create_delegation_id_Inr delete_delegation_id_Inr delegate_staking_Inr spend_share_from_delegation_id_Inr
      intro: unsigned_wf)

lemma pos_run_wf:
  assumes "pos_wf d" "op_map (pos_apply h P) cmds d = (Inr us, d')"
  shows "pos_wf d'"
  using assms by (induction cmds arbitrary: d us) (auto simp: op_simps intro: pos_apply_wf)

lemma pos_run_undo_sim:
  assumes "pos_wf d" "op_map (pos_apply h P) cmds d = (Inr us, d')"
  shows "\<exists>e. op_for_each (pos_undo_op P) (rev us) d' = (Inr (), e) \<and> pos_sim P d e"
  using assms
proof (induction cmds arbitrary: d us)
  case Nil
  then show ?case by (auto simp: op_simps)
next
  case (Cons cmd cmds)
  then obtain u d1 vs where u: "pos_apply h P cmd d = (Inr u, d1)"
    and vs: "op_map (pos_apply h P) cmds d1 = (Inr vs, d')" and us: "us = u # vs"
    by (auto simp: op_simps)
  obtain e1 where e1: "op_for_each (pos_undo_op P) (rev vs) d' = (Inr (), e1)" "pos_sim P d1 e1"
    using Cons.IH [OF pos_apply_wf [OF Cons.prems(1) u] vs] by blast
  obtain e where "pos_undo_op P u e1 = (Inr (), e)" "pos_sim P d e"
    using pos_apply_undo_sim [OF Cons.prems(1) u e1(2)] by blast
  with e1 show ?case by (auto simp: us op_for_each_append op_for_each_Cons)
qed

section \<open>Properties\<close>

text \<open>
  C2: Reorganisation of proof-of-stake accounting. Whatever the parent view returns, undoing a sequence of
  successful operations from last to first, with the undo data they returned, succeeds at every step, and
  afterwards every query of the delta returns what it returned before the first operation.
\<close>

theorem pos_operations_reversible:
  assumes "pos_wf d" and "op_map (pos_apply h P) cmds d = (Inr us, d')"
  shows "\<exists>e. op_for_each (pos_undo_op P) (rev us) d' = (Inr (), e) \<and> delta_view P e = delta_view P d"
  using pos_run_undo_sim [OF assms] pos_sim_view by blast

definition empty_view :: "pos_error pos_view" where
  "empty_view = \<lparr>pool_exists = (\<lambda>_. Inr False), get_pool_balance = (\<lambda>_. Inr amount_ZERO),
    get_pool_data = (\<lambda>_. Inr None), get_pool_delegations_shares = (\<lambda>_. Inr None),
    get_delegation_balance = (\<lambda>_. Inr amount_ZERO), get_delegation_data = (\<lambda>_. Inr None),
    get_pool_delegation_share = (\<lambda>_ _. Inr amount_ZERO)\<rparr>"

definition sample_hasher :: id_hasher where
  "sample_hasher = \<lparr>hash_bytes = (\<lambda>b. of_nat (length b)), encode_outpoint = (\<lambda>_. [1, 2, 3]), encode_u32 = (\<lambda>_. [4])\<rparr>"

definition sample_pool :: pool_data where
  "sample_pool = \<lparr>decommission_destination = AnyoneCanSpend, pledge_amount = Amount 100,
    staker_rewards = amount_ZERO, vrf_public_key = [], margin_ratio_per_thousand = PerThousand 0,
    cost_per_block = amount_ZERO\<rparr>"

definition sample_commands :: "pos_command list" where
  "sample_commands = [CmdCreatePool 7 sample_pool,
    CmdCreateDelegationId 7 AnyoneCanSpend (UtxoOutPoint (SourceTransaction 1) 0),
    CmdDelegateStaking 4 (Amount 50), CmdSpendShare 4 (Amount 20), CmdIncreaseStakerRewards 7 (Amount 3),
    CmdDecommissionPool 7]"

lemma sample_commands_run:
  "case op_map (pos_apply sample_hasher empty_view) sample_commands pos_delta_data_new of
    (Inr us, _) \<Rightarrow> length us = 6 | _ \<Rightarrow> False"
  by code_simp

theorem pos_operations_reversible_witness:
  "\<exists>us d' e. op_map (pos_apply sample_hasher empty_view) sample_commands pos_delta_data_new = (Inr us, d')
    \<and> op_for_each (pos_undo_op empty_view) (rev us) d' = (Inr (), e)
    \<and> delta_view empty_view e = delta_view empty_view pos_delta_data_new"
proof -
  obtain us d' where r: "op_map (pos_apply sample_hasher empty_view) sample_commands pos_delta_data_new = (Inr us, d')"
    using sample_commands_run by (auto split: prod.splits sum.splits)
  with pos_operations_reversible [OF pos_wf_new r] show ?thesis by blast
qed

end
