(* ===== verification/Storage.thy ===== *)
theory Storage
  imports DeltaView
begin

text \<open>
  Flushing deltas into a database. The databases of the accounting crates read and write single values
  through a getter, a setter and a deleter (\<open>BorrowedStorageValue\<close> of
  \<open>pos-accounting/src/pool/storage/helpers.rs\<close>), and share the shape of the two batch operations: balances
  combined with signed deltas, and data combined with data deltas. The locale \<open>storage_slots\<close> states what a
  working store promises; inside it the batch operations are shown to implement addition of amounts and
  application of data deltas, to succeed exactly when these are defined, and never to panic.
\<close>

section \<open>Stored values\<close>

record ('s, 'k, 'v, 'e) storage_value =
  getter :: "'s \<Rightarrow> 'k \<Rightarrow> 'e + 'v option"
  setter :: "'k \<Rightarrow> 'v \<Rightarrow> ('s, 'e, unit) op"
  deleter :: "'k \<Rightarrow> ('s, 'e, unit) op"

text \<open>
  The error values that a crate uses for failing reads and writes and for accounting errors.
\<close>

record 'f db_errors =
  view_fail :: 'f
  storage_write :: 'f
  from_accounting :: "accounting_error \<Rightarrow> 'f"

definition stored_get :: "'f db_errors \<Rightarrow> ('s, 'k, 'v, 'e) storage_value \<Rightarrow> 'k \<Rightarrow> ('s, 'f fault, 'v option) op" where
  "stored_get errs sv k = op_read (\<lambda>s. map_err (\<lambda>_. Err (view_fail errs)) (getter sv s k))"

definition stored_set :: "'f db_errors \<Rightarrow> ('s, 'k, 'v, 'e) storage_value \<Rightarrow> 'k \<Rightarrow> 'v \<Rightarrow> ('s, 'f fault, unit) op" where
  "stored_set errs sv k v = op_map_err (\<lambda>_. Err (storage_write errs)) (setter sv k v)"

definition stored_delete :: "'f db_errors \<Rightarrow> ('s, 'k, 'v, 'e) storage_value \<Rightarrow> 'k \<Rightarrow> ('s, 'f fault, unit) op" where
  "stored_delete errs sv k = op_map_err (\<lambda>_. Err (storage_write errs)) (deleter sv k)"

section \<open>Batch operations\<close>

definition merge_balance_entry ::
  "'f db_errors \<Rightarrow> ('s, 'k, amount, 'e) storage_value \<Rightarrow> 'k \<times> signed_amount
    \<Rightarrow> ('s, 'f fault, 'k \<times> signed_amount) op" where
  "merge_balance_entry errs sv = (\<lambda>(k, delta).
    op_bind (stored_get errs sv k) (\<lambda>stored.
    let balance = (case stored of None \<Rightarrow> amount_ZERO | Some b \<Rightarrow> b) in
    op_bind (op_read (\<lambda>_. map_err (\<lambda>e. Err (from_accounting errs e)) (combine_amount_delta balance (Some delta)))) (\<lambda>result.
    op_bind (if result > amount_ZERO then stored_set errs sv k result else stored_delete errs sv k) (\<lambda>_.
    case signed_neg delta of
      None \<Rightarrow> op_fail Panic
    | Some balance_undo \<Rightarrow> op_return (k, balance_undo)))))"

definition merge_balances_generic ::
  "'f db_errors \<Rightarrow> ('s, 'k::linorder, amount, 'e) storage_value \<Rightarrow> 'k delta_amounts
    \<Rightarrow> ('s, 'f fault, 'k delta_amounts) op" where
  "merge_balances_generic errs sv delta =
    op_bind (op_map (merge_balance_entry errs sv) (sorted_list_of_fmap delta)) (\<lambda>undo.
    op_return (fmap_of_list undo))"

definition apply_data_entry ::
  "'f db_errors \<Rightarrow> ('s, 'k, 'v, 'e) storage_value \<Rightarrow> 'k \<Rightarrow> 'v data_delta \<Rightarrow> ('s, 'f fault, unit) op" where
  "apply_data_entry errs sv k delta =
    op_bind (stored_get errs sv k) (\<lambda>old_data.
    op_bind (op_read (\<lambda>_. map_err (\<lambda>e. Err (from_accounting errs e)) (combine_data_with_delta old_data (Some delta)))) (\<lambda>combined.
    case combined of
      Some result \<Rightarrow> stored_set errs sv k result
    | None \<Rightarrow> stored_delete errs sv k))"

definition merge_data_generic ::
  "'f db_errors \<Rightarrow> ('s, 'k::linorder, 'v, 'e) storage_value \<Rightarrow> ('k, 'v) delta_data
    \<Rightarrow> ('s, 'f fault, ('k, 'v) delta_data_undo) op" where
  "merge_data_generic errs sv delta =
    op_bind (op_map (\<lambda>(k, delta). op_bind (apply_data_entry errs sv k delta) (\<lambda>_. op_return (k, invert delta)))
      (sorted_list_of_fmap delta)) (\<lambda>undo.
    op_return (fmap_of_list undo))"

definition undo_merge_data_generic ::
  "'f db_errors \<Rightarrow> ('s, 'k::linorder, 'v, 'e) storage_value \<Rightarrow> ('k, 'v) delta_data_undo
    \<Rightarrow> ('s, 'f fault, unit) op" where
  "undo_merge_data_generic errs sv undo =
    op_for_each (\<lambda>(k, delta). apply_data_entry errs sv k (as_delta delta)) (sorted_list_of_fmap undo)"

section \<open>A working store\<close>

text \<open>
  \<open>look\<close> reads the content of a store and \<open>put\<close> replaces one value of it. Reads return the content, writes
  succeed and change one value.
\<close>

locale storage_slots =
  fixes sv :: "('s, 'k::linorder, 'v, 'e) storage_value"
    and look :: "'s \<Rightarrow> 'k \<Rightarrow> 'v option"
    and put :: "'k \<Rightarrow> 'v option \<Rightarrow> 's \<Rightarrow> 's"
  assumes look_put: "look (put k x s) k' = (if k' = k then x else look s k')"
    and getter_look: "getter sv s k = Inr (look s k)"
    and setter_put: "setter sv k v s = (Inr (), put k (Some v) s)"
    and deleter_put: "deleter sv k s = (Inr (), put k None s)"

lemma combine_with_stored:
  "combine_amount_delta b (Some d) = Inr r \<longleftrightarrow> amt b < 2 ^ 127 \<and> amt r < 2 ^ 127 \<and> amt r = amt b + samt d"
  by (simp add: combine_amount_delta_Inr)

text \<open>A delta that combines with a stored balance is not the least \<open>i128\<close>, so its negation exists.\<close>

lemma combine_negatable:
  assumes "combine_amount_delta b (Some d) = Inr r"
  shows "\<exists>n. signed_neg d = Some n \<and> samt n = - samt d"
proof (cases "signed_neg d")
  case None
  then have "\<not> i128_range (- samt d)" by (simp add: signed_neg_None)
  moreover have "i128_range (samt d)" by simp
  moreover have "amt b < 2 ^ 127" "amt r = amt b + samt d"
    using assms by (simp_all add: combine_with_stored)
  moreover have "0 \<le> amt r" by simp
  ultimately show ?thesis by (auto simp del: amt_range_simps samt_range_simps)
next
  case (Some n)
  then have "samt n = - samt d" by (simp add: signed_neg_Some)
  with Some show ?thesis by blast
qed

definition stored_amount :: "amount option \<Rightarrow> int" where
  "stored_amount x = (case x of None \<Rightarrow> 0 | Some a \<Rightarrow> amt a)"

definition amount_slot :: "int \<Rightarrow> amount option" where
  "amount_slot i = (if i = 0 then None else Some (Amount (word_of_int i)))"

lemma amount_slot_amt: "amount_slot (amt a) = (if a = amount_ZERO then None else Some a)"
  by (simp add: amount_slot_def) (simp add: amt_def)

lemma stored_amount_slot [simp]: "u128_range i \<Longrightarrow> stored_amount (amount_slot i) = i"
  by (auto simp: stored_amount_def amount_slot_def amt_def uint_word_of_int)

lemma amount_slot_stored: "x \<noteq> Some amount_ZERO \<Longrightarrow> amount_slot (stored_amount x) = x"
  by (auto simp: stored_amount_def amount_slot_amt split: option.splits) (simp add: amount_slot_def)

lemma stored_amount_nonneg [simp]: "0 \<le> stored_amount x"
  by (simp add: stored_amount_def split: option.splits)

definition balance_slot ::
  "'f db_errors \<Rightarrow> 'k \<times> signed_amount \<Rightarrow> amount option \<Rightarrow> ('f fault + 'k \<times> signed_amount) \<times> amount option" where
  "balance_slot errs x v =
    (case combine_amount_delta (case v of None \<Rightarrow> amount_ZERO | Some b \<Rightarrow> b) (Some (snd x)) of
      Inl e \<Rightarrow> (Inl (Err (from_accounting errs e)), v)
    | Inr r \<Rightarrow> ((case signed_neg (snd x) of None \<Rightarrow> Inl Panic | Some n \<Rightarrow> Inr (fst x, n)),
        if r > amount_ZERO then Some r else None))"

lemma balance_slot_Inr:
  "balance_slot errs (k, d) v = (Inr u, w) \<longleftrightarrow>
    stored_amount v < 2 ^ 127 \<and> 0 \<le> stored_amount v + samt d \<and> stored_amount v + samt d < 2 ^ 127
    \<and> w = amount_slot (stored_amount v + samt d) \<and> fst u = k \<and> signed_neg d = Some (snd u)"
proof -
  define b where "b = (case v of None \<Rightarrow> amount_ZERO | Some b \<Rightarrow> b)"
  have b: "stored_amount v = amt b" by (simp add: b_def stored_amount_def split: option.splits)
  show ?thesis
  proof (cases "combine_amount_delta b (Some d)")
    case (Inl e)
    have "\<not> (amt b < 2 ^ 127 \<and> 0 \<le> amt b + samt d \<and> amt b + samt d < 2 ^ 127)"
    proof
      assume *: "amt b < 2 ^ 127 \<and> 0 \<le> amt b + samt d \<and> amt b + samt d < 2 ^ 127"
      then obtain r where "amt r = amt b + samt d" using amt_exists [of "amt b + samt d"] by auto
      with * have "combine_amount_delta b (Some d) = Inr r" by (simp add: combine_with_stored)
      with Inl show False by simp
    qed
    with Inl show ?thesis by (auto simp: balance_slot_def b_def [symmetric] b)
  next
    case (Inr r)
    then obtain n where "signed_neg d = Some n" using combine_negatable by blast
    moreover have "amt b < 2 ^ 127" "amt r < 2 ^ 127" "amt b + samt d = amt r"
      using Inr by (simp_all add: combine_with_stored)
    ultimately show ?thesis
      using Inr by (cases u) (auto simp: balance_slot_def b_def [symmetric] b amount_slot_amt)
  qed
qed

lemma balance_slot_no_panic: "balance_slot errs x v \<noteq> (Inl Panic, w)"
proof (cases "combine_amount_delta (case v of None \<Rightarrow> amount_ZERO | Some b \<Rightarrow> b) (Some (snd x))")
  case (Inl e)
  then show ?thesis by (simp add: balance_slot_def)
next
  case (Inr r)
  then obtain n where "signed_neg (snd x) = Some n" using combine_negatable by blast
  with Inr show ?thesis by (simp add: balance_slot_def)
qed

definition data_slot ::
  "'f db_errors \<Rightarrow> 'v data_delta \<Rightarrow> 'v option \<Rightarrow> ('f fault + unit) \<times> 'v option" where
  "data_slot errs d v = (case combine_data_with_delta v (Some d) of
      Inl e \<Rightarrow> (Inl (Err (from_accounting errs e)), v)
    | Inr r \<Rightarrow> (Inr (), r))"

lemma data_slot_Inr: "data_slot errs d v = (Inr u, w) \<longleftrightarrow> old d = v \<and> w = new d"
proof (cases "combine_data_with_delta v (Some d)")
  case (Inl e)
  then have "old d \<noteq> v" using combine_data_with_delta_Inr [of v "Some d" "new d"] by auto
  with Inl show ?thesis by (simp add: data_slot_def)
next
  case (Inr r)
  then have "old d = v" "r = new d" using combine_data_with_delta_Inr [of v "Some d" r] by auto
  with Inr show ?thesis by (auto simp: data_slot_def)
qed

lemma data_slot_no_panic: "data_slot errs d v \<noteq> (Inl Panic, w)"
  by (simp add: data_slot_def split: sum.splits)

text \<open>
  The conditions under which amount deltas apply to stored balances, the balances afterwards, and the
  deltas that undo it.
\<close>

definition balance_fits :: "('k \<Rightarrow> amount option) \<Rightarrow> 'k delta_amounts \<Rightarrow> bool" where
  "balance_fits b d \<longleftrightarrow> (\<forall>k. fmlookup d k \<noteq> None \<longrightarrow> stored_amount (b k) < 2 ^ 127
    \<and> 0 \<le> stored_amount (b k) + net d k \<and> stored_amount (b k) + net d k < 2 ^ 127)"

definition balance_after :: "('k \<Rightarrow> amount option) \<Rightarrow> 'k delta_amounts \<Rightarrow> 'k \<Rightarrow> amount option" where
  "balance_after b d k = (if fmlookup d k = None then b k else amount_slot (stored_amount (b k) + net d k))"

definition amounts_negated :: "'k delta_amounts \<Rightarrow> 'k delta_amounts \<Rightarrow> bool" where
  "amounts_negated d u \<longleftrightarrow> (\<forall>k. (fmlookup u k = None \<longleftrightarrow> fmlookup d k = None) \<and> net u k = - net d k)"

lemma stored_balance_after:
  "balance_fits b d \<Longrightarrow> stored_amount (balance_after b d k) = stored_amount (b k) + net d k"
  by (cases "fmlookup d k") (auto simp: balance_after_def balance_fits_def net_def [of d])

lemma balance_fits_back:
  assumes "balance_fits b d" "amounts_negated d u"
  shows "balance_fits (balance_after b d) u"
  using assms stored_balance_after [OF assms(1)]
  by (auto simp: balance_fits_def amounts_negated_def)

lemma balance_after_back:
  assumes "balance_fits b d" "amounts_negated d u" "\<And>k. b k \<noteq> Some amount_ZERO"
  shows "balance_after (balance_after b d) u = b"
proof
  fix k show "balance_after (balance_after b d) u k = b k"
    using assms(2,3) stored_balance_after [OF assms(1), of k]
    by (cases "fmlookup d k = None")
      (auto simp: balance_after_def [of _ u] amounts_negated_def amount_slot_stored balance_after_def [of b])
qed

lemma balance_after_no_zero:
  assumes "balance_fits b d" "\<And>k. b k \<noteq> Some amount_ZERO"
  shows "balance_after b d k \<noteq> Some amount_ZERO"
proof
  assume *: "balance_after b d k = Some amount_ZERO"
  then have d: "fmlookup d k \<noteq> None" using assms(2) [of k] by (auto simp: balance_after_def split: if_splits)
  moreover have "stored_amount (b k) + net d k = 0"
    using stored_balance_after [OF assms(1), of k] * by (simp add: stored_amount_def)
  ultimately show False using * by (auto simp: balance_after_def amount_slot_def)
qed

lemma data_at_back:
  assumes "based b d"
  shows "based (data_at b d) (fmmap as_delta (fmmap invert d))"
    and "data_at (data_at b d) (fmmap as_delta (fmmap invert d)) = b"
  using assms by (auto simp: based_def data_at_def invert_def fun_eq_iff split: option.splits)

text \<open>A query of a delta over a store answers what the store answers after the delta is applied to it.\<close>

definition unwrap_or_zero :: "amount option \<Rightarrow> amount" where
  "unwrap_or_zero x = (case x of None \<Rightarrow> amount_ZERO | Some a \<Rightarrow> a)"

lemma amt_unwrap_or_zero [simp]: "amt (unwrap_or_zero x) = stored_amount x"
  by (simp add: unwrap_or_zero_def stored_amount_def split: option.splits)

lemma query_amount_flush:
  assumes "balance_fits b d" "q k = Inr (unwrap_or_zero (b k))"
  shows "query_amount fail conv q d k = Inr (unwrap_or_zero (balance_after b d k))"
  using assms stored_balance_after [OF assms(1), of k] by (auto simp: query_amount_Inr balance_fits_def)

lemma query_data_flush:
  "q k = Inr (b k) \<Longrightarrow> query_data fail q d k = Inr (data_at b d k)"
  by (auto simp: query_data_lookup data_at_def split: option.splits)

locale balance_store = storage_slots sv look put
  for sv :: "('s, 'k::linorder, amount, 'e) storage_value"
    and look :: "'s \<Rightarrow> 'k \<Rightarrow> amount option"
    and put :: "'k \<Rightarrow> amount option \<Rightarrow> 's \<Rightarrow> 's" +
  fixes errs :: "'f db_errors"
begin

sublocale bal: keyed_op look put fst "merge_balance_entry errs sv" "balance_slot errs"
proof
  fix x s
  show "\<exists>v. balance_slot errs x (look s (fst x)) = (fst (merge_balance_entry errs sv x s), v) \<and>
      (snd (merge_balance_entry errs sv x s) = put (fst x) v s \<or>
       v = look s (fst x) \<and> snd (merge_balance_entry errs sv x s) = s)"
  proof (cases "combine_amount_delta (case look s (fst x) of None \<Rightarrow> amount_ZERO | Some b \<Rightarrow> b) (Some (snd x))")
    case (Inl e)
    then show ?thesis
      by (cases x) (simp add: merge_balance_entry_def balance_slot_def stored_get_def op_bind_def op_read_def
          getter_look Let_def)
  next
    case (Inr r)
    then obtain n where "signed_neg (snd x) = Some n" using combine_negatable by blast
    with Inr show ?thesis
      by (cases x) (auto simp: merge_balance_entry_def balance_slot_def stored_get_def stored_set_def
          stored_delete_def op_bind_def op_read_def op_map_err_def op_return_def getter_look setter_put
          deleter_put Let_def)
  qed
qed (rule look_put)

lemma merge_balances_Inr:
  assumes "merge_balances_generic errs sv d s = (Inr u, t)"
  shows "balance_fits (look s) d" and "look t = balance_after (look s) d" and "amounts_negated d u"
proof -
  obtain us where m: "op_map (merge_balance_entry errs sv) (sorted_list_of_fmap d) s = (Inr us, t)"
    and u: "u = fmap_of_list us"
    using assms by (auto simp: merge_balances_generic_def op_simps)
  have some: "stored_amount (look s k) < 2 ^ 127 \<and> 0 \<le> stored_amount (look s k) + samt x
      \<and> stored_amount (look s k) + samt x < 2 ^ 127 \<and> look t k = amount_slot (stored_amount (look s k) + samt x)
      \<and> (\<exists>n. signed_neg x = Some n)"
    if "fmlookup d k = Some x" for k x
    using bal.map_Inr_slot [OF m, of "(k, x)"] that by (auto simp: balance_slot_Inr)
  have none: "look t k = look s k" if "fmlookup d k = None" for k
    using bal.map_Inr_other [OF m, of k] that by (auto simp: fst_sorted_list_of_fmap)
  show "balance_fits (look s) d" using some by (auto simp: balance_fits_def net_def)
  show "look t = balance_after (look s) d"
    using some none by (auto simp: fun_eq_iff balance_after_def net_def)
  have "us = map (\<lambda>(k, x). (k, the (signed_neg x))) (sorted_list_of_fmap d)"
    by (rule bal.map_results [OF m]) (auto simp: balance_slot_Inr split: prod.splits)
  then have uk: "fmlookup u k = map_option (\<lambda>x. the (signed_neg x)) (fmlookup d k)" for k
    by (simp add: u fmlookup_fmap_of_list map_of_map)
  have "net u k = - net d k" for k
  proof (cases "fmlookup d k")
    case None
    then show ?thesis using uk by (simp add: net_def)
  next
    case (Some x)
    then obtain n where "signed_neg x = Some n" using some by blast
    moreover from this have "samt n = - samt x" by (simp add: signed_neg_Some)
    ultimately show ?thesis using Some uk [of k] by (simp add: net_def)
  qed
  with uk show "amounts_negated d u" by (simp add: amounts_negated_def)
qed

lemma merge_balances_succeeds:
  assumes "balance_fits (look s) d"
  shows "\<exists>u t. merge_balances_generic errs sv d s = (Inr u, t)"
proof -
  have "\<exists>us t. op_map (merge_balance_entry errs sv) (sorted_list_of_fmap d) s = (Inr us, t)"
  proof (rule bal.map_succeeds)
    fix x assume "x \<in> set (sorted_list_of_fmap d)"
    then have x: "fmlookup d (fst x) = Some (snd x)" by simp
    then have *: "stored_amount (look s (fst x)) < 2 ^ 127 \<and> 0 \<le> stored_amount (look s (fst x)) + samt (snd x)
        \<and> stored_amount (look s (fst x)) + samt (snd x) < 2 ^ 127"
      using assms by (auto simp: balance_fits_def net_def [of d] dest: spec [of _ "fst x"])
    have "i128_range (- samt (snd x))"
      using * stored_amount_nonneg [of "look s (fst x)"] samt_range [of "snd x"] by linarith
    then obtain n where "signed_neg (snd x) = Some n" using signed_neg_exists by blast
    with * have "balance_slot errs (fst x, snd x) (look s (fst x)) =
        (Inr (fst x, n), amount_slot (stored_amount (look s (fst x)) + samt (snd x)))"
      by (simp only: balance_slot_Inr) simp
    then show "\<exists>u v. balance_slot errs x (look s (fst x)) = (Inr u, v)" by auto
  qed simp
  then show ?thesis by (auto simp: merge_balances_generic_def op_simps)
qed

lemma merge_balances_no_panic: "merge_balances_generic errs sv d s \<noteq> (Inl Panic, t)"
proof
  assume "merge_balances_generic errs sv d s = (Inl Panic, t)"
  then have "op_map (merge_balance_entry errs sv) (sorted_list_of_fmap d) s = (Inl Panic, t)"
    by (auto simp: merge_balances_generic_def op_simps)
  from bal.map_Inl [OF this] show False using balance_slot_no_panic by force
qed

lemma merge_balances_frame:
  assumes "merge_balances_generic errs sv d s = (r, t)" and "\<And>k v s. f (put k v s) = f s"
  shows "f t = f s"
proof -
  obtain r' where "op_map (merge_balance_entry errs sv) (sorted_list_of_fmap d) s = (r', t)"
    using assms(1) by (auto simp: merge_balances_generic_def op_bind_def op_return_def split: prod.splits sum.splits)
  then show ?thesis by (rule bal.map_frame) (rule assms(2))
qed

end

locale data_store = storage_slots sv look put
  for sv :: "('s, 'k::linorder, 'v, 'e) storage_value"
    and look :: "'s \<Rightarrow> 'k \<Rightarrow> 'v option"
    and put :: "'k \<Rightarrow> 'v option \<Rightarrow> 's \<Rightarrow> 's" +
  fixes errs :: "'f db_errors"
begin

lemma apply_data_entry_eq:
  "apply_data_entry errs sv k d s = (case data_slot errs d (look s k) of
    (Inl e, v) \<Rightarrow> (Inl e, s) | (Inr u, v) \<Rightarrow> (Inr u, put k v s))"
proof (cases "combine_data_with_delta (look s k) (Some d)")
  case (Inl e)
  then show ?thesis
    by (simp add: apply_data_entry_def data_slot_def stored_get_def op_bind_def op_read_def getter_look)
next
  case (Inr r)
  then show ?thesis
    by (cases r) (simp_all add: apply_data_entry_def data_slot_def stored_get_def stored_set_def stored_delete_def
        op_bind_def op_read_def op_map_err_def getter_look setter_put deleter_put)
qed

sublocale dat: keyed_op look put fst
  "\<lambda>(k, d). op_bind (apply_data_entry errs sv k d) (\<lambda>_. op_return (k, invert d))"
  "\<lambda>(k, d) v. case data_slot errs d v of (r, w) \<Rightarrow> (map_ok (\<lambda>_. (k, invert d)) r, w)"
  by unfold_locales
    (auto simp: look_put apply_data_entry_eq op_bind_def op_return_def data_slot_def split: sum.splits)

sublocale undo_dat: keyed_op look put fst
  "\<lambda>(k, d). apply_data_entry errs sv k (as_delta d)" "\<lambda>(k, d). data_slot errs (as_delta d)"
  by unfold_locales
    (auto simp: look_put apply_data_entry_eq data_slot_def split: sum.splits)

lemma merge_data_Inr:
  assumes "merge_data_generic errs sv d s = (Inr u, t)"
  shows "based (look s) d" and "look t = data_at (look s) d" and "u = fmmap invert d"
proof -
  obtain us where m: "op_map (\<lambda>(k, d). op_bind (apply_data_entry errs sv k d) (\<lambda>_. op_return (k, invert d)))
      (sorted_list_of_fmap d) s = (Inr us, t)" and u: "u = fmap_of_list us"
    using assms by (auto simp: merge_data_generic_def op_simps)
  have some: "old x = look s k \<and> look t k = new x" if "fmlookup d k = Some x" for k x
    using dat.map_Inr_slot [OF m, of "(k, x)"] that
    by (auto simp: res_simps data_slot_Inr split: prod.splits)
  have none: "look t k = look s k" if "fmlookup d k = None" for k
    using dat.map_Inr_other [OF m, of k] that by (auto simp: fst_sorted_list_of_fmap)
  show "based (look s) d" using some by (simp add: based_def)
  show "look t = data_at (look s) d"
    using some none by (auto simp: fun_eq_iff data_at_def split: option.splits)
  have "us = map (\<lambda>(k, d). (k, invert d)) (sorted_list_of_fmap d)"
    by (rule dat.map_results [OF m]) (auto simp: res_simps split: prod.splits)
  then show "u = fmmap invert d"
    by (intro fmap_ext) (simp add: u fmlookup_fmap_of_list map_of_map)
qed

lemma merge_data_succeeds:
  assumes "based (look s) d"
  shows "\<exists>u t. merge_data_generic errs sv d s = (Inr u, t)"
proof -
  have "\<exists>us t. op_map (\<lambda>(k, d). op_bind (apply_data_entry errs sv k d) (\<lambda>_. op_return (k, invert d)))
      (sorted_list_of_fmap d) s = (Inr us, t)"
  proof (rule dat.map_succeeds)
    fix x assume "x \<in> set (sorted_list_of_fmap d)"
    then have "data_slot errs (snd x) (look s (fst x)) = (Inr (), new (snd x))"
      using assms by (simp add: data_slot_Inr based_def)
    then show "\<exists>u v. (case x of (k, d) \<Rightarrow> \<lambda>v. case data_slot errs d v of (r, w) \<Rightarrow>
        (map_ok (\<lambda>_. (k, invert d)) r, w)) (look s (fst x)) = (Inr u, v)"
      by (cases x) simp
  qed simp
  then show ?thesis by (auto simp: merge_data_generic_def op_simps)
qed

lemma undo_merge_data_Inr:
  assumes "undo_merge_data_generic errs sv u s = (Inr r, t)"
  shows "based (look s) (fmmap as_delta u)" and "look t = data_at (look s) (fmmap as_delta u)"
proof -
  obtain us where m: "op_map (\<lambda>(k, d). apply_data_entry errs sv k (as_delta d)) (sorted_list_of_fmap u) s = (Inr us, t)"
    using assms by (auto simp: undo_merge_data_generic_def op_simps)
  have some: "old (as_delta x) = look s k \<and> look t k = new (as_delta x)" if "fmlookup u k = Some x" for k x
    using undo_dat.map_Inr_slot [OF m, of "(k, x)"] that by (auto simp: data_slot_Inr)
  have none: "look t k = look s k" if "fmlookup u k = None" for k
    using undo_dat.map_Inr_other [OF m, of k] that by (auto simp: fst_sorted_list_of_fmap)
  show "based (look s) (fmmap as_delta u)" using some by (auto simp: based_def)
  show "look t = data_at (look s) (fmmap as_delta u)"
    using some none by (auto simp: fun_eq_iff data_at_def split: option.splits)
qed

lemma undo_merge_data_succeeds:
  assumes "based (look s) (fmmap as_delta u)"
  shows "\<exists>t. undo_merge_data_generic errs sv u s = (Inr (), t)"
proof -
  have "\<exists>us t. op_map (\<lambda>(k, d). apply_data_entry errs sv k (as_delta d)) (sorted_list_of_fmap u) s = (Inr us, t)"
  proof (rule undo_dat.map_succeeds)
    fix x assume "x \<in> set (sorted_list_of_fmap u)"
    then have "data_slot errs (as_delta (snd x)) (look s (fst x)) = (Inr (), new (as_delta (snd x)))"
      using assms by (auto simp: data_slot_Inr based_def)
    then show "\<exists>u v. (case x of (k, d) \<Rightarrow> data_slot errs (as_delta d)) (look s (fst x)) = (Inr u, v)"
      by (cases x) simp
  qed simp
  then show ?thesis by (auto simp: undo_merge_data_generic_def op_simps)
qed

lemma merge_data_no_panic: "merge_data_generic errs sv d s \<noteq> (Inl Panic, t)"
proof
  assume "merge_data_generic errs sv d s = (Inl Panic, t)"
  then have m: "op_map (\<lambda>(k, d). op_bind (apply_data_entry errs sv k d) (\<lambda>_. op_return (k, invert d)))
      (sorted_list_of_fmap d) s = (Inl Panic, t)"
    by (auto simp: merge_data_generic_def op_simps)
  then obtain k x w where "(case data_slot errs x (look s k) of (r, w) \<Rightarrow> (map_ok (\<lambda>_. (k, invert x)) r, w)) = (Inl Panic, w)"
    using dat.map_Inl [OF m] by fastforce
  then show False using data_slot_no_panic by (auto simp: res_simps split: prod.splits)
qed

lemma merge_data_frame:
  assumes "merge_data_generic errs sv d s = (r, t)" and "\<And>k v s. f (put k v s) = f s"
  shows "f t = f s"
proof -
  obtain r' where "op_map (\<lambda>(k, d). op_bind (apply_data_entry errs sv k d) (\<lambda>_. op_return (k, invert d)))
      (sorted_list_of_fmap d) s = (r', t)"
    using assms(1) by (auto simp: merge_data_generic_def op_bind_def op_return_def split: prod.splits sum.splits)
  then show ?thesis by (rule dat.map_frame) (rule assms(2))
qed

lemma undo_merge_data_frame:
  assumes "undo_merge_data_generic errs sv u s = (r, t)" and "\<And>k v s. f (put k v s) = f s"
  shows "f t = f s"
proof -
  obtain r' where "op_map (\<lambda>(k, d). apply_data_entry errs sv k (as_delta d)) (sorted_list_of_fmap u) s = (r', t)"
    using assms(1)
    by (auto simp: undo_merge_data_generic_def op_for_each_def op_bind_def op_return_def split: prod.splits sum.splits)
  then show ?thesis by (rule undo_dat.map_frame) (rule assms(2))
qed

end

end
