(* ===== verification/PoSStorage.thy ===== *)
theory PoSStorage
  imports PoSUndo Storage
begin

text \<open>
  The database of proof-of-stake accounting (\<open>pos-accounting/src/pool/storage\<close>) over an arbitrary store,
  and the in-memory store (\<open>pos-accounting/src/storage/in_memory.rs\<close>). The lemmas show that flushing a delta
  makes the database answer every query as the delta over it did before, and that undoing the flush
  restores the store.
\<close>

section \<open>The database over a store\<close>

text \<open>The traits \<open>PoSAccountingStorageRead\<close> and \<open>PoSAccountingStorageWrite\<close>.\<close>

record ('s, 'e) pos_store =
  st_get_pool_balance :: "'s \<Rightarrow> pool_id \<Rightarrow> 'e + amount option"
  st_get_pool_data :: "'s \<Rightarrow> pool_id \<Rightarrow> 'e + pool_data option"
  st_get_delegation_balance :: "'s \<Rightarrow> delegation_id \<Rightarrow> 'e + amount option"
  st_get_delegation_data :: "'s \<Rightarrow> delegation_id \<Rightarrow> 'e + delegation_data option"
  st_get_pool_delegations_shares :: "'s \<Rightarrow> pool_id \<Rightarrow> 'e + (delegation_id, amount) fmap option"
  st_get_pool_delegation_share :: "'s \<Rightarrow> pool_id \<Rightarrow> delegation_id \<Rightarrow> 'e + amount option"
  st_set_pool_balance :: "pool_id \<Rightarrow> amount \<Rightarrow> ('s, 'e, unit) op"
  st_del_pool_balance :: "pool_id \<Rightarrow> ('s, 'e, unit) op"
  st_set_pool_data :: "pool_id \<Rightarrow> pool_data \<Rightarrow> ('s, 'e, unit) op"
  st_del_pool_data :: "pool_id \<Rightarrow> ('s, 'e, unit) op"
  st_set_delegation_balance :: "delegation_id \<Rightarrow> amount \<Rightarrow> ('s, 'e, unit) op"
  st_del_delegation_balance :: "delegation_id \<Rightarrow> ('s, 'e, unit) op"
  st_set_delegation_data :: "delegation_id \<Rightarrow> delegation_data \<Rightarrow> ('s, 'e, unit) op"
  st_del_delegation_data :: "delegation_id \<Rightarrow> ('s, 'e, unit) op"
  st_set_pool_delegation_share :: "pool_id \<Rightarrow> delegation_id \<Rightarrow> amount \<Rightarrow> ('s, 'e, unit) op"
  st_del_pool_delegation_share :: "pool_id \<Rightarrow> delegation_id \<Rightarrow> ('s, 'e, unit) op"

definition pos_errors :: "pos_error db_errors" where
  "pos_errors = \<lparr>view_fail = ViewFail, storage_write = StorageWrite, from_accounting = AccountingError\<rparr>"

definition pool_data_value :: "('s, 'e) pos_store \<Rightarrow> ('s, pool_id, pool_data, 'e) storage_value" where
  "pool_data_value st = \<lparr>getter = st_get_pool_data st, setter = st_set_pool_data st, deleter = st_del_pool_data st\<rparr>"

definition delegation_data_value :: "('s, 'e) pos_store \<Rightarrow> ('s, delegation_id, delegation_data, 'e) storage_value" where
  "delegation_data_value st = \<lparr>getter = st_get_delegation_data st, setter = st_set_delegation_data st,
    deleter = st_del_delegation_data st\<rparr>"

definition pool_balance_value :: "('s, 'e) pos_store \<Rightarrow> ('s, pool_id, amount, 'e) storage_value" where
  "pool_balance_value st = \<lparr>getter = st_get_pool_balance st, setter = st_set_pool_balance st,
    deleter = st_del_pool_balance st\<rparr>"

definition delegation_balance_value :: "('s, 'e) pos_store \<Rightarrow> ('s, delegation_id, amount, 'e) storage_value" where
  "delegation_balance_value st = \<lparr>getter = st_get_delegation_balance st, setter = st_set_delegation_balance st,
    deleter = st_del_delegation_balance st\<rparr>"

definition delegation_share_value ::
  "('s, 'e) pos_store \<Rightarrow> ('s, pool_id \<times> delegation_id, amount, 'e) storage_value" where
  "delegation_share_value st = \<lparr>getter = (\<lambda>s (pool, deleg). st_get_pool_delegation_share st s pool deleg),
    setter = (\<lambda>(pool, deleg). st_set_pool_delegation_share st pool deleg),
    deleter = (\<lambda>(pool, deleg). st_del_pool_delegation_share st pool deleg)\<rparr>"

definition pos_db_merge_with_delta ::
  "('s, 'e) pos_store \<Rightarrow> pos_delta_data \<Rightarrow> ('s, pos_error fault, pos_merge_undo) op" where
  "pos_db_merge_with_delta st other =
    op_bind (merge_data_generic pos_errors (pool_data_value st) (pool_data other)) (\<lambda>pd_undo.
    op_bind (merge_data_generic pos_errors (delegation_data_value st) (delegation_data other)) (\<lambda>dd_undo.
    op_bind (merge_balances_generic pos_errors (pool_balance_value st) (pool_balances other)) (\<lambda>pb_undo.
    op_bind (merge_balances_generic pos_errors (delegation_balance_value st) (delegation_balances other)) (\<lambda>db_undo.
    op_bind (merge_balances_generic pos_errors (delegation_share_value st) (pool_delegation_shares other)) (\<lambda>ds_undo.
    op_return \<lparr>pool_data_undo = pd_undo, delegation_data_undo = dd_undo, pool_balances_undo = pb_undo,
      pool_delegation_shares_undo = ds_undo, delegation_balances_undo = db_undo\<rparr>)))))"

definition pos_db_undo_merge_with_delta ::
  "('s, 'e) pos_store \<Rightarrow> pos_merge_undo \<Rightarrow> ('s, pos_error fault, unit) op" where
  "pos_db_undo_merge_with_delta st undo =
    op_bind (undo_merge_data_generic pos_errors (pool_data_value st) (pool_data_undo undo)) (\<lambda>_.
    op_bind (undo_merge_data_generic pos_errors (delegation_data_value st) (delegation_data_undo undo)) (\<lambda>_.
    op_bind (merge_balances_generic pos_errors (pool_balance_value st) (pool_balances_undo undo)) (\<lambda>_.
    op_bind (merge_balances_generic pos_errors (delegation_balance_value st) (delegation_balances_undo undo)) (\<lambda>_.
    op_bind (merge_balances_generic pos_errors (delegation_share_value st) (pool_delegation_shares_undo undo)) (\<lambda>_.
    op_return ())))))"

definition pos_db_view :: "('s, 'e) pos_store \<Rightarrow> 's \<Rightarrow> 'e pos_view" where
  "pos_db_view st s = \<lparr>pool_exists = (\<lambda>p. map_ok (\<lambda>v. v \<noteq> None) (st_get_pool_data st s p)),
    get_pool_balance = (\<lambda>p. map_ok unwrap_or_zero (st_get_pool_balance st s p)),
    get_pool_data = st_get_pool_data st s,
    get_pool_delegations_shares = st_get_pool_delegations_shares st s,
    get_delegation_balance = (\<lambda>d. map_ok unwrap_or_zero (st_get_delegation_balance st s d)),
    get_delegation_data = st_get_delegation_data st s,
    get_pool_delegation_share = (\<lambda>p d. map_ok unwrap_or_zero (st_get_pool_delegation_share st s p d))\<rparr>"

section \<open>The in-memory store\<close>

record pos_memory =
  mem_pool_data :: "(pool_id, pool_data) fmap"
  mem_pool_balances :: "(pool_id, amount) fmap"
  mem_pool_delegation_shares :: "(pool_id \<times> delegation_id, amount) fmap"
  mem_delegation_balances :: "(delegation_id, amount) fmap"
  mem_delegation_data :: "(delegation_id, delegation_data) fmap"

definition pos_memory_new :: pos_memory where
  "pos_memory_new = \<lparr>mem_pool_data = fmempty, mem_pool_balances = fmempty, mem_pool_delegation_shares = fmempty,
    mem_delegation_balances = fmempty, mem_delegation_data = fmempty\<rparr>"

definition mem_get_pool_delegations_shares ::
  "pos_memory \<Rightarrow> pool_id \<Rightarrow> pos_error + (delegation_id, amount) fmap option" where
  "mem_get_pool_delegations_shares s pool =
    (let result = fmap_of_list (map (\<lambda>((_, del_id), v). (del_id, v))
        (fm_range (pool, 0) (pool, - 1) (mem_pool_delegation_shares s)))
     in if result = fmempty then Inr None else Inr (Some result))"

definition pos_memory_store :: "(pos_memory, pos_error) pos_store" where
  "pos_memory_store = \<lparr>
    st_get_pool_balance = (\<lambda>s p. Inr (fmlookup (mem_pool_balances s) p)),
    st_get_pool_data = (\<lambda>s p. Inr (fmlookup (mem_pool_data s) p)),
    st_get_delegation_balance = (\<lambda>s d. Inr (fmlookup (mem_delegation_balances s) d)),
    st_get_delegation_data = (\<lambda>s d. Inr (fmlookup (mem_delegation_data s) d)),
    st_get_pool_delegations_shares = mem_get_pool_delegations_shares,
    st_get_pool_delegation_share = (\<lambda>s p d. Inr (fmlookup (mem_pool_delegation_shares s) (p, d))),
    st_set_pool_balance = (\<lambda>p a. op_modify (mem_pool_balances_update (fmupd p a))),
    st_del_pool_balance = (\<lambda>p. op_modify (mem_pool_balances_update (fmdrop p))),
    st_set_pool_data = (\<lambda>p x. op_modify (mem_pool_data_update (fmupd p x))),
    st_del_pool_data = (\<lambda>p. op_modify (mem_pool_data_update (fmdrop p))),
    st_set_delegation_balance = (\<lambda>d a. op_modify (mem_delegation_balances_update (fmupd d a))),
    st_del_delegation_balance = (\<lambda>d. op_modify (mem_delegation_balances_update (fmdrop d))),
    st_set_delegation_data = (\<lambda>d x. op_modify (mem_delegation_data_update (fmupd d x))),
    st_del_delegation_data = (\<lambda>d. op_modify (mem_delegation_data_update (fmdrop d))),
    st_set_pool_delegation_share = (\<lambda>p d a. op_modify (mem_pool_delegation_shares_update (fmupd (p, d) a))),
    st_del_pool_delegation_share = (\<lambda>p d. op_modify (mem_pool_delegation_shares_update (fmdrop (p, d))))\<rparr>"

lemmas pos_value_defs = pool_data_value_def delegation_data_value_def pool_balance_value_def
  delegation_balance_value_def delegation_share_value_def pos_memory_store_def

interpretation pool_data_db: data_store "pool_data_value pos_memory_store"
  "\<lambda>s. fmlookup (mem_pool_data s)" "\<lambda>k x. mem_pool_data_update (fm_put k x)" pos_errors
  by unfold_locales (auto simp: pos_value_defs op_modify_def)

interpretation delegation_data_db: data_store "delegation_data_value pos_memory_store"
  "\<lambda>s. fmlookup (mem_delegation_data s)" "\<lambda>k x. mem_delegation_data_update (fm_put k x)" pos_errors
  by unfold_locales (auto simp: pos_value_defs op_modify_def)

interpretation pool_balance_db: balance_store "pool_balance_value pos_memory_store"
  "\<lambda>s. fmlookup (mem_pool_balances s)" "\<lambda>k x. mem_pool_balances_update (fm_put k x)" pos_errors
  by unfold_locales (auto simp: pos_value_defs op_modify_def)

interpretation delegation_balance_db: balance_store "delegation_balance_value pos_memory_store"
  "\<lambda>s. fmlookup (mem_delegation_balances s)" "\<lambda>k x. mem_delegation_balances_update (fm_put k x)" pos_errors
  by unfold_locales (auto simp: pos_value_defs op_modify_def)

interpretation delegation_share_db: balance_store "delegation_share_value pos_memory_store"
  "\<lambda>s. fmlookup (mem_pool_delegation_shares s)" "\<lambda>k x. mem_pool_delegation_shares_update (fm_put k x)" pos_errors
  by unfold_locales (auto simp: pos_value_defs op_modify_def)

section \<open>Flushing a delta\<close>

text \<open>Each batch operation changes one column of the store.\<close>

lemma pool_data_column:
  "merge_data_generic pos_errors (pool_data_value pos_memory_store) x s = (r, t) \<Longrightarrow>
    t = s\<lparr>mem_pool_data := mem_pool_data t\<rparr>"
  "undo_merge_data_generic pos_errors (pool_data_value pos_memory_store) y s = (q, t) \<Longrightarrow>
    t = s\<lparr>mem_pool_data := mem_pool_data t\<rparr>"
  using pool_data_db.merge_data_frame [of x s r t "mem_pool_data_update (\<lambda>_. fmempty)"]
    pool_data_db.undo_merge_data_frame [of y s q t "mem_pool_data_update (\<lambda>_. fmempty)"]
  by (cases s; cases t; simp)+

lemma delegation_data_column:
  "merge_data_generic pos_errors (delegation_data_value pos_memory_store) x s = (r, t) \<Longrightarrow>
    t = s\<lparr>mem_delegation_data := mem_delegation_data t\<rparr>"
  "undo_merge_data_generic pos_errors (delegation_data_value pos_memory_store) y s = (q, t) \<Longrightarrow>
    t = s\<lparr>mem_delegation_data := mem_delegation_data t\<rparr>"
  using delegation_data_db.merge_data_frame [of x s r t "mem_delegation_data_update (\<lambda>_. fmempty)"]
    delegation_data_db.undo_merge_data_frame [of y s q t "mem_delegation_data_update (\<lambda>_. fmempty)"]
  by (cases s; cases t; simp)+

lemma balance_columns:
  "merge_balances_generic pos_errors (pool_balance_value pos_memory_store) pb s = (r1, t) \<Longrightarrow>
    t = s\<lparr>mem_pool_balances := mem_pool_balances t\<rparr>"
  "merge_balances_generic pos_errors (delegation_balance_value pos_memory_store) db s = (r2, t) \<Longrightarrow>
    t = s\<lparr>mem_delegation_balances := mem_delegation_balances t\<rparr>"
  "merge_balances_generic pos_errors (delegation_share_value pos_memory_store) ds s = (r3, t) \<Longrightarrow>
    t = s\<lparr>mem_pool_delegation_shares := mem_pool_delegation_shares t\<rparr>"
  using pool_balance_db.merge_balances_frame [of pb s r1 t "mem_pool_balances_update (\<lambda>_. fmempty)"]
    delegation_balance_db.merge_balances_frame [of db s r2 t "mem_delegation_balances_update (\<lambda>_. fmempty)"]
    delegation_share_db.merge_balances_frame [of ds s r3 t "mem_pool_delegation_shares_update (\<lambda>_. fmempty)"]
  by (cases s; cases t; simp)+

definition pos_fits :: "pos_memory \<Rightarrow> pos_delta_data \<Rightarrow> bool" where
  "pos_fits s d \<longleftrightarrow> based (fmlookup (mem_pool_data s)) (pool_data d)
    \<and> based (fmlookup (mem_delegation_data s)) (delegation_data d)
    \<and> balance_fits (fmlookup (mem_pool_balances s)) (pool_balances d)
    \<and> balance_fits (fmlookup (mem_delegation_balances s)) (delegation_balances d)
    \<and> balance_fits (fmlookup (mem_pool_delegation_shares s)) (pool_delegation_shares d)"

definition pos_updated :: "pos_memory \<Rightarrow> pos_delta_data \<Rightarrow> pos_memory \<Rightarrow> bool" where
  "pos_updated s d t \<longleftrightarrow> fmlookup (mem_pool_data t) = data_at (fmlookup (mem_pool_data s)) (pool_data d)
    \<and> fmlookup (mem_delegation_data t) = data_at (fmlookup (mem_delegation_data s)) (delegation_data d)
    \<and> fmlookup (mem_pool_balances t) = balance_after (fmlookup (mem_pool_balances s)) (pool_balances d)
    \<and> fmlookup (mem_delegation_balances t) =
        balance_after (fmlookup (mem_delegation_balances s)) (delegation_balances d)
    \<and> fmlookup (mem_pool_delegation_shares t) =
        balance_after (fmlookup (mem_pool_delegation_shares s)) (pool_delegation_shares d)"

definition pos_inverted :: "pos_delta_data \<Rightarrow> pos_merge_undo \<Rightarrow> bool" where
  "pos_inverted d u \<longleftrightarrow> pool_data_undo u = fmmap invert (pool_data d)
    \<and> delegation_data_undo u = fmmap invert (delegation_data d)
    \<and> amounts_negated (pool_balances d) (pool_balances_undo u)
    \<and> amounts_negated (delegation_balances d) (delegation_balances_undo u)
    \<and> amounts_negated (pool_delegation_shares d) (pool_delegation_shares_undo u)"

lemma pos_db_merge_Inr:
  assumes "pos_db_merge_with_delta pos_memory_store d s = (Inr u, t)"
  shows "pos_fits s d" and "pos_updated s d t" and "pos_inverted d u"
proof -
  obtain pd dd pb db ds s1 s2 s3 s4 where
    m: "merge_data_generic pos_errors (pool_data_value pos_memory_store) (pool_data d) s = (Inr pd, s1)"
      "merge_data_generic pos_errors (delegation_data_value pos_memory_store) (delegation_data d) s1 = (Inr dd, s2)"
      "merge_balances_generic pos_errors (pool_balance_value pos_memory_store) (pool_balances d) s2 = (Inr pb, s3)"
      "merge_balances_generic pos_errors (delegation_balance_value pos_memory_store) (delegation_balances d) s3 =
        (Inr db, s4)"
      "merge_balances_generic pos_errors (delegation_share_value pos_memory_store) (pool_delegation_shares d) s4 =
        (Inr ds, t)"
    and u: "u = \<lparr>pool_data_undo = pd, delegation_data_undo = dd, pool_balances_undo = pb,
      pool_delegation_shares_undo = ds, delegation_balances_undo = db\<rparr>"
    using assms by (auto simp: pos_db_merge_with_delta_def op_simps)
  note c = pool_data_column(1) [OF m(1)] delegation_data_column(1) [OF m(2)] balance_columns(1) [OF m(3)]
    balance_columns(2) [OF m(4)] balance_columns(3) [OF m(5)]
  have f: "mem_pool_data t = mem_pool_data s1" "mem_delegation_data t = mem_delegation_data s2"
    "mem_pool_balances t = mem_pool_balances s3" "mem_delegation_balances t = mem_delegation_balances s4"
    "mem_delegation_data s1 = mem_delegation_data s" "mem_pool_balances s2 = mem_pool_balances s"
    "mem_delegation_balances s3 = mem_delegation_balances s"
    "mem_pool_delegation_shares s4 = mem_pool_delegation_shares s"
    by (subst c(5), subst c(4), subst c(3), subst c(2), simp)
      (subst c(5), subst c(4), subst c(3), simp, subst c(5), subst c(4), simp, subst c(5), simp,
       subst c(1), simp, subst c(2), subst c(1), simp, subst c(3), subst c(2), subst c(1), simp,
       subst c(4), subst c(3), subst c(2), subst c(1), simp)
  note r = pool_data_db.merge_data_Inr [OF m(1)] delegation_data_db.merge_data_Inr [OF m(2)]
    pool_balance_db.merge_balances_Inr [OF m(3)] delegation_balance_db.merge_balances_Inr [OF m(4)]
    delegation_share_db.merge_balances_Inr [OF m(5)]
  show "pos_fits s d" using r by (simp add: pos_fits_def f)
  show "pos_updated s d t" using r by (simp add: pos_updated_def f)
  show "pos_inverted d u" using r by (simp add: pos_inverted_def u)
qed

lemma pos_db_merge_succeeds:
  assumes "pos_fits s d"
  shows "\<exists>u t. pos_db_merge_with_delta pos_memory_store d s = (Inr u, t)"
proof -
  note fits = assms [unfolded pos_fits_def]
  obtain pd s1 where m1: "merge_data_generic pos_errors (pool_data_value pos_memory_store) (pool_data d) s = (Inr pd, s1)"
    using pool_data_db.merge_data_succeeds fits by blast
  have c1: "s1 = s\<lparr>mem_pool_data := mem_pool_data s1\<rparr>" by (rule pool_data_column(1) [OF m1])
  have b1: "mem_delegation_data s1 = mem_delegation_data s" by (subst c1) simp
  obtain dd s2 where m2: "merge_data_generic pos_errors (delegation_data_value pos_memory_store) (delegation_data d) s1 =
      (Inr dd, s2)"
    using delegation_data_db.merge_data_succeeds [of s1 "delegation_data d"] fits by (auto simp: b1)
  have c2: "s2 = s1\<lparr>mem_delegation_data := mem_delegation_data s2\<rparr>" by (rule delegation_data_column(1) [OF m2])
  have b2: "mem_pool_balances s2 = mem_pool_balances s" by (subst c2, subst c1) simp
  obtain pb s3 where m3: "merge_balances_generic pos_errors (pool_balance_value pos_memory_store) (pool_balances d) s2 =
      (Inr pb, s3)"
    using pool_balance_db.merge_balances_succeeds [of s2 "pool_balances d"] fits by (auto simp: b2)
  have c3: "s3 = s2\<lparr>mem_pool_balances := mem_pool_balances s3\<rparr>" by (rule balance_columns(1) [OF m3])
  have b3: "mem_delegation_balances s3 = mem_delegation_balances s" by (subst c3, subst c2, subst c1) simp
  obtain db s4 where m4: "merge_balances_generic pos_errors (delegation_balance_value pos_memory_store)
      (delegation_balances d) s3 = (Inr db, s4)"
    using delegation_balance_db.merge_balances_succeeds [of s3 "delegation_balances d"] fits by (auto simp: b3)
  have c4: "s4 = s3\<lparr>mem_delegation_balances := mem_delegation_balances s4\<rparr>" by (rule balance_columns(2) [OF m4])
  have b4: "mem_pool_delegation_shares s4 = mem_pool_delegation_shares s"
    by (subst c4, subst c3, subst c2, subst c1) simp
  obtain ds t where "merge_balances_generic pos_errors (delegation_share_value pos_memory_store)
      (pool_delegation_shares d) s4 = (Inr ds, t)"
    using delegation_share_db.merge_balances_succeeds [of s4 "pool_delegation_shares d"] fits by (auto simp: b4)
  with m1 m2 m3 m4 show ?thesis by (auto simp: pos_db_merge_with_delta_def op_simps)
qed

text \<open>Undoing a flush is flushing the inverted delta.\<close>

definition undo_as_delta :: "pos_merge_undo \<Rightarrow> pos_delta_data" where
  "undo_as_delta u = \<lparr>pool_data = fmmap as_delta (pool_data_undo u), pool_balances = pool_balances_undo u,
    pool_delegation_shares = pool_delegation_shares_undo u, delegation_balances = delegation_balances_undo u,
    delegation_data = fmmap as_delta (delegation_data_undo u)\<rparr>"

lemma pos_db_undo_merge:
  assumes "pos_fits t (undo_as_delta u)" "pos_updated t (undo_as_delta u) s"
  shows "pos_db_undo_merge_with_delta pos_memory_store u t = (Inr (), s)"
proof -
  note fits = assms(1) [unfolded pos_fits_def undo_as_delta_def, simplified]
  obtain s1 where m1: "undo_merge_data_generic pos_errors (pool_data_value pos_memory_store) (pool_data_undo u) t = (Inr (), s1)"
    using pool_data_db.undo_merge_data_succeeds fits by blast
  have c1: "s1 = t\<lparr>mem_pool_data := mem_pool_data s1\<rparr>" by (rule pool_data_column(2) [OF m1])
  have b1: "mem_delegation_data s1 = mem_delegation_data t" by (subst c1) simp
  obtain s2 where m2: "undo_merge_data_generic pos_errors (delegation_data_value pos_memory_store)
      (delegation_data_undo u) s1 = (Inr (), s2)"
    using delegation_data_db.undo_merge_data_succeeds [of s1 "delegation_data_undo u"] fits by (auto simp: b1)
  have c2: "s2 = s1\<lparr>mem_delegation_data := mem_delegation_data s2\<rparr>" by (rule delegation_data_column(2) [OF m2])
  have b2: "mem_pool_balances s2 = mem_pool_balances t" by (subst c2, subst c1) simp
  obtain pb s3 where m3: "merge_balances_generic pos_errors (pool_balance_value pos_memory_store)
      (pool_balances_undo u) s2 = (Inr pb, s3)"
    using pool_balance_db.merge_balances_succeeds [of s2 "pool_balances_undo u"] fits by (auto simp: b2)
  have c3: "s3 = s2\<lparr>mem_pool_balances := mem_pool_balances s3\<rparr>" by (rule balance_columns(1) [OF m3])
  have b3: "mem_delegation_balances s3 = mem_delegation_balances t" by (subst c3, subst c2, subst c1) simp
  obtain db s4 where m4: "merge_balances_generic pos_errors (delegation_balance_value pos_memory_store)
      (delegation_balances_undo u) s3 = (Inr db, s4)"
    using delegation_balance_db.merge_balances_succeeds [of s3 "delegation_balances_undo u"] fits by (auto simp: b3)
  have c4: "s4 = s3\<lparr>mem_delegation_balances := mem_delegation_balances s4\<rparr>" by (rule balance_columns(2) [OF m4])
  have b4: "mem_pool_delegation_shares s4 = mem_pool_delegation_shares t"
    by (subst c4, subst c3, subst c2, subst c1) simp
  obtain ds s5 where m5: "merge_balances_generic pos_errors (delegation_share_value pos_memory_store)
      (pool_delegation_shares_undo u) s4 = (Inr ds, s5)"
    using delegation_share_db.merge_balances_succeeds [of s4 "pool_delegation_shares_undo u"] fits by (auto simp: b4)
  have c5: "s5 = s4\<lparr>mem_pool_delegation_shares := mem_pool_delegation_shares s5\<rparr>"
    by (rule balance_columns(3) [OF m5])
  have "mem_pool_data s5 = mem_pool_data s1" "mem_delegation_data s5 = mem_delegation_data s2"
    "mem_pool_balances s5 = mem_pool_balances s3" "mem_delegation_balances s5 = mem_delegation_balances s4"
    by (subst c5, subst c4, subst c3, subst c2, simp)
      (subst c5, subst c4, subst c3, simp, subst c5, subst c4, simp, subst c5, simp)
  moreover note u = assms(2) [unfolded pos_updated_def undo_as_delta_def, simplified]
  have "mem_pool_data s1 = mem_pool_data s" "mem_delegation_data s2 = mem_delegation_data s"
    "mem_pool_balances s3 = mem_pool_balances s" "mem_delegation_balances s4 = mem_delegation_balances s"
    "mem_pool_delegation_shares s5 = mem_pool_delegation_shares s"
    using u pool_data_db.undo_merge_data_Inr(2) [OF m1] delegation_data_db.undo_merge_data_Inr(2) [OF m2]
      pool_balance_db.merge_balances_Inr(2) [OF m3] delegation_balance_db.merge_balances_Inr(2) [OF m4]
      delegation_share_db.merge_balances_Inr(2) [OF m5]
    by (auto simp: b1 b2 b3 b4 fmlookup_inject [symmetric])
  ultimately have "s5 = s" by (cases s; cases s5) simp
  with m1 m2 m3 m4 m5 show ?thesis by (auto simp: pos_db_undo_merge_with_delta_def op_simps)
qed

lemma pos_db_merge_no_panic: "pos_db_merge_with_delta pos_memory_store d s \<noteq> (Inl Panic, t)"
  using pool_data_db.merge_data_no_panic delegation_data_db.merge_data_no_panic
    pool_balance_db.merge_balances_no_panic delegation_balance_db.merge_balances_no_panic
    delegation_share_db.merge_balances_no_panic
  by (auto simp: pos_db_merge_with_delta_def op_simps)

section \<open>Views before and after a flush\<close>

lemma pos_db_view_simps [simp]:
  "get_pool_balance (pos_db_view pos_memory_store s) p = Inr (unwrap_or_zero (fmlookup (mem_pool_balances s) p))"
  "get_pool_data (pos_db_view pos_memory_store s) p = Inr (fmlookup (mem_pool_data s) p)"
  "get_delegation_balance (pos_db_view pos_memory_store s) e = Inr (unwrap_or_zero (fmlookup (mem_delegation_balances s) e))"
  "get_delegation_data (pos_db_view pos_memory_store s) e = Inr (fmlookup (mem_delegation_data s) e)"
  "get_pool_delegation_share (pos_db_view pos_memory_store s) p e =
    Inr (unwrap_or_zero (fmlookup (mem_pool_delegation_shares s) (p, e)))"
  "get_pool_delegations_shares (pos_db_view pos_memory_store s) = mem_get_pool_delegations_shares s"
  "pool_exists (pos_db_view pos_memory_store s) p = Inr (fmlookup (mem_pool_data s) p \<noteq> None)"
  by (simp_all add: pos_db_view_def pos_memory_store_def)

lemma delta_get_share_query:
  "delta_get_pool_delegation_share P d p e =
    query_amount ViewFail AccountingError (\<lambda>(p, e). get_pool_delegation_share P p e) (pool_delegation_shares d) (p, e)"
  by (simp add: delta_get_pool_delegation_share_def query_amount_def)

lemma flush_queries:
  assumes "pos_fits s d" "pos_updated s d t"
  shows "delta_get_pool_balance (pos_db_view pos_memory_store s) d p =
      get_pool_balance (pos_db_view pos_memory_store t) p"
    and "delta_get_pool_data (pos_db_view pos_memory_store s) d p = get_pool_data (pos_db_view pos_memory_store t) p"
    and "delta_pool_exists (pos_db_view pos_memory_store s) d p = pool_exists (pos_db_view pos_memory_store t) p"
    and "delta_get_delegation_balance (pos_db_view pos_memory_store s) d e =
      get_delegation_balance (pos_db_view pos_memory_store t) e"
    and "delta_get_delegation_data (pos_db_view pos_memory_store s) d e =
      get_delegation_data (pos_db_view pos_memory_store t) e"
    and "delta_get_pool_delegation_share (pos_db_view pos_memory_store s) d p e =
      get_pool_delegation_share (pos_db_view pos_memory_store t) p e"
proof -
  note * = assms(1) [unfolded pos_fits_def] assms(2) [unfolded pos_updated_def]
  show "delta_get_pool_balance (pos_db_view pos_memory_store s) d p =
      get_pool_balance (pos_db_view pos_memory_store t) p"
    using * by (simp add: delta_get_amount_query query_amount_flush [where b = "fmlookup (mem_pool_balances s)"])
  show d: "delta_get_pool_data (pos_db_view pos_memory_store s) d p = get_pool_data (pos_db_view pos_memory_store t) p"
    using * by (simp add: delta_get_data_query query_data_flush [where b = "fmlookup (mem_pool_data s)"])
  show "delta_pool_exists (pos_db_view pos_memory_store s) d p = pool_exists (pos_db_view pos_memory_store t) p"
    using d by (simp add: delta_pool_exists_def)
  show "delta_get_delegation_balance (pos_db_view pos_memory_store s) d e =
      get_delegation_balance (pos_db_view pos_memory_store t) e"
    using * by (simp add: delta_get_amount_query query_amount_flush [where b = "fmlookup (mem_delegation_balances s)"])
  show "delta_get_delegation_data (pos_db_view pos_memory_store s) d e =
      get_delegation_data (pos_db_view pos_memory_store t) e"
    using * by (simp add: delta_get_data_query query_data_flush [where b = "fmlookup (mem_delegation_data s)"])
  show "delta_get_pool_delegation_share (pos_db_view pos_memory_store s) d p e =
      get_pool_delegation_share (pos_db_view pos_memory_store t) p e"
    using * by (simp add: delta_get_share_query
        query_amount_flush [where b = "fmlookup (mem_pool_delegation_shares s)"])
qed

text \<open>The range of the ids of one pool.\<close>

lemma fm_range_pool:
  "fmlookup (fmap_of_list (map (\<lambda>((_, e), v). (e, v)) (fm_range (p :: h256, 0 :: h256) (p, - 1) m))) e =
    fmlookup m (p, e)"
proof -
  have range: "(p, 0) \<le> k \<and> k \<le> (p, - 1) \<longleftrightarrow> fst k = p" for k :: "h256 \<times> h256"
    by (cases k) (auto simp: less_eq_prod_def)
  have "map_of (map (\<lambda>((_, e), v). (e, v)) (filter (\<lambda>(k, _). fst k = p) xs)) e = map_of xs (p, e)"
    if "distinct (map fst xs)" for xs :: "((h256 \<times> h256) \<times> 'a) list"
    by (induction xs) auto
  then show ?thesis
    by (simp add: fm_range_def range fmlookup_fmap_of_list)
qed

definition share_in :: "(delegation_id, amount) fmap option \<Rightarrow> delegation_id \<Rightarrow> amount" where
  "share_in m e = (case m of None \<Rightarrow> amount_ZERO | Some f \<Rightarrow> unwrap_or_zero (fmlookup f e))"

lemma amt_share_in: "amt (share_in m e) = stored_amount (fmlookup (case m of None \<Rightarrow> fmempty | Some f \<Rightarrow> f) e)"
  by (cases m) (simp_all add: share_in_def stored_amount_def)

lemma mem_shares:
  "\<exists>m. mem_get_pool_delegations_shares s p = Inr m \<and>
    (\<forall>e. fmlookup (case m of None \<Rightarrow> fmempty | Some f \<Rightarrow> f) e = fmlookup (mem_pool_delegation_shares s) (p, e))"
proof -
  let ?r = "fmap_of_list (map (\<lambda>((_, del_id), v). (del_id, v))
    (fm_range (p, 0) (p, - 1) (mem_pool_delegation_shares s)))"
  have "?r = fmempty \<Longrightarrow> fmlookup (mem_pool_delegation_shares s) (p, e) = None" for e
    using fm_range_pool [of p "mem_pool_delegation_shares s" e] by simp
  then show ?thesis
    by (auto simp: mem_get_pool_delegations_shares_def Let_def fm_range_pool)
qed

lemma cached_shares:
  "fmlookup (case get_cached_delegations_shares d p of None \<Rightarrow> fmempty | Some f \<Rightarrow> f) e =
    fmlookup (pool_delegation_shares d) (p, e)"
  using fm_range_pool [of p "pool_delegation_shares d" e]
  by (auto simp: get_cached_delegations_shares_def Let_def)

lemma sum_maps_loop_Inr:
  assumes "distinct (map fst xs)"
    and "\<And>k v. (k, v) \<in> set xs \<Longrightarrow> stored_amount (fmlookup m k) < 2 ^ 127
      \<and> 0 \<le> stored_amount (fmlookup m k) + samt v \<and> stored_amount (fmlookup m k) + samt v < 2 ^ 127"
  shows "\<exists>m'. sum_maps_loop m xs = Inr m' \<and> (\<forall>k. stored_amount (fmlookup m' k) =
    stored_amount (fmlookup m k) + (case map_of xs k of None \<Rightarrow> 0 | Some v \<Rightarrow> samt v))"
  using assms
proof (induction xs arbitrary: m)
  case Nil
  then show ?case by simp
next
  case (Cons x xs)
  obtain k v where x: "x = (k, v)" by (cases x)
  define b where "b = unwrap_or_zero (fmlookup m k)"
  have b: "amt b = stored_amount (fmlookup m k)" by (simp add: b_def)
  have r: "amt b < 2 ^ 127" "0 \<le> amt b + samt v" "amt b + samt v < 2 ^ 127"
    using Cons.prems(2) [of k v] by (simp_all add: x b)
  obtain s1 where s1: "into_signed b = Some s1" "samt s1 = amt b"
    using into_signed_exists [OF r(1)] by blast
  have "i128_range (samt s1 + samt v)" using r s1 by simp
  then obtain s2 where s2: "signed_add s1 v = Some s2" "samt s2 = amt b + samt v"
    using signed_add_exists [of s1 v] s1(2) by auto
  then obtain n where n: "into_unsigned s2 = Some n" "amt n = amt b + samt v"
    using into_unsigned_exists [of s2] r(2) by auto
  have "(case fmlookup m k of None \<Rightarrow> from_atoms 0 | Some pv \<Rightarrow> pv) = b"
    by (simp add: b_def unwrap_or_zero_def amount_ZERO_def split: option.splits)
  then have step: "sum_maps_loop m (x # xs) = sum_maps_loop (fmupd k n m) xs"
    using s1 s2 n by (simp add: x Let_def)
  have "\<exists>m'. sum_maps_loop (fmupd k n m) xs = Inr m' \<and> (\<forall>j. stored_amount (fmlookup m' j) =
      stored_amount (fmlookup (fmupd k n m) j) + (case map_of xs j of None \<Rightarrow> 0 | Some v \<Rightarrow> samt v))"
    using Cons.prems by (intro Cons.IH) (auto simp: x rev_image_eqI)
  then obtain m' where m': "sum_maps_loop (fmupd k n m) xs = Inr m'"
    "\<And>j. stored_amount (fmlookup m' j) =
      stored_amount (fmlookup (fmupd k n m) j) + (case map_of xs j of None \<Rightarrow> 0 | Some v \<Rightarrow> samt v)" by blast
  have "map_of xs k = None" using Cons.prems(1) by (simp add: x map_of_eq_None_iff)
  then show ?case
    using m' step n b by (auto simp: x stored_amount_def)
qed

lemma sum_maps_Inr:
  assumes "balance_fits (fmlookup m) d"
  shows "\<exists>m'. sum_maps m d = Inr m' \<and> (\<forall>k. stored_amount (fmlookup m' k) = stored_amount (fmlookup m k) + net d k)"
proof -
  have "\<exists>m'. sum_maps_loop m (sorted_list_of_fmap d) = Inr m' \<and> (\<forall>k. stored_amount (fmlookup m' k) =
      stored_amount (fmlookup m k) + (case map_of (sorted_list_of_fmap d) k of None \<Rightarrow> 0 | Some v \<Rightarrow> samt v))"
  proof (rule sum_maps_loop_Inr)
    fix k v assume "(k, v) \<in> set (sorted_list_of_fmap d)"
    then have "fmlookup d k = Some v" by simp
    then show "stored_amount (fmlookup m k) < 2 ^ 127 \<and> 0 \<le> stored_amount (fmlookup m k) + samt v
        \<and> stored_amount (fmlookup m k) + samt v < 2 ^ 127"
      using assms by (auto simp: balance_fits_def net_def dest: spec [of _ k])
  qed simp
  then show ?thesis by (simp add: sum_maps_def net_def)
qed

lemma unsigned_pairs_Inr:
  assumes "balance_fits (\<lambda>_. None) d"
  shows "\<exists>r. res_map signed_to_unsigned_pair (sorted_list_of_fmap d) = Inr r \<and>
    (\<forall>k. stored_amount (fmlookup (fmap_of_list r) k) = net d k)"
proof -
  define f where "f = (\<lambda>(k :: h256, v). (k, the (into_unsigned v)))"
  have v: "\<exists>a. into_unsigned v = Some a \<and> amt a = samt v" if "fmlookup d k = Some v" for k v
  proof -
    have "0 \<le> net d k" using assms that by (auto simp: balance_fits_def stored_amount_def dest: spec [of _ k])
    then show ?thesis using that by (intro into_unsigned_exists) (simp add: net_def)
  qed
  have m: "res_map signed_to_unsigned_pair xs = Inr (map f xs)"
    if "\<And>k v. (k, v) \<in> set xs \<Longrightarrow> fmlookup d k = Some v" for xs
    using that
  proof (induction xs)
    case (Cons x xs)
    obtain k w where x: "x = (k, w)" by (cases x)
    then obtain a where "into_unsigned w = Some a" using v Cons.prems [of k w] by auto
    then show ?case using Cons by (simp add: x f_def signed_to_unsigned_pair_def)
  qed simp
  have "res_map signed_to_unsigned_pair (sorted_list_of_fmap d) = Inr (map f (sorted_list_of_fmap d))"
    by (rule m) simp
  moreover have "stored_amount (fmlookup (fmap_of_list (map f (sorted_list_of_fmap d))) k) = net d k" for k
    using v [of k]
    by (cases "fmlookup d k") (auto simp: fmlookup_fmap_of_list f_def map_of_map stored_amount_def net_def)
  ultimately show ?thesis by blast
qed

lemma flush_shares:
  assumes "pos_fits s d" "pos_updated s d t"
  shows "\<exists>m m'. delta_get_pool_delegations_shares (pos_db_view pos_memory_store s) d p = Inr m
    \<and> get_pool_delegations_shares (pos_db_view pos_memory_store t) p = Inr m' \<and> (\<forall>e. share_in m e = share_in m' e)"
proof -
  let ?c = "get_cached_delegations_shares d p"
  obtain ps where ps: "mem_get_pool_delegations_shares s p = Inr ps"
    "\<And>e. fmlookup (case ps of None \<Rightarrow> fmempty | Some f \<Rightarrow> f) e = fmlookup (mem_pool_delegation_shares s) (p, e)"
    using mem_shares by blast
  obtain pt where pt: "mem_get_pool_delegations_shares t p = Inr pt"
    "\<And>e. fmlookup (case pt of None \<Rightarrow> fmempty | Some f \<Rightarrow> f) e = fmlookup (mem_pool_delegation_shares t) (p, e)"
    using mem_shares by blast
  note bf = assms(1) [unfolded pos_fits_def]
  have f: "balance_fits (fmlookup (case ps of None \<Rightarrow> fmempty | Some f \<Rightarrow> f)) (case ?c of None \<Rightarrow> fmempty | Some f \<Rightarrow> f)"
    using bf unfolding balance_fits_def ps(2) cached_shares net_def by blast
  have n: "net (case ?c of None \<Rightarrow> fmempty | Some f \<Rightarrow> f) e = net (pool_delegation_shares d) (p, e)" for e
    by (simp add: net_def cached_shares)
  have t: "stored_amount (fmlookup (case pt of None \<Rightarrow> fmempty | Some f \<Rightarrow> f) e) =
      stored_amount (fmlookup (case ps of None \<Rightarrow> fmempty | Some f \<Rightarrow> f) e) +
      net (case ?c of None \<Rightarrow> fmempty | Some f \<Rightarrow> f) e" for e
    using bf assms(2) by (simp add: pt ps n pos_updated_def stored_balance_after)
  have "\<exists>m. delta_get_pool_delegations_shares (pos_db_view pos_memory_store s) d p = Inr m \<and>
      (\<forall>e. stored_amount (fmlookup (case m of None \<Rightarrow> fmempty | Some f \<Rightarrow> f) e) =
        stored_amount (fmlookup (case ps of None \<Rightarrow> fmempty | Some f \<Rightarrow> f) e) +
        net (case ?c of None \<Rightarrow> fmempty | Some f \<Rightarrow> f) e)"
  proof (cases ps)
    case None
    moreover have "fmlookup fmempty = (\<lambda>_ :: delegation_id. None :: amount option)" by (simp add: fun_eq_iff)
    ultimately show ?thesis
      using f unsigned_pairs_Inr [of "the ?c"]
      by (cases ?c) (auto simp: delta_get_pool_delegations_shares_def ps(1) stored_amount_def)
  next
    case (Some m1)
    then show ?thesis
      using f sum_maps_Inr [of m1 "the ?c"]
      by (cases ?c) (auto simp: delta_get_pool_delegations_shares_def ps(1))
  qed
  then obtain m where m: "delta_get_pool_delegations_shares (pos_db_view pos_memory_store s) d p = Inr m"
    "\<And>e. stored_amount (fmlookup (case m of None \<Rightarrow> fmempty | Some f \<Rightarrow> f) e) =
      stored_amount (fmlookup (case pt of None \<Rightarrow> fmempty | Some f \<Rightarrow> f) e)"
    using t by auto
  have "amt (share_in m e) = amt (share_in pt e)" for e
    using m(2) [of e] by (simp only: amt_share_in)
  then have "share_in m e = share_in pt e" for e by simp
  with m(1) pt(1) show ?thesis by auto
qed

section \<open>Properties\<close>

text \<open>
  C4: Flushing a proof-of-stake delta into the database is transparent. If it succeeds, then every query of
  the database for the balance, data or existence of a pool, for the balance or data of a delegation and for
  the share of a delegation in a pool afterwards returns what the delta over the database returned before,
  and the map of all shares in a pool gives every delegation the same share.
\<close>

theorem pos_flush_transparent:
  assumes "pos_db_merge_with_delta pos_memory_store d s = (Inr u, t)"
  shows "get_pool_balance (pos_db_view pos_memory_store t) p = delta_get_pool_balance (pos_db_view pos_memory_store s) d p
    \<and> get_pool_data (pos_db_view pos_memory_store t) p = delta_get_pool_data (pos_db_view pos_memory_store s) d p
    \<and> pool_exists (pos_db_view pos_memory_store t) p = delta_pool_exists (pos_db_view pos_memory_store s) d p
    \<and> get_delegation_balance (pos_db_view pos_memory_store t) e =
        delta_get_delegation_balance (pos_db_view pos_memory_store s) d e
    \<and> get_delegation_data (pos_db_view pos_memory_store t) e =
        delta_get_delegation_data (pos_db_view pos_memory_store s) d e
    \<and> get_pool_delegation_share (pos_db_view pos_memory_store t) p e =
        delta_get_pool_delegation_share (pos_db_view pos_memory_store s) d p e
    \<and> (\<exists>m m'. delta_get_pool_delegations_shares (pos_db_view pos_memory_store s) d p = Inr m
        \<and> get_pool_delegations_shares (pos_db_view pos_memory_store t) p = Inr m' \<and> share_in m = share_in m')"
  using flush_queries [OF pos_db_merge_Inr(1,2) [OF assms]] flush_shares [OF pos_db_merge_Inr(1,2) [OF assms], of p]
  by (simp add: fun_eq_iff)

text \<open>
  Flushing and undoing the flush. A flush succeeds exactly when every data delta starts at the stored value
  and every changed balance stays within \<open>i128\<close> and does not become negative; it never reaches the \<open>expect\<close> on
  the negation of a delta. Undoing it with the returned undo data restores the store, provided that the store
  held no zero balance before, as is the case for every store written by flushes.
\<close>

theorem pos_flush_undo:
  assumes "\<forall>k. fmlookup (mem_pool_balances s) k \<noteq> Some amount_ZERO"
    and "\<forall>k. fmlookup (mem_delegation_balances s) k \<noteq> Some amount_ZERO"
    and "\<forall>k. fmlookup (mem_pool_delegation_shares s) k \<noteq> Some amount_ZERO"
  shows "((\<exists>u t. pos_db_merge_with_delta pos_memory_store d s = (Inr u, t)
      \<and> pos_db_undo_merge_with_delta pos_memory_store u t = (Inr (), s)) \<longleftrightarrow> pos_fits s d)
    \<and> fst (pos_db_merge_with_delta pos_memory_store d s) \<noteq> Inl Panic"
proof -
  have restored: "pos_db_undo_merge_with_delta pos_memory_store u t = (Inr (), s)"
    if m: "pos_db_merge_with_delta pos_memory_store d s = (Inr u, t)" for u t
  proof -
    note f = pos_db_merge_Inr(1) [OF m, unfolded pos_fits_def] and t = pos_db_merge_Inr(2) [OF m, unfolded pos_updated_def]
      and u = pos_db_merge_Inr(3) [OF m, unfolded pos_inverted_def]
    have "pos_fits t (undo_as_delta u)"
      using f u by (simp add: pos_fits_def undo_as_delta_def t data_at_back(1) balance_fits_back)
    moreover have "balance_after (balance_after (fmlookup (mem_pool_delegation_shares s)) (pool_delegation_shares d))
        (pool_delegation_shares_undo u) = fmlookup (mem_pool_delegation_shares s)"
      using f u assms(3) by (intro balance_after_back) auto
    then have "pos_updated t (undo_as_delta u) s"
      using f u assms(1,2) by (simp add: pos_updated_def undo_as_delta_def t data_at_back(2) balance_after_back)
    ultimately show ?thesis by (rule pos_db_undo_merge)
  qed
  moreover have "fst (pos_db_merge_with_delta pos_memory_store d s) \<noteq> Inl Panic"
    using pos_db_merge_no_panic by (metis prod.collapse)
  ultimately show ?thesis
    using pos_db_merge_Inr(1) pos_db_merge_succeeds by blast
qed

definition sample_pos_delta :: pos_delta_data where
  "sample_pos_delta = pos_delta_data_new\<lparr>pool_balances := fmap_of_list [(7, SignedAmount 100)],
    pool_data := fmap_of_list [(7, DataDelta None (Some sample_pool))]\<rparr>"

lemma sample_pos_delta_fits: "pos_fits pos_memory_new sample_pos_delta"
  by (simp add: pos_fits_def sample_pos_delta_def pos_memory_new_def pos_delta_data_new_def based_def
      balance_fits_def fmlookup_fmap_of_list stored_amount_def net_def samt_def)

theorem pos_flush_transparent_witness:
  "\<exists>u t. pos_db_merge_with_delta pos_memory_store sample_pos_delta pos_memory_new = (Inr u, t)
    \<and> get_pool_data (pos_db_view pos_memory_store t) 7 = Inr (Some sample_pool)"
proof -
  obtain u t where m: "pos_db_merge_with_delta pos_memory_store sample_pos_delta pos_memory_new = (Inr u, t)"
    using pos_db_merge_succeeds [OF sample_pos_delta_fits] by blast
  with pos_flush_transparent [OF m, of 7 0] show ?thesis
    by (simp add: delta_get_pool_data_def get_data_def sample_pos_delta_def pos_delta_data_new_def fmlookup_fmap_of_list)
qed

theorem pos_flush_undo_witness:
  "\<exists>u t. pos_db_merge_with_delta pos_memory_store sample_pos_delta pos_memory_new = (Inr u, t)
    \<and> pos_db_undo_merge_with_delta pos_memory_store u t = (Inr (), pos_memory_new)"
  using pos_flush_undo [of pos_memory_new sample_pos_delta] sample_pos_delta_fits
  by (simp add: pos_memory_new_def)

end
