(* ===== verification/PoSConsistency.thy ===== *)
theory PoSConsistency
  imports PoSStorage
begin

text \<open>
  An abstract machine for proof-of-stake accounting over integers, the refinement of the delta operations
  to it, and the consistency of the accounting: the share of a delegation in its pool is the balance of
  the delegation, and the balance of an existing pool is the balance of its staker plus all the shares in it.
\<close>

section \<open>The abstract machine\<close>

record pos_abs =
  a_pools :: "pool_id \<Rightarrow> pool_data option"
  a_balances :: "pool_id \<Rightarrow> int"
  a_shares :: "pool_id \<times> delegation_id \<Rightarrow> int"
  a_delegation_balances :: "delegation_id \<Rightarrow> int"
  a_delegations :: "delegation_id \<Rightarrow> delegation_data option"

inductive pos_step :: "id_hasher \<Rightarrow> pos_abs \<Rightarrow> pos_command \<Rightarrow> pos_abs \<Rightarrow> bool" for h where
  step_create_pool:
    "a_pools A p = None \<Longrightarrow> a_balances A p = 0 \<Longrightarrow>
     pos_step h A (CmdCreatePool p data) (A\<lparr>a_pools := (a_pools A)(p := Some data),
       a_balances := (a_balances A)(p := amt (pledge_amount data))\<rparr>)"
| step_decommission_pool:
    "a_pools A p = Some x \<Longrightarrow> 0 \<le> a_balances A p \<Longrightarrow>
     pos_step h A (CmdDecommissionPool p) (A\<lparr>a_pools := (a_pools A)(p := None),
       a_balances := (a_balances A)(p := 0)\<rparr>)"
| step_increase_staker_rewards:
    "a_pools A p = Some x \<Longrightarrow> amt r = amt (staker_rewards x) + amt a \<Longrightarrow>
     pos_step h A (CmdIncreaseStakerRewards p a) (A\<lparr>a_pools := (a_pools A)(p := Some (x\<lparr>staker_rewards := r\<rparr>)),
       a_balances := (a_balances A)(p := a_balances A p + amt a)\<rparr>)"
| step_create_delegation:
    "a_pools A p \<noteq> None \<Longrightarrow> e = make_delegation_id h i \<Longrightarrow> a_delegations A e = None \<Longrightarrow>
     pos_step h A (CmdCreateDelegationId p dest i) (A\<lparr>a_delegations := (a_delegations A)(e := Some (delegation_data_new p dest))\<rparr>)"
| step_delete_delegation:
    "a_delegations A e = Some x \<Longrightarrow> a_delegation_balances A e = 0 \<Longrightarrow> a_shares A (source_pool x, e) = 0 \<Longrightarrow>
     a_pools A (source_pool x) = None \<Longrightarrow>
     pos_step h A (CmdDeleteDelegationId e) (A\<lparr>a_delegations := (a_delegations A)(e := None)\<rparr>)"
| step_delegate:
    "a_delegations A e = Some x \<Longrightarrow>
     pos_step h A (CmdDelegateStaking e a) (A\<lparr>
       a_balances := (a_balances A)(source_pool x := a_balances A (source_pool x) + amt a),
       a_shares := (a_shares A)((source_pool x, e) := a_shares A (source_pool x, e) + amt a),
       a_delegation_balances := (a_delegation_balances A)(e := a_delegation_balances A e + amt a)\<rparr>)"
| step_spend_share:
    "a_delegations A e = Some x \<Longrightarrow>
     pos_step h A (CmdSpendShare e a) (A\<lparr>
       a_balances := (if a_pools A (source_pool x) = None then a_balances A
         else (a_balances A)(source_pool x := a_balances A (source_pool x) - amt a)),
       a_shares := (a_shares A)((source_pool x, e) := a_shares A (source_pool x, e) - amt a),
       a_delegation_balances := (a_delegation_balances A)(e := a_delegation_balances A e - amt a)\<rparr>)"

inductive_cases pos_step_createE: "pos_step h A (CmdCreatePool p data) B"

inductive pos_steps :: "id_hasher \<Rightarrow> pos_abs \<Rightarrow> pos_command list \<Rightarrow> pos_abs \<Rightarrow> bool" for h where
  steps_Nil: "pos_steps h A [] A"
| steps_Cons: "pos_step h A cmd B \<Longrightarrow> pos_steps h B cmds C \<Longrightarrow> pos_steps h A (cmd # cmds) C"

inductive_simps pos_steps_Cons: "pos_steps h A (cmd # cmds) C"
inductive_simps pos_steps_Nil: "pos_steps h A [] C"

section \<open>Refinement\<close>

text \<open>The abstract state of a delta over the in-memory database.\<close>

definition pos_abs_of :: "pos_memory \<Rightarrow> pos_delta_data \<Rightarrow> pos_abs" where
  "pos_abs_of s d = \<lparr>a_pools = data_at (fmlookup (mem_pool_data s)) (pool_data d),
    a_balances = (\<lambda>p. stored_amount (fmlookup (mem_pool_balances s) p) + net (pool_balances d) p),
    a_shares = (\<lambda>k. stored_amount (fmlookup (mem_pool_delegation_shares s) k) + net (pool_delegation_shares d) k),
    a_delegation_balances = (\<lambda>e. stored_amount (fmlookup (mem_delegation_balances s) e) + net (delegation_balances d) e),
    a_delegations = data_at (fmlookup (mem_delegation_data s)) (delegation_data d)\<rparr>"

lemma query_data_db:
  "query_data ViewFail (get_pool_data (pos_db_view pos_memory_store s)) c p = Inr x \<longleftrightarrow>
    data_at (fmlookup (mem_pool_data s)) c p = x"
  "query_data ViewFail (get_delegation_data (pos_db_view pos_memory_store s)) c' e = Inr y \<longleftrightarrow>
    data_at (fmlookup (mem_delegation_data s)) c' e = y"
  by (subst query_data_flush [where b = "fmlookup (mem_pool_data s)"]; simp)
    (subst query_data_flush [where b = "fmlookup (mem_delegation_data s)"]; simp)

lemma pool_exists_db:
  "delta_pool_exists (pos_db_view pos_memory_store s) d p = Inr b \<longleftrightarrow>
    b = (data_at (fmlookup (mem_pool_data s)) (pool_data d) p \<noteq> None)"
  by (auto simp: delta_pool_exists_def delta_get_data_query res_simps query_data_db)

lemma query_balance_db:
  "delta_get_pool_balance (pos_db_view pos_memory_store s) d p = Inr b \<Longrightarrow>
    amt b = stored_amount (fmlookup (mem_pool_balances s) p) + net (pool_balances d) p"
  "delta_get_delegation_balance (pos_db_view pos_memory_store s) d e = Inr b \<Longrightarrow>
    amt b = stored_amount (fmlookup (mem_delegation_balances s) e) + net (delegation_balances d) e"
  "delta_get_pool_delegation_share (pos_db_view pos_memory_store s) d p e = Inr b \<Longrightarrow>
    amt b = stored_amount (fmlookup (mem_pool_delegation_shares s) (p, e)) + net (pool_delegation_shares d) (p, e)"
  by (auto simp: delta_get_amount_query delta_get_share_query query_amount_Inr)

lemma data_at_merge:
  "data_at b (fm_put k (delta_comp (fmlookup c k) (Some (DataDelta x y))) c) = (data_at b c)(k := y)"
  by (cases "fmlookup c k") (auto simp: data_at_def fun_eq_iff)

lemma net_add:
  assumes "wf_amounts c" "add_unsigned k a c = (Inr u, c')"
  shows "net c' = (net c)(k := net c k + amt a)"
  using assms by (auto simp: add_unsigned_Inr fun_eq_iff)

lemma net_sub:
  assumes "wf_amounts c" "sub_unsigned k a c = (Inr u, c')"
  shows "net c' = (net c)(k := net c k - amt a)"
  using assms by (auto simp: sub_unsigned_Inr fun_eq_iff)

lemma pos_abs_of_simps [simp]:
  "a_pools (pos_abs_of s d) = data_at (fmlookup (mem_pool_data s)) (pool_data d)"
  "a_balances (pos_abs_of s d) p = stored_amount (fmlookup (mem_pool_balances s) p) + net (pool_balances d) p"
  "a_shares (pos_abs_of s d) k = stored_amount (fmlookup (mem_pool_delegation_shares s) k) + net (pool_delegation_shares d) k"
  "a_delegation_balances (pos_abs_of s d) e =
    stored_amount (fmlookup (mem_delegation_balances s) e) + net (delegation_balances d) e"
  "a_delegations (pos_abs_of s d) = data_at (fmlookup (mem_delegation_data s)) (delegation_data d)"
  by (simp_all add: pos_abs_of_def)

lemma pos_step_eqI: "pos_step h A cmd B \<Longrightarrow> B = C \<Longrightarrow> pos_step h A cmd C"
  by simp

lemma create_pool_refines:
  assumes "pos_wf d" "create_pool (pos_db_view pos_memory_store s) p data d = (Inr u, d')"
  shows "pos_step h (pos_abs_of s d) (CmdCreatePool p data) (pos_abs_of s d')"
proof -
  have wf: "wf_amounts (pool_balances d)" using assms(1) by (simp add: pos_wf_def)
  obtain pb where q: "data_at (fmlookup (mem_pool_data s)) (pool_data d) p = None"
    and b: "delta_get_pool_balance (pos_db_view pos_memory_store s) d p = Inr amount_ZERO"
    and a: "add_unsigned p (pledge_amount data) (pool_balances d) = (Inr (), pb)"
    and d': "d' = d\<lparr>pool_balances := pb, pool_data :=
      fm_put p (delta_comp (fmlookup (pool_data d) p) (Some (DataDelta None (Some data)))) (pool_data d)\<rparr>"
    using assms(2) by (auto simp: create_pool_Inr query_data_db)
  show ?thesis
    by (rule pos_step_eqI [OF step_create_pool])
      (use q query_balance_db(1) [OF b] in
        \<open>auto simp: pos_abs_of_def d' data_at_merge net_add [OF wf a] fun_eq_iff\<close>)
qed

lemma decommission_pool_refines:
  assumes "pos_wf d" "decommission_pool (pos_db_view pos_memory_store s) p d = (Inr u, d')"
  shows "pos_step h (pos_abs_of s d) (CmdDecommissionPool p) (pos_abs_of s d')"
proof -
  have wf: "wf_amounts (pool_balances d)" using assms(1) by (simp add: pos_wf_def)
  obtain data bal pb where q: "data_at (fmlookup (mem_pool_data s)) (pool_data d) p = Some data"
    and b: "delta_get_pool_balance (pos_db_view pos_memory_store s) d p = Inr bal"
    and a: "sub_unsigned p bal (pool_balances d) = (Inr (), pb)"
    and d': "d' = d\<lparr>pool_balances := pb, pool_data :=
      fm_put p (delta_comp (fmlookup (pool_data d) p) (Some (DataDelta (Some data) None))) (pool_data d)\<rparr>"
    using assms(2) by (auto simp: decommission_pool_Inr query_data_db)
  show ?thesis
    by (rule pos_step_eqI [OF step_decommission_pool])
      (use q query_balance_db(1) [OF b] amt_range(1) [of bal] in
        \<open>auto simp: pos_abs_of_def d' data_at_merge net_sub [OF wf a] fun_eq_iff simp del: amt_range_simps\<close>)
qed

lemma increase_staker_rewards_refines:
  assumes "pos_wf d" "increase_staker_rewards (pos_db_view pos_memory_store s) p a d = (Inr u, d')"
  shows "pos_step h (pos_abs_of s d) (CmdIncreaseStakerRewards p a) (pos_abs_of s d')"
proof -
  have wf: "wf_amounts (pool_balances d)" using assms(1) by (simp add: pos_wf_def)
  obtain data data' pb where q: "data_at (fmlookup (mem_pool_data s)) (pool_data d) p = Some data"
    and b: "add_unsigned p a (pool_balances d) = (Inr (), pb)"
    and r: "data_increase_staker_rewards data a = Inr data'"
    and d': "d' = d\<lparr>pool_balances := pb, pool_data :=
      fm_put p (delta_comp (fmlookup (pool_data d) p) (Some (DataDelta (Some data) (Some data')))) (pool_data d)\<rparr>"
    using assms(2) by (auto simp: increase_staker_rewards_Inr query_data_db)
  obtain w where "amt w = amt (staker_rewards data) + amt a" "data' = data\<lparr>staker_rewards := w\<rparr>"
    using r by (auto simp: data_increase_staker_rewards_def res_simps amount_simps)
  then show ?thesis
    by (intro pos_step_eqI [OF step_increase_staker_rewards [where x = data and r = w]])
      (use q in \<open>auto simp: pos_abs_of_def d' data_at_merge net_add [OF wf b] fun_eq_iff\<close>)
qed

lemma create_delegation_id_refines:
  assumes "create_delegation_id h (pos_db_view pos_memory_store s) p dest i d = (Inr (e, u), d')"
  shows "pos_step h (pos_abs_of s d) (CmdCreateDelegationId p dest i) (pos_abs_of s d')"
  by (rule pos_step_eqI [OF step_create_delegation])
    (use assms in \<open>auto simp: create_delegation_id_Inr query_data_db pool_exists_db pos_abs_of_def data_at_merge\<close>)

lemma delete_delegation_id_refines:
  assumes "delete_delegation_id (pos_db_view pos_memory_store s) e d = (Inr u, d')"
  shows "pos_step h (pos_abs_of s d) (CmdDeleteDelegationId e) (pos_abs_of s d')"
proof -
  obtain data where q: "data_at (fmlookup (mem_delegation_data s)) (delegation_data d) e = Some data"
    and b: "delta_get_delegation_balance (pos_db_view pos_memory_store s) d e = Inr amount_ZERO"
      "delta_get_pool_delegation_share (pos_db_view pos_memory_store s) d (source_pool data) e = Inr amount_ZERO"
    and n: "data_at (fmlookup (mem_pool_data s)) (pool_data d) (source_pool data) = None"
    and d': "d' = d\<lparr>delegation_data := fm_put e (delta_comp (fmlookup (delegation_data d) e)
      (Some (DataDelta (Some data) None))) (delegation_data d)\<rparr>"
    using assms by (auto simp: delete_delegation_id_Inr query_data_db pool_exists_db)
  show ?thesis
    by (rule pos_step_eqI [OF step_delete_delegation [where x = data]])
      (use q n query_balance_db(2) [OF b(1)] query_balance_db(3) [OF b(2)] in
        \<open>auto simp: pos_abs_of_def d' data_at_merge\<close>)
qed

lemma delegate_staking_refines:
  assumes "pos_wf d" "delegate_staking (pos_db_view pos_memory_store s) e a d = (Inr u, d')"
  shows "pos_step h (pos_abs_of s d) (CmdDelegateStaking e a) (pos_abs_of s d')"
proof -
  have wf: "wf_amounts (delegation_balances d)" "wf_amounts (pool_balances d)" "wf_amounts (pool_delegation_shares d)"
    using assms(1) by (simp_all add: pos_wf_def)
  obtain data db pb sh where q: "data_at (fmlookup (mem_delegation_data s)) (delegation_data d) e = Some data"
    and b: "add_unsigned e a (delegation_balances d) = (Inr (), db)"
      "add_unsigned (source_pool data) a (pool_balances d) = (Inr (), pb)"
      "add_unsigned (source_pool data, e) a (pool_delegation_shares d) = (Inr (), sh)"
    and d': "d' = d\<lparr>pool_balances := pb, pool_delegation_shares := sh, delegation_balances := db\<rparr>"
    using assms(2) by (auto simp: delegate_staking_Inr query_data_db)
  show ?thesis
    by (rule pos_step_eqI [OF step_delegate [where x = data]])
      (use q in \<open>auto simp: pos_abs_of_def d' net_add [OF wf(1) b(1)] net_add [OF wf(2) b(2)] net_add [OF wf(3) b(3)]
        fun_eq_iff\<close>)
qed

lemma spend_share_refines:
  assumes "pos_wf d" "spend_share_from_delegation_id (pos_db_view pos_memory_store s) e a d = (Inr u, d')"
  shows "pos_step h (pos_abs_of s d) (CmdSpendShare e a) (pos_abs_of s d')"
proof -
  have wf: "wf_amounts (delegation_balances d)" "wf_amounts (pool_balances d)" "wf_amounts (pool_delegation_shares d)"
    using assms(1) by (simp_all add: pos_wf_def)
  obtain data db sh where q: "data_at (fmlookup (mem_delegation_data s)) (delegation_data d) e = Some data"
    and b: "sub_unsigned (source_pool data, e) a (pool_delegation_shares d) = (Inr (), sh)"
      "sub_unsigned e a (delegation_balances d) = (Inr (), db)"
    and c: "data_at (fmlookup (mem_pool_data s)) (pool_data d) (source_pool data) = None
          \<and> d' = d\<lparr>pool_delegation_shares := sh, delegation_balances := db\<rparr>
        \<or> data_at (fmlookup (mem_pool_data s)) (pool_data d) (source_pool data) \<noteq> None
          \<and> (\<exists>pb. sub_unsigned (source_pool data) a (pool_balances d) = (Inr (), pb)
            \<and> d' = d\<lparr>pool_balances := pb, pool_delegation_shares := sh, delegation_balances := db\<rparr>)"
    using assms(2) by (auto simp: spend_share_from_delegation_id_Inr query_data_db pool_exists_db)
  note n = net_sub [OF wf(3) b(1)] net_sub [OF wf(1) b(2)] net_sub [OF wf(2)]
  show ?thesis
    by (rule pos_step_eqI [OF step_spend_share [where x = data]])
      (use q c in \<open>auto simp: pos_abs_of_def n fun_eq_iff\<close>)
qed

lemma pos_apply_refines:
  assumes "pos_wf d" "pos_apply h (pos_db_view pos_memory_store s) cmd d = (Inr u, d')"
  shows "pos_step h (pos_abs_of s d) cmd (pos_abs_of s d')"
  using assms(2)
  by (cases cmd)
    (auto simp: pos_apply_def op_simps intro: create_pool_refines decommission_pool_refines
      increase_staker_rewards_refines create_delegation_id_refines delete_delegation_id_refines
      delegate_staking_refines spend_share_refines assms(1))

lemma pos_run_refines:
  assumes "pos_wf d" "op_map (pos_apply h (pos_db_view pos_memory_store s)) cmds d = (Inr us, d')"
  shows "pos_steps h (pos_abs_of s d) cmds (pos_abs_of s d')"
  using assms
proof (induction cmds arbitrary: d us)
  case Nil
  then show ?case by (simp add: op_simps pos_steps_Nil)
next
  case (Cons cmd cmds)
  then show ?case
    by (auto simp: op_simps pos_steps_Cons) (metis pos_apply_refines pos_apply_wf)
qed

section \<open>Consistency\<close>

text \<open>
  The consistency that the in-memory store checks in its tests: shares and delegation balances agree, and
  the balance of an existing pool is its staker balance plus the shares of its delegations.
\<close>

definition pos_consistent :: "pos_abs \<Rightarrow> bool" where
  "pos_consistent A \<longleftrightarrow>
    (\<forall>p e x. a_delegations A e = Some x \<longrightarrow>
        a_shares A (p, e) = (if source_pool x = p then a_delegation_balances A e else 0))
    \<and> (\<forall>p e. a_delegations A e = None \<longrightarrow> a_shares A (p, e) = 0 \<and> a_delegation_balances A e = 0)
    \<and> (\<forall>p x. a_pools A p = Some x \<longrightarrow>
        a_balances A p = amt (pledge_amount x) + amt (staker_rewards x) + (\<Sum>e\<in>UNIV. a_shares A (p, e)))"

text \<open>
  A pool id is fresh if no pool and no delegation uses it. The ids of created pools are hashes of outputs
  that the creating transaction spends, so they are fresh and distinct; a new pool has no rewards.
\<close>

definition fresh_pool :: "pos_abs \<Rightarrow> pool_id \<Rightarrow> bool" where
  "fresh_pool A p \<longleftrightarrow> a_pools A p = None \<and> (\<forall>e x. a_delegations A e = Some x \<longrightarrow> source_pool x \<noteq> p)"

definition created_pools :: "pos_command list \<Rightarrow> pool_id list" where
  "created_pools cmds = concat (map (\<lambda>cmd. case cmd of CmdCreatePool p _ \<Rightarrow> [p] | _ \<Rightarrow> []) cmds)"

definition no_initial_rewards :: "pos_command \<Rightarrow> bool" where
  "no_initial_rewards cmd \<longleftrightarrow> (case cmd of CmdCreatePool _ data \<Rightarrow> staker_rewards data = amount_ZERO | _ \<Rightarrow> True)"

lemma fresh_pool_no_shares:
  assumes "pos_consistent A" "fresh_pool A p"
  shows "(\<Sum>e\<in>UNIV. a_shares A (p, e)) = 0"
proof (rule sum.neutral, rule ballI)
  fix e show "a_shares A (p, e) = 0"
    using assms by (cases "a_delegations A e") (auto simp: pos_consistent_def fresh_pool_def)
qed

lemma sum_shares_upd:
  "(\<Sum>e\<in>UNIV. ((a_shares A)((q, i) := v)) (p, e)) =
    (\<Sum>e\<in>UNIV. a_shares A (p, e)) + (if p = q then v - a_shares A (p, i) else 0)"
proof (cases "p = q")
  case True
  have "(\<Sum>e\<in>UNIV. ((a_shares A)((q, i) := v)) (p, e)) = v + (\<Sum>e\<in>UNIV - {i}. ((a_shares A)((q, i) := v)) (p, e))"
    using True by (subst sum.remove [of _ i]) auto
  also have "(\<Sum>e\<in>UNIV - {i}. ((a_shares A)((q, i) := v)) (p, e)) = (\<Sum>e\<in>UNIV - {i}. a_shares A (p, e))"
    by (rule sum.cong) auto
  also have "\<dots> = (\<Sum>e\<in>UNIV. a_shares A (p, e)) - a_shares A (p, i)"
    by (simp add: sum.remove [of UNIV i])
  finally show ?thesis using True by simp
next
  case False
  then show ?thesis by simp
qed

lemma pos_step_consistent:
  assumes "pos_step h A cmd B" "pos_consistent A" "no_initial_rewards cmd"
    and "\<And>p data. cmd = CmdCreatePool p data \<Longrightarrow> fresh_pool A p"
  shows "pos_consistent B"
  using assms
proof cases
  case (step_create_pool p data)
  then have "(\<Sum>e\<in>UNIV. a_shares A (p, e)) = 0" "staker_rewards data = amount_ZERO"
    using assms fresh_pool_no_shares [OF assms(2)] by (auto simp: no_initial_rewards_def)
  then show ?thesis using step_create_pool assms(2) by (auto simp: pos_consistent_def)
next
  case (step_decommission_pool p x)
  then show ?thesis using assms(2) by (auto simp: pos_consistent_def)
next
  case (step_increase_staker_rewards p x r a)
  then show ?thesis using assms(2) by (auto simp: pos_consistent_def)
next
  case (step_create_delegation p e i dest)
  then have "a_delegation_balances A e = 0" using assms(2) by (simp add: pos_consistent_def)
  then show ?thesis using step_create_delegation assms(2)
    by (auto simp: pos_consistent_def split: option.splits)
next
  case (step_delete_delegation e x)
  then show ?thesis using assms(2) by (auto simp: pos_consistent_def split: option.splits)
next
  case (step_delegate e x a)
  then show ?thesis
    using assms(2) by (auto simp: pos_consistent_def sum_shares_upd simp del: fun_upd_apply) (auto split: option.splits)
next
  case (step_spend_share e x a)
  then show ?thesis
    using assms(2) by (auto simp: pos_consistent_def sum_shares_upd simp del: fun_upd_apply) (auto split: option.splits)
qed

lemma pos_step_keeps_fresh:
  assumes "pos_step h A cmd B" "fresh_pool A q" "\<And>data. cmd \<noteq> CmdCreatePool q data"
  shows "fresh_pool B q"
  using assms by cases (auto simp: fresh_pool_def delegation_data_new_def split: if_splits)

lemma created_pools_Cons:
  "created_pools (cmd # cmds) = (case cmd of CmdCreatePool p _ \<Rightarrow> [p] | _ \<Rightarrow> []) @ created_pools cmds"
  by (simp add: created_pools_def)

lemma pos_steps_consistent:
  assumes "pos_steps h A cmds B" "pos_consistent A" "\<forall>cmd \<in> set cmds. no_initial_rewards cmd"
    and "distinct (created_pools cmds)" "\<forall>p \<in> set (created_pools cmds). fresh_pool A p"
  shows "pos_consistent B"
  using assms
proof (induction rule: pos_steps.induct)
  case (steps_Nil A)
  then show ?case by simp
next
  case (steps_Cons A cmd B cmds C)
  have "pos_consistent B"
    by (rule pos_step_consistent [OF steps_Cons.hyps(1)]) (use steps_Cons.prems in \<open>auto simp: created_pools_Cons\<close>)
  moreover have "fresh_pool B p" if "p \<in> set (created_pools cmds)" for p
    by (rule pos_step_keeps_fresh [OF steps_Cons.hyps(1)]) (use steps_Cons.prems that in \<open>auto simp: created_pools_Cons\<close>)
  ultimately show ?case
    using steps_Cons by (auto simp: created_pools_Cons)
qed

text \<open>
  A pool that does not exist has no balance. Delegating adds to the balance of the pool without checking that
  the pool exists, so a run keeps this only when each delegation it makes goes to a pool that exists then.
\<close>

definition no_orphaned_balance :: "pos_abs \<Rightarrow> bool" where
  "no_orphaned_balance A \<longleftrightarrow> (\<forall>p. a_pools A p = None \<longrightarrow> a_balances A p = 0)"

definition delegates_to_existing :: "pos_abs \<Rightarrow> pos_command \<Rightarrow> bool" where
  "delegates_to_existing A cmd \<longleftrightarrow> (case cmd of
     CmdDelegateStaking e _ \<Rightarrow> (case a_delegations A e of None \<Rightarrow> True | Some x \<Rightarrow> a_pools A (source_pool x) \<noteq> None)
   | _ \<Rightarrow> True)"

fun run_delegates_to_existing :: "id_hasher \<Rightarrow> pos_memory \<Rightarrow> pos_command list \<Rightarrow> pos_delta_data \<Rightarrow> bool" where
  "run_delegates_to_existing h s [] d \<longleftrightarrow> True"
| "run_delegates_to_existing h s (cmd # cmds) d \<longleftrightarrow> delegates_to_existing (pos_abs_of s d) cmd
    \<and> run_delegates_to_existing h s cmds (snd (pos_apply h (pos_db_view pos_memory_store s) cmd d))"

lemma pos_step_no_orphaned_balance:
  assumes "pos_step h A cmd B" "no_orphaned_balance A" "delegates_to_existing A cmd"
  shows "no_orphaned_balance B"
  using assms by cases (auto simp: no_orphaned_balance_def delegates_to_existing_def)

lemma pos_run_no_orphaned_balance:
  assumes "pos_wf d" "op_map (pos_apply h (pos_db_view pos_memory_store s)) cmds d = (Inr us, d')"
    and "run_delegates_to_existing h s cmds d" "no_orphaned_balance (pos_abs_of s d)"
  shows "no_orphaned_balance (pos_abs_of s d')"
  using assms
proof (induction cmds arbitrary: d us)
  case Nil
  then show ?case by (simp add: op_simps)
next
  case (Cons cmd cmds)
  then show ?case
    by (auto simp: op_simps) (metis pos_apply_refines pos_apply_wf pos_step_no_orphaned_balance)
qed

lemma pos_abs_of_updated:
  assumes "pos_fits s d" "pos_updated s d t"
  shows "pos_abs_of t pos_delta_data_new = pos_abs_of s d"
  using assms
  by (simp add: pos_abs_of_def pos_fits_def pos_updated_def pos_delta_data_new_def stored_balance_after fun_eq_iff)

section \<open>Properties\<close>

text \<open>
  C3: The delta operations implement the abstract accounting machine: every sequence of successful operations on
  a delta over the database is a sequence of steps of the machine between the abstract states of the delta,
  in which balances are integers and every operation has its plain effect.
\<close>

theorem pos_operations_refine_machine:
  assumes "pos_wf d" and "op_map (pos_apply h (pos_db_view pos_memory_store s)) cmds d = (Inr us, d')"
  shows "pos_steps h (pos_abs_of s d) cmds (pos_abs_of s d')"
  by (rule pos_run_refines [OF assms])

text \<open>
  C1: Proof-of-stake accounting stays consistent. Take a consistent database, an empty delta, a sequence of
  operations that succeeds and a flush that succeeds, where the created pools have distinct ids that no pool
  and no delegation of the database uses, and carry no staker rewards. Then the database is consistent: the
  share of a delegation in its pool is the balance of the delegation, and the balance of every pool that
  exists is the balance of its staker plus the shares in it. If moreover every delegation made in the run goes
  to a pool that exists at that moment, and no balance was held by a missing pool before, then no balance is
  held by a missing pool after. Without that condition a missing pool can keep a balance, which the
  assertion on equal keys in the tests of the in-memory store would refuse; see the lemma
  \<open>delegate_after_decommission_leaves_balance\<close>.
\<close>

theorem pos_accounting_consistent:
  assumes "pos_consistent (pos_abs_of s pos_delta_data_new)"
    and "op_map (pos_apply h (pos_db_view pos_memory_store s)) cmds pos_delta_data_new = (Inr us, d)"
    and "pos_db_merge_with_delta pos_memory_store d s = (Inr u, t)"
    and "\<forall>cmd \<in> set cmds. no_initial_rewards cmd" and "distinct (created_pools cmds)"
    and "\<forall>p \<in> set (created_pools cmds). fresh_pool (pos_abs_of s pos_delta_data_new) p"
  shows "pos_consistent (pos_abs_of t pos_delta_data_new)
    \<and> (no_orphaned_balance (pos_abs_of s pos_delta_data_new)
        \<and> run_delegates_to_existing h s cmds pos_delta_data_new
      \<longrightarrow> no_orphaned_balance (pos_abs_of t pos_delta_data_new))"
proof -
  have "pos_steps h (pos_abs_of s pos_delta_data_new) cmds (pos_abs_of s d)"
    by (rule pos_run_refines [OF pos_wf_new assms(2)])
  then have "pos_consistent (pos_abs_of s d)"
    by (rule pos_steps_consistent) (use assms in auto)
  then show ?thesis
    using pos_abs_of_updated [OF pos_db_merge_Inr(1,2) [OF assms(3)]]
      pos_run_no_orphaned_balance [OF pos_wf_new assms(2)] by simp
qed

text \<open>
  Delegating to a decommissioned pool is accepted, and withdrawing the delegation afterwards does not
  take the amount out of the balance of the pool: the delta then reports a balance of 50 for a pool that does
  not exist, while the delegation is empty.
\<close>

lemma delegate_after_decommission_leaves_balance:
  "case op_map (pos_apply sample_hasher (pos_db_view pos_memory_store pos_memory_new))
      [CmdCreatePool 7 sample_pool, CmdCreateDelegationId 7 AnyoneCanSpend (UtxoOutPoint (SourceTransaction 1) 0),
       CmdDecommissionPool 7, CmdDelegateStaking 4 (Amount 50), CmdSpendShare 4 (Amount 50)] pos_delta_data_new of
     (Inr _, d) \<Rightarrow>
       delta_pool_exists (pos_db_view pos_memory_store pos_memory_new) d 7 = Inr False
       \<and> delta_get_pool_balance (pos_db_view pos_memory_store pos_memory_new) d 7 = Inr (Amount 50)
       \<and> delta_get_delegation_balance (pos_db_view pos_memory_store pos_memory_new) d 4 = Inr amount_ZERO
   | _ \<Rightarrow> False"
  by code_simp

definition sample_run :: "pos_command list" where
  "sample_run = [CmdCreatePool 7 sample_pool,
    CmdCreateDelegationId 7 AnyoneCanSpend (UtxoOutPoint (SourceTransaction 1) 0), CmdDelegateStaking 4 (Amount 50)]"

lemma sample_run_ok:
  "case op_map (pos_apply sample_hasher (pos_db_view pos_memory_store pos_memory_new)) sample_run pos_delta_data_new of
     (Inr us, d) \<Rightarrow> (case pos_db_merge_with_delta pos_memory_store d pos_memory_new of (Inr _, _) \<Rightarrow> True | _ \<Rightarrow> False)
   | _ \<Rightarrow> False"
  by code_simp

lemma sample_run_delegates_to_existing:
  "run_delegates_to_existing sample_hasher pos_memory_new sample_run pos_delta_data_new"
  by code_simp

lemma new_consistent: "pos_consistent (pos_abs_of pos_memory_new pos_delta_data_new)"
  by (simp add: pos_consistent_def pos_memory_new_def pos_delta_data_new_def data_at_def stored_amount_def)

theorem pos_operations_refine_machine_witness:
  "\<exists>us d. op_map (pos_apply sample_hasher (pos_db_view pos_memory_store pos_memory_new)) sample_run pos_delta_data_new =
      (Inr us, d)
    \<and> pos_steps sample_hasher (pos_abs_of pos_memory_new pos_delta_data_new) sample_run (pos_abs_of pos_memory_new d)"
proof -
  obtain us d where r: "op_map (pos_apply sample_hasher (pos_db_view pos_memory_store pos_memory_new)) sample_run
      pos_delta_data_new = (Inr us, d)"
    using sample_run_ok by (auto split: prod.splits sum.splits)
  with pos_operations_refine_machine [OF pos_wf_new r] show ?thesis by blast
qed

theorem pos_accounting_consistent_witness:
  "\<exists>us d u t. op_map (pos_apply sample_hasher (pos_db_view pos_memory_store pos_memory_new)) sample_run
      pos_delta_data_new = (Inr us, d)
    \<and> pos_db_merge_with_delta pos_memory_store d pos_memory_new = (Inr u, t)
    \<and> pos_consistent (pos_abs_of t pos_delta_data_new) \<and> no_orphaned_balance (pos_abs_of t pos_delta_data_new)"
proof -
  obtain us d u t where r: "op_map (pos_apply sample_hasher (pos_db_view pos_memory_store pos_memory_new)) sample_run
      pos_delta_data_new = (Inr us, d)"
    and m: "pos_db_merge_with_delta pos_memory_store d pos_memory_new = (Inr u, t)"
    using sample_run_ok by (auto split: prod.splits sum.splits)
  have n: "no_orphaned_balance (pos_abs_of pos_memory_new pos_delta_data_new)"
    by (simp add: no_orphaned_balance_def pos_memory_new_def pos_delta_data_new_def data_at_def stored_amount_def)
  have "pos_consistent (pos_abs_of t pos_delta_data_new)
    \<and> (no_orphaned_balance (pos_abs_of pos_memory_new pos_delta_data_new)
        \<and> run_delegates_to_existing sample_hasher pos_memory_new sample_run pos_delta_data_new
      \<longrightarrow> no_orphaned_balance (pos_abs_of t pos_delta_data_new))"
    by (rule pos_accounting_consistent [OF new_consistent r m])
      (simp_all add: sample_run_def no_initial_rewards_def created_pools_def sample_pool_def fresh_pool_def
        pos_memory_new_def pos_delta_data_new_def data_at_def)
  with r m n sample_run_delegates_to_existing show ?thesis by blast
qed

end
