(* ===== verification/TokensAccounting.thy ===== *)
theory TokensAccounting
  imports Storage Chain
begin

text \<open>
  The \<open>tokens-accounting\<close> crate: token data and their transitions, the cache over a parent view with the
  eight token operations and their undo, and the database over a store with the in-memory store.
\<close>

section \<open>Token data\<close>

datatype token_error =
    TokenStorageError storage_result_error
  | TokenAccountingError accounting_error
  | TokenAlreadyExists token_id
  | TokenDataNotFound token_id
  | TokenDataNotFoundOnReversal token_id
  | MintExceedsSupplyLimit amount amount token_id
  | AmountOverflow
  | CannotMintFromLockedSupply token_id
  | CannotMintFrozenToken token_id
  | CannotUnmintFromLockedSupply token_id
  | CannotUnmintFrozenToken token_id
  | NotEnoughCirculatingSupplyToUnmint amount amount token_id
  | SupplyIsAlreadyLocked token_id
  | CannotLockNotLockableSupply token_id
  | CannotLockFrozenToken token_id
  | CannotUnlockNotLockedSupplyOnReversal token_id
  | CannotUndoMintForLockedSupplyOnReversal token_id
  | CannotUndoUnmintForLockedSupplyOnReversal token_id
  | TokenIsAlreadyFrozen token_id
  | CannotFreezeNotFreezableToken token_id
  | CannotUnfreezeNotUnfreezableToken token_id
  | CannotUnfreezeTokenThatIsNotFrozen token_id
  | CannotUndoFreezeTokenThatIsNotFrozen token_id
  | CannotUndoUnfreezeTokenThatIsFrozen token_id
  | CannotChangeAuthorityForFrozenToken token_id
  | CannotUndoChangeAuthorityForFrozenToken token_id
  | InvariantErrorNonZeroSupplyForNonExistingToken
  | CannotChangeMetadataUriForFrozenToken token_id
  | CannotUndoChangeMetadataUriForFrozenToken token_id
  | TokenViewFail
  | TokenStorageWrite

record fungible_token_data =
  ft_ticker :: bytes
  ft_decimals :: u8
  ft_metadata_uri :: bytes
  total_supply :: token_total_supply
  locked :: bool
  frozen :: is_token_frozen
  authority :: destination

datatype token_data = FungibleToken fungible_token_data

text \<open>\<open>try_lock\<close>, \<open>try_freeze\<close> and \<open>try_unfreeze\<close> return the unchanged data as their error.\<close>

definition try_lock :: "fungible_token_data \<Rightarrow> fungible_token_data + fungible_token_data" where
  "try_lock t = (case total_supply t of
      Fixed _ \<Rightarrow> Inl t | Unlimited \<Rightarrow> Inl t | Lockable \<Rightarrow> Inr (t\<lparr>locked := True\<rparr>))"

definition is_frozen :: "fungible_token_data \<Rightarrow> bool" where
  "is_frozen t = (case frozen t of FrozenNo _ \<Rightarrow> False | FrozenYes _ \<Rightarrow> True)"

definition can_be_frozen :: "fungible_token_data \<Rightarrow> bool" where
  "can_be_frozen t = (case frozen t of
      FrozenNo freezable \<Rightarrow> (case freezable of FreezableNo \<Rightarrow> False | FreezableYes \<Rightarrow> True)
    | FrozenYes _ \<Rightarrow> False)"

definition can_be_unfrozen :: "fungible_token_data \<Rightarrow> bool" where
  "can_be_unfrozen t = (case frozen t of
      FrozenNo _ \<Rightarrow> False
    | FrozenYes unfreezable \<Rightarrow> (case unfreezable of UnfreezableNo \<Rightarrow> False | UnfreezableYes \<Rightarrow> True))"

definition try_freeze :: "fungible_token_data \<Rightarrow> is_token_unfreezable \<Rightarrow> fungible_token_data + fungible_token_data" where
  "try_freeze t unfreezable = (if can_be_frozen t then Inr (t\<lparr>frozen := FrozenYes unfreezable\<rparr>) else Inl t)"

definition try_unfreeze :: "fungible_token_data \<Rightarrow> fungible_token_data + fungible_token_data" where
  "try_unfreeze t = (if can_be_unfrozen t then Inr (t\<lparr>frozen := FrozenNo FreezableYes\<rparr>) else Inl t)"

definition data_change_authority :: "fungible_token_data \<Rightarrow> destination \<Rightarrow> fungible_token_data" where
  "data_change_authority t new_authority = t\<lparr>authority := new_authority\<rparr>"

definition data_change_metadata_uri :: "fungible_token_data \<Rightarrow> bytes \<Rightarrow> fungible_token_data" where
  "data_change_metadata_uri t uri = t\<lparr>ft_metadata_uri := uri\<rparr>"

definition token_from_issuance :: "token_issuance \<Rightarrow> fungible_token_data" where
  "token_from_issuance issuance = (case issuance of IssuanceV1 i \<Rightarrow>
    \<lparr>ft_ticker = token_ticker i, ft_decimals = number_of_decimals i, ft_metadata_uri = iss_metadata_uri i,
     total_supply = iss_total_supply i, locked = False, frozen = FrozenNo (iss_is_freezable i),
     authority = iss_authority i\<rparr>)"

section \<open>Views and cache\<close>

record 'e tokens_view =
  get_token_data :: "token_id \<Rightarrow> 'e + token_data option"
  get_circulating_supply :: "token_id \<Rightarrow> 'e + amount"

record tokens_delta_data =
  token_data :: "(token_id, token_data) delta_data"
  circulating_supply :: "token_id delta_amounts"

definition tokens_delta_data_new :: tokens_delta_data where
  "tokens_delta_data_new = \<lparr>token_data = fmempty, circulating_supply = fmempty\<rparr>"

record tokens_delta_undo_data =
  token_data_undo :: "(token_id, token_data) delta_data_undo"
  circulating_supply_undo :: "token_id delta_amounts"

abbreviation on_token_data where
  "on_token_data m \<equiv> op_map_err TokenAccountingError (op_zoom token_data (\<lambda>v. token_data_update (\<lambda>_. v)) m)"

abbreviation on_circulating_supply where
  "on_circulating_supply m \<equiv>
    op_map_err TokenAccountingError (op_zoom circulating_supply (\<lambda>v. circulating_supply_update (\<lambda>_. v)) m)"

definition tokens_merge_with_delta ::
  "tokens_delta_data \<Rightarrow> (tokens_delta_data, token_error, tokens_delta_undo_data) op" where
  "tokens_merge_with_delta other =
    op_bind (on_token_data (merge_delta_data (token_data other))) (\<lambda>data_undo.
    op_bind (on_circulating_supply (merge_delta_amounts (circulating_supply other))) (\<lambda>_.
    op_return \<lparr>token_data_undo = data_undo, circulating_supply_undo = circulating_supply other\<rparr>))"

definition cache_get_token_data :: "'e tokens_view \<Rightarrow> tokens_delta_data \<Rightarrow> token_id \<Rightarrow> token_error + token_data option" where
  "cache_get_token_data parent d i = (case get_data (token_data d) i of
      Present x \<Rightarrow> Inr (Some x)
    | Deleted \<Rightarrow> Inr None
    | Missing \<Rightarrow> map_err (\<lambda>_. TokenViewFail) (get_token_data parent i))"

definition cache_get_circulating_supply :: "'e tokens_view \<Rightarrow> tokens_delta_data \<Rightarrow> token_id \<Rightarrow> token_error + amount" where
  "cache_get_circulating_supply parent d i =
    res_bind (map_err (\<lambda>_. TokenViewFail) (get_circulating_supply parent i)) (\<lambda>parent_supply.
    map_err TokenAccountingError (combine_amount_delta parent_supply (fmlookup (circulating_supply d) i)))"

definition tokens_cache_view :: "'e tokens_view \<Rightarrow> tokens_delta_data \<Rightarrow> token_error tokens_view" where
  "tokens_cache_view parent d = \<lparr>get_token_data = cache_get_token_data parent d,
    get_circulating_supply = cache_get_circulating_supply parent d\<rparr>"

section \<open>Operations\<close>

datatype token_undo =
    UndoIssueToken token_id "token_data data_delta_undo"
  | UndoMintTokens token_id amount
  | UndoUnmintTokens token_id amount
  | UndoLockSupply token_id "token_data data_delta_undo"
  | UndoFreezeToken token_id "token_data data_delta_undo"
  | UndoUnfreezeToken token_id "token_data data_delta_undo"
  | UndoChangeTokenAuthority token_id "token_data data_delta_undo"
  | UndoChangeTokenMetadataUri token_id "token_data data_delta_undo"

text \<open>The data of an existing token, which every operation but the issuance starts with.\<close>

definition require_token :: "'e tokens_view \<Rightarrow> token_id \<Rightarrow> token_error \<Rightarrow> (tokens_delta_data, token_error, token_data) op" where
  "require_token parent i missing = op_read (\<lambda>d. res_bind (cache_get_token_data parent d i) (ok_or missing))"

definition replace_token :: "token_id \<Rightarrow> fungible_token_data \<Rightarrow> fungible_token_data
    \<Rightarrow> (tokens_delta_data, token_error, token_data data_delta_undo) op" where
  "replace_token i old_data new_data = on_token_data (merge_delta_data_element i
    (DataDelta (Some (FungibleToken old_data)) (Some (FungibleToken new_data))))"

definition issue_token :: "'e tokens_view \<Rightarrow> token_id \<Rightarrow> token_data \<Rightarrow> (tokens_delta_data, token_error, token_undo) op" where
  "issue_token parent i data =
    op_bind (op_read (\<lambda>d. cache_get_token_data parent d i)) (\<lambda>existing.
    op_bind (op_ensure (existing = None) (TokenAlreadyExists i)) (\<lambda>_.
    op_bind (op_read (\<lambda>d. cache_get_circulating_supply parent d i)) (\<lambda>supply.
    op_bind (op_ensure (\<not> supply > amount_ZERO) (TokenAlreadyExists i)) (\<lambda>_.
    op_bind (on_token_data (merge_delta_data_element i (DataDelta None (Some data)))) (\<lambda>undo_data.
    op_return (UndoIssueToken i undo_data))))))"

definition mint_tokens :: "'e tokens_view \<Rightarrow> token_id \<Rightarrow> amount \<Rightarrow> (tokens_delta_data, token_error, token_undo) op" where
  "mint_tokens parent i amount_to_add =
    op_bind (require_token parent i (TokenDataNotFound i)) (\<lambda>token.
    op_bind (case token of FungibleToken data \<Rightarrow>
      op_bind (op_ensure (\<not> is_frozen data) (CannotMintFrozenToken i)) (\<lambda>_.
      case total_supply data of
        Fixed limit \<Rightarrow>
          op_bind (op_read (\<lambda>d. cache_get_circulating_supply parent d i)) (\<lambda>supply.
          op_bind (op_read (\<lambda>_. ok_or AmountOverflow (amount_add supply amount_to_add))) (\<lambda>expected.
          op_ensure (\<not> expected > limit) (MintExceedsSupplyLimit amount_to_add limit i)))
      | Lockable \<Rightarrow> op_ensure (\<not> locked data) (CannotMintFromLockedSupply i)
      | Unlimited \<Rightarrow> op_return ())) (\<lambda>_.
    op_bind (on_circulating_supply (add_unsigned i amount_to_add)) (\<lambda>_.
    op_return (UndoMintTokens i amount_to_add))))"

definition unmint_tokens :: "'e tokens_view \<Rightarrow> token_id \<Rightarrow> amount \<Rightarrow> (tokens_delta_data, token_error, token_undo) op" where
  "unmint_tokens parent i amount_to_burn =
    op_bind (require_token parent i (TokenDataNotFound i)) (\<lambda>token.
    op_bind (case token of FungibleToken data \<Rightarrow>
      op_bind (op_ensure (\<not> locked data) (CannotUnmintFromLockedSupply i)) (\<lambda>_.
      op_ensure (\<not> is_frozen data) (CannotUnmintFrozenToken i))) (\<lambda>_.
    op_bind (op_read (\<lambda>d. cache_get_circulating_supply parent d i)) (\<lambda>supply.
    op_bind (op_ensure (\<not> supply < amount_to_burn) (NotEnoughCirculatingSupplyToUnmint supply amount_to_burn i)) (\<lambda>_.
    op_bind (on_circulating_supply (sub_unsigned i amount_to_burn)) (\<lambda>_.
    op_return (UndoUnmintTokens i amount_to_burn))))))"

definition lock_circulating_supply :: "'e tokens_view \<Rightarrow> token_id \<Rightarrow> (tokens_delta_data, token_error, token_undo) op" where
  "lock_circulating_supply parent i =
    op_bind (require_token parent i (TokenDataNotFound i)) (\<lambda>token.
    op_bind (case token of FungibleToken data \<Rightarrow>
      op_bind (op_ensure (\<not> locked data) (SupplyIsAlreadyLocked i)) (\<lambda>_.
      op_bind (op_ensure (\<not> is_frozen data) (CannotLockFrozenToken i)) (\<lambda>_.
      op_bind (op_read (\<lambda>_. map_err (\<lambda>_. CannotLockNotLockableSupply i) (try_lock data))) (\<lambda>new_data.
      replace_token i data new_data)))) (\<lambda>undo_data.
    op_return (UndoLockSupply i undo_data)))"

definition freeze_token ::
  "'e tokens_view \<Rightarrow> token_id \<Rightarrow> is_token_unfreezable \<Rightarrow> (tokens_delta_data, token_error, token_undo) op" where
  "freeze_token parent i unfreezable =
    op_bind (require_token parent i (TokenDataNotFound i)) (\<lambda>token.
    op_bind (case token of FungibleToken data \<Rightarrow>
      op_bind (op_ensure (\<not> is_frozen data) (TokenIsAlreadyFrozen i)) (\<lambda>_.
      op_bind (op_read (\<lambda>_. map_err (\<lambda>_. CannotFreezeNotFreezableToken i) (try_freeze data unfreezable))) (\<lambda>new_data.
      replace_token i data new_data))) (\<lambda>undo_data.
    op_return (UndoFreezeToken i undo_data)))"

definition unfreeze_token :: "'e tokens_view \<Rightarrow> token_id \<Rightarrow> (tokens_delta_data, token_error, token_undo) op" where
  "unfreeze_token parent i =
    op_bind (require_token parent i (TokenDataNotFound i)) (\<lambda>token.
    op_bind (case token of FungibleToken data \<Rightarrow>
      op_bind (op_ensure (is_frozen data) (CannotUnfreezeTokenThatIsNotFrozen i)) (\<lambda>_.
      op_bind (op_read (\<lambda>_. map_err (\<lambda>_. CannotUnfreezeNotUnfreezableToken i) (try_unfreeze data))) (\<lambda>new_data.
      replace_token i data new_data))) (\<lambda>undo_data.
    op_return (UndoUnfreezeToken i undo_data)))"

definition change_authority ::
  "'e tokens_view \<Rightarrow> token_id \<Rightarrow> destination \<Rightarrow> (tokens_delta_data, token_error, token_undo) op" where
  "change_authority parent i new_authority =
    op_bind (require_token parent i (TokenDataNotFound i)) (\<lambda>token.
    op_bind (case token of FungibleToken data \<Rightarrow>
      op_bind (op_ensure (\<not> is_frozen data) (CannotChangeAuthorityForFrozenToken i)) (\<lambda>_.
      replace_token i data (data_change_authority data new_authority))) (\<lambda>undo_data.
    op_return (UndoChangeTokenAuthority i undo_data)))"

definition change_metadata_uri ::
  "'e tokens_view \<Rightarrow> token_id \<Rightarrow> bytes \<Rightarrow> (tokens_delta_data, token_error, token_undo) op" where
  "change_metadata_uri parent i uri =
    op_bind (require_token parent i (TokenDataNotFound i)) (\<lambda>token.
    op_bind (case token of FungibleToken data \<Rightarrow>
      op_bind (op_ensure (\<not> is_frozen data) (CannotChangeMetadataUriForFrozenToken i)) (\<lambda>_.
      replace_token i data (data_change_metadata_uri data uri))) (\<lambda>undo_data.
    op_return (UndoChangeTokenMetadataUri i undo_data)))"

definition undo_token_data :: "'e tokens_view \<Rightarrow> token_id \<Rightarrow> (fungible_token_data \<Rightarrow> bool) \<Rightarrow> token_error
    \<Rightarrow> token_data data_delta_undo \<Rightarrow> (tokens_delta_data, token_error, unit) op" where
  "undo_token_data parent i ok bad undo_data =
    op_bind (require_token parent i (TokenDataNotFoundOnReversal i)) (\<lambda>token.
    op_bind (case token of FungibleToken data \<Rightarrow> op_ensure (ok data) bad) (\<lambda>_.
    on_token_data (undo_merge_delta_data_element i undo_data)))"

definition tokens_undo_op :: "'e tokens_view \<Rightarrow> token_undo \<Rightarrow> (tokens_delta_data, token_error, unit) op" where
  "tokens_undo_op parent undo = (case undo of
      UndoIssueToken i undo_data \<Rightarrow>
        op_bind (require_token parent i (TokenDataNotFoundOnReversal i)) (\<lambda>_.
        on_token_data (undo_merge_delta_data_element i undo_data))
    | UndoMintTokens i amount_to_add \<Rightarrow>
        op_bind (require_token parent i (TokenDataNotFoundOnReversal i)) (\<lambda>token.
        op_bind (case token of FungibleToken data \<Rightarrow>
          op_ensure (\<not> locked data) (CannotUndoMintForLockedSupplyOnReversal i)) (\<lambda>_.
        on_circulating_supply (sub_unsigned i amount_to_add)))
    | UndoUnmintTokens i amount_to_burn \<Rightarrow>
        op_bind (require_token parent i (TokenDataNotFoundOnReversal i)) (\<lambda>token.
        op_bind (case token of FungibleToken data \<Rightarrow>
          op_ensure (\<not> locked data) (CannotUndoUnmintForLockedSupplyOnReversal i)) (\<lambda>_.
        on_circulating_supply (add_unsigned i amount_to_burn)))
    | UndoLockSupply i undo_data \<Rightarrow>
        undo_token_data parent i locked (CannotUnlockNotLockedSupplyOnReversal i) undo_data
    | UndoFreezeToken i undo_data \<Rightarrow>
        undo_token_data parent i is_frozen (CannotUndoFreezeTokenThatIsNotFrozen i) undo_data
    | UndoUnfreezeToken i undo_data \<Rightarrow>
        undo_token_data parent i (\<lambda>t. \<not> is_frozen t) (CannotUndoUnfreezeTokenThatIsFrozen i) undo_data
    | UndoChangeTokenAuthority i undo_data \<Rightarrow>
        undo_token_data parent i (\<lambda>t. \<not> is_frozen t) (CannotUndoChangeAuthorityForFrozenToken i) undo_data
    | UndoChangeTokenMetadataUri i undo_data \<Rightarrow>
        undo_token_data parent i (\<lambda>t. \<not> is_frozen t) (CannotUndoChangeMetadataUriForFrozenToken i) undo_data)"

end
