(* ===== verification/TokensSafety.thy ===== *)
theory TokensSafety
  imports TokensAccounting
begin

text \<open>
  Reversibility and safety of the token operations: undo restores every query, a fixed supply is never
  exceeded, a locked supply never changes again, and a frozen token accepts no operation but unfreezing.
\<close>

section \<open>Queries\<close>

lemma cache_data_query:
  "cache_get_token_data P d = query_data TokenViewFail (get_token_data P) (token_data d)"
  by (simp add: fun_eq_iff cache_get_token_data_def query_data_def)

lemma cache_supply_query:
  "cache_get_circulating_supply P d =
    query_amount TokenViewFail TokenAccountingError (get_circulating_supply P) (circulating_supply d)"
  by (simp add: fun_eq_iff cache_get_circulating_supply_def query_amount_def)

definition tokens_sim :: "'e tokens_view \<Rightarrow> tokens_delta_data \<Rightarrow> tokens_delta_data \<Rightarrow> bool" where
  "tokens_sim P d e \<longleftrightarrow> circulating_supply e = circulating_supply d
    \<and> data_sim (get_token_data P) (token_data d) (token_data e)"

lemma tokens_sim_refl [simp]: "tokens_sim P d d"
  by (simp add: tokens_sim_def)

lemma tokens_sim_queries:
  assumes "tokens_sim P d e"
  shows "cache_get_token_data P e = cache_get_token_data P d"
    and "cache_get_circulating_supply P e = cache_get_circulating_supply P d"
  using assms by (simp_all add: tokens_sim_def cache_data_query query_data_sim cache_supply_query)

lemma tokens_sim_view: "tokens_sim P d e \<Longrightarrow> tokens_cache_view P e = tokens_cache_view P d"
  by (simp add: tokens_cache_view_def tokens_sim_queries)

section \<open>Successful operations\<close>

definition put_token :: "token_id \<Rightarrow> token_data option \<Rightarrow> token_data option \<Rightarrow> tokens_delta_data \<Rightarrow> tokens_delta_data" where
  "put_token i x y d = d\<lparr>token_data :=
    fm_put i (delta_comp (fmlookup (token_data d) i) (Some (DataDelta x y))) (token_data d)\<rparr>"

lemma put_token_queries [simp]:
  "cache_get_token_data P (put_token i x y d) j = (if j = i then Inr y else cache_get_token_data P d j)"
  "cache_get_circulating_supply P (put_token i x y d) = cache_get_circulating_supply P d"
  "circulating_supply (put_token i x y d) = circulating_supply d"
  by (simp_all add: put_token_def cache_data_query query_after_merge cache_supply_query)

lemma require_token_Inr [op_simps]:
  "require_token P i e d = (Inr t, d') \<longleftrightarrow> cache_get_token_data P d i = Inr (Some t) \<and> d' = d"
  by (auto simp: require_token_def op_simps res_simps)

lemma put_token_Inr:
  assumes "cache_get_token_data P d i = Inr x"
  shows "on_token_data (merge_delta_data_element i (DataDelta x y)) d = (Inr u, d') \<longleftrightarrow>
    d' = put_token i x y d \<and> u = DataDeltaUndo (DataDelta y x)"
  using assms
  by (auto simp: op_simps put_token_def cache_data_query query_composable invert_def)

lemma undo_put_token:
  assumes "cache_get_token_data P d i = Inr x" "tokens_sim P (put_token i x y d) e'"
  shows "\<exists>e. on_token_data (undo_merge_delta_data_element i (DataDeltaUndo (DataDelta y x))) e' = (Inr (), e)
    \<and> tokens_sim P d e"
proof -
  have "data_sim (get_token_data P) (fm_put i (delta_comp (fmlookup (token_data d) i) (Some (DataDelta x y)))
      (token_data d)) (token_data e')" "circulating_supply e' = circulating_supply d"
    using assms(2) by (simp_all add: tokens_sim_def put_token_def)
  with data_sim_undo [OF assms(1) [unfolded cache_data_query] this(1)] show ?thesis
    by (auto simp: op_simps tokens_sim_def)
qed

lemma replace_token_Inr:
  assumes "cache_get_token_data P d i = Inr (Some (FungibleToken t))"
  shows "replace_token i t t' d = (Inr u, d') \<longleftrightarrow>
    d' = put_token i (Some (FungibleToken t)) (Some (FungibleToken t')) d
    \<and> u = DataDeltaUndo (DataDelta (Some (FungibleToken t')) (Some (FungibleToken t)))"
  using put_token_Inr [OF assms] by (simp add: replace_token_def)

text \<open>The five operations that replace the data of a token.\<close>

definition token_change :: "'e tokens_view \<Rightarrow> token_id \<Rightarrow> (fungible_token_data \<Rightarrow> bool)
    \<Rightarrow> (fungible_token_data \<Rightarrow> fungible_token_data) \<Rightarrow> tokens_delta_data \<Rightarrow> tokens_delta_data
    \<Rightarrow> token_data data_delta_undo \<Rightarrow> bool" where
  "token_change P i pre f d d' v \<longleftrightarrow> (\<exists>t. cache_get_token_data P d i = Inr (Some (FungibleToken t)) \<and> pre t
    \<and> d' = put_token i (Some (FungibleToken t)) (Some (FungibleToken (f t))) d
    \<and> v = DataDeltaUndo (DataDelta (Some (FungibleToken (f t))) (Some (FungibleToken t))))"

lemma issue_token_Inr:
  "issue_token P i x d = (Inr u, d') \<longleftrightarrow> cache_get_token_data P d i = Inr None
    \<and> cache_get_circulating_supply P d i = Inr amount_ZERO \<and> d' = put_token i None (Some x) d
    \<and> u = UndoIssueToken i (DataDeltaUndo (DataDelta (Some x) None))"
  by (simp add: issue_token_def op_bind_Inr op_read_eq op_ensure_Inr op_return_eq)
    (auto simp: put_token_Inr)

lemma op_bind_require_token:
  "op_bind (require_token P i e) f d = (Inr b, d') \<longleftrightarrow>
    (\<exists>t. cache_get_token_data P d i = Inr (Some (FungibleToken t)) \<and> f (FungibleToken t) d = (Inr b, d'))"
  by (auto simp: op_bind_Inr require_token_Inr) (metis token_data.exhaust)

lemma mint_limit:
  "(\<exists>e. amount_add s a = Some e \<and> \<not> l < e) \<longleftrightarrow> amt s + amt a \<le> amt l"
proof
  assume "amt s + amt a \<le> amt l"
  moreover from this obtain e where "amount_add s a = Some e" "amt e = amt s + amt a"
    using amount_add_exists [of s a] amt_range(2) [of l] by (meson le_less_trans)
  ultimately show "\<exists>e. amount_add s a = Some e \<and> \<not> l < e" by (auto simp: amount_less)
qed (auto simp: amount_less amount_simps)

lemma mint_tokens_Inr:
  "mint_tokens P i a d = (Inr u, d') \<longleftrightarrow> (\<exists>t c. cache_get_token_data P d i = Inr (Some (FungibleToken t))
    \<and> \<not> is_frozen t \<and> (total_supply t = Lockable \<longrightarrow> \<not> locked t)
    \<and> (\<forall>l. total_supply t = Fixed l \<longrightarrow> (\<exists>s. cache_get_circulating_supply P d i = Inr s \<and> amt s + amt a \<le> amt l))
    \<and> add_unsigned i a (circulating_supply d) = (Inr (), c) \<and> d' = d\<lparr>circulating_supply := c\<rparr>
    \<and> u = UndoMintTokens i a)"
proof -
  have "(\<exists>x y. op_bind (op_ensure (\<not> is_frozen t) e1) (\<lambda>_. case total_supply t of
        Fixed limit \<Rightarrow>
          op_bind (op_read (\<lambda>d. cache_get_circulating_supply P d i)) (\<lambda>supply.
          op_bind (op_read (\<lambda>_. ok_or AmountOverflow (amount_add supply a))) (\<lambda>expected.
          op_ensure (\<not> expected > limit) (e2 limit)))
      | Lockable \<Rightarrow> op_ensure (\<not> locked t) e3 | Unlimited \<Rightarrow> op_return ()) d = (Inr x, y) \<and> Q y) \<longleftrightarrow>
    \<not> is_frozen t \<and> (total_supply t = Lockable \<longrightarrow> \<not> locked t)
    \<and> (\<forall>l. total_supply t = Fixed l \<longrightarrow> (\<exists>s. cache_get_circulating_supply P d i = Inr s \<and> amt s + amt a \<le> amt l))
    \<and> Q d" for t e1 e2 e3 Q
    unfolding mint_limit [symmetric] by (cases "total_supply t") (auto simp: op_simps res_simps)
  note * = this
  show ?thesis
    unfolding mint_tokens_def op_bind_require_token token_data.case
    by (subst op_bind_Inr, subst *) (auto simp: op_simps)
qed

lemma unmint_tokens_Inr:
  "unmint_tokens P i a d = (Inr u, d') \<longleftrightarrow> (\<exists>t s c. cache_get_token_data P d i = Inr (Some (FungibleToken t))
    \<and> \<not> locked t \<and> \<not> is_frozen t \<and> cache_get_circulating_supply P d i = Inr s \<and> amt a \<le> amt s
    \<and> sub_unsigned i a (circulating_supply d) = (Inr (), c) \<and> d' = d\<lparr>circulating_supply := c\<rparr>
    \<and> u = UndoUnmintTokens i a)"
  unfolding unmint_tokens_def op_bind_require_token token_data.case
  by (auto simp: op_simps amount_less not_less)

lemma lock_circulating_supply_Inr:
  "lock_circulating_supply P i d = (Inr u, d') \<longleftrightarrow> (\<exists>v. u = UndoLockSupply i v
    \<and> token_change P i (\<lambda>t. \<not> locked t \<and> \<not> is_frozen t \<and> total_supply t = Lockable) (locked_update (\<lambda>_. True)) d d' v)"
proof -
  have "try_lock t = Inr t' \<longleftrightarrow> total_supply t = Lockable \<and> t' = t\<lparr>locked := True\<rparr>" for t t'
    by (auto simp: try_lock_def split: token_total_supply.splits)
  then show ?thesis
    unfolding lock_circulating_supply_def op_bind_require_token token_data.case token_change_def
    by (auto simp: op_simps res_simps replace_token_Inr)
qed

lemma freeze_token_Inr:
  "freeze_token P i z d = (Inr u, d') \<longleftrightarrow> (\<exists>v. u = UndoFreezeToken i v
    \<and> token_change P i (\<lambda>t. frozen t = FrozenNo FreezableYes) (frozen_update (\<lambda>_. FrozenYes z)) d d' v)"
proof -
  have "try_freeze t z = Inr t' \<longleftrightarrow> frozen t = FrozenNo FreezableYes \<and> t' = t\<lparr>frozen := FrozenYes z\<rparr>" for t t'
    by (auto simp: try_freeze_def can_be_frozen_def
        split: is_token_frozen.splits is_token_freezable.splits if_splits)
  then show ?thesis
    unfolding freeze_token_def op_bind_require_token token_data.case token_change_def
    by (auto simp: op_simps res_simps replace_token_Inr is_frozen_def)
qed

lemma unfreeze_token_Inr:
  "unfreeze_token P i d = (Inr u, d') \<longleftrightarrow> (\<exists>v. u = UndoUnfreezeToken i v
    \<and> token_change P i (\<lambda>t. frozen t = FrozenYes UnfreezableYes) (frozen_update (\<lambda>_. FrozenNo FreezableYes)) d d' v)"
proof -
  have "try_unfreeze t = Inr t' \<longleftrightarrow>
      frozen t = FrozenYes UnfreezableYes \<and> t' = t\<lparr>frozen := FrozenNo FreezableYes\<rparr>" for t t'
    by (auto simp: try_unfreeze_def can_be_unfrozen_def
        split: is_token_frozen.splits is_token_unfreezable.splits if_splits)
  then show ?thesis
    unfolding unfreeze_token_def op_bind_require_token token_data.case token_change_def
    by (auto simp: op_simps res_simps replace_token_Inr is_frozen_def)
qed

lemma change_authority_Inr:
  "change_authority P i a d = (Inr u, d') \<longleftrightarrow> (\<exists>v. u = UndoChangeTokenAuthority i v
    \<and> token_change P i (\<lambda>t. \<not> is_frozen t) (authority_update (\<lambda>_. a)) d d' v)"
  unfolding change_authority_def op_bind_require_token token_data.case token_change_def data_change_authority_def
  by (auto simp: op_simps res_simps replace_token_Inr)

lemma change_metadata_uri_Inr:
  "change_metadata_uri P i a d = (Inr u, d') \<longleftrightarrow> (\<exists>v. u = UndoChangeTokenMetadataUri i v
    \<and> token_change P i (\<lambda>t. \<not> is_frozen t) (ft_metadata_uri_update (\<lambda>_. a)) d d' v)"
  unfolding change_metadata_uri_def op_bind_require_token token_data.case token_change_def data_change_metadata_uri_def
  by (auto simp: op_simps res_simps replace_token_Inr)

section \<open>Commands\<close>

text \<open>A call of one of the operations of \<open>TokensAccountingOperations\<close>, and its execution.\<close>

datatype token_command =
    CmdIssueToken token_id token_data
  | CmdMintTokens token_id amount
  | CmdUnmintTokens token_id amount
  | CmdLockSupply token_id
  | CmdFreezeToken token_id is_token_unfreezable
  | CmdUnfreezeToken token_id
  | CmdChangeAuthority token_id destination
  | CmdChangeMetadataUri token_id bytes

definition token_apply :: "'e tokens_view \<Rightarrow> token_command \<Rightarrow> (tokens_delta_data, token_error, token_undo) op" where
  "token_apply P cmd = (case cmd of
      CmdIssueToken i x \<Rightarrow> issue_token P i x
    | CmdMintTokens i a \<Rightarrow> mint_tokens P i a
    | CmdUnmintTokens i a \<Rightarrow> unmint_tokens P i a
    | CmdLockSupply i \<Rightarrow> lock_circulating_supply P i
    | CmdFreezeToken i z \<Rightarrow> freeze_token P i z
    | CmdUnfreezeToken i \<Rightarrow> unfreeze_token P i
    | CmdChangeAuthority i a \<Rightarrow> change_authority P i a
    | CmdChangeMetadataUri i m \<Rightarrow> change_metadata_uri P i m)"

lemmas token_Inr = issue_token_Inr mint_tokens_Inr unmint_tokens_Inr lock_circulating_supply_Inr freeze_token_Inr
  unfreeze_token_Inr change_authority_Inr change_metadata_uri_Inr

text \<open>
  Only lockable supplies are ever locked. This holds for issued tokens, which start unlocked, and every
  operation keeps it; reverting a minting relies on it.
\<close>

definition token_ok :: "fungible_token_data \<Rightarrow> bool" where
  "token_ok t \<longleftrightarrow> (locked t \<longrightarrow> total_supply t = Lockable)"

definition tokens_ok :: "'e tokens_view \<Rightarrow> tokens_delta_data \<Rightarrow> bool" where
  "tokens_ok P d \<longleftrightarrow> wf_amounts (circulating_supply d)
    \<and> (\<forall>i t. cache_get_token_data P d i = Inr (Some (FungibleToken t)) \<longrightarrow> token_ok t)"

definition command_ok :: "token_command \<Rightarrow> bool" where
  "command_ok cmd = (case cmd of CmdIssueToken _ (FungibleToken t) \<Rightarrow> token_ok t | _ \<Rightarrow> True)"

lemma token_change_ok:
  assumes "token_change P i pre f d d' v" "tokens_ok P d" "\<And>t. pre t \<Longrightarrow> token_ok t \<Longrightarrow> token_ok (f t)"
  shows "tokens_ok P d'"
  using assms by (auto simp: token_change_def tokens_ok_def split: if_splits)

lemma supply_update_queries:
  "cache_get_token_data P (d\<lparr>circulating_supply := c\<rparr>) = cache_get_token_data P d"
  by (simp add: cache_data_query)

lemma token_apply_ok:
  assumes "tokens_ok P d" "command_ok cmd" "token_apply P cmd d = (Inr u, d')"
  shows "tokens_ok P d'"
proof (cases cmd)
  case (CmdIssueToken i x)
  then show ?thesis using assms
    by (cases x) (auto simp: token_apply_def issue_token_Inr tokens_ok_def command_ok_def)
next
  case (CmdMintTokens i a)
  then show ?thesis using assms
    by (auto simp: token_apply_def mint_tokens_Inr tokens_ok_def supply_update_queries intro: unsigned_wf)
next
  case (CmdUnmintTokens i a)
  then show ?thesis using assms
    by (auto simp: token_apply_def unmint_tokens_Inr tokens_ok_def supply_update_queries intro: unsigned_wf)
qed (use assms in \<open>auto simp: token_apply_def token_Inr token_ok_def elim!: token_change_ok\<close>)

section \<open>Undo\<close>

lemma undo_token_change:
  assumes "token_change P i pre f d d' v" "tokens_sim P d' e'" "\<And>t. pre t \<Longrightarrow> ok (f t)"
  shows "\<exists>e. undo_token_data P i ok bad v e' = (Inr (), e) \<and> tokens_sim P d e"
proof -
  obtain t where t: "cache_get_token_data P d i = Inr (Some (FungibleToken t))" "pre t"
    and d': "d' = put_token i (Some (FungibleToken t)) (Some (FungibleToken (f t))) d"
    and v: "v = DataDeltaUndo (DataDelta (Some (FungibleToken (f t))) (Some (FungibleToken t)))"
    using assms(1) by (auto simp: token_change_def)
  have "cache_get_token_data P e' i = Inr (Some (FungibleToken (f t)))"
    using tokens_sim_queries(1) [OF assms(2)] by (simp add: d')
  then show ?thesis
    using undo_put_token [OF t(1) assms(2) [unfolded d']] assms(3) [OF t(2)]
    unfolding undo_token_data_def op_bind_require_token by (auto simp: v op_bind_Inr op_ensure_Inr)
qed

lemma token_apply_undo_sim:
  assumes "tokens_ok P d" "token_apply P cmd d = (Inr u, d')" "tokens_sim P d' e'"
  shows "\<exists>e. tokens_undo_op P u e' = (Inr (), e) \<and> tokens_sim P d e"
proof (cases cmd)
  case (CmdIssueToken i x)
  then have q: "cache_get_token_data P d i = Inr None" and d': "d' = put_token i None (Some x) d"
    and u: "u = UndoIssueToken i (DataDeltaUndo (DataDelta (Some x) None))"
    using assms(2) by (auto simp: token_apply_def issue_token_Inr)
  obtain t where "x = FungibleToken t" by (cases x)
  then have "cache_get_token_data P e' i = Inr (Some (FungibleToken t))"
    using tokens_sim_queries(1) [OF assms(3)] by (simp add: d')
  then show ?thesis
    using undo_put_token [OF q assms(3) [unfolded d']] by (simp add: u tokens_undo_op_def op_bind_require_token)
next
  case (CmdMintTokens i a)
  then obtain t c where q: "cache_get_token_data P d i = Inr (Some (FungibleToken t))"
    and l: "total_supply t = Lockable \<longrightarrow> \<not> locked t"
    and c: "add_unsigned i a (circulating_supply d) = (Inr (), c)" and d': "d' = d\<lparr>circulating_supply := c\<rparr>"
    and u: "u = UndoMintTokens i a"
    using assms(2) by (auto simp: token_apply_def mint_tokens_Inr)
  have "\<not> locked t" using assms(1) q l by (auto simp: tokens_ok_def token_ok_def)
  moreover have "cache_get_token_data P e' i = Inr (Some (FungibleToken t))"
    using tokens_sim_queries(1) [OF assms(3)] q by (simp add: d' supply_update_queries)
  moreover have "wf_amounts (circulating_supply d)" using assms(1) by (simp add: tokens_ok_def)
  note add_sub_unsigned [OF this c]
  ultimately show ?thesis
    using assms(3) by (simp add: u tokens_undo_op_def op_bind_require_token) (simp add: op_simps d' tokens_sim_def)
next
  case (CmdUnmintTokens i a)
  then obtain t c where q: "cache_get_token_data P d i = Inr (Some (FungibleToken t))" and l: "\<not> locked t"
    and c: "sub_unsigned i a (circulating_supply d) = (Inr (), c)" and d': "d' = d\<lparr>circulating_supply := c\<rparr>"
    and u: "u = UndoUnmintTokens i a"
    using assms(2) by (auto simp: token_apply_def unmint_tokens_Inr)
  have "cache_get_token_data P e' i = Inr (Some (FungibleToken t))"
    using tokens_sim_queries(1) [OF assms(3)] q by (simp add: d' supply_update_queries)
  moreover have "wf_amounts (circulating_supply d)" using assms(1) by (simp add: tokens_ok_def)
  note sub_add_unsigned [OF this c]
  ultimately show ?thesis
    using assms(3) l by (simp add: u tokens_undo_op_def op_bind_require_token) (simp add: op_simps d' tokens_sim_def)
qed (use assms in \<open>auto simp: token_apply_def token_Inr tokens_undo_op_def is_frozen_def elim!: undo_token_change\<close>)

lemma token_run_ok:
  assumes "tokens_ok P d" "list_all command_ok cmds" "op_map (token_apply P) cmds d = (Inr us, d')"
  shows "tokens_ok P d'"
  using assms by (induction cmds arbitrary: d us) (auto simp: op_simps intro: token_apply_ok)

lemma token_run_undo_sim:
  assumes "tokens_ok P d" "list_all command_ok cmds" "op_map (token_apply P) cmds d = (Inr us, d')"
  shows "\<exists>e. op_for_each (tokens_undo_op P) (rev us) d' = (Inr (), e) \<and> tokens_sim P d e"
  using assms
proof (induction cmds arbitrary: d us)
  case Nil
  then show ?case by (auto simp: op_simps)
next
  case (Cons cmd cmds)
  then obtain u d1 vs where u: "token_apply P cmd d = (Inr u, d1)"
    and vs: "op_map (token_apply P) cmds d1 = (Inr vs, d')" and us: "us = u # vs"
    by (auto simp: op_simps)
  have "tokens_ok P d1" using token_apply_ok [OF Cons.prems(1) _ u] Cons.prems(2) by simp
  then obtain e1 where e1: "op_for_each (tokens_undo_op P) (rev vs) d' = (Inr (), e1)" "tokens_sim P d1 e1"
    using Cons.IH [OF _ _ vs] Cons.prems(2) by auto
  obtain e where "tokens_undo_op P u e1 = (Inr (), e)" "tokens_sim P d e"
    using token_apply_undo_sim [OF Cons.prems(1) u e1(2)] by blast
  with e1 show ?case by (auto simp: us op_for_each_append op_for_each_Cons)
qed

section \<open>Supply\<close>

definition supply_ok :: "'e tokens_view \<Rightarrow> tokens_delta_data \<Rightarrow> bool" where
  "supply_ok P d \<longleftrightarrow> (\<forall>i t l s. cache_get_token_data P d i = Inr (Some (FungibleToken t)) \<longrightarrow> total_supply t = Fixed l \<longrightarrow>
    cache_get_circulating_supply P d i = Inr s \<longrightarrow> s \<le> l)"

lemma supply_after_mint:
  assumes "wf_amounts (circulating_supply d)" "add_unsigned i a (circulating_supply d) = (Inr (), c)"
    and "cache_get_circulating_supply P d i = Inr s" "cache_get_circulating_supply P (d\<lparr>circulating_supply := c\<rparr>) i = Inr s'"
  shows "amt s' = amt s + amt a"
  using assms by (auto simp: cache_supply_query query_amount_Inr add_unsigned_Inr)

lemma supply_after_unmint:
  assumes "wf_amounts (circulating_supply d)" "sub_unsigned i a (circulating_supply d) = (Inr (), c)"
    and "cache_get_circulating_supply P d i = Inr s" "cache_get_circulating_supply P (d\<lparr>circulating_supply := c\<rparr>) i = Inr s'"
  shows "amt s' = amt s - amt a"
  using assms by (auto simp: cache_supply_query query_amount_Inr sub_unsigned_Inr)

lemma supply_other:
  assumes "wf_amounts (circulating_supply d)" "j \<noteq> i"
    and "add_unsigned i a (circulating_supply d) = (Inr (), c) \<or> sub_unsigned i a (circulating_supply d) = (Inr (), c)"
  shows "cache_get_circulating_supply P (d\<lparr>circulating_supply := c\<rparr>) j = cache_get_circulating_supply P d j"
  using query_unsigned_other [OF assms(1,3,2)] by (simp add: cache_supply_query)

lemma token_change_supply_ok:
  assumes "token_change P i pre f d d' v" "supply_ok P d" "\<And>t. total_supply (f t) = total_supply t"
  shows "supply_ok P d'"
  using assms by (auto simp: token_change_def supply_ok_def split: if_splits)

lemma token_apply_supply_ok:
  assumes "wf_amounts (circulating_supply d)" "supply_ok P d" "token_apply P cmd d = (Inr u, d')"
  shows "supply_ok P d'"
proof (cases cmd)
  case (CmdIssueToken i x)
  then show ?thesis using assms(2,3)
    by (auto simp: token_apply_def issue_token_Inr supply_ok_def amount_le split: if_splits)
next
  case (CmdMintTokens i a)
  then obtain t c where q: "cache_get_token_data P d i = Inr (Some (FungibleToken t))"
    and l: "\<And>l. total_supply t = Fixed l \<Longrightarrow> \<exists>s. cache_get_circulating_supply P d i = Inr s \<and> amt s + amt a \<le> amt l"
    and c: "add_unsigned i a (circulating_supply d) = (Inr (), c)" and d': "d' = d\<lparr>circulating_supply := c\<rparr>"
    using assms(3) by (auto simp: token_apply_def mint_tokens_Inr)
  show ?thesis
    unfolding supply_ok_def d' supply_update_queries
  proof (intro allI impI)
    fix j t' l s' assume j: "cache_get_token_data P d j = Inr (Some (FungibleToken t'))" "total_supply t' = Fixed l"
      "cache_get_circulating_supply P (d\<lparr>circulating_supply := c\<rparr>) j = Inr s'"
    show "s' \<le> l"
    proof (cases "j = i")
      case True
      then obtain s where s: "cache_get_circulating_supply P d i = Inr s" "amt s + amt a \<le> amt l"
        using j q l [of l] by auto
      then show ?thesis using supply_after_mint [OF assms(1) c s(1)] j(3) True by (simp add: amount_le)
    next
      case False
      then show ?thesis using supply_other [OF assms(1) False, of a c P] c j assms(2) by (auto simp: supply_ok_def)
    qed
  qed
next
  case (CmdUnmintTokens i a)
  then obtain s c where q: "cache_get_circulating_supply P d i = Inr s"
    and c: "sub_unsigned i a (circulating_supply d) = (Inr (), c)" and d': "d' = d\<lparr>circulating_supply := c\<rparr>"
    using assms(3) by (auto simp: token_apply_def unmint_tokens_Inr)
  show ?thesis
    unfolding supply_ok_def d' supply_update_queries
  proof (intro allI impI)
    fix j t' l s' assume j: "cache_get_token_data P d j = Inr (Some (FungibleToken t'))" "total_supply t' = Fixed l"
      "cache_get_circulating_supply P (d\<lparr>circulating_supply := c\<rparr>) j = Inr s'"
    show "s' \<le> l"
    proof (cases "j = i")
      case True
      then have "s \<le> l" using j q assms(2) by (auto simp: supply_ok_def)
      then show ?thesis using supply_after_unmint [OF assms(1) c q] j(3) True amt_range(1) [of a]
        by (simp add: amount_le del: amt_range_simps)
    next
      case False
      then show ?thesis using supply_other [OF assms(1) False, of a c P] c j assms(2) by (auto simp: supply_ok_def)
    qed
  qed
qed (use assms(2,3) in \<open>auto simp: token_apply_def token_Inr elim!: token_change_supply_ok\<close>)

lemma token_change_locked:
  assumes "token_change P i pre f d d' v" "cache_get_token_data P d j = Inr (Some (FungibleToken t))" "locked t"
    and "\<And>t. locked t \<Longrightarrow> locked (f t)"
  shows "\<exists>t'. cache_get_token_data P d' j = Inr (Some (FungibleToken t')) \<and> locked t'
    \<and> cache_get_circulating_supply P d' j = cache_get_circulating_supply P d j"
  using assms by (auto simp: token_change_def)

lemma token_apply_locked:
  assumes "tokens_ok P d" "token_apply P cmd d = (Inr u, d')"
    and "cache_get_token_data P d j = Inr (Some (FungibleToken t))" "locked t"
  shows "\<exists>t'. cache_get_token_data P d' j = Inr (Some (FungibleToken t')) \<and> locked t'
    \<and> cache_get_circulating_supply P d' j = cache_get_circulating_supply P d j"
proof (cases cmd)
  case (CmdIssueToken i x)
  then show ?thesis using assms by (auto simp: token_apply_def issue_token_Inr)
next
  case (CmdMintTokens i a)
  then obtain t' c where q: "cache_get_token_data P d i = Inr (Some (FungibleToken t'))"
    and l: "total_supply t' = Lockable \<longrightarrow> \<not> locked t'"
    and c: "add_unsigned i a (circulating_supply d) = (Inr (), c)" and d': "d' = d\<lparr>circulating_supply := c\<rparr>"
    using assms(2) by (auto simp: token_apply_def mint_tokens_Inr)
  have "j \<noteq> i" using q l assms by (auto simp: tokens_ok_def token_ok_def)
  then show ?thesis
    using assms supply_other [of d j i a c P] c by (simp add: d' supply_update_queries tokens_ok_def)
next
  case (CmdUnmintTokens i a)
  then obtain t' c where q: "cache_get_token_data P d i = Inr (Some (FungibleToken t'))" "\<not> locked t'"
    and c: "sub_unsigned i a (circulating_supply d) = (Inr (), c)" and d': "d' = d\<lparr>circulating_supply := c\<rparr>"
    using assms(2) by (auto simp: token_apply_def unmint_tokens_Inr)
  have "j \<noteq> i" using q assms by auto
  then show ?thesis
    using assms supply_other [of d j i a c P] c by (simp add: d' supply_update_queries tokens_ok_def)
qed (use assms(2,3,4) in \<open>auto simp: token_apply_def token_Inr elim!: token_change_locked\<close>)

section \<open>Properties\<close>

text \<open>
  C18: Reorganisation of token accounting. Whatever the parent view returns, undoing a sequence of successful
  token operations from last to first, with the undo data they returned, succeeds at every step, and
  afterwards every query returns what it returned before the first operation. The tokens known before and
  the issued ones must be locked only if their supply is lockable.
\<close>

theorem token_operations_reversible:
  assumes "tokens_ok P d" and "list_all command_ok cmds" and "op_map (token_apply P) cmds d = (Inr us, d')"
  shows "\<exists>e. op_for_each (tokens_undo_op P) (rev us) d' = (Inr (), e) \<and> tokens_cache_view P e = tokens_cache_view P d"
  using token_run_undo_sim [OF assms] tokens_sim_view by blast

text \<open>
  C17: A fixed supply is never exceeded: if no circulating supply exceeds the fixed supply of its token, then
  this is so after every sequence of successful operations.
\<close>

theorem fixed_supply_never_exceeded:
  assumes "wf_amounts (circulating_supply d)" and "supply_ok P d" and "op_map (token_apply P) cmds d = (Inr us, d')"
  shows "supply_ok P d'"
proof -
  have step: "wf_amounts (circulating_supply d')" if "wf_amounts (circulating_supply d)"
    "token_apply P cmd d = (Inr u, d')" for cmd u and d d' :: tokens_delta_data
    using that by (cases cmd) (auto simp: token_apply_def token_Inr token_change_def intro: unsigned_wf)
  show ?thesis
    using assms
  proof (induction cmds arbitrary: d us)
    case (Cons cmd cmds)
    then show ?case by (auto simp: op_simps) (metis step token_apply_supply_ok)
  qed (simp add: op_simps)
qed

text \<open>
  C19: Locking a supply is final: once the supply of a token is locked, every sequence of successful operations
  leaves it locked and its circulating supply as it was.
\<close>

theorem locked_supply_is_final:
  assumes "tokens_ok P d" and "list_all command_ok cmds" and "op_map (token_apply P) cmds d = (Inr us, d')"
    and "cache_get_token_data P d i = Inr (Some (FungibleToken t))" and "locked t"
  shows "\<exists>t'. cache_get_token_data P d' i = Inr (Some (FungibleToken t')) \<and> locked t'
    \<and> cache_get_circulating_supply P d' i = cache_get_circulating_supply P d i"
  using assms
proof (induction cmds arbitrary: d us t)
  case (Cons cmd cmds)
  then obtain u d1 vs where u: "token_apply P cmd d = (Inr u, d1)"
    and vs: "op_map (token_apply P) cmds d1 = (Inr vs, d')"
    by (auto simp: op_simps)
  obtain t1 where "cache_get_token_data P d1 i = Inr (Some (FungibleToken t1))" "locked t1"
    "cache_get_circulating_supply P d1 i = cache_get_circulating_supply P d i"
    using token_apply_locked [OF Cons.prems(1) u Cons.prems(4,5)] by blast
  moreover have "tokens_ok P d1" using token_apply_ok [OF Cons.prems(1) _ u] Cons.prems(2) by simp
  ultimately show ?case using Cons.IH [OF _ _ vs] Cons.prems(2) by auto
qed (auto simp: op_simps)

text \<open>
  C20: A frozen token accepts no operation but unfreezing, and that one exactly when it was frozen as
  unfreezable. Every other operation fails and changes nothing. Minting, freezing, changing the authority and
  changing the metadata fail with the error for a frozen token; issuing it again fails because the token exists; unminting and
  locking fail with the error for a locked supply if the supply is locked, and with the error for a frozen token otherwise.
\<close>

theorem frozen_token_rejects:
  assumes "cache_get_token_data P d i = Inr (Some (FungibleToken t))" and "is_frozen t"
  shows "token_apply P (CmdIssueToken i x) d = (Inl (TokenAlreadyExists i), d)
    \<and> token_apply P (CmdMintTokens i a) d = (Inl (CannotMintFrozenToken i), d)
    \<and> token_apply P (CmdUnmintTokens i a) d =
        (Inl (if locked t then CannotUnmintFromLockedSupply i else CannotUnmintFrozenToken i), d)
    \<and> token_apply P (CmdLockSupply i) d = (Inl (if locked t then SupplyIsAlreadyLocked i else CannotLockFrozenToken i), d)
    \<and> token_apply P (CmdFreezeToken i z) d = (Inl (TokenIsAlreadyFrozen i), d)
    \<and> token_apply P (CmdChangeAuthority i dest) d = (Inl (CannotChangeAuthorityForFrozenToken i), d)
    \<and> token_apply P (CmdChangeMetadataUri i uri) d = (Inl (CannotChangeMetadataUriForFrozenToken i), d)
    \<and> ((\<exists>u d'. token_apply P (CmdUnfreezeToken i) d = (Inr u, d')) \<longleftrightarrow> frozen t = FrozenYes UnfreezableYes)"
proof -
  have "require_token P i e d = (Inr (FungibleToken t), d)" for e
    using assms(1) by (simp add: require_token_Inr)
  moreover have "(\<exists>u d'. token_apply P (CmdUnfreezeToken i) d = (Inr u, d')) \<longleftrightarrow> frozen t = FrozenYes UnfreezableYes"
    using assms(1) by (auto simp: token_apply_def unfreeze_token_Inr token_change_def)
  ultimately show ?thesis
    using assms
    by (simp add: token_apply_def issue_token_def mint_tokens_def unmint_tokens_def lock_circulating_supply_def
        freeze_token_def change_authority_def change_metadata_uri_def op_bind_def op_read_def op_ensure_def)
qed

definition empty_tokens_view :: "token_error tokens_view" where
  "empty_tokens_view = \<lparr>get_token_data = (\<lambda>_. Inr None), get_circulating_supply = (\<lambda>_. Inr amount_ZERO)\<rparr>"

definition sample_token :: "token_total_supply \<Rightarrow> fungible_token_data" where
  "sample_token supply = \<lparr>ft_ticker = [], ft_decimals = 0, ft_metadata_uri = [], total_supply = supply,
    locked = False, frozen = FrozenNo FreezableYes, authority = AnyoneCanSpend\<rparr>"

definition sample_token_commands :: "token_command list" where
  "sample_token_commands = [CmdIssueToken 1 (FungibleToken (sample_token (Fixed (Amount 100)))),
    CmdIssueToken 2 (FungibleToken (sample_token Lockable)), CmdMintTokens 1 (Amount 60), CmdMintTokens 2 (Amount 7),
    CmdLockSupply 2, CmdUnmintTokens 1 (Amount 10), CmdFreezeToken 1 UnfreezableYes, CmdUnfreezeToken 1,
    CmdChangeAuthority 2 AnyoneCanSpend]"

lemma sample_token_commands_run:
  "case op_map (token_apply empty_tokens_view) sample_token_commands tokens_delta_data_new of
    (Inr us, _) \<Rightarrow> length us = 9 | _ \<Rightarrow> False"
  by code_simp

lemma sample_token_commands_ok: "list_all command_ok sample_token_commands"
  by (simp add: sample_token_commands_def command_ok_def token_ok_def sample_token_def)

lemma new_tokens_ok: "tokens_ok empty_tokens_view tokens_delta_data_new"
  by (simp add: tokens_ok_def tokens_delta_data_new_def cache_get_token_data_def get_data_def empty_tokens_view_def)

theorem token_operations_reversible_witness:
  "\<exists>us d e. op_map (token_apply empty_tokens_view) sample_token_commands tokens_delta_data_new = (Inr us, d)
    \<and> op_for_each (tokens_undo_op empty_tokens_view) (rev us) d = (Inr (), e)
    \<and> tokens_cache_view empty_tokens_view e = tokens_cache_view empty_tokens_view tokens_delta_data_new"
proof -
  obtain us d where r: "op_map (token_apply empty_tokens_view) sample_token_commands tokens_delta_data_new = (Inr us, d)"
    using sample_token_commands_run by (auto split: prod.splits sum.splits)
  with token_operations_reversible [OF new_tokens_ok sample_token_commands_ok r] show ?thesis by blast
qed

theorem fixed_supply_never_exceeded_witness:
  "\<exists>us d. op_map (token_apply empty_tokens_view) sample_token_commands tokens_delta_data_new = (Inr us, d)
    \<and> supply_ok empty_tokens_view d"
proof -
  obtain us d where r: "op_map (token_apply empty_tokens_view) sample_token_commands tokens_delta_data_new = (Inr us, d)"
    using sample_token_commands_run by (auto split: prod.splits sum.splits)
  have "supply_ok empty_tokens_view d"
    by (rule fixed_supply_never_exceeded [OF _ _ r])
      (simp_all add: supply_ok_def tokens_delta_data_new_def cache_get_token_data_def get_data_def empty_tokens_view_def)
  with r show ?thesis by blast
qed

definition locked_token_view :: "token_error tokens_view" where
  "locked_token_view = \<lparr>get_token_data = (\<lambda>i. Inr (if i = 2 then Some (FungibleToken ((sample_token Lockable)\<lparr>locked := True\<rparr>)) else None)),
    get_circulating_supply = (\<lambda>i. Inr (if i = 2 then Amount 7 else amount_ZERO))\<rparr>"

lemma locked_token_run:
  "case op_map (token_apply locked_token_view) [CmdChangeAuthority 2 AnyoneCanSpend] tokens_delta_data_new of
    (Inr us, _) \<Rightarrow> True | _ \<Rightarrow> False"
  by code_simp

theorem locked_supply_is_final_witness:
  "\<exists>us d t. op_map (token_apply locked_token_view) [CmdChangeAuthority 2 AnyoneCanSpend] tokens_delta_data_new = (Inr us, d)
    \<and> cache_get_token_data locked_token_view d 2 = Inr (Some (FungibleToken t)) \<and> locked t"
proof -
  have ok: "tokens_ok locked_token_view tokens_delta_data_new"
    by (simp add: tokens_ok_def token_ok_def tokens_delta_data_new_def cache_get_token_data_def get_data_def
        locked_token_view_def sample_token_def)
  have q: "cache_get_token_data locked_token_view tokens_delta_data_new 2 =
      Inr (Some (FungibleToken ((sample_token Lockable)\<lparr>locked := True\<rparr>)))"
    by (simp add: cache_get_token_data_def get_data_def tokens_delta_data_new_def locked_token_view_def)
  obtain us d where r: "op_map (token_apply locked_token_view) [CmdChangeAuthority 2 AnyoneCanSpend] tokens_delta_data_new =
      (Inr us, d)"
    using locked_token_run by (auto split: prod.splits sum.splits)
  with locked_supply_is_final [OF ok _ r q] show ?thesis by (auto simp: command_ok_def)
qed

definition frozen_token_view :: "token_error tokens_view" where
  "frozen_token_view = \<lparr>get_token_data = (\<lambda>_. Inr (Some (FungibleToken ((sample_token Unlimited)\<lparr>frozen := FrozenYes UnfreezableNo\<rparr>)))),
    get_circulating_supply = (\<lambda>_. Inr amount_ZERO)\<rparr>"

theorem frozen_token_rejects_witness:
  "token_apply frozen_token_view (CmdMintTokens 3 (Amount 1)) tokens_delta_data_new =
      (Inl (CannotMintFrozenToken 3), tokens_delta_data_new)
    \<and> \<not> (\<exists>u d'. token_apply frozen_token_view (CmdUnfreezeToken 3) tokens_delta_data_new = (Inr u, d'))"
  using frozen_token_rejects [of frozen_token_view tokens_delta_data_new 3
      "(sample_token Unlimited)\<lparr>frozen := FrozenYes UnfreezableNo\<rparr>"]
  by (simp add: cache_get_token_data_def get_data_def tokens_delta_data_new_def frozen_token_view_def is_frozen_def)

end
