(* ===== verification/TokensStorage.thy ===== *)
theory TokensStorage
  imports TokensSafety
begin

text \<open>
  The database of token accounting (\<open>tokens-accounting/src/storage/db.rs\<close>) over an arbitrary store, and the
  in-memory store. Flushing a delta makes the database answer as the delta over it did before, and a delta
  built by token operations can be flushed exactly when all its supplies can be read.
\<close>

section \<open>The database over a store\<close>

text \<open>The traits \<open>TokensAccountingStorageRead\<close> and \<open>TokensAccountingStorageWrite\<close>.\<close>

record ('s, 'e) tokens_store =
  ts_get_token_data :: "'s \<Rightarrow> token_id \<Rightarrow> 'e + token_data option"
  ts_get_circulating_supply :: "'s \<Rightarrow> token_id \<Rightarrow> 'e + amount option"
  ts_set_token_data :: "token_id \<Rightarrow> token_data \<Rightarrow> ('s, 'e, unit) op"
  ts_del_token_data :: "token_id \<Rightarrow> ('s, 'e, unit) op"
  ts_set_circulating_supply :: "token_id \<Rightarrow> amount \<Rightarrow> ('s, 'e, unit) op"
  ts_del_circulating_supply :: "token_id \<Rightarrow> ('s, 'e, unit) op"

definition token_errors :: "token_error db_errors" where
  "token_errors = \<lparr>view_fail = TokenViewFail, storage_write = TokenStorageWrite, from_accounting = TokenAccountingError\<rparr>"

definition token_data_value :: "('s, 'e) tokens_store \<Rightarrow> ('s, token_id, token_data, 'e) storage_value" where
  "token_data_value st = \<lparr>getter = ts_get_token_data st, setter = ts_set_token_data st, deleter = ts_del_token_data st\<rparr>"

definition supply_value :: "('s, 'e) tokens_store \<Rightarrow> ('s, token_id, amount, 'e) storage_value" where
  "supply_value st = \<lparr>getter = ts_get_circulating_supply st, setter = ts_set_circulating_supply st,
    deleter = ts_del_circulating_supply st\<rparr>"

text \<open>The two loops have the bodies of the batch operations of \<open>Storage\<close>.\<close>

definition tokens_db_merge_with_delta ::
  "('s, 'e) tokens_store \<Rightarrow> tokens_delta_data \<Rightarrow> ('s, token_error fault, tokens_delta_undo_data) op" where
  "tokens_db_merge_with_delta st other =
    op_bind (merge_data_generic token_errors (token_data_value st) (token_data other)) (\<lambda>data_undo.
    op_bind (merge_balances_generic token_errors (supply_value st) (circulating_supply other)) (\<lambda>supply_undo.
    op_return \<lparr>token_data_undo = data_undo, circulating_supply_undo = supply_undo\<rparr>))"

definition batch_write_tokens_data ::
  "('s, 'e) tokens_store \<Rightarrow> tokens_delta_data \<Rightarrow> ('s, token_error fault, tokens_delta_undo_data) op" where
  "batch_write_tokens_data st delta = op_map_err (\<lambda>f. case f of Err _ \<Rightarrow> Err TokenStorageWrite | Panic \<Rightarrow> Panic)
    (tokens_db_merge_with_delta st delta)"

definition tokens_db_view :: "('s, 'e) tokens_store \<Rightarrow> 's \<Rightarrow> 'e tokens_view" where
  "tokens_db_view st s = \<lparr>get_token_data = ts_get_token_data st s,
    get_circulating_supply = (\<lambda>i. map_ok unwrap_or_zero (ts_get_circulating_supply st s i))\<rparr>"

section \<open>The in-memory store\<close>

record tokens_memory =
  mem_tokens_data :: "(token_id, token_data) fmap"
  mem_circulating_supply :: "(token_id, amount) fmap"

definition tokens_memory_new :: tokens_memory where
  "tokens_memory_new = \<lparr>mem_tokens_data = fmempty, mem_circulating_supply = fmempty\<rparr>"

definition tokens_memory_store :: "(tokens_memory, storage_result_error) tokens_store" where
  "tokens_memory_store = \<lparr>
    ts_get_token_data = (\<lambda>s i. Inr (fmlookup (mem_tokens_data s) i)),
    ts_get_circulating_supply = (\<lambda>s i. Inr (fmlookup (mem_circulating_supply s) i)),
    ts_set_token_data = (\<lambda>i x. op_modify (mem_tokens_data_update (fmupd i x))),
    ts_del_token_data = (\<lambda>i. op_modify (mem_tokens_data_update (fmdrop i))),
    ts_set_circulating_supply = (\<lambda>i a. op_modify (mem_circulating_supply_update (fmupd i a))),
    ts_del_circulating_supply = (\<lambda>i. op_modify (mem_circulating_supply_update (fmdrop i)))\<rparr>"

lemmas tokens_value_defs = token_data_value_def supply_value_def tokens_memory_store_def

interpretation token_data_db: data_store "token_data_value tokens_memory_store"
  "\<lambda>s. fmlookup (mem_tokens_data s)" "\<lambda>k x. mem_tokens_data_update (fm_put k x)" token_errors
  by unfold_locales (auto simp: tokens_value_defs op_modify_def)

interpretation supply_db: balance_store "supply_value tokens_memory_store"
  "\<lambda>s. fmlookup (mem_circulating_supply s)" "\<lambda>k x. mem_circulating_supply_update (fm_put k x)" token_errors
  by unfold_locales (auto simp: tokens_value_defs op_modify_def)

section \<open>Flushing a delta\<close>

definition tokens_fits :: "tokens_memory \<Rightarrow> tokens_delta_data \<Rightarrow> bool" where
  "tokens_fits s d \<longleftrightarrow> based (fmlookup (mem_tokens_data s)) (token_data d)
    \<and> balance_fits (fmlookup (mem_circulating_supply s)) (circulating_supply d)"

lemma tokens_columns:
  "merge_data_generic token_errors (token_data_value tokens_memory_store) x s = (r, t) \<Longrightarrow>
    mem_circulating_supply t = mem_circulating_supply s"
  "merge_balances_generic token_errors (supply_value tokens_memory_store) y s = (q, t) \<Longrightarrow>
    mem_tokens_data t = mem_tokens_data s"
  using token_data_db.merge_data_frame [of x s r t mem_circulating_supply]
    supply_db.merge_balances_frame [of y s q t mem_tokens_data]
  by simp_all

lemma tokens_db_merge_Inr:
  assumes "tokens_db_merge_with_delta tokens_memory_store d s = (Inr u, t)"
  shows "tokens_fits s d" and "fmlookup (mem_tokens_data t) = data_at (fmlookup (mem_tokens_data s)) (token_data d)"
    and "fmlookup (mem_circulating_supply t) =
      balance_after (fmlookup (mem_circulating_supply s)) (circulating_supply d)"
    and "token_data_undo u = fmmap invert (token_data d)"
    and "amounts_negated (circulating_supply d) (circulating_supply_undo u)"
proof -
  obtain du su s1 where
    m: "merge_data_generic token_errors (token_data_value tokens_memory_store) (token_data d) s = (Inr du, s1)"
      "merge_balances_generic token_errors (supply_value tokens_memory_store) (circulating_supply d) s1 = (Inr su, t)"
    and u: "u = \<lparr>token_data_undo = du, circulating_supply_undo = su\<rparr>"
    using assms by (auto simp: tokens_db_merge_with_delta_def op_simps)
  note c = tokens_columns(1) [OF m(1)] tokens_columns(2) [OF m(2)]
  note r = token_data_db.merge_data_Inr [OF m(1)] supply_db.merge_balances_Inr [OF m(2)]
  show "tokens_fits s d" using r c by (simp add: tokens_fits_def)
  show "fmlookup (mem_tokens_data t) = data_at (fmlookup (mem_tokens_data s)) (token_data d)" using r c by simp
  show "fmlookup (mem_circulating_supply t) =
      balance_after (fmlookup (mem_circulating_supply s)) (circulating_supply d)" using r c by simp
  show "token_data_undo u = fmmap invert (token_data d)" using r u by simp
  show "amounts_negated (circulating_supply d) (circulating_supply_undo u)" using r u by simp
qed

lemma tokens_db_merge_succeeds:
  assumes "tokens_fits s d"
  shows "\<exists>u t. tokens_db_merge_with_delta tokens_memory_store d s = (Inr u, t)"
proof -
  note fits = assms [unfolded tokens_fits_def]
  obtain du s1 where m: "merge_data_generic token_errors (token_data_value tokens_memory_store) (token_data d) s = (Inr du, s1)"
    using token_data_db.merge_data_succeeds fits by blast
  moreover obtain su t where
    "merge_balances_generic token_errors (supply_value tokens_memory_store) (circulating_supply d) s1 = (Inr su, t)"
    using supply_db.merge_balances_succeeds [of s1 "circulating_supply d"] fits by (auto simp: tokens_columns(1) [OF m])
  ultimately show ?thesis by (auto simp: tokens_db_merge_with_delta_def op_simps)
qed

lemma tokens_db_merge_no_panic: "tokens_db_merge_with_delta tokens_memory_store d s \<noteq> (Inl Panic, t)"
  using token_data_db.merge_data_no_panic supply_db.merge_balances_no_panic
  by (auto simp: tokens_db_merge_with_delta_def op_simps)

lemma tokens_db_view_simps [simp]:
  "get_token_data (tokens_db_view tokens_memory_store s) i = Inr (fmlookup (mem_tokens_data s) i)"
  "get_circulating_supply (tokens_db_view tokens_memory_store s) i =
    Inr (unwrap_or_zero (fmlookup (mem_circulating_supply s) i))"
  by (simp_all add: tokens_db_view_def tokens_memory_store_def)

lemma token_query_db:
  "cache_get_token_data (tokens_db_view tokens_memory_store s) d i =
    Inr (data_at (fmlookup (mem_tokens_data s)) (token_data d) i)"
  by (simp add: cache_data_query query_data_flush [where b = "fmlookup (mem_tokens_data s)"])

text \<open>The deltas of token data that the operations build start at the values of the database.\<close>

lemma put_token_based:
  assumes "based (fmlookup (mem_tokens_data s)) (token_data d)"
    and "cache_get_token_data (tokens_db_view tokens_memory_store s) d i = Inr x"
  shows "based (fmlookup (mem_tokens_data s)) (token_data (put_token i x y d))"
  using assms
  by (cases "fmlookup (token_data d) i")
    (auto simp: put_token_def based_def token_query_db data_at_def)

lemma token_apply_based:
  assumes "based (fmlookup (mem_tokens_data s)) (token_data d)"
    and "token_apply (tokens_db_view tokens_memory_store s) cmd d = (Inr u, d')"
  shows "based (fmlookup (mem_tokens_data s)) (token_data d')"
  using assms
  by (cases cmd) (auto simp: token_apply_def token_Inr token_change_def intro: put_token_based)

lemma token_run_based:
  assumes "based (fmlookup (mem_tokens_data s)) (token_data d)"
    and "op_map (token_apply (tokens_db_view tokens_memory_store s)) cmds d = (Inr us, d')"
  shows "based (fmlookup (mem_tokens_data s)) (token_data d')"
  using assms by (induction cmds arbitrary: d us) (auto simp: op_simps intro: token_apply_based)

lemma supply_readable_iff:
  "(\<forall>i. \<exists>b. cache_get_circulating_supply (tokens_db_view tokens_memory_store s) d i = Inr b) \<longleftrightarrow>
    balance_fits (fmlookup (mem_circulating_supply s)) (circulating_supply d)" (is "?l \<longleftrightarrow> ?r")
proof
  assume ?l
  show ?r
    unfolding balance_fits_def
  proof (intro allI impI)
    fix k assume k: "fmlookup (circulating_supply d) k \<noteq> None"
    obtain b where "cache_get_circulating_supply (tokens_db_view tokens_memory_store s) d k = Inr b"
      using \<open>?l\<close> by blast
    with k have "stored_amount (fmlookup (mem_circulating_supply s) k) < 2 ^ 127" "amt b < 2 ^ 127"
      "amt b = stored_amount (fmlookup (mem_circulating_supply s) k) + net (circulating_supply d) k"
      by (auto simp: cache_supply_query query_amount_Inr)
    with amt_range(1) [of b] show "stored_amount (fmlookup (mem_circulating_supply s) k) < 2 ^ 127
        \<and> 0 \<le> stored_amount (fmlookup (mem_circulating_supply s) k) + net (circulating_supply d) k
        \<and> stored_amount (fmlookup (mem_circulating_supply s) k) + net (circulating_supply d) k < 2 ^ 127"
      by simp
  qed
next
  assume r: ?r
  show ?l
  proof
    fix i
    have "cache_get_circulating_supply (tokens_db_view tokens_memory_store s) d i =
        Inr (unwrap_or_zero (balance_after (fmlookup (mem_circulating_supply s)) (circulating_supply d) i))"
      unfolding cache_supply_query by (rule query_amount_flush [OF r]) simp
    then show "\<exists>b. cache_get_circulating_supply (tokens_db_view tokens_memory_store s) d i = Inr b" by blast
  qed
qed

section \<open>Properties\<close>

text \<open>
  C21: Flushing a token delta into the database is transparent. If it succeeds, then every query of the
  database for the data or the circulating supply of a token returns what the delta over the database
  returned before.
\<close>

theorem tokens_flush_transparent:
  assumes "batch_write_tokens_data tokens_memory_store d s = (Inr u, t)"
  shows "map_err (\<lambda>_. TokenViewFail) (get_token_data (tokens_db_view tokens_memory_store t) i) =
      cache_get_token_data (tokens_db_view tokens_memory_store s) d i
    \<and> map_err (\<lambda>_. TokenViewFail) (get_circulating_supply (tokens_db_view tokens_memory_store t) i) =
      cache_get_circulating_supply (tokens_db_view tokens_memory_store s) d i"
proof -
  have m: "tokens_db_merge_with_delta tokens_memory_store d s = (Inr u, t)"
    using assms by (simp add: batch_write_tokens_data_def op_simps)
  have "balance_fits (fmlookup (mem_circulating_supply s)) (circulating_supply d)"
    using tokens_db_merge_Inr(1) [OF m] by (simp add: tokens_fits_def)
  then show ?thesis
    by (simp add: token_query_db tokens_db_merge_Inr(2,3) [OF m] cache_supply_query
        query_amount_flush [where b = "fmlookup (mem_circulating_supply s)"])
qed

text \<open>
  C22: The delta that a successful sequence of token operations leaves over the database can be flushed
  if and only if every circulating supply can be read from the delta over the database. A supply cannot be read when it exceeds the signed
  range, and minting does not prevent that. The flush never panics: when it does not succeed it reports a failed write.
\<close>

theorem tokens_run_flushes:
  assumes "op_map (token_apply (tokens_db_view tokens_memory_store s)) cmds tokens_delta_data_new = (Inr us, d)"
  shows "((\<exists>u t. batch_write_tokens_data tokens_memory_store d s = (Inr u, t)) \<longleftrightarrow>
      (\<forall>i. \<exists>b. cache_get_circulating_supply (tokens_db_view tokens_memory_store s) d i = Inr b))
    \<and> (\<forall>e t. batch_write_tokens_data tokens_memory_store d s = (Inl e, t) \<longrightarrow> e = Err TokenStorageWrite)"
proof -
  have "based (fmlookup (mem_tokens_data s)) (token_data d)"
    using token_run_based [OF _ assms] by (simp add: tokens_delta_data_new_def)
  moreover have "(\<exists>u t. batch_write_tokens_data tokens_memory_store d s = (Inr u, t)) \<longleftrightarrow> tokens_fits s d"
    using tokens_db_merge_Inr(1) tokens_db_merge_succeeds by (auto simp: batch_write_tokens_data_def op_simps)
  moreover have "e = Err TokenStorageWrite" if "batch_write_tokens_data tokens_memory_store d s = (Inl e, t)" for e t
    using that tokens_db_merge_no_panic [of d s t]
    by (auto simp: batch_write_tokens_data_def op_simps split: fault.splits) (metis fault.exhaust)
  ultimately show ?thesis unfolding supply_readable_iff by (auto simp: tokens_fits_def)
qed

lemma sample_token_flush:
  "case op_map (token_apply (tokens_db_view tokens_memory_store tokens_memory_new)) sample_token_commands tokens_delta_data_new of
     (Inr us, d) \<Rightarrow> (case batch_write_tokens_data tokens_memory_store d tokens_memory_new of
       (Inr _, t) \<Rightarrow> fmlookup (mem_circulating_supply t) 1 = Some (Amount 50) | _ \<Rightarrow> False)
   | _ \<Rightarrow> False"
  by code_simp

theorem tokens_flush_transparent_witness:
  "\<exists>us d u t. op_map (token_apply (tokens_db_view tokens_memory_store tokens_memory_new)) sample_token_commands
      tokens_delta_data_new = (Inr us, d)
    \<and> batch_write_tokens_data tokens_memory_store d tokens_memory_new = (Inr u, t)
    \<and> cache_get_circulating_supply (tokens_db_view tokens_memory_store tokens_memory_new) d 1 = Inr (Amount 50)"
proof -
  obtain us d u t where r: "op_map (token_apply (tokens_db_view tokens_memory_store tokens_memory_new)) sample_token_commands
      tokens_delta_data_new = (Inr us, d)"
    and m: "batch_write_tokens_data tokens_memory_store d tokens_memory_new = (Inr u, t)"
    and t: "fmlookup (mem_circulating_supply t) 1 = Some (Amount 50)"
    using sample_token_flush by (auto split: prod.splits sum.splits)
  with tokens_flush_transparent [OF m, of 1] show ?thesis by (auto simp: unwrap_or_zero_def)
qed

theorem tokens_run_flushes_witness:
  "\<exists>us d. op_map (token_apply (tokens_db_view tokens_memory_store tokens_memory_new)) sample_token_commands
      tokens_delta_data_new = (Inr us, d)
    \<and> (\<forall>i. \<exists>b. cache_get_circulating_supply (tokens_db_view tokens_memory_store tokens_memory_new) d i = Inr b)"
proof -
  obtain us d u t where r: "op_map (token_apply (tokens_db_view tokens_memory_store tokens_memory_new)) sample_token_commands
      tokens_delta_data_new = (Inr us, d)"
    and m: "batch_write_tokens_data tokens_memory_store d tokens_memory_new = (Inr u, t)"
    using sample_token_flush by (auto split: prod.splits sum.splits)
  with tokens_run_flushes [OF r] show ?thesis by blast
qed

end
