(* ===== verification/OrdersAccounting.thy ===== *)
theory OrdersAccounting
  imports Storage Chain
begin

text \<open>
  The \<open>orders-accounting\<close> crate without its storage: the cache over a parent view with the operations that
  create, fill and conclude an order, their undo, and the calculation of the amount a fill pays out.
\<close>

section \<open>Data\<close>

datatype order_error =
    OrderStorageError storage_result_error
  | OrderAccountingError accounting_error
  | OrderAlreadyExists order_id
  | OrderDataNotFound order_id
  | OrderWithZeroValue order_id
  | InvariantOrderDataNotFoundForUndo order_id
  | InvariantOrderAskBalanceChangedForUndo order_id
  | InvariantOrderGiveBalanceChangedForUndo order_id
  | InvariantOrderDataExistForConcludeUndo order_id
  | InvariantOrderAskBalanceExistForConcludeUndo order_id
  | InvariantOrderGiveBalanceExistForConcludeUndo order_id
  | InvariantNonzeroAskBalanceForMissingOrder order_id
  | InvariantNonzeroGiveBalanceForMissingOrder order_id
  | CurrencyMismatch
  | OrderOverflow order_id
  | OrderOverbid order_id amount amount
  | AttemptedConcludeNonexistingOrderData order_id
  | UnsupportedTokenVersion
  | OrderViewFail
  | OrderStorageWrite

text \<open>The trait \<open>OrdersAccountingView\<close>.\<close>

record 'e orders_view =
  get_order_data :: "order_id \<Rightarrow> 'e + order_data option"
  get_ask_balance :: "order_id \<Rightarrow> 'e + amount"
  get_give_balance :: "order_id \<Rightarrow> 'e + amount"

record orders_delta_data =
  order_deltas :: "(order_id, order_data) delta_data"
  ask_balances :: "order_id delta_amounts"
  give_balances :: "order_id delta_amounts"

definition orders_delta_data_new :: orders_delta_data where
  "orders_delta_data_new = \<lparr>order_deltas = fmempty, ask_balances = fmempty, give_balances = fmempty\<rparr>"

record orders_delta_undo_data =
  order_data_undo :: "(order_id, order_data) delta_data_undo"
  ask_balances_undo :: "order_id delta_amounts"
  give_balances_undo :: "order_id delta_amounts"

abbreviation on_order_data where
  "on_order_data m \<equiv> op_map_err OrderAccountingError (op_zoom order_deltas (\<lambda>v. order_deltas_update (\<lambda>_. v)) m)"

abbreviation on_ask_balances where
  "on_ask_balances m \<equiv> op_map_err OrderAccountingError (op_zoom ask_balances (\<lambda>v. ask_balances_update (\<lambda>_. v)) m)"

abbreviation on_give_balances where
  "on_give_balances m \<equiv> op_map_err OrderAccountingError (op_zoom give_balances (\<lambda>v. give_balances_update (\<lambda>_. v)) m)"

definition orders_merge_with_delta ::
  "orders_delta_data \<Rightarrow> (orders_delta_data, order_error, orders_delta_undo_data) op" where
  "orders_merge_with_delta other =
    op_bind (on_order_data (merge_delta_data (order_deltas other))) (\<lambda>data_undo.
    op_bind (on_ask_balances (merge_delta_amounts (ask_balances other))) (\<lambda>_.
    op_bind (on_give_balances (merge_delta_amounts (give_balances other))) (\<lambda>_.
    op_return \<lparr>order_data_undo = data_undo, ask_balances_undo = ask_balances other,
      give_balances_undo = give_balances other\<rparr>)))"

section \<open>Queries\<close>

definition cache_get_order_data :: "'e orders_view \<Rightarrow> orders_delta_data \<Rightarrow> order_id \<Rightarrow> order_error + order_data option" where
  "cache_get_order_data parent d i = (case get_data (order_deltas d) i of
      Present x \<Rightarrow> Inr (Some x)
    | Deleted \<Rightarrow> Inr None
    | Missing \<Rightarrow> map_err (\<lambda>_. OrderViewFail) (get_order_data parent i))"

definition cache_get_ask_balance :: "'e orders_view \<Rightarrow> orders_delta_data \<Rightarrow> order_id \<Rightarrow> order_error + amount" where
  "cache_get_ask_balance parent d i =
    res_bind (map_err (\<lambda>_. OrderViewFail) (get_ask_balance parent i)) (\<lambda>parent_supply.
    map_err OrderAccountingError (combine_amount_delta parent_supply (fmlookup (ask_balances d) i)))"

definition cache_get_give_balance :: "'e orders_view \<Rightarrow> orders_delta_data \<Rightarrow> order_id \<Rightarrow> order_error + amount" where
  "cache_get_give_balance parent d i =
    res_bind (map_err (\<lambda>_. OrderViewFail) (get_give_balance parent i)) (\<lambda>parent_supply.
    map_err OrderAccountingError (combine_amount_delta parent_supply (fmlookup (give_balances d) i)))"

definition orders_cache_view :: "'e orders_view \<Rightarrow> orders_delta_data \<Rightarrow> order_error orders_view" where
  "orders_cache_view parent d = \<lparr>get_order_data = cache_get_order_data parent d,
    get_ask_balance = cache_get_ask_balance parent d, get_give_balance = cache_get_give_balance parent d\<rparr>"

section \<open>Price calculation\<close>

text \<open>
  The product of two 128-bit numbers is computed as a \<open>Uint256\<close>; the code expects it not to overflow, so
  the model has a panic there.
\<close>

definition calculate_filled_amount_impl :: "amount \<Rightarrow> amount \<Rightarrow> amount \<Rightarrow> order_error fault + amount option" where
  "calculate_filled_amount_impl ask_amount give_amount fill_amount =
    (let g = ucast (into_atoms give_amount) :: u256;
         f = ucast (into_atoms fill_amount) :: u256;
         a = ucast (into_atoms ask_amount) :: u256 in
     case checked_mul g f of
       None \<Rightarrow> Inl Panic
     | Some product \<Rightarrow> Inr (case checked_div product a of
         None \<Rightarrow> None
       | Some result \<Rightarrow>
           if uint result < 2 ^ 128 then Some (from_atoms (ucast result)) else None))"

definition ensure_currencies_and_amounts_match ::
  "order_id \<Rightarrow> output_value \<Rightarrow> output_value \<Rightarrow> order_error + unit" where
  "ensure_currencies_and_amounts_match i asked filled = (case (asked, filled) of
      (Coin a, Coin f) \<Rightarrow> if a \<ge> f then Inr () else Inl (OrderOverbid i a f)
    | (TokenV1 id1 a, TokenV1 id2 f) \<Rightarrow>
        if a \<ge> f then if id1 = id2 then Inr () else Inl CurrencyMismatch
        else Inl (OrderOverbid i a f)
    | (Coin _, TokenV1 _ _) \<Rightarrow> Inl CurrencyMismatch
    | (TokenV1 _ _, Coin _) \<Rightarrow> Inl CurrencyMismatch
    | (TokenV0 _, _) \<Rightarrow> Inl UnsupportedTokenVersion
    | (_, TokenV0 _) \<Rightarrow> Inl UnsupportedTokenVersion)"

definition output_value_amount :: "output_value \<Rightarrow> order_error + amount" where
  "output_value_amount v = (case v of
      Coin amount \<Rightarrow> Inr amount
    | TokenV1 _ amount \<Rightarrow> Inr amount
    | TokenV0 _ \<Rightarrow> Inl UnsupportedTokenVersion)"

text \<open>The remaining balance of the asked currency.\<close>

definition ask_remaining :: "output_value \<Rightarrow> amount \<Rightarrow> order_error + output_value" where
  "ask_remaining asked balance = (case asked of
      Coin _ \<Rightarrow> Inr (Coin balance)
    | TokenV0 _ \<Rightarrow> Inl UnsupportedTokenVersion
    | TokenV1 i _ \<Rightarrow> Inr (TokenV1 i balance))"

definition calculate_fill_order :: "'e orders_view \<Rightarrow> order_id \<Rightarrow> output_value \<Rightarrow> order_error fault + amount" where
  "calculate_fill_order view i fill_value =
    res_bind (map_err (\<lambda>_. Err OrderViewFail) (get_order_data view i)) (\<lambda>found.
    res_bind (ok_or (Err (OrderDataNotFound i)) found) (\<lambda>order_data.
    res_bind (map_err (\<lambda>_. Err OrderViewFail) (get_ask_balance view i)) (\<lambda>ask_balance.
    res_bind (map_err (\<lambda>_. Err OrderViewFail) (get_give_balance view i)) (\<lambda>give_balance.
    res_bind (map_err Err (ask_remaining (ask order_data) ask_balance)) (\<lambda>remaining.
    res_bind (map_err Err (ensure_currencies_and_amounts_match i remaining fill_value)) (\<lambda>_.
    res_bind (map_err Err (output_value_amount fill_value)) (\<lambda>fill_amount.
    res_bind (calculate_filled_amount_impl ask_balance give_balance fill_amount) (\<lambda>filled.
    ok_or (Err (OrderOverflow i)) filled))))))))"

section \<open>Operations\<close>

datatype order_undo =
    UndoCreateOrder order_id "order_data data_delta_undo" amount amount
  | UndoConcludeOrder order_id "order_data data_delta_undo" amount amount
  | UndoFillOrder order_id amount amount

definition create_order :: "'e orders_view \<Rightarrow> order_id \<Rightarrow> order_data \<Rightarrow> (orders_delta_data, order_error, order_undo) op" where
  "create_order parent i data =
    op_bind (op_read (\<lambda>d. cache_get_order_data parent d i)) (\<lambda>existing.
    op_bind (op_ensure (existing = None) (OrderAlreadyExists i)) (\<lambda>_.
    op_bind (op_read (\<lambda>d. cache_get_ask_balance parent d i)) (\<lambda>ask_balance.
    op_bind (op_ensure (ask_balance = amount_ZERO) (OrderAlreadyExists i)) (\<lambda>_.
    op_bind (op_read (\<lambda>_. output_value_amount (ask data))) (\<lambda>ask_amount.
    op_bind (op_read (\<lambda>_. output_value_amount (give data))) (\<lambda>give_amount.
    op_bind (op_ensure (ask_amount > amount_ZERO \<and> give_amount > amount_ZERO) (OrderWithZeroValue i)) (\<lambda>_.
    op_bind (on_order_data (merge_delta_data_element i (DataDelta None (Some data)))) (\<lambda>undo_data.
    op_bind (on_ask_balances (add_unsigned i ask_amount)) (\<lambda>_.
    op_bind (on_give_balances (add_unsigned i give_amount)) (\<lambda>_.
    op_return (UndoCreateOrder i undo_data ask_amount give_amount)))))))))))"

definition conclude_order :: "'e orders_view \<Rightarrow> order_id \<Rightarrow> (orders_delta_data, order_error, order_undo) op" where
  "conclude_order parent i =
    op_bind (op_read (\<lambda>d. res_bind (cache_get_order_data parent d i)
      (ok_or (AttemptedConcludeNonexistingOrderData i)))) (\<lambda>data.
    op_bind (op_read (\<lambda>d. cache_get_ask_balance parent d i)) (\<lambda>ask_balance.
    op_bind (op_read (\<lambda>d. cache_get_give_balance parent d i)) (\<lambda>give_balance.
    op_bind (on_order_data (merge_delta_data_element i (DataDelta (Some data) None))) (\<lambda>undo_data.
    op_bind (on_ask_balances (sub_unsigned i ask_balance)) (\<lambda>_.
    op_bind (on_give_balances (sub_unsigned i give_balance)) (\<lambda>_.
    op_return (UndoConcludeOrder i undo_data ask_balance give_balance)))))))"

definition fill_order ::
  "'e orders_view \<Rightarrow> order_id \<Rightarrow> output_value \<Rightarrow> (orders_delta_data, order_error fault, order_undo) op" where
  "fill_order parent i fill_value =
    op_bind (op_read (\<lambda>_. map_err Err (output_value_amount fill_value))) (\<lambda>fill_amount.
    op_bind (op_read (\<lambda>d. calculate_fill_order (orders_cache_view parent d) i fill_value)) (\<lambda>filled_amount.
    op_bind (op_map_err Err (on_give_balances (sub_unsigned i filled_amount))) (\<lambda>_.
    op_bind (op_map_err Err (on_ask_balances (sub_unsigned i fill_amount))) (\<lambda>_.
    op_return (UndoFillOrder i fill_amount filled_amount)))))"

section \<open>Undo\<close>

definition undo_create_order :: "'e orders_view \<Rightarrow> order_id \<Rightarrow> order_data data_delta_undo \<Rightarrow> amount \<Rightarrow> amount
    \<Rightarrow> (orders_delta_data, order_error, unit) op" where
  "undo_create_order parent i undo_data ask_balance give_balance =
    op_bind (op_read (\<lambda>d. cache_get_ask_balance parent d i)) (\<lambda>ask_now.
    op_bind (op_ensure (ask_now = ask_balance) (InvariantOrderAskBalanceChangedForUndo i)) (\<lambda>_.
    op_bind (on_ask_balances (sub_unsigned i ask_balance)) (\<lambda>_.
    op_bind (op_read (\<lambda>d. cache_get_give_balance parent d i)) (\<lambda>give_now.
    op_bind (op_ensure (give_now = give_balance) (InvariantOrderGiveBalanceChangedForUndo i)) (\<lambda>_.
    op_bind (on_give_balances (sub_unsigned i give_balance)) (\<lambda>_.
    op_bind (op_read (\<lambda>d. cache_get_order_data parent d i)) (\<lambda>existing.
    op_bind (op_ensure (existing \<noteq> None) (InvariantOrderDataNotFoundForUndo i)) (\<lambda>_.
    on_order_data (undo_merge_delta_data_element i undo_data)))))))))"

definition undo_conclude_order :: "'e orders_view \<Rightarrow> order_id \<Rightarrow> order_data data_delta_undo \<Rightarrow> amount \<Rightarrow> amount
    \<Rightarrow> (orders_delta_data, order_error, unit) op" where
  "undo_conclude_order parent i undo_data ask_balance give_balance =
    op_bind (op_read (\<lambda>d. cache_get_order_data parent d i)) (\<lambda>existing.
    op_bind (op_ensure (existing = None) (InvariantOrderDataExistForConcludeUndo i)) (\<lambda>_.
    op_bind (on_order_data (undo_merge_delta_data_element i undo_data)) (\<lambda>_.
    op_bind (op_read (\<lambda>d. cache_get_ask_balance parent d i)) (\<lambda>ask_now.
    op_bind (op_ensure (ask_now = amount_ZERO) (InvariantOrderAskBalanceExistForConcludeUndo i)) (\<lambda>_.
    op_bind (on_ask_balances (add_unsigned i ask_balance)) (\<lambda>_.
    op_bind (op_read (\<lambda>d. cache_get_give_balance parent d i)) (\<lambda>give_now.
    op_bind (op_ensure (give_now = amount_ZERO) (InvariantOrderGiveBalanceExistForConcludeUndo i)) (\<lambda>_.
    on_give_balances (add_unsigned i give_balance)))))))))"

definition undo_fill_order :: "order_id \<Rightarrow> amount \<Rightarrow> amount \<Rightarrow> (orders_delta_data, order_error, unit) op" where
  "undo_fill_order i ask_balance give_balance =
    op_bind (on_ask_balances (add_unsigned i ask_balance)) (\<lambda>_.
    on_give_balances (add_unsigned i give_balance))"

definition orders_undo_op :: "'e orders_view \<Rightarrow> order_undo \<Rightarrow> (orders_delta_data, order_error, unit) op" where
  "orders_undo_op parent undo = (case undo of
      UndoCreateOrder i u a g \<Rightarrow> undo_create_order parent i u a g
    | UndoConcludeOrder i u a g \<Rightarrow> undo_conclude_order parent i u a g
    | UndoFillOrder i a g \<Rightarrow> undo_fill_order i a g)"

end
