(* ===== verification/OrdersSafety.thy ===== *)
theory OrdersSafety
  imports OrdersAccounting
begin

text \<open>
  Reversibility and fairness of orders: undo restores every query; a fill never pays out more than the
  price of the order allows, so that over any sequence of fills the remaining price never gets worse for
  the takers, and an order is exhausted on one side exactly when it is on the other.
\<close>

section \<open>Price\<close>

lemma uint_ucast_u256: "uint (ucast (x :: u128) :: u256) = uint x"
  by (simp add: unsigned_ucast_eq take_bit_int_eq_self_iff) (use uint_range [of x] in simp)

lemma calculate_filled_amount_no_panic: "calculate_filled_amount_impl a g f \<noteq> Inl Panic"
proof -
  have "uint (atoms g) * uint (atoms f) < 2 ^ 128 * 2 ^ 128"
    using uint_range [of "atoms g"] uint_range [of "atoms f"] by (intro mult_strict_mono') simp_all
  then have "checked_mul (ucast (atoms g) :: u256) (ucast (atoms f)) \<noteq> None"
    by (simp add: checked_mul_None uint_ucast_u256)
  then show ?thesis by (auto simp: calculate_filled_amount_impl_def Let_def into_atoms_def split: option.splits)
qed

lemma calculate_filled_amount_Some:
  "calculate_filled_amount_impl a g f = Inr (Some x) \<longleftrightarrow> 0 < amt a \<and> amt x = amt g * amt f div amt a"
proof -
  obtain p where p: "checked_mul (ucast (atoms g) :: u256) (ucast (atoms f)) = Some p"
    using calculate_filled_amount_no_panic [of a g f]
    by (auto simp: calculate_filled_amount_impl_def Let_def into_atoms_def split: option.splits)
  then have up: "uint p = amt g * amt f" by (simp add: checked_mul_Some uint_ucast_u256 amt_def)
  show ?thesis
  proof (cases "amt a = 0")
    case True
    then have "checked_div p (ucast (atoms a)) = None" by (simp add: checked_div_None uint_ucast_u256 amt_def)
    with p True show ?thesis by (simp add: calculate_filled_amount_impl_def Let_def into_atoms_def)
  next
    case False
    then obtain r where r: "checked_div p (ucast (atoms a)) = Some r"
      by (cases "checked_div p (ucast (atoms a))") (auto simp: checked_div_None uint_ucast_u256 amt_def)
    then have ur: "uint r = amt g * amt f div amt a" using up by (simp add: checked_div_Some uint_ucast_u256 amt_def)
    have "0 < amt a" using False amt_range(1) [of a] by linarith
    moreover have "(uint r < 2 ^ 128 \<and> x = Amount (ucast r)) \<longleftrightarrow> amt x = uint r"
    proof (cases x)
      case (Amount w)
      have "w = ucast r" if "uint w = uint r" using that by (simp add: ucast_eq flip: that)
      moreover have "uint (ucast r :: u128) = uint r" if "uint r < 2 ^ 128"
        using that by (simp add: unsigned_ucast_eq take_bit_int_eq_self_iff)
      ultimately show ?thesis using Amount uint_range [of w] by (auto simp: amt_def)
    qed
    ultimately show ?thesis
      using p r ur by (auto simp: calculate_filled_amount_impl_def Let_def into_atoms_def from_atoms_def)
  qed
qed

section \<open>Queries\<close>

lemma cache_order_query:
  "cache_get_order_data P d = query_data OrderViewFail (get_order_data P) (order_deltas d)"
  by (simp add: fun_eq_iff cache_get_order_data_def query_data_def)

lemma cache_balance_query:
  "cache_get_ask_balance P d = query_amount OrderViewFail OrderAccountingError (get_ask_balance P) (ask_balances d)"
  "cache_get_give_balance P d = query_amount OrderViewFail OrderAccountingError (get_give_balance P) (give_balances d)"
  by (simp_all add: fun_eq_iff cache_get_ask_balance_def cache_get_give_balance_def query_amount_def)

lemma orders_cache_view_simps [simp]:
  "get_order_data (orders_cache_view P d) = cache_get_order_data P d"
  "get_ask_balance (orders_cache_view P d) = cache_get_ask_balance P d"
  "get_give_balance (orders_cache_view P d) = cache_get_give_balance P d"
  by (simp_all add: orders_cache_view_def)

definition orders_sim :: "'e orders_view \<Rightarrow> orders_delta_data \<Rightarrow> orders_delta_data \<Rightarrow> bool" where
  "orders_sim P d e \<longleftrightarrow> ask_balances e = ask_balances d \<and> give_balances e = give_balances d
    \<and> data_sim (get_order_data P) (order_deltas d) (order_deltas e)"

lemma orders_sim_refl [simp]: "orders_sim P d d"
  by (simp add: orders_sim_def)

lemma orders_sim_queries:
  assumes "orders_sim P d e"
  shows "cache_get_order_data P e = cache_get_order_data P d"
    and "cache_get_ask_balance P e = cache_get_ask_balance P d"
    and "cache_get_give_balance P e = cache_get_give_balance P d"
  using assms by (simp_all add: orders_sim_def cache_order_query query_data_sim cache_balance_query)

lemma orders_sim_view: "orders_sim P d e \<Longrightarrow> orders_cache_view P e = orders_cache_view P d"
  by (simp add: orders_cache_view_def orders_sim_queries)

section \<open>Successful operations\<close>

definition put_order :: "order_id \<Rightarrow> order_data option \<Rightarrow> order_data option \<Rightarrow> order_id delta_amounts
    \<Rightarrow> order_id delta_amounts \<Rightarrow> orders_delta_data \<Rightarrow> orders_delta_data" where
  "put_order i x y ab gb d = d\<lparr>order_deltas :=
      fm_put i (delta_comp (fmlookup (order_deltas d) i) (Some (DataDelta x y))) (order_deltas d),
    ask_balances := ab, give_balances := gb\<rparr>"

lemma put_order_fields [simp]:
  "ask_balances (put_order i x y ab gb d) = ab" "give_balances (put_order i x y ab gb d) = gb"
  by (simp_all add: put_order_def)

lemma put_order_data [simp]:
  "cache_get_order_data P (put_order i x y ab gb d) j = (if j = i then Inr y else cache_get_order_data P d j)"
  by (simp add: put_order_def cache_order_query query_after_merge)

lemma create_order_Inr:
  "create_order P i x d = (Inr u, d') \<longleftrightarrow> (\<exists>a g ab gb. cache_get_order_data P d i = Inr None
    \<and> cache_get_ask_balance P d i = Inr amount_ZERO
    \<and> output_value_amount (ask x) = Inr a \<and> output_value_amount (give x) = Inr g
    \<and> a \<noteq> amount_ZERO \<and> g \<noteq> amount_ZERO
    \<and> add_unsigned i a (ask_balances d) = (Inr (), ab) \<and> add_unsigned i g (give_balances d) = (Inr (), gb)
    \<and> d' = put_order i None (Some x) ab gb d
    \<and> u = UndoCreateOrder i (DataDeltaUndo (DataDelta (Some x) None)) a g)"
  by (auto simp: create_order_def op_simps cache_order_query query_composable invert_def put_order_def)

lemma conclude_order_Inr:
  "conclude_order P i d = (Inr u, d') \<longleftrightarrow> (\<exists>x a g ab gb. cache_get_order_data P d i = Inr (Some x)
    \<and> cache_get_ask_balance P d i = Inr a \<and> cache_get_give_balance P d i = Inr g
    \<and> sub_unsigned i a (ask_balances d) = (Inr (), ab) \<and> sub_unsigned i g (give_balances d) = (Inr (), gb)
    \<and> d' = put_order i (Some x) None ab gb d
    \<and> u = UndoConcludeOrder i (DataDeltaUndo (DataDelta None (Some x))) a g)"
  by (auto simp: conclude_order_def op_simps res_simps cache_order_query query_composable invert_def put_order_def)

lemma fill_amount_match:
  assumes "ask_remaining asked a = Inr r" "ensure_currencies_and_amounts_match i r v = Inr ()"
    "output_value_amount v = Inr f"
  shows "amt f \<le> amt a" and "from_output_value v = from_output_value asked"
  using assms
  by (auto simp: ask_remaining_def ensure_currencies_and_amounts_match_def output_value_amount_def
      from_output_value_def amount_le split: output_value.splits if_splits)

lemma fill_order_Inr:
  assumes "fill_order P i v d = (Inr u, d')"
  shows "\<exists>x a g f r ab gb. cache_get_order_data P d i = Inr (Some x)
    \<and> cache_get_ask_balance P d i = Inr a \<and> cache_get_give_balance P d i = Inr g
    \<and> output_value_amount v = Inr f \<and> from_output_value v = from_output_value (ask x)
    \<and> 0 < amt a \<and> amt f \<le> amt a \<and> amt r = amt g * amt f div amt a
    \<and> sub_unsigned i f (ask_balances d) = (Inr (), ab) \<and> sub_unsigned i r (give_balances d) = (Inr (), gb)
    \<and> d' = d\<lparr>ask_balances := ab, give_balances := gb\<rparr> \<and> u = UndoFillOrder i f r"
proof -
  obtain f r where f: "output_value_amount v = Inr f"
    and c: "calculate_fill_order (orders_cache_view P d) i v = Inr r"
    and rest: "\<exists>ab gb. sub_unsigned i f (ask_balances d) = (Inr (), ab) \<and> sub_unsigned i r (give_balances d) = (Inr (), gb)
      \<and> d' = d\<lparr>ask_balances := ab, give_balances := gb\<rparr> \<and> u = UndoFillOrder i f r"
    using assms by (auto simp: fill_order_def op_simps res_simps)
  obtain x a g w where "cache_get_order_data P d i = Inr (Some x)" "cache_get_ask_balance P d i = Inr a"
    "cache_get_give_balance P d i = Inr g" "ask_remaining (ask x) a = Inr w"
    "ensure_currencies_and_amounts_match i w v = Inr ()" "calculate_filled_amount_impl a g f = Inr (Some r)"
    using c f by (auto simp: calculate_fill_order_def res_simps)
  with rest f fill_amount_match [of "ask x" a w i v f] show ?thesis
    by (auto simp: calculate_filled_amount_Some)
qed

section \<open>Commands\<close>

datatype order_command =
    CmdCreateOrder order_id order_data
  | CmdConcludeOrder order_id
  | CmdFillOrder order_id output_value

definition order_apply :: "'e orders_view \<Rightarrow> order_command \<Rightarrow> (orders_delta_data, order_error fault, order_undo) op" where
  "order_apply P cmd = (case cmd of
      CmdCreateOrder i x \<Rightarrow> op_map_err Err (create_order P i x)
    | CmdConcludeOrder i \<Rightarrow> op_map_err Err (conclude_order P i)
    | CmdFillOrder i v \<Rightarrow> fill_order P i v)"

text \<open>
  An order that does not exist has nothing left to give. Creating an order checks only the other balance,
  but undoing the creation relies on it.
\<close>

definition orders_ok :: "'e orders_view \<Rightarrow> orders_delta_data \<Rightarrow> bool" where
  "orders_ok P d \<longleftrightarrow> wf_amounts (ask_balances d) \<and> wf_amounts (give_balances d)
    \<and> (\<forall>i. cache_get_order_data P d i = Inr None \<longrightarrow> cache_get_give_balance P d i = Inr amount_ZERO)"

lemma give_other:
  assumes "wf_amounts (give_balances d)" "j \<noteq> i" "give_balances d' = gb"
    and "add_unsigned i a (give_balances d) = (Inr (), gb) \<or> sub_unsigned i a (give_balances d) = (Inr (), gb)"
  shows "cache_get_give_balance P d' j = cache_get_give_balance P d j"
  using query_unsigned_other [OF assms(1,4,2)] assms(3) by (simp add: cache_balance_query)

lemma order_apply_ok:
  assumes "orders_ok P d" "order_apply P cmd d = (Inr u, d')"
  shows "orders_ok P d'"
proof -
  have wf: "wf_amounts (ask_balances d)" "wf_amounts (give_balances d)"
    and none: "\<And>i. cache_get_order_data P d i = Inr None \<Longrightarrow> cache_get_give_balance P d i = Inr amount_ZERO"
    using assms(1) by (auto simp: orders_ok_def)
  show ?thesis
  proof (cases cmd)
    case (CmdCreateOrder i x)
    then obtain a g ab gb where a: "add_unsigned i a (ask_balances d) = (Inr (), ab)"
      and g: "add_unsigned i g (give_balances d) = (Inr (), gb)" and d': "d' = put_order i None (Some x) ab gb d"
      using assms(2) by (auto simp: order_apply_def op_simps create_order_Inr)
    have "cache_get_give_balance P d' j = cache_get_give_balance P d j" if "j \<noteq> i" for j
      by (rule give_other [OF wf(2) that _ disjI1 [OF g]]) (simp add: d')
    then show ?thesis
      using none unsigned_wf(1) [OF wf(1) a] unsigned_wf(1) [OF wf(2) g] by (auto simp: orders_ok_def d')
  next
    case (CmdConcludeOrder i)
    then obtain x a g ab gb where q: "cache_get_give_balance P d i = Inr g"
      and a: "sub_unsigned i a (ask_balances d) = (Inr (), ab)"
      and g: "sub_unsigned i g (give_balances d) = (Inr (), gb)" and d': "d' = put_order i (Some x) None ab gb d"
      using assms(2) by (auto simp: order_apply_def op_simps conclude_order_Inr)
    have "cache_get_give_balance P d' j = cache_get_give_balance P d j" if "j \<noteq> i" for j
      by (rule give_other [OF wf(2) that _ disjI2 [OF g]]) (simp add: d')
    moreover have "cache_get_give_balance P d' i = Inr amount_ZERO"
      using query_after_sub [OF wf(2) q [unfolded cache_balance_query] g] by (simp add: cache_balance_query d')
    ultimately show ?thesis
      using none unsigned_wf(2) [OF wf(1) a] unsigned_wf(2) [OF wf(2) g]
      by (auto simp: orders_ok_def d' split: if_splits)
  next
    case (CmdFillOrder i v)
    then obtain x f r ab gb where q: "cache_get_order_data P d i = Inr (Some x)"
      and a: "sub_unsigned i f (ask_balances d) = (Inr (), ab)"
      and g: "sub_unsigned i r (give_balances d) = (Inr (), gb)" and d': "d' = d\<lparr>ask_balances := ab, give_balances := gb\<rparr>"
      using assms(2) fill_order_Inr [of P i v d u d'] by (auto simp: order_apply_def)
    have o: "cache_get_order_data P d' = cache_get_order_data P d" by (simp add: d' cache_order_query)
    have "cache_get_give_balance P d' j = cache_get_give_balance P d j" if "j \<noteq> i" for j
      by (rule give_other [OF wf(2) that _ disjI2 [OF g]]) (simp add: d')
    then have "cache_get_give_balance P d' j = Inr amount_ZERO" if "cache_get_order_data P d j = Inr None" for j
      using q none that by (cases "j = i") auto
    then show ?thesis
      using unsigned_wf(2) [OF wf(1) a] unsigned_wf(2) [OF wf(2) g] unfolding orders_ok_def o by (simp add: d')
  qed
qed

section \<open>Undo\<close>

lemma put_order_sim:
  assumes "cache_get_order_data P d i = Inr x" "orders_sim P (put_order i x y ab gb d) e"
  shows "composable (fmlookup (order_deltas e) i) (Some (DataDelta y x))"
    and "data_sim (get_order_data P) (order_deltas d)
      (fm_put i (delta_comp (fmlookup (order_deltas e) i) (Some (DataDelta y x))) (order_deltas e))"
    and "ask_balances e = ab" "give_balances e = gb"
  using assms(2) data_sim_undo [OF assms(1) [unfolded cache_order_query], of y "order_deltas e"]
  by (simp_all add: orders_sim_def put_order_def)

lemma order_apply_undo_sim:
  assumes "orders_ok P d" "order_apply P cmd d = (Inr u, d')" "orders_sim P d' e'"
  shows "\<exists>e. orders_undo_op P u e' = (Inr (), e) \<and> orders_sim P d e"
proof -
  have wf: "wf_amounts (ask_balances d)" "wf_amounts (give_balances d)"
    and none: "\<And>i. cache_get_order_data P d i = Inr None \<Longrightarrow> cache_get_give_balance P d i = Inr amount_ZERO"
    using assms(1) by (auto simp: orders_ok_def)
  note q' = orders_sim_queries [OF assms(3)]
  show ?thesis
  proof (cases cmd)
    case (CmdCreateOrder i x)
    then obtain a g ab gb where q: "cache_get_order_data P d i = Inr None" "cache_get_ask_balance P d i = Inr amount_ZERO"
      and a: "add_unsigned i a (ask_balances d) = (Inr (), ab)"
      and g: "add_unsigned i g (give_balances d) = (Inr (), gb)" and d': "d' = put_order i None (Some x) ab gb d"
      and u: "u = UndoCreateOrder i (DataDeltaUndo (DataDelta (Some x) None)) a g"
      using assms(2) by (auto simp: order_apply_def op_simps create_order_Inr)
    note s = put_order_sim [OF q(1) assms(3) [unfolded d']]
    have "cache_get_ask_balance P d' i = Inr a" "cache_get_give_balance P d' i = Inr g"
      using query_after_add [OF wf(1) q(2) [unfolded cache_balance_query] a]
        query_after_add [OF wf(2) none [OF q(1), unfolded cache_balance_query] g] by (simp_all add: cache_balance_query d')
    then have "query_amount OrderViewFail OrderAccountingError (get_ask_balance P) ab i = Inr a"
      "query_amount OrderViewFail OrderAccountingError (get_give_balance P) gb i = Inr g"
      by (simp_all add: cache_balance_query d')
    moreover have "query_data OrderViewFail (get_order_data P) (order_deltas e') i = Inr (Some x)"
      using q'(1) by (simp add: d' flip: cache_order_query)
    moreover note add_sub_unsigned [OF wf(1) a] add_sub_unsigned [OF wf(2) g]
    ultimately show ?thesis
      using s by (simp add: u orders_undo_op_def undo_create_order_def op_simps cache_balance_query cache_order_query
          orders_sim_def)
  next
    case (CmdConcludeOrder i)
    then obtain x a g ab gb where q: "cache_get_order_data P d i = Inr (Some x)" "cache_get_ask_balance P d i = Inr a"
        "cache_get_give_balance P d i = Inr g"
      and a: "sub_unsigned i a (ask_balances d) = (Inr (), ab)"
      and g: "sub_unsigned i g (give_balances d) = (Inr (), gb)" and d': "d' = put_order i (Some x) None ab gb d"
      and u: "u = UndoConcludeOrder i (DataDeltaUndo (DataDelta None (Some x))) a g"
      using assms(2) by (auto simp: order_apply_def op_simps conclude_order_Inr)
    note s = put_order_sim [OF q(1) assms(3) [unfolded d']]
    have "query_amount OrderViewFail OrderAccountingError (get_ask_balance P) ab i = Inr amount_ZERO"
      "query_amount OrderViewFail OrderAccountingError (get_give_balance P) gb i = Inr amount_ZERO"
      using query_after_sub [OF wf(1) q(2) [unfolded cache_balance_query] a]
        query_after_sub [OF wf(2) q(3) [unfolded cache_balance_query] g] by simp_all
    moreover have "query_data OrderViewFail (get_order_data P) (order_deltas e') i = Inr None"
      using q'(1) by (simp add: d' flip: cache_order_query)
    moreover note sub_add_unsigned [OF wf(1) a] sub_add_unsigned [OF wf(2) g]
    ultimately show ?thesis
      using s by (simp add: u orders_undo_op_def undo_conclude_order_def op_simps cache_balance_query cache_order_query
          orders_sim_def)
  next
    case (CmdFillOrder i v)
    then obtain f r ab gb where a: "sub_unsigned i f (ask_balances d) = (Inr (), ab)"
      and g: "sub_unsigned i r (give_balances d) = (Inr (), gb)" and d': "d' = d\<lparr>ask_balances := ab, give_balances := gb\<rparr>"
      and u: "u = UndoFillOrder i f r"
      using assms(2) fill_order_Inr [of P i v d u d'] by (auto simp: order_apply_def)
    note sub_add_unsigned [OF wf(1) a] sub_add_unsigned [OF wf(2) g]
    then show ?thesis
      using assms(3) by (simp add: u orders_undo_op_def undo_fill_order_def op_simps orders_sim_def d')
  qed
qed

lemma order_run_undo_sim:
  assumes "orders_ok P d" "op_map (order_apply P) cmds d = (Inr us, d')"
  shows "\<exists>e. op_for_each (orders_undo_op P) (rev us) d' = (Inr (), e) \<and> orders_sim P d e"
  using assms
proof (induction cmds arbitrary: d us)
  case Nil
  then show ?case by (auto simp: op_simps)
next
  case (Cons cmd cmds)
  then obtain u d1 vs where u: "order_apply P cmd d = (Inr u, d1)"
    and vs: "op_map (order_apply P) cmds d1 = (Inr vs, d')" and us: "us = u # vs"
    by (auto simp: op_simps)
  obtain e1 where e1: "op_for_each (orders_undo_op P) (rev vs) d' = (Inr (), e1)" "orders_sim P d1 e1"
    using Cons.IH [OF order_apply_ok [OF Cons.prems(1) u] vs] by blast
  obtain e where "orders_undo_op P u e1 = (Inr (), e)" "orders_sim P d e"
    using order_apply_undo_sim [OF Cons.prems(1) u e1(2)] by blast
  with e1 show ?case by (auto simp: us op_for_each_append op_for_each_Cons)
qed

section \<open>Fairness\<close>

text \<open>
  What is left of an order after some fills, against what was there before: the maker has given away at
  most the proportional part, rounded down, and the order is exhausted on both sides or on none.
\<close>

definition fair_remainder :: "int \<Rightarrow> int \<Rightarrow> int \<Rightarrow> int \<Rightarrow> bool" where
  "fair_remainder a g a' g' \<longleftrightarrow> 0 \<le> a' \<and> a' \<le> a \<and> 0 \<le> g' \<and> g' \<le> g \<and> g * a' \<le> g' * a \<and> (a' = 0 \<longleftrightarrow> g' = 0)"

lemma fair_fill:
  fixes a g f :: int
  assumes "0 < a" "0 < g" "0 \<le> f" "f \<le> a"
  shows "fair_remainder a g (a - f) (g - g * f div a)"
proof -
  let ?r = "g * f div a"
  have r: "?r * a \<le> g * f" "0 \<le> ?r"
    using assms div_mult_mod_eq [of "g * f" a] pos_mod_sign [of a "g * f"]
    by (linarith, simp add: pos_imp_zdiv_nonneg_iff)
  have "g * f \<le> g * a" using assms by (simp add: mult_left_mono)
  then have "?r \<le> g * a div a" using assms by (intro zdiv_mono1) simp_all
  then have le: "?r \<le> g" using assms by simp
  have "a - f = 0 \<longleftrightarrow> g - ?r = 0"
  proof
    assume "a - f = 0"
    then show "g - ?r = 0" using assms by simp
  next
    assume "g - ?r = 0"
    then have "g * a \<le> g * f" using r(1) by simp
    then show "a - f = 0" using assms by simp
  qed
  moreover have "g * (a - f) \<le> (g - ?r) * a" using r(1) by (simp add: algebra_simps)
  ultimately show ?thesis using assms r le by (simp add: fair_remainder_def)
qed

lemma fair_remainder_trans:
  assumes "fair_remainder a g b h" "fair_remainder b h c k" "0 < b" "0 < a"
  shows "fair_remainder a g c k"
proof -
  have "g * c * b \<le> h * c * a"
    using assms by (auto simp: fair_remainder_def mult.commute mult.left_commute intro: mult_left_mono)
  also have "\<dots> \<le> k * b * a"
    using assms by (auto simp: fair_remainder_def intro!: mult_right_mono)
  finally have "(g * c) * b \<le> (k * a) * b" by (simp add: ac_simps)
  then have "g * c \<le> k * a" using assms(3) by simp
  with assms show ?thesis by (auto simp: fair_remainder_def)
qed

definition keeps_order :: "order_id \<Rightarrow> order_command \<Rightarrow> bool" where
  "keeps_order i cmd = (case cmd of CmdCreateOrder j _ \<Rightarrow> j \<noteq> i | CmdConcludeOrder j \<Rightarrow> j \<noteq> i | CmdFillOrder _ _ \<Rightarrow> True)"

lemma net_unsigned:
  assumes "wf_amounts c"
  shows "add_unsigned k a c = (Inr u, c') \<Longrightarrow> net c' j = net c j + (if j = k then amt a else 0)"
    and "sub_unsigned k a c = (Inr u, c') \<Longrightarrow> net c' j = net c j - (if j = k then amt a else 0)"
  using assms by (auto simp: add_unsigned_Inr sub_unsigned_Inr)

lemma order_apply_remainder:
  assumes "orders_ok P d" "order_apply P cmd d = (Inr u, d')" "keeps_order i cmd"
    and "get_ask_balance P i = Inr pa" "get_give_balance P i = Inr pg"
    and "a = amt pa + net (ask_balances d) i" "g = amt pg + net (give_balances d) i"
    and "a' = amt pa + net (ask_balances d') i" "g' = amt pg + net (give_balances d') i"
  shows "a' = a \<and> g' = g \<or> 0 < a \<and> (0 < g \<longrightarrow> fair_remainder a g a' g')"
proof -
  have wf: "wf_amounts (ask_balances d)" "wf_amounts (give_balances d)" using assms(1) by (auto simp: orders_ok_def)
  note n = net_unsigned [OF wf(1)] net_unsigned [OF wf(2)]
  show ?thesis
  proof (cases cmd)
    case (CmdCreateOrder j x)
    then show ?thesis
      using assms n(1,3) by (auto simp: order_apply_def op_simps create_order_Inr keeps_order_def)
  next
    case (CmdConcludeOrder j)
    then show ?thesis
      using assms n(2,4) by (auto simp: order_apply_def op_simps conclude_order_Inr keeps_order_def)
  next
    case (CmdFillOrder j v)
    then obtain b h f r ab gb where q: "cache_get_ask_balance P d j = Inr b" "cache_get_give_balance P d j = Inr h"
      and f: "0 < amt b" "amt f \<le> amt b" "amt r = amt h * amt f div amt b"
      and s: "sub_unsigned j f (ask_balances d) = (Inr (), ab)" "sub_unsigned j r (give_balances d) = (Inr (), gb)"
      and d': "d' = d\<lparr>ask_balances := ab, give_balances := gb\<rparr>"
      using assms(2) fill_order_Inr [of P j v d u d'] by (auto simp: order_apply_def)
    show ?thesis
    proof (cases "j = i")
      case True
      then have "amt b = a" "amt h = g"
        using q assms(4,5,6,7) by (auto simp: cache_balance_query query_amount_Inr)
      moreover have "a' = a - amt f" "g' = g - amt r"
        using n(2) [OF s(1)] n(4) [OF s(2)] assms(6-9) True by (simp_all add: d')
      ultimately show ?thesis using f fair_fill [of a g "amt f"] by simp
    next
      case False
      then show ?thesis using n(2) [OF s(1)] n(4) [OF s(2)] assms(6-9) by (simp add: d')
    qed
  qed
qed

lemma order_run_remainder:
  assumes "orders_ok P d" "op_map (order_apply P) cmds d = (Inr us, d')" "list_all (keeps_order i) cmds"
    and "get_ask_balance P i = Inr pa" "get_give_balance P i = Inr pg"
    and "0 < amt pa + net (ask_balances d) i" "0 < amt pg + net (give_balances d) i"
  shows "fair_remainder (amt pa + net (ask_balances d) i) (amt pg + net (give_balances d) i)
    (amt pa + net (ask_balances d') i) (amt pg + net (give_balances d') i)"
  using assms
proof (induction cmds arbitrary: d' us rule: rev_induct)
  case Nil
  then show ?case by (auto simp: op_simps fair_remainder_def)
next
  case (snoc cmd cmds)
  then obtain vs u d1 where vs: "op_map (order_apply P) cmds d = (Inr vs, d1)"
    and u: "order_apply P cmd d1 = (Inr u, d')"
    by (auto simp: op_map_append op_simps)
  have ok: "orders_ok P d1"
    using snoc.prems(1) vs
  proof (induction cmds arbitrary: d vs)
    case (Cons c cs)
    then show ?case by (auto simp: op_simps intro: order_apply_ok)
  qed (simp add: op_simps)
  have IH: "fair_remainder (amt pa + net (ask_balances d) i) (amt pg + net (give_balances d) i)
    (amt pa + net (ask_balances d1) i) (amt pg + net (give_balances d1) i)"
    using snoc.IH [OF snoc.prems(1) vs] snoc.prems by simp
  have "keeps_order i cmd" using snoc.prems(3) by simp
  from order_apply_remainder [OF ok u this snoc.prems(4,5) refl refl refl refl] IH snoc.prems(6,7) show ?case
  proof (elim disjE)
    assume *: "0 < amt pa + net (ask_balances d1) i \<and> (0 < amt pg + net (give_balances d1) i \<longrightarrow>
      fair_remainder (amt pa + net (ask_balances d1) i) (amt pg + net (give_balances d1) i)
        (amt pa + net (ask_balances d') i) (amt pg + net (give_balances d') i))"
    then have "0 < amt pg + net (give_balances d1) i" using IH by (auto simp: fair_remainder_def)
    with * show ?thesis using fair_remainder_trans [OF IH] snoc.prems(6) by blast
  qed (use IH in simp)
qed

section \<open>Properties\<close>

text \<open>
  C25: Reorganisation of orders. Whatever the parent view returns, undoing a sequence of successful operations
  from last to first, with the undo data they returned, succeeds at every step, and afterwards every query
  returns what it returned before the first operation. Orders that do not exist must have no give balance.
\<close>

theorem order_operations_reversible:
  assumes "orders_ok P d" and "op_map (order_apply P) cmds d = (Inr us, d')"
  shows "\<exists>e. op_for_each (orders_undo_op P) (rev us) d' = (Inr (), e) \<and> orders_cache_view P e = orders_cache_view P d"
  using order_run_undo_sim [OF assms] orders_sim_view by blast

text \<open>
  C23: Fills are fair to both sides. Take an order with balances \<open>a\<close> to ask and \<open>g\<close> to give, both positive,
  and any sequence of successful operations that does not conclude it. Then the balances \<open>a'\<close> and \<open>g'\<close> that
  are left have not grown, \<open>g a' \<le> g' a\<close>, that is the maker has given at most the proportional part,
  and the order has nothing left to give exactly when it has nothing left to ask.
\<close>

theorem order_fills_fair:
  assumes "orders_ok P d" and "op_map (order_apply P) cmds d = (Inr us, d')" and "list_all (keeps_order i) cmds"
    and "cache_get_ask_balance P d i = Inr a" and "cache_get_give_balance P d i = Inr g"
    and "cache_get_ask_balance P d' i = Inr a'" and "cache_get_give_balance P d' i = Inr g'"
    and "amount_ZERO < a" and "amount_ZERO < g"
  shows "a' \<le> a \<and> g' \<le> g \<and> amt g * amt a' \<le> amt g' * amt a \<and> (a' = amount_ZERO \<longleftrightarrow> g' = amount_ZERO)"
proof -
  obtain pa pg where p: "get_ask_balance P i = Inr pa" "get_give_balance P i = Inr pg"
    and e: "amt a = amt pa + net (ask_balances d) i" "amt g = amt pg + net (give_balances d) i"
      "amt a' = amt pa + net (ask_balances d') i" "amt g' = amt pg + net (give_balances d') i"
    using assms(4-7) by (auto simp: cache_balance_query query_amount_Inr)
  have pos: "0 < amt a" "0 < amt g" using assms(8,9) by (simp_all add: amount_less del: positive_iff)
  show ?thesis
    using order_run_remainder [OF assms(1-3) p] pos
    by (simp add: e [symmetric] fair_remainder_def amount_le amt_zero_iff)
qed

text \<open>
  C24: The amount that a fill pays out is the give balance times the filled amount divided by the ask balance,
  rounded down. It exists exactly if the ask balance is not zero and the result fits 128 bits; the product
  of two 128-bit amounts never overflows 256 bits, so the \<open>expect\<close> in the calculation is never reached.
\<close>

theorem calculate_filled_amount_exact:
  "calculate_filled_amount_impl a g f \<noteq> Inl Panic
    \<and> (calculate_filled_amount_impl a g f = Inr (Some r) \<longleftrightarrow> 0 < amt a \<and> amt r = amt g * amt f div amt a)"
  using calculate_filled_amount_no_panic calculate_filled_amount_Some by blast

definition empty_orders_view :: "order_error orders_view" where
  "empty_orders_view = \<lparr>get_order_data = (\<lambda>_. Inr None), get_ask_balance = (\<lambda>_. Inr amount_ZERO),
    get_give_balance = (\<lambda>_. Inr amount_ZERO)\<rparr>"

definition sample_order_commands :: "order_command list" where
  "sample_order_commands = [CmdCreateOrder 5 \<lparr>conclude_key = AnyoneCanSpend, ask = Coin (Amount 3), give = TokenV1 9 (Amount 100)\<rparr>,
    CmdFillOrder 5 (Coin (Amount 1)), CmdFillOrder 5 (Coin (Amount 2)), CmdConcludeOrder 5]"

lemma sample_order_commands_run:
  "case op_map (order_apply empty_orders_view) sample_order_commands orders_delta_data_new of
    (Inr us, _) \<Rightarrow> us ! 1 = UndoFillOrder 5 (Amount 1) (Amount 33) \<and> us ! 2 = UndoFillOrder 5 (Amount 2) (Amount 67)
   | _ \<Rightarrow> False"
  by code_simp

lemma new_orders_ok: "orders_ok empty_orders_view orders_delta_data_new"
  by (simp add: orders_ok_def orders_delta_data_new_def empty_orders_view_def cache_balance_query query_amount_def
      combine_amount_delta_def)

theorem order_operations_reversible_witness:
  "\<exists>us d e. op_map (order_apply empty_orders_view) sample_order_commands orders_delta_data_new = (Inr us, d)
    \<and> op_for_each (orders_undo_op empty_orders_view) (rev us) d = (Inr (), e)
    \<and> orders_cache_view empty_orders_view e = orders_cache_view empty_orders_view orders_delta_data_new"
proof -
  obtain us d where r: "op_map (order_apply empty_orders_view) sample_order_commands orders_delta_data_new = (Inr us, d)"
    using sample_order_commands_run by (auto split: prod.splits sum.splits)
  with order_operations_reversible [OF new_orders_ok r] show ?thesis by blast
qed

definition sample_orders_view :: "order_error orders_view" where
  "sample_orders_view = \<lparr>get_order_data = (\<lambda>_. Inr (Some \<lparr>conclude_key = AnyoneCanSpend, ask = Coin (Amount 3),
      give = TokenV1 9 (Amount 100)\<rparr>)),
    get_ask_balance = (\<lambda>_. Inr (Amount 3)), get_give_balance = (\<lambda>_. Inr (Amount 100))\<rparr>"

lemma sample_orders_run:
  "case op_map (order_apply sample_orders_view) [CmdFillOrder 5 (Coin (Amount 2))] orders_delta_data_new of
    (Inr us, d) \<Rightarrow> cache_get_ask_balance sample_orders_view d 5 = Inr (Amount 1)
      \<and> cache_get_give_balance sample_orders_view d 5 = Inr (Amount 34)
   | _ \<Rightarrow> False"
  by code_simp

theorem order_fills_fair_witness:
  "\<exists>us d. op_map (order_apply sample_orders_view) [CmdFillOrder 5 (Coin (Amount 2))] orders_delta_data_new = (Inr us, d)
    \<and> Amount 34 \<le> Amount 100 \<and> amt (Amount 100) * amt (Amount 1) \<le> amt (Amount 34) * amt (Amount 3)"
proof -
  obtain us d where r: "op_map (order_apply sample_orders_view) [CmdFillOrder 5 (Coin (Amount 2))] orders_delta_data_new =
      (Inr us, d)"
    and q: "cache_get_ask_balance sample_orders_view d 5 = Inr (Amount 1)"
      "cache_get_give_balance sample_orders_view d 5 = Inr (Amount 34)"
    using sample_orders_run by (auto split: prod.splits sum.splits)
  have ok: "orders_ok sample_orders_view orders_delta_data_new"
    by (simp add: orders_ok_def orders_delta_data_new_def sample_orders_view_def cache_get_order_data_def get_data_def)
  have i: "cache_get_ask_balance sample_orders_view orders_delta_data_new 5 = Inr (Amount 3)"
    "cache_get_give_balance sample_orders_view orders_delta_data_new 5 = Inr (Amount 100)"
    by (simp_all add: cache_get_ask_balance_def cache_get_give_balance_def orders_delta_data_new_def sample_orders_view_def
        combine_amount_delta_def)
  have "Amount 1 \<le> Amount 3 \<and> Amount 34 \<le> Amount 100 \<and> amt (Amount 100) * amt (Amount 1) \<le> amt (Amount 34) * amt (Amount 3)
      \<and> (Amount 1 = amount_ZERO \<longleftrightarrow> Amount 34 = amount_ZERO)"
    by (rule order_fills_fair [OF ok r _ i q]) (simp_all add: keeps_order_def amount_less amt_def amount_ZERO_def from_atoms_def del: positive_iff)
  with r show ?thesis by blast
qed

end
