(* ===== verification/OrdersStorage.thy ===== *)
theory OrdersStorage
  imports OrdersSafety
begin

text \<open>
  The database of orders accounting (\<open>orders-accounting/src/storage/db.rs\<close>) over an arbitrary store, and the
  in-memory store. Flushing a delta makes the database answer as the delta over it did before, and the delta
  that order operations leave can always be flushed.
\<close>

section \<open>The database over a store\<close>

text \<open>The traits \<open>OrdersAccountingStorageRead\<close> and \<open>OrdersAccountingStorageWrite\<close>.\<close>

record ('s, 'e) orders_store =
  os_get_order_data :: "'s \<Rightarrow> order_id \<Rightarrow> 'e + order_data option"
  os_get_ask_balance :: "'s \<Rightarrow> order_id \<Rightarrow> 'e + amount option"
  os_get_give_balance :: "'s \<Rightarrow> order_id \<Rightarrow> 'e + amount option"
  os_set_order_data :: "order_id \<Rightarrow> order_data \<Rightarrow> ('s, 'e, unit) op"
  os_del_order_data :: "order_id \<Rightarrow> ('s, 'e, unit) op"
  os_set_ask_balance :: "order_id \<Rightarrow> amount \<Rightarrow> ('s, 'e, unit) op"
  os_del_ask_balance :: "order_id \<Rightarrow> ('s, 'e, unit) op"
  os_set_give_balance :: "order_id \<Rightarrow> amount \<Rightarrow> ('s, 'e, unit) op"
  os_del_give_balance :: "order_id \<Rightarrow> ('s, 'e, unit) op"

definition order_errors :: "order_error db_errors" where
  "order_errors = \<lparr>view_fail = OrderViewFail, storage_write = OrderStorageWrite, from_accounting = OrderAccountingError\<rparr>"

definition order_data_value :: "('s, 'e) orders_store \<Rightarrow> ('s, order_id, order_data, 'e) storage_value" where
  "order_data_value st = \<lparr>getter = os_get_order_data st, setter = os_set_order_data st, deleter = os_del_order_data st\<rparr>"

definition ask_value :: "('s, 'e) orders_store \<Rightarrow> ('s, order_id, amount, 'e) storage_value" where
  "ask_value st = \<lparr>getter = os_get_ask_balance st, setter = os_set_ask_balance st, deleter = os_del_ask_balance st\<rparr>"

definition give_value :: "('s, 'e) orders_store \<Rightarrow> ('s, order_id, amount, 'e) storage_value" where
  "give_value st = \<lparr>getter = os_get_give_balance st, setter = os_set_give_balance st, deleter = os_del_give_balance st\<rparr>"

text \<open>The three loops have the bodies of the batch operations of \<open>Storage\<close>.\<close>

definition orders_db_merge_with_delta ::
  "('s, 'e) orders_store \<Rightarrow> orders_delta_data \<Rightarrow> ('s, order_error fault, orders_delta_undo_data) op" where
  "orders_db_merge_with_delta st other =
    op_bind (merge_data_generic order_errors (order_data_value st) (order_deltas other)) (\<lambda>data_undo.
    op_bind (merge_balances_generic order_errors (ask_value st) (ask_balances other)) (\<lambda>ask_undo.
    op_bind (merge_balances_generic order_errors (give_value st) (give_balances other)) (\<lambda>give_undo.
    op_return \<lparr>order_data_undo = data_undo, ask_balances_undo = ask_undo, give_balances_undo = give_undo\<rparr>)))"

definition batch_write_orders_data ::
  "('s, 'e) orders_store \<Rightarrow> orders_delta_data \<Rightarrow> ('s, order_error fault, orders_delta_undo_data) op" where
  "batch_write_orders_data st delta = op_map_err (\<lambda>f. case f of Err _ \<Rightarrow> Err OrderStorageWrite | Panic \<Rightarrow> Panic)
    (orders_db_merge_with_delta st delta)"

definition orders_db_view :: "('s, 'e) orders_store \<Rightarrow> 's \<Rightarrow> 'e orders_view" where
  "orders_db_view st s = \<lparr>get_order_data = os_get_order_data st s,
    get_ask_balance = (\<lambda>i. map_ok unwrap_or_zero (os_get_ask_balance st s i)),
    get_give_balance = (\<lambda>i. map_ok unwrap_or_zero (os_get_give_balance st s i))\<rparr>"

section \<open>The in-memory store\<close>

record orders_memory =
  mem_orders_data :: "(order_id, order_data) fmap"
  mem_ask_balances :: "(order_id, amount) fmap"
  mem_give_balances :: "(order_id, amount) fmap"

definition orders_memory_new :: orders_memory where
  "orders_memory_new = \<lparr>mem_orders_data = fmempty, mem_ask_balances = fmempty, mem_give_balances = fmempty\<rparr>"

definition orders_memory_store :: "(orders_memory, storage_result_error) orders_store" where
  "orders_memory_store = \<lparr>
    os_get_order_data = (\<lambda>s i. Inr (fmlookup (mem_orders_data s) i)),
    os_get_ask_balance = (\<lambda>s i. Inr (fmlookup (mem_ask_balances s) i)),
    os_get_give_balance = (\<lambda>s i. Inr (fmlookup (mem_give_balances s) i)),
    os_set_order_data = (\<lambda>i x. op_modify (mem_orders_data_update (fmupd i x))),
    os_del_order_data = (\<lambda>i. op_modify (mem_orders_data_update (fmdrop i))),
    os_set_ask_balance = (\<lambda>i a. op_modify (mem_ask_balances_update (fmupd i a))),
    os_del_ask_balance = (\<lambda>i. op_modify (mem_ask_balances_update (fmdrop i))),
    os_set_give_balance = (\<lambda>i a. op_modify (mem_give_balances_update (fmupd i a))),
    os_del_give_balance = (\<lambda>i. op_modify (mem_give_balances_update (fmdrop i)))\<rparr>"

lemmas orders_value_defs = order_data_value_def ask_value_def give_value_def orders_memory_store_def

interpretation order_data_db: data_store "order_data_value orders_memory_store"
  "\<lambda>s. fmlookup (mem_orders_data s)" "\<lambda>k x. mem_orders_data_update (fm_put k x)" order_errors
  by unfold_locales (auto simp: orders_value_defs op_modify_def)

interpretation ask_db: balance_store "ask_value orders_memory_store"
  "\<lambda>s. fmlookup (mem_ask_balances s)" "\<lambda>k x. mem_ask_balances_update (fm_put k x)" order_errors
  by unfold_locales (auto simp: orders_value_defs op_modify_def)

interpretation give_db: balance_store "give_value orders_memory_store"
  "\<lambda>s. fmlookup (mem_give_balances s)" "\<lambda>k x. mem_give_balances_update (fm_put k x)" order_errors
  by unfold_locales (auto simp: orders_value_defs op_modify_def)

section \<open>Flushing a delta\<close>

definition orders_fits :: "orders_memory \<Rightarrow> orders_delta_data \<Rightarrow> bool" where
  "orders_fits s d \<longleftrightarrow> based (fmlookup (mem_orders_data s)) (order_deltas d)
    \<and> balance_fits (fmlookup (mem_ask_balances s)) (ask_balances d)
    \<and> balance_fits (fmlookup (mem_give_balances s)) (give_balances d)"

lemma orders_columns:
  "merge_data_generic order_errors (order_data_value orders_memory_store) x s = (r, t) \<Longrightarrow>
    mem_ask_balances t = mem_ask_balances s \<and> mem_give_balances t = mem_give_balances s"
  "merge_balances_generic order_errors (ask_value orders_memory_store) y s = (q, t) \<Longrightarrow>
    mem_orders_data t = mem_orders_data s \<and> mem_give_balances t = mem_give_balances s"
  "merge_balances_generic order_errors (give_value orders_memory_store) z s = (p, t) \<Longrightarrow>
    mem_orders_data t = mem_orders_data s \<and> mem_ask_balances t = mem_ask_balances s"
  using order_data_db.merge_data_frame [of x s r t "\<lambda>s. (mem_ask_balances s, mem_give_balances s)"]
    ask_db.merge_balances_frame [of y s q t "\<lambda>s. (mem_orders_data s, mem_give_balances s)"]
    give_db.merge_balances_frame [of z s p t "\<lambda>s. (mem_orders_data s, mem_ask_balances s)"]
  by simp_all

lemma orders_db_merge_Inr:
  assumes "orders_db_merge_with_delta orders_memory_store d s = (Inr u, t)"
  shows "orders_fits s d" and "fmlookup (mem_orders_data t) = data_at (fmlookup (mem_orders_data s)) (order_deltas d)"
    and "fmlookup (mem_ask_balances t) = balance_after (fmlookup (mem_ask_balances s)) (ask_balances d)"
    and "fmlookup (mem_give_balances t) = balance_after (fmlookup (mem_give_balances s)) (give_balances d)"
proof -
  obtain du au gu s1 s2 where
    m: "merge_data_generic order_errors (order_data_value orders_memory_store) (order_deltas d) s = (Inr du, s1)"
      "merge_balances_generic order_errors (ask_value orders_memory_store) (ask_balances d) s1 = (Inr au, s2)"
      "merge_balances_generic order_errors (give_value orders_memory_store) (give_balances d) s2 = (Inr gu, t)"
    using assms by (auto simp: orders_db_merge_with_delta_def op_simps)
  note c = orders_columns(1) [OF m(1)] orders_columns(2) [OF m(2)] orders_columns(3) [OF m(3)]
  note r = order_data_db.merge_data_Inr [OF m(1)] ask_db.merge_balances_Inr [OF m(2)] give_db.merge_balances_Inr [OF m(3)]
  show "orders_fits s d" using r c by (simp add: orders_fits_def)
  show "fmlookup (mem_orders_data t) = data_at (fmlookup (mem_orders_data s)) (order_deltas d)" using r c by simp
  show "fmlookup (mem_ask_balances t) = balance_after (fmlookup (mem_ask_balances s)) (ask_balances d)" using r c by simp
  show "fmlookup (mem_give_balances t) = balance_after (fmlookup (mem_give_balances s)) (give_balances d)" using r c by simp
qed

lemma orders_db_merge_succeeds:
  assumes "orders_fits s d"
  shows "\<exists>u t. orders_db_merge_with_delta orders_memory_store d s = (Inr u, t)"
proof -
  note fits = assms [unfolded orders_fits_def]
  obtain du s1 where m1: "merge_data_generic order_errors (order_data_value orders_memory_store) (order_deltas d) s = (Inr du, s1)"
    using order_data_db.merge_data_succeeds fits by blast
  obtain au s2 where
    m2: "merge_balances_generic order_errors (ask_value orders_memory_store) (ask_balances d) s1 = (Inr au, s2)"
    using ask_db.merge_balances_succeeds [of s1 "ask_balances d"] fits orders_columns(1) [OF m1] by auto
  obtain gu t where
    "merge_balances_generic order_errors (give_value orders_memory_store) (give_balances d) s2 = (Inr gu, t)"
    using give_db.merge_balances_succeeds [of s2 "give_balances d"] fits orders_columns(1) [OF m1]
      orders_columns(2) [OF m2] by auto
  with m1 m2 show ?thesis by (auto simp: orders_db_merge_with_delta_def op_simps)
qed

lemma orders_db_view_simps [simp]:
  "get_order_data (orders_db_view orders_memory_store s) i = Inr (fmlookup (mem_orders_data s) i)"
  "get_ask_balance (orders_db_view orders_memory_store s) i = Inr (unwrap_or_zero (fmlookup (mem_ask_balances s) i))"
  "get_give_balance (orders_db_view orders_memory_store s) i = Inr (unwrap_or_zero (fmlookup (mem_give_balances s) i))"
  by (simp_all add: orders_db_view_def orders_memory_store_def)

lemma order_query_db:
  "cache_get_order_data (orders_db_view orders_memory_store s) d i =
    Inr (data_at (fmlookup (mem_orders_data s)) (order_deltas d) i)"
  by (simp add: cache_order_query query_data_flush [where b = "fmlookup (mem_orders_data s)"])

section \<open>Operations leave a delta that fits\<close>

abbreviation ask_left :: "orders_memory \<Rightarrow> orders_delta_data \<Rightarrow> order_id \<Rightarrow> int" where
  "ask_left s d i \<equiv> stored_amount (fmlookup (mem_ask_balances s) i) + net (ask_balances d) i"

abbreviation give_left :: "orders_memory \<Rightarrow> orders_delta_data \<Rightarrow> order_id \<Rightarrow> int" where
  "give_left s d i \<equiv> stored_amount (fmlookup (mem_give_balances s) i) + net (give_balances d) i"

definition orders_bounded :: "orders_memory \<Rightarrow> orders_delta_data \<Rightarrow> bool" where
  "orders_bounded s d \<longleftrightarrow> based (fmlookup (mem_orders_data s)) (order_deltas d)
    \<and> (\<forall>i. 0 \<le> ask_left s d i \<and> ask_left s d i < 2 ^ 127 \<and> 0 \<le> give_left s d i \<and> give_left s d i < 2 ^ 127)"

lemma order_balance_db:
  "cache_get_ask_balance (orders_db_view orders_memory_store s) d i = Inr a \<Longrightarrow> amt a = ask_left s d i"
  "cache_get_give_balance (orders_db_view orders_memory_store s) d i = Inr g \<Longrightarrow> amt g = give_left s d i"
  by (auto simp: cache_balance_query query_amount_Inr)

lemma put_order_based:
  assumes "based (fmlookup (mem_orders_data s)) (order_deltas d)"
    and "cache_get_order_data (orders_db_view orders_memory_store s) d i = Inr x"
  shows "based (fmlookup (mem_orders_data s)) (order_deltas (put_order i x y ab gb d))"
  using assms
  by (cases "fmlookup (order_deltas d) i") (auto simp: put_order_def based_def order_query_db data_at_def)

lemma order_apply_bounded:
  assumes "orders_ok (orders_db_view orders_memory_store s) d" "orders_bounded s d"
    and "order_apply (orders_db_view orders_memory_store s) cmd d = (Inr u, d')"
  shows "orders_bounded s d'"
proof -
  let ?P = "orders_db_view orders_memory_store s"
  have wf: "wf_amounts (ask_balances d)" "wf_amounts (give_balances d)" using assms(1) by (auto simp: orders_ok_def)
  note n = net_unsigned [OF wf(1)] net_unsigned [OF wf(2)]
  have base: "based (fmlookup (mem_orders_data s)) (order_deltas d)"
    and bnd: "0 \<le> ask_left s d j" "ask_left s d j < 2 ^ 127" "0 \<le> give_left s d j" "give_left s d j < 2 ^ 127" for j
    using assms(2) by (simp_all add: orders_bounded_def)
  show ?thesis
  proof (cases cmd)
    case (CmdCreateOrder i x)
    then obtain a g ab gb where q: "cache_get_order_data ?P d i = Inr None" "cache_get_ask_balance ?P d i = Inr amount_ZERO"
      and a: "add_unsigned i a (ask_balances d) = (Inr (), ab)"
      and g: "add_unsigned i g (give_balances d) = (Inr (), gb)" and d': "d' = put_order i None (Some x) ab gb d"
      using assms(3) by (auto simp: order_apply_def op_simps create_order_Inr)
    have "0 \<le> amt a" "0 \<le> amt g" "amt a < 2 ^ 127" "amt g < 2 ^ 127"
      using a g wf by (simp_all add: add_unsigned_Inr)
    moreover have "cache_get_give_balance ?P d i = Inr amount_ZERO" using assms(1) q(1) by (simp add: orders_ok_def)
    then have "ask_left s d i = 0" "give_left s d i = 0"
      using order_balance_db(1) [OF q(2)] order_balance_db(2) [of s d i amount_ZERO] by simp_all
    ultimately have "0 \<le> ask_left s d' j" "ask_left s d' j < 2 ^ 127" "0 \<le> give_left s d' j" "give_left s d' j < 2 ^ 127" for j
      using bnd [of j] n(1) [OF a, of j] n(3) [OF g, of j] by (auto simp: d' split: if_splits simp del: amt_range_simps)
    then show ?thesis
      using put_order_based [OF base q(1)] by (simp add: orders_bounded_def d')
  next
    case (CmdConcludeOrder i)
    then obtain x a g ab gb where q: "cache_get_order_data ?P d i = Inr (Some x)" "cache_get_ask_balance ?P d i = Inr a"
        "cache_get_give_balance ?P d i = Inr g"
      and a: "sub_unsigned i a (ask_balances d) = (Inr (), ab)"
      and g: "sub_unsigned i g (give_balances d) = (Inr (), gb)" and d': "d' = put_order i (Some x) None ab gb d"
      using assms(3) by (auto simp: order_apply_def op_simps conclude_order_Inr)
    then show ?thesis
      using bnd put_order_based [OF base q(1)] n(2) [OF a] n(4) [OF g] order_balance_db(1) [OF q(2)]
        order_balance_db(2) [OF q(3)]
      by (simp add: orders_bounded_def d')
  next
    case (CmdFillOrder i v)
    then obtain a g f r ab gb where q: "cache_get_ask_balance ?P d i = Inr a" "cache_get_give_balance ?P d i = Inr g"
      and f: "0 < amt a" "amt f \<le> amt a" "amt r = amt g * amt f div amt a"
      and s: "sub_unsigned i f (ask_balances d) = (Inr (), ab)" "sub_unsigned i r (give_balances d) = (Inr (), gb)"
      and d': "d' = d\<lparr>ask_balances := ab, give_balances := gb\<rparr>"
      using assms(3) fill_order_Inr [of ?P i v d u d'] by (auto simp: order_apply_def)
    have "amt g * amt f \<le> amt g * amt a" using f(2) by (simp add: mult_left_mono)
    then have "amt g * amt f div amt a \<le> amt g * amt a div amt a" using f(1) by (intro zdiv_mono1) simp_all
    then have "amt r \<le> amt g" using f by (auto split: if_splits)
    moreover have "0 \<le> amt f" "0 \<le> amt r" by simp_all
    ultimately have "0 \<le> ask_left s d i - amt f" "ask_left s d i - amt f < 2 ^ 127"
      "0 \<le> give_left s d i - amt r" "give_left s d i - amt r < 2 ^ 127"
      using order_balance_db(1) [OF q(1)] order_balance_db(2) [OF q(2)] f(2) bnd(2,4) [of i] by linarith+
    then show ?thesis
      using bnd base n(2) [OF s(1)] n(4) [OF s(2)] by (simp add: orders_bounded_def d')
  qed
qed

lemma order_run_bounded:
  assumes "orders_ok (orders_db_view orders_memory_store s) d" "orders_bounded s d"
    and "op_map (order_apply (orders_db_view orders_memory_store s)) cmds d = (Inr us, d')"
  shows "orders_bounded s d'"
  using assms
  by (induction cmds arbitrary: d us) (auto simp: op_simps intro: order_apply_bounded order_apply_ok)

text \<open>
  The state of the database that flushes keep: balances within the signed range, and no give balance for
  an order that does not exist.
\<close>

definition orders_db_ok :: "orders_memory \<Rightarrow> bool" where
  "orders_db_ok s \<longleftrightarrow> (\<forall>i. stored_amount (fmlookup (mem_ask_balances s) i) < 2 ^ 127
    \<and> stored_amount (fmlookup (mem_give_balances s) i) < 2 ^ 127
    \<and> (fmlookup (mem_orders_data s) i = None \<longrightarrow> stored_amount (fmlookup (mem_give_balances s) i) = 0))"

lemma new_delta_ok:
  assumes "orders_db_ok s"
  shows "orders_ok (orders_db_view orders_memory_store s) orders_delta_data_new" and "orders_bounded s orders_delta_data_new"
proof -
  have "unwrap_or_zero x = amount_ZERO" if "stored_amount x = 0" for x
    using that amt_zero_iff [of "unwrap_or_zero x"] by simp
  then show "orders_ok (orders_db_view orders_memory_store s) orders_delta_data_new"
    using assms
    by (auto simp: orders_ok_def orders_db_ok_def orders_delta_data_new_def order_query_db cache_get_give_balance_def
        combine_amount_delta_def)
  show "orders_bounded s orders_delta_data_new"
    using assms by (simp add: orders_bounded_def orders_db_ok_def orders_delta_data_new_def)
qed

section \<open>Properties\<close>

text \<open>
  Flushing a delta of orders into the database is transparent: if it succeeds, then every query of the
  database for the data and the balances of an order returns what the delta over the database returned before.
\<close>

theorem orders_flush_transparent:
  assumes "batch_write_orders_data orders_memory_store d s = (Inr u, t)"
  shows "map_err (\<lambda>_. OrderViewFail) (get_order_data (orders_db_view orders_memory_store t) i) =
      cache_get_order_data (orders_db_view orders_memory_store s) d i
    \<and> map_err (\<lambda>_. OrderViewFail) (get_ask_balance (orders_db_view orders_memory_store t) i) =
      cache_get_ask_balance (orders_db_view orders_memory_store s) d i
    \<and> map_err (\<lambda>_. OrderViewFail) (get_give_balance (orders_db_view orders_memory_store t) i) =
      cache_get_give_balance (orders_db_view orders_memory_store s) d i"
proof -
  have m: "orders_db_merge_with_delta orders_memory_store d s = (Inr u, t)"
    using assms by (simp add: batch_write_orders_data_def op_simps)
  have "balance_fits (fmlookup (mem_ask_balances s)) (ask_balances d)"
    "balance_fits (fmlookup (mem_give_balances s)) (give_balances d)"
    using orders_db_merge_Inr(1) [OF m] by (simp_all add: orders_fits_def)
  then show ?thesis
    by (simp add: order_query_db orders_db_merge_Inr(2-4) [OF m] cache_balance_query
        query_amount_flush [where b = "fmlookup (mem_ask_balances s)"]
        query_amount_flush [where b = "fmlookup (mem_give_balances s)"])
qed

text \<open>
  The delta that any successful sequence of order operations leaves over a sound database can be flushed,
  and the database is sound again afterwards.
\<close>

theorem orders_run_flushes:
  assumes "orders_db_ok s"
    and "op_map (order_apply (orders_db_view orders_memory_store s)) cmds orders_delta_data_new = (Inr us, d)"
  shows "\<exists>u t. batch_write_orders_data orders_memory_store d s = (Inr u, t) \<and> orders_db_ok t"
proof -
  have b: "orders_bounded s d" using order_run_bounded [OF new_delta_ok [OF assms(1)] assms(2)] .
  have "orders_ok (orders_db_view orders_memory_store s) d"
    using new_delta_ok(1) [OF assms(1)] assms(2)
  proof (induction cmds arbitrary: us d rule: rev_induct)
    case (snoc c cs)
    then show ?case by (auto simp: op_map_append op_simps intro: order_apply_ok)
  qed (simp add: op_simps)
  then have z: "give_left s d i = 0" if "data_at (fmlookup (mem_orders_data s)) (order_deltas d) i = None" for i
    using that order_balance_db(2) [of s d i amount_ZERO] by (auto simp: orders_ok_def order_query_db)
  have f: "orders_fits s d"
    using b assms(1) by (auto simp: orders_fits_def orders_bounded_def balance_fits_def orders_db_ok_def)
  then obtain u t where m: "orders_db_merge_with_delta orders_memory_store d s = (Inr u, t)"
    using orders_db_merge_succeeds by blast
  have "orders_db_ok t"
    using b f z by (simp add: orders_db_ok_def orders_db_merge_Inr(2-4) [OF m] orders_fits_def stored_balance_after
        orders_bounded_def)
  with m show ?thesis by (auto simp: batch_write_orders_data_def op_simps)
qed

lemma orders_memory_new_ok: "orders_db_ok orders_memory_new"
  by (simp add: orders_db_ok_def orders_memory_new_def stored_amount_def)

definition sample_db_commands :: "order_command list" where
  "sample_db_commands = [CmdCreateOrder 5 \<lparr>conclude_key = AnyoneCanSpend, ask = Coin (Amount 3), give = TokenV1 9 (Amount 100)\<rparr>,
    CmdFillOrder 5 (Coin (Amount 2))]"

lemma sample_db_run:
  "case op_map (order_apply (orders_db_view orders_memory_store orders_memory_new)) sample_db_commands orders_delta_data_new of
     (Inr us, d) \<Rightarrow> cache_get_give_balance (orders_db_view orders_memory_store orders_memory_new) d 5 = Inr (Amount 34)
   | _ \<Rightarrow> False"
  by code_simp

theorem orders_run_flushes_witness:
  "\<exists>us d u t. op_map (order_apply (orders_db_view orders_memory_store orders_memory_new)) sample_db_commands
      orders_delta_data_new = (Inr us, d)
    \<and> batch_write_orders_data orders_memory_store d orders_memory_new = (Inr u, t) \<and> orders_db_ok t"
proof -
  obtain us d where r: "op_map (order_apply (orders_db_view orders_memory_store orders_memory_new)) sample_db_commands
      orders_delta_data_new = (Inr us, d)"
    using sample_db_run by (auto split: prod.splits sum.splits)
  with orders_run_flushes [OF orders_memory_new_ok r] show ?thesis by blast
qed

lemma sample_orders_flush:
  "case op_map (order_apply (orders_db_view orders_memory_store orders_memory_new)) sample_db_commands orders_delta_data_new of
     (Inr us, d) \<Rightarrow> (case batch_write_orders_data orders_memory_store d orders_memory_new of (Inr _, _) \<Rightarrow> True | _ \<Rightarrow> False)
   | _ \<Rightarrow> False"
  by code_simp

theorem orders_flush_transparent_witness:
  "\<exists>us d u t. op_map (order_apply (orders_db_view orders_memory_store orders_memory_new)) sample_db_commands
      orders_delta_data_new = (Inr us, d)
    \<and> batch_write_orders_data orders_memory_store d orders_memory_new = (Inr u, t)
    \<and> get_give_balance (orders_db_view orders_memory_store t) 5 = Inr (Amount 34)"
proof -
  obtain us d u t where r: "op_map (order_apply (orders_db_view orders_memory_store orders_memory_new)) sample_db_commands
      orders_delta_data_new = (Inr us, d)"
    and m: "batch_write_orders_data orders_memory_store d orders_memory_new = (Inr u, t)"
    using sample_orders_flush by (auto split: prod.splits sum.splits)
  moreover have "cache_get_give_balance (orders_db_view orders_memory_store orders_memory_new) d 5 = Inr (Amount 34)"
    using sample_db_run r by simp
  ultimately show ?thesis
    using orders_flush_transparent [OF m, of 5] by (auto simp: res_simps)
qed

end
