(* ===== verification/UtxoCache.thy ===== *)
theory UtxoCache
  imports Storage Chain
begin

text \<open>
  The \<open>utxo\<close> crate: unspent transaction outputs, the cache over a parent view with its fresh and dirty
  flags, connecting and disconnecting transactions and block rewards, flushing into a parent cache or
  into the database, and the undo data of a block. The id of a transaction is a hash and enters as a function.
\<close>

section \<open>Unspent outputs and cache entries\<close>

datatype utxo_error =
    OverwritingUtxo
  | FreshUtxoAlreadyExists
  | UtxoAlreadySpent out_point_source_id
  | NoUtxoFound
  | NoBlockchainHeightFound
  | MissingBlockRewardUndo block_id
  | InvalidBlockRewardOutputType block_id
  | TxInputAndUndoMismatch tx_id
  | ViewRead
  | UtxoStorageWrite

datatype utxo_source = Blockchain block_height | Mempool

definition is_mempool :: "utxo_source \<Rightarrow> bool" where
  "is_mempool s = (case s of Blockchain _ \<Rightarrow> False | Mempool \<Rightarrow> True)"

definition blockchain_height :: "utxo_source \<Rightarrow> utxo_error + block_height" where
  "blockchain_height s = (case s of Blockchain h \<Rightarrow> Inr h | Mempool \<Rightarrow> Inl NoBlockchainHeightFound)"

record utxo =
  utxo_output :: tx_output
  utxo_src :: utxo_source

definition utxo_new :: "tx_output \<Rightarrow> utxo_source \<Rightarrow> utxo" where
  "utxo_new out src = \<lparr>utxo_output = out, utxo_src = src\<rparr>"

datatype utxo_status = Spent | Entry utxo

text \<open>The flags \<open>IsFresh\<close> and \<open>IsDirty\<close> are booleans.\<close>

record utxo_entry =
  status :: utxo_status
  is_fresh :: bool
  is_dirty :: bool

definition is_spent :: "utxo_entry \<Rightarrow> bool" where
  "is_spent e \<longleftrightarrow> status e = Spent"

definition entry_utxo :: "utxo_entry \<Rightarrow> utxo option" where
  "entry_utxo e = (case status e of Spent \<Rightarrow> None | Entry u \<Rightarrow> Some u)"

text \<open>The constructor asserts that the combination of status and flags is valid.\<close>

definition valid_entry :: "utxo_entry \<Rightarrow> bool" where
  "valid_entry e = (case status e of
      Entry _ \<Rightarrow> \<not> is_fresh e \<or> is_dirty e
    | Spent \<Rightarrow> is_fresh e \<noteq> is_dirty e)"

definition utxo_entry_new :: "utxo option \<Rightarrow> bool \<Rightarrow> bool \<Rightarrow> utxo_error fault + utxo_entry" where
  "utxo_entry_new utxo fresh dirty =
    (let entry = \<lparr>status = (case utxo of Some u \<Rightarrow> Entry u | None \<Rightarrow> Spent), is_fresh = fresh, is_dirty = dirty\<rparr>
     in if valid_entry entry then Inr entry else Inl Panic)"

section \<open>The cache\<close>

text \<open>The trait \<open>UtxosView\<close>, without the size estimate.\<close>

record 'e utxos_view =
  uv_utxo :: "utxo_outpoint \<Rightarrow> 'e + utxo option"
  uv_has_utxo :: "utxo_outpoint \<Rightarrow> 'e + bool"
  uv_best_block_hash :: "'e + block_id"

record consumed_utxo_cache =
  container :: "(utxo_outpoint, utxo_entry) fmap"
  best_block :: block_id

record utxos_cache =
  current_block_hash :: block_id
  cached :: "(utxo_outpoint, utxo_entry) fmap"

definition utxos_cache_new :: "'e utxos_view \<Rightarrow> 'e + utxos_cache" where
  "utxos_cache_new parent =
    map_ok (\<lambda>h. \<lparr>current_block_hash = h, cached = fmempty\<rparr>) (uv_best_block_hash parent)"

definition utxos_cache_from_data :: "consumed_utxo_cache \<Rightarrow> utxos_cache" where
  "utxos_cache_from_data d = \<lparr>current_block_hash = best_block d, cached = container d\<rparr>"

definition consume_cache :: "utxos_cache \<Rightarrow> consumed_utxo_cache" where
  "consume_cache c = \<lparr>container = cached c, best_block = current_block_hash c\<rparr>"

definition set_best_block :: "block_id \<Rightarrow> utxos_cache \<Rightarrow> utxos_cache" where
  "set_best_block h c = c\<lparr>current_block_hash := h\<rparr>"

definition cache_utxo :: "'e utxos_view \<Rightarrow> utxos_cache \<Rightarrow> utxo_outpoint \<Rightarrow> 'e + utxo option" where
  "cache_utxo parent c outpoint = (case fmlookup (cached c) outpoint of
      Some res \<Rightarrow> Inr (entry_utxo res)
    | None \<Rightarrow> uv_utxo parent outpoint)"

definition cache_has_utxo :: "'e utxos_view \<Rightarrow> utxos_cache \<Rightarrow> utxo_outpoint \<Rightarrow> 'e + bool" where
  "cache_has_utxo parent c outpoint = map_ok (\<lambda>u. u \<noteq> None) (cache_utxo parent c outpoint)"

definition utxos_cache_view :: "'e utxos_view \<Rightarrow> utxos_cache \<Rightarrow> 'e utxos_view" where
  "utxos_cache_view parent c = \<lparr>uv_utxo = cache_utxo parent c, uv_has_utxo = cache_has_utxo parent c,
    uv_best_block_hash = Inr (current_block_hash c)\<rparr>"

abbreviation put_entry :: "utxo_outpoint \<Rightarrow> utxo_entry option \<Rightarrow> utxos_cache \<Rightarrow> utxos_cache" where
  "put_entry outpoint e \<equiv> cached_update (fm_put outpoint e)"

text \<open>A new entry written into the cache.\<close>

definition insert_entry :: "utxo_outpoint \<Rightarrow> utxo option \<Rightarrow> bool \<Rightarrow> bool \<Rightarrow> (utxos_cache, utxo_error fault, utxo_entry) op" where
  "insert_entry outpoint utxo fresh dirty =
    op_bind (op_read (\<lambda>_. utxo_entry_new utxo fresh dirty)) (\<lambda>e.
    op_bind (op_modify (put_entry outpoint (Some e))) (\<lambda>_. op_return e))"

definition fetch_utxo_entry ::
  "'e utxos_view \<Rightarrow> utxo_outpoint \<Rightarrow> (utxos_cache, utxo_error fault, utxo_entry option) op" where
  "fetch_utxo_entry parent outpoint =
    op_bind (op_read (\<lambda>c. Inr (fmlookup (cached c) outpoint))) (\<lambda>found. case found of
      Some res \<Rightarrow> op_return (Some res)
    | None \<Rightarrow>
        op_bind (op_read (\<lambda>_. map_err (\<lambda>_. Err ViewRead) (uv_utxo parent outpoint))) (\<lambda>from_parent. case from_parent of
          None \<Rightarrow> op_return None
        | Some utxo \<Rightarrow> op_bind (insert_entry outpoint (Some utxo) False False) (\<lambda>e. op_return (Some e))))"

definition add_utxo :: "utxo_outpoint \<Rightarrow> utxo \<Rightarrow> bool \<Rightarrow> (utxos_cache, utxo_error fault, unit) op" where
  "add_utxo outpoint utxo possible_overwrite =
    op_bind (op_read (\<lambda>c. case fmlookup (cached c) outpoint of
        None \<Rightarrow> Inr (\<not> possible_overwrite)
      | Some curr_entry \<Rightarrow>
          if \<not> possible_overwrite then
            if \<not> is_spent curr_entry then Inl (Err OverwritingUtxo)
            else Inr (\<not> is_dirty curr_entry \<or> is_fresh curr_entry)
          else Inr (is_fresh curr_entry))) (\<lambda>fresh.
    op_bind (insert_entry outpoint (Some utxo) fresh True) (\<lambda>_. op_return ()))"

definition spend_utxo :: "'e utxos_view \<Rightarrow> utxo_outpoint \<Rightarrow> (utxos_cache, utxo_error fault, utxo) op" where
  "spend_utxo parent outpoint =
    op_bind (fetch_utxo_entry parent outpoint) (\<lambda>found.
    op_bind (op_read (\<lambda>_. ok_or (Err NoUtxoFound) found)) (\<lambda>entry.
    op_bind (if is_fresh entry then op_modify (put_entry outpoint None)
      else op_bind (insert_entry outpoint None False True) (\<lambda>_. op_return ())) (\<lambda>_.
    op_read (\<lambda>_. ok_or (Err (UtxoAlreadySpent (source_id outpoint))) (entry_utxo entry)))))"

definition has_utxo_in_cache :: "utxos_cache \<Rightarrow> utxo_outpoint \<Rightarrow> bool" where
  "has_utxo_in_cache c outpoint \<longleftrightarrow> fmlookup (cached c) outpoint \<noteq> None"

text \<open>
  A mutable reference into the cache is the value together with what is written through it: \<open>write\<close> is
  the assignment that the caller performs, on the status of the entry alone.
\<close>

definition get_mut_utxo ::
  "'e utxos_view \<Rightarrow> utxo_outpoint \<Rightarrow> (utxo \<Rightarrow> utxo) \<Rightarrow> (utxos_cache, utxo_error fault, utxo option) op" where
  "get_mut_utxo parent outpoint write =
    op_bind (fetch_utxo_entry parent outpoint) (\<lambda>found. case found of
      None \<Rightarrow> op_return None
    | Some entry \<Rightarrow> (case entry_utxo entry of
        None \<Rightarrow> op_return None
      | Some utxo \<Rightarrow>
          op_bind (op_modify (put_entry outpoint (Some (entry\<lparr>status := Entry (write utxo)\<rparr>)))) (\<lambda>_.
          op_return (Some (write utxo)))))"

definition uncache :: "utxo_outpoint \<Rightarrow> (utxos_cache, utxo_error fault, unit) op" where
  "uncache outpoint =
    op_bind (op_read (\<lambda>c. Inr (fmlookup (cached c) outpoint))) (\<lambda>found. case found of
      Some entry \<Rightarrow> if \<not> is_fresh entry \<and> \<not> is_dirty entry then op_modify (put_entry outpoint None)
        else op_fail (Err NoUtxoFound)
    | None \<Rightarrow> op_fail (Err NoUtxoFound))"

section \<open>Transactions and block rewards\<close>

definition should_include_in_utxo_set :: "tx_output \<Rightarrow> bool" where
  "should_include_in_utxo_set out = (case out of
      Transfer _ _ \<Rightarrow> True | LockThenTransfer _ _ _ \<Rightarrow> True | CreateStakePool _ _ \<Rightarrow> True
    | ProduceBlockFromStake _ _ \<Rightarrow> True | IssueNft _ _ _ \<Rightarrow> True | Htlc _ _ \<Rightarrow> True
    | CreateDelegationId _ _ \<Rightarrow> False | DelegateStaking _ _ \<Rightarrow> False | Burn _ \<Rightarrow> False
    | IssueFungibleToken _ \<Rightarrow> False | DataDeposit _ \<Rightarrow> False | AnyoneCanTake _ \<Rightarrow> False)"

text \<open>The outpoint of the output at an index, which is cast to 32 bits.\<close>

definition outpoint_at :: "out_point_source_id \<Rightarrow> nat \<Rightarrow> utxo_outpoint" where
  "outpoint_at src idx = UtxoOutPoint src (of_nat idx)"

definition add_utxos_from_block_reward ::
  "'e utxos_view \<Rightarrow> tx_output list \<Rightarrow> utxo_source \<Rightarrow> block_id \<Rightarrow> bool \<Rightarrow> (utxos_cache, utxo_error fault, unit) op" where
  "add_utxos_from_block_reward parent reward_outputs src block check_for_overwrite =
    op_for_each (\<lambda>(idx, out).
      let outpoint = outpoint_at (SourceBlockReward block) idx in
      op_bind (if check_for_overwrite
        then op_read (\<lambda>c. map_err (\<lambda>_. Err ViewRead) (cache_has_utxo parent c outpoint)) else op_return True) (\<lambda>overwrite.
      add_utxo outpoint (utxo_new out src) overwrite))
    (List.enumerate 0 reward_outputs)"

definition add_utxos_from_tx ::
  "(transaction \<Rightarrow> tx_id) \<Rightarrow> 'e utxos_view \<Rightarrow> transaction \<Rightarrow> utxo_source \<Rightarrow> bool \<Rightarrow> (utxos_cache, utxo_error fault, unit) op" where
  "add_utxos_from_tx get_id parent tx src check_for_overwrite =
    op_for_each (\<lambda>(idx, out).
      let outpoint = outpoint_at (SourceTransaction (get_id tx)) idx in
      op_bind (op_read (\<lambda>c. map_err (\<lambda>_. Err ViewRead) (cache_has_utxo parent c outpoint))) (\<lambda>has_utxo.
      add_utxo outpoint (utxo_new out src) (check_for_overwrite \<and> has_utxo)))
    (filter (\<lambda>(_, out). should_include_in_utxo_set out) (List.enumerate 0 (outputs tx)))"

text \<open>\<open>UtxosTxUndo\<close> with the sources of the spent outputs.\<close>

record tx_undo_with_sources =
  undo_utxos :: "utxo option list"
  undo_sources :: "out_point_source_id list"

definition connect_transaction ::
  "(transaction \<Rightarrow> tx_id) \<Rightarrow> 'e utxos_view \<Rightarrow> transaction \<Rightarrow> utxo_source
    \<Rightarrow> (utxos_cache, utxo_error fault, tx_undo_with_sources) op" where
  "connect_transaction get_id parent tx src =
    (let sources = map source_id (List.map_filter utxo_outpoint_of (inputs tx)) in
    op_bind (op_map (\<lambda>input. case input of
        Utxo outpoint \<Rightarrow> op_bind (spend_utxo parent outpoint) (\<lambda>u. op_return (Some u))
      | Account _ \<Rightarrow> op_return None
      | AccountCommand _ _ \<Rightarrow> op_return None) (inputs tx)) (\<lambda>utxos.
    op_bind (add_utxos_from_tx get_id parent tx src False) (\<lambda>_.
    op_return \<lparr>undo_utxos = utxos, undo_sources = sources\<rparr>)))"

definition disconnect_transaction ::
  "(transaction \<Rightarrow> tx_id) \<Rightarrow> 'e utxos_view \<Rightarrow> transaction \<Rightarrow> utxo option list \<Rightarrow> (utxos_cache, utxo_error fault, unit) op" where
  "disconnect_transaction get_id parent tx tx_undo =
    op_bind (op_for_each (\<lambda>(i, out).
        let tx_outpoint = outpoint_at (SourceTransaction (get_id tx)) i in
        if should_include_in_utxo_set out
        then op_bind (spend_utxo parent tx_outpoint) (\<lambda>_. op_return ()) else op_return ())
      (List.enumerate 0 (outputs tx))) (\<lambda>_.
    op_bind (op_ensure (length (inputs tx) = length tx_undo) Panic) (\<lambda>_.
    op_for_each (\<lambda>(input, undo). case undo of
        None \<Rightarrow> op_return ()
      | Some utxo \<Rightarrow> (case input of
          Utxo outpoint \<Rightarrow> add_utxo outpoint utxo False
        | Account _ \<Rightarrow> op_fail (Err (TxInputAndUndoMismatch (get_id tx)))
        | AccountCommand _ _ \<Rightarrow> op_fail (Err (TxInputAndUndoMismatch (get_id tx)))))
      (zip (inputs tx) tx_undo)))"

text \<open>\<open>BlockRewardTransactable\<close>, without the witness.\<close>

record block_reward_transactable =
  reward_inputs :: "tx_input list option"
  reward_outputs :: "tx_output list option"

definition connect_block_transactable ::
  "'e utxos_view \<Rightarrow> block_reward_transactable \<Rightarrow> block_id \<Rightarrow> block_height
    \<Rightarrow> (utxos_cache, utxo_error fault, utxo list option) op" where
  "connect_block_transactable parent reward block height =
    op_bind (case reward_inputs reward of
        Some ins \<Rightarrow>
          op_bind (op_map (spend_utxo parent) (List.map_filter utxo_outpoint_of ins)) (\<lambda>utxos.
          op_return (if utxos = [] then None else Some utxos))
      | None \<Rightarrow> op_return None) (\<lambda>reward_undo.
    op_bind (case reward_outputs reward of
        Some outs \<Rightarrow> op_for_each (\<lambda>(idx, out).
          if \<not> should_include_in_utxo_set out then op_fail (Err (InvalidBlockRewardOutputType block))
          else add_utxo (outpoint_at (SourceBlockReward block) idx) (utxo_new out (Blockchain height)) False)
          (List.enumerate 0 outs)
      | None \<Rightarrow> op_return ()) (\<lambda>_.
    op_return reward_undo))"

definition disconnect_block_transactable ::
  "'e utxos_view \<Rightarrow> block_reward_transactable \<Rightarrow> block_id \<Rightarrow> utxo list option
    \<Rightarrow> (utxos_cache, utxo_error fault, unit) op" where
  "disconnect_block_transactable parent reward block reward_undo =
    op_bind (case reward_outputs reward of
        Some outs \<Rightarrow> op_for_each (\<lambda>(i, _). spend_utxo parent (outpoint_at (SourceBlockReward block) i))
          (List.enumerate 0 outs)
      | None \<Rightarrow> op_return ()) (\<lambda>_.
    case reward_inputs reward of
      Some ins \<Rightarrow>
        op_bind (op_read (\<lambda>_. ok_or (Err (MissingBlockRewardUndo block)) reward_undo)) (\<lambda>block_undo.
        op_for_each (\<lambda>(outpoint, utxo). add_utxo outpoint utxo False)
          (List.map_filter (\<lambda>(tx_in, utxo). map_option (\<lambda>outpoint. (outpoint, utxo)) (utxo_outpoint_of tx_in))
            (zip ins block_undo)))
    | None \<Rightarrow> op_return ())"

section \<open>Flushing\<close>

definition batch_write_entry :: "utxo_outpoint \<times> utxo_entry \<Rightarrow> (utxos_cache, utxo_error fault, unit) op" where
  "batch_write_entry = (\<lambda>(key, entry).
    if \<not> is_dirty entry then op_return ()
    else op_bind (op_read (\<lambda>c. Inr (fmlookup (cached c) key))) (\<lambda>parent_entry. case parent_entry of
      None \<Rightarrow>
        if is_fresh entry \<and> is_spent entry then op_return ()
        else op_bind (insert_entry key (entry_utxo entry) (is_fresh entry) True) (\<lambda>_. op_return ())
    | Some parent_entry \<Rightarrow>
        if is_fresh entry \<and> \<not> is_spent parent_entry then op_fail (Err FreshUtxoAlreadyExists)
        else if is_fresh parent_entry \<and> is_spent entry then op_modify (put_entry key None)
        else op_bind (insert_entry key (entry_utxo entry) (is_fresh parent_entry) True) (\<lambda>_. op_return ())))"

definition batch_write :: "consumed_utxo_cache \<Rightarrow> (utxos_cache, utxo_error fault, unit) op" where
  "batch_write utxo_entries =
    op_bind (op_for_each batch_write_entry (sorted_list_of_fmap (container utxo_entries))) (\<lambda>_.
    op_modify (set_best_block (best_block utxo_entries)))"

text \<open>The traits \<open>UtxosStorageRead\<close> and \<open>UtxosStorageWrite\<close>, and the database over a store.\<close>

record ('s, 'e) utxos_store =
  us_get_utxo :: "'s \<Rightarrow> utxo_outpoint \<Rightarrow> 'e + utxo option"
  us_get_best_block :: "'s \<Rightarrow> 'e + block_id"
  us_set_utxo :: "utxo_outpoint \<Rightarrow> utxo \<Rightarrow> ('s, 'e, unit) op"
  us_del_utxo :: "utxo_outpoint \<Rightarrow> ('s, 'e, unit) op"
  us_set_best_block :: "block_id \<Rightarrow> ('s, 'e, unit) op"

definition utxos_db_view :: "('s, 'e) utxos_store \<Rightarrow> 's \<Rightarrow> 'e utxos_view" where
  "utxos_db_view st s = \<lparr>uv_utxo = us_get_utxo st s,
    uv_has_utxo = (\<lambda>outpoint. map_ok (\<lambda>u. u \<noteq> None) (us_get_utxo st s outpoint)),
    uv_best_block_hash = us_get_best_block st s\<rparr>"

definition utxos_db_write_entry ::
  "('s, 'e) utxos_store \<Rightarrow> utxo_outpoint \<times> utxo_entry \<Rightarrow> ('s, utxo_error fault, unit) op" where
  "utxos_db_write_entry st = (\<lambda>(key, entry).
    if \<not> is_dirty entry then op_return ()
    else op_map_err (\<lambda>_. Err UtxoStorageWrite) (case entry_utxo entry of
        Some utxo \<Rightarrow> us_set_utxo st key utxo
      | None \<Rightarrow> us_del_utxo st key))"

definition utxos_db_batch_write ::
  "('s, 'e) utxos_store \<Rightarrow> consumed_utxo_cache \<Rightarrow> ('s, utxo_error fault, unit) op" where
  "utxos_db_batch_write st utxos =
    op_bind (op_for_each (utxos_db_write_entry st) (sorted_list_of_fmap (container utxos))) (\<lambda>_.
    op_map_err (\<lambda>_. Err UtxoStorageWrite) (us_set_best_block st (best_block utxos)))"

record utxos_memory =
  mem_utxos :: "(utxo_outpoint, utxo) fmap"
  mem_best_block :: block_id

definition utxos_memory_store :: "(utxos_memory, storage_result_error) utxos_store" where
  "utxos_memory_store = \<lparr>
    us_get_utxo = (\<lambda>s outpoint. Inr (fmlookup (mem_utxos s) outpoint)),
    us_get_best_block = (\<lambda>s. Inr (mem_best_block s)),
    us_set_utxo = (\<lambda>outpoint u. op_modify (mem_utxos_update (fmupd outpoint u))),
    us_del_utxo = (\<lambda>outpoint. op_modify (mem_utxos_update (fmdrop outpoint))),
    us_set_best_block = (\<lambda>h. op_modify (mem_best_block_update (\<lambda>_. h)))\<rparr>"

text \<open>
  Initialisation with the outputs of the genesis block. Every failure in it is a panic, by \<open>expect\<close>.
\<close>

definition or_panic :: "('s, 'e, 'a) op \<Rightarrow> ('s, utxo_error fault, 'a) op" where
  "or_panic m = op_map_err (\<lambda>_. Panic) m"

definition initialize_db ::
  "('s, 'e) utxos_store \<Rightarrow> block_id \<Rightarrow> tx_output list \<Rightarrow> ('s, utxo_error fault, unit) op" where
  "initialize_db st genesis_id genesis_utxos =
    op_bind (or_panic (us_set_best_block st genesis_id)) (\<lambda>_.
    op_bind (op_read (\<lambda>s. map_err (\<lambda>_. Panic) (utxos_cache_new (utxos_db_view st s)))) (\<lambda>cache.
    op_bind (op_read (\<lambda>_. case op_for_each (\<lambda>(index, out).
          or_panic (add_utxo (outpoint_at (SourceBlockReward genesis_id) index) (utxo_new out (Blockchain 0)) False))
        (List.enumerate 0 genesis_utxos) cache of
      (Inl e, _) \<Rightarrow> Inl e | (Inr _, c) \<Rightarrow> Inr c)) (\<lambda>cache.
    or_panic (utxos_db_batch_write st (consume_cache cache)))))"

section \<open>Undo data of a block\<close>

datatype utxos_block_undo_error =
    UtxosUndoAlreadyExists tx_id
  | UtxosUndoAlreadyExistsForReward
  | TxUndoWithDependency tx_id

record utxos_block_undo =
  block_reward_undo :: "utxo list option"
  block_tx_undos :: "(tx_id, utxo option list) fmap"
  child_parent_dependencies :: "(tx_id \<times> tx_id) fset"
  parent_child_dependencies :: "(tx_id \<times> tx_id) fset"

definition insert_tx_undo ::
  "tx_id \<Rightarrow> tx_undo_with_sources \<Rightarrow> (utxos_block_undo, utxos_block_undo_error, unit) op" where
  "insert_tx_undo tx_id tx_undo =
    op_bind (op_read (\<lambda>b. case fmlookup (block_tx_undos b) tx_id of
        None \<Rightarrow> Inr () | Some _ \<Rightarrow> Inl (UtxosUndoAlreadyExists tx_id))) (\<lambda>_.
    op_bind (op_modify (block_tx_undos_update (fmupd tx_id (undo_utxos tx_undo)))) (\<lambda>_.
    op_modify (\<lambda>b. fold (\<lambda>source_tx_id b. b\<lparr>
        child_parent_dependencies := finsert (tx_id, source_tx_id) (child_parent_dependencies b),
        parent_child_dependencies := finsert (source_tx_id, tx_id) (parent_child_dependencies b)\<rparr>)
      (List.map_filter get_tx_id (undo_sources tx_undo)) b)))"

definition utxos_block_undo_new ::
  "utxo list option \<Rightarrow> (tx_id, tx_undo_with_sources) fmap \<Rightarrow> utxos_block_undo_error + utxos_block_undo" where
  "utxos_block_undo_new reward_undo undos =
    (case op_for_each (\<lambda>(tx_id, tx_undo). insert_tx_undo tx_id tx_undo) (sorted_list_of_fmap undos)
        \<lparr>block_reward_undo = reward_undo, block_tx_undos = fmempty,
         child_parent_dependencies = {||}, parent_child_dependencies = {||}\<rparr> of
      (Inl e, _) \<Rightarrow> Inl e
    | (Inr _, b) \<Rightarrow> Inr b)"

text \<open>Rebuilding from consumed data asserts that the two dependency sets mirror each other.\<close>

definition utxos_block_undo_from_data ::
  "utxo list option \<Rightarrow> (tx_id, utxo option list) fmap \<Rightarrow> (tx_id \<times> tx_id) fset \<Rightarrow> (tx_id \<times> tx_id) fset
    \<Rightarrow> utxos_block_undo_error fault + utxos_block_undo" where
  "utxos_block_undo_from_data reward_undo undos child_parent parent_child =
    (if fBall child_parent (\<lambda>(child, parent). (parent, child) |\<in>| parent_child)
       \<and> fBall parent_child (\<lambda>(parent, child). (child, parent) |\<in>| child_parent)
     then Inr \<lparr>block_reward_undo = reward_undo, block_tx_undos = undos,
       child_parent_dependencies = child_parent, parent_child_dependencies = parent_child\<rparr>
     else Inl Panic)"

end
