(* ===== verification/UtxoSafety.thy ===== *)
theory UtxoSafety
  imports UtxoCache
begin

text \<open>
  Correctness of the UTXO cache. A cache over a parent view is read as the function from outpoints to
  unspent outputs that its view shows. The flags are correct (\<open>coherent\<close>) when a fresh entry is absent
  in the parent and an entry that is not dirty is the parent's. Spending and adding are then updates of the
  function, and flushing a cache makes its parent show what the cache showed.
\<close>

section \<open>What a cache shows\<close>

definition entry_coherent :: "'e + utxo option \<Rightarrow> utxo_entry \<Rightarrow> bool" where
  "entry_coherent q e \<longleftrightarrow> valid_entry e \<and> (is_fresh e \<longrightarrow> q = Inr None) \<and> (\<not> is_dirty e \<longrightarrow> q = Inr (entry_utxo e))"

definition coherent :: "'e utxos_view \<Rightarrow> utxos_cache \<Rightarrow> bool" where
  "coherent P c \<longleftrightarrow> fmpred (\<lambda>outpoint. entry_coherent (uv_utxo P outpoint)) (cached c)"

definition slot_coherent :: "'e + utxo option \<Rightarrow> utxo_entry option \<Rightarrow> bool" where
  "slot_coherent q s = (case s of None \<Rightarrow> True | Some e \<Rightarrow> entry_coherent q e)"

definition seen :: "'e + utxo option \<Rightarrow> utxo_entry option \<Rightarrow> 'e + utxo option" where
  "seen q s = (case s of None \<Rightarrow> q | Some e \<Rightarrow> Inr (entry_utxo e))"

lemma coherent_iff: "coherent P c \<longleftrightarrow> (\<forall>k. slot_coherent (uv_utxo P k) (fmlookup (cached c) k))"
  by (auto simp: coherent_def fmpred_iff slot_coherent_def split: option.splits)

lemma cache_utxo_seen: "cache_utxo P c k = seen (uv_utxo P k) (fmlookup (cached c) k)"
  by (simp add: cache_utxo_def seen_def split: option.splits)

lemma coherent_put:
  "coherent P c \<Longrightarrow> slot_coherent (uv_utxo P k) x \<Longrightarrow> coherent P (put_entry k x c)"
  by (simp add: coherent_iff)

lemma cache_utxo_put: "cache_utxo P (put_entry k x c) = (cache_utxo P c)(k := seen (uv_utxo P k) x)"
  by (simp add: cache_utxo_seen fun_eq_iff)

lemma coherent_empty [simp]: "coherent P \<lparr>current_block_hash = h, cached = fmempty\<rparr>"
  by (simp add: coherent_iff slot_coherent_def)

lemma coherent_best_block [simp]: "coherent P (c\<lparr>current_block_hash := h\<rparr>) \<longleftrightarrow> coherent P c"
  by (simp add: coherent_iff)

lemma cache_utxo_best_block [simp]: "cache_utxo P (c\<lparr>current_block_hash := h\<rparr>) = cache_utxo P c"
  by (simp add: cache_utxo_seen fun_eq_iff)

lemma insert_entry_eq:
  "insert_entry k u fresh dirty c = (case utxo_entry_new u fresh dirty of
     Inl e \<Rightarrow> (Inl e, c) | Inr e \<Rightarrow> (Inr e, put_entry k (Some e) c))"
  by (simp add: insert_entry_def op_bind_def op_read_def op_modify_def op_return_def split: sum.splits)

lemmas entry_simps = entry_coherent_def slot_coherent_def seen_def valid_entry_def entry_utxo_def is_spent_def
  utxo_entry_new_def insert_entry_eq
lemmas op_run = op_bind_def op_read_def op_modify_def op_return_def op_fail_def

section \<open>Spending and adding\<close>


lemma slot_coherent_lookup: "coherent P c \<Longrightarrow> fmlookup (cached c) k = s \<Longrightarrow> slot_coherent (uv_utxo P k) s"
  by (auto simp: coherent_iff)

lemma spend_utxo_succeeds:
  assumes "coherent P c" and "cache_utxo P c k = Inr (Some u)"
  shows "\<exists>t. spend_utxo P k c = (Inr u, t) \<and> coherent P t \<and> cache_utxo P t = (cache_utxo P c)(k := Inr None)"
proof -
  have "\<exists>x. spend_utxo P k c = (Inr u, put_entry k x c) \<and> slot_coherent (uv_utxo P k) x
    \<and> seen (uv_utxo P k) x = Inr None"
  proof (cases "fmlookup (cached c) k")
    case None
    then show ?thesis
      using assms(2)
      by (intro exI [of _ "Some \<lparr>status = Spent, is_fresh = False, is_dirty = True\<rparr>"])
        (simp add: spend_utxo_def fetch_utxo_entry_def op_run entry_simps cache_utxo_def)
  next
    case (Some e)
    with slot_coherent_lookup [OF assms(1) this] show ?thesis
      using assms(2)
      by (intro exI [of _ "if is_fresh e then None else Some \<lparr>status = Spent, is_fresh = False, is_dirty = True\<rparr>"])
        (simp add: spend_utxo_def fetch_utxo_entry_def op_run entry_simps cache_utxo_def)
  qed
  then show ?thesis using assms(1) by (auto simp: coherent_put cache_utxo_put)
qed

lemma spend_utxo_fails:
  assumes "coherent P c" and "\<nexists>u. cache_utxo P c k = Inr (Some u)"
  shows "\<exists>e t. spend_utxo P k c = (Inl (Err e), t) \<and> coherent P t \<and> cache_utxo P t = cache_utxo P c"
proof (cases "fmlookup (cached c) k")
  case None
  then have "\<exists>e. spend_utxo P k c = (Inl (Err e), c)"
    using assms(2)
    by (cases "uv_utxo P k")
      (auto simp: spend_utxo_def fetch_utxo_entry_def op_run cache_utxo_def split: option.splits)
  with assms(1) show ?thesis by blast
next
  case (Some e)
  let ?x = "if is_fresh e then None else Some \<lparr>status = Spent, is_fresh = False, is_dirty = True\<rparr>"
  have e: "status e = Spent"
    using Some assms(2) by (auto simp: cache_utxo_def entry_utxo_def split: utxo_status.splits)
  then have "slot_coherent (uv_utxo P k) ?x" "seen (uv_utxo P k) ?x = cache_utxo P c k"
    using Some slot_coherent_lookup [OF assms(1) Some] by (auto simp: entry_simps cache_utxo_def)
  moreover have "spend_utxo P k c = (Inl (Err (UtxoAlreadySpent (source_id k))), put_entry k ?x c)"
    using Some e by (simp add: spend_utxo_def fetch_utxo_entry_def op_run entry_simps)
  ultimately show ?thesis using assms(1) by (auto simp: coherent_put cache_utxo_put)
qed

lemma add_utxo_succeeds:
  assumes "coherent P c" and "cache_utxo P c k = Inr None \<or> overwrite"
  shows "\<exists>t. add_utxo k u overwrite c = (Inr (), t) \<and> coherent P t
    \<and> cache_utxo P t = (cache_utxo P c)(k := Inr (Some u))"
proof -
  have "\<exists>fresh. add_utxo k u overwrite c = (Inr (), put_entry k (Some \<lparr>status = Entry u, is_fresh = fresh, is_dirty = True\<rparr>) c)
    \<and> (fresh \<longrightarrow> uv_utxo P k = Inr None)"
  proof (cases "fmlookup (cached c) k")
    case None
    then show ?thesis
      using assms(2) by (auto simp: add_utxo_def op_run entry_simps cache_utxo_def)
  next
    case (Some e)
    with slot_coherent_lookup [OF assms(1) this] show ?thesis
      using assms(2)
      by (auto simp: add_utxo_def op_run entry_simps cache_utxo_def split: utxo_status.splits)
  qed
  then obtain fresh where "add_utxo k u overwrite c = (Inr (), put_entry k (Some \<lparr>status = Entry u, is_fresh = fresh, is_dirty = True\<rparr>) c)"
    and "fresh \<longrightarrow> uv_utxo P k = Inr None" by blast
  with assms(1) show ?thesis
    by (intro exI [of _ "put_entry k (Some \<lparr>status = Entry u, is_fresh = fresh, is_dirty = True\<rparr>) c"])
      (simp add: coherent_put cache_utxo_put entry_simps)
qed

section \<open>Lists of outpoints\<close>

text \<open>
  The contract that the operations on transactions rely on: a state shows a function from outpoints to
  unspent outputs, spending succeeds exactly on what is shown and removes it, and adding writes it.
\<close>

locale utxo_ledger =
  fixes inv :: "'s \<Rightarrow> bool"
    and look :: "'s \<Rightarrow> 'k \<Rightarrow> 'q + 'u option"
    and spend :: "'k \<Rightarrow> ('s, 'e, 'u) op"
    and add :: "'k \<Rightarrow> 'u \<Rightarrow> ('s, 'e, unit) op"
  assumes spend_ok: "inv s \<Longrightarrow> look s k = Inr (Some u) \<Longrightarrow>
      \<exists>t. spend k s = (Inr u, t) \<and> inv t \<and> look t = (look s)(k := Inr None)"
    and spend_err: "inv s \<Longrightarrow> \<nexists>u. look s k = Inr (Some u) \<Longrightarrow>
      \<exists>e t. spend k s = (Inl e, t) \<and> inv t \<and> look t = look s"
    and add_ok: "inv s \<Longrightarrow> look s k = Inr None \<Longrightarrow>
      \<exists>t. add k u s = (Inr (), t) \<and> inv t \<and> look t = (look s)(k := Inr (Some u))"
begin

lemma spend_Inr:
  assumes "inv s" and "spend k s = (Inr u, t)"
  shows "look s k = Inr (Some u)" and "inv t" and "look t = (look s)(k := Inr None)"
proof -
  obtain v where v: "look s k = Inr (Some v)" using spend_err [OF assms(1), of k] assms(2) by auto
  with spend_ok [OF assms(1) v] assms(2)
  show "look s k = Inr (Some u)" "inv t" "look t = (look s)(k := Inr None)" by auto
qed

lemma spend_all:
  assumes "inv s" and "op_map spend ks s = (Inr us, t)"
  shows "distinct ks \<and> list_all2 (\<lambda>k u. look s k = Inr (Some u)) ks us \<and> inv t
    \<and> look t = (\<lambda>k. if k \<in> set ks then Inr None else look s k)"
  using assms
proof (induction ks arbitrary: s us)
  case Nil
  then show ?case by (auto simp: op_simps)
next
  case (Cons k ks)
  then obtain u s' us' where k: "spend k s = (Inr u, s')" and ks: "op_map spend ks s' = (Inr us', t)"
    and us: "us = u # us'" by (auto simp: op_simps)
  note s' = spend_Inr [OF Cons.prems(1) k]
  have IH: "distinct ks" "list_all2 (\<lambda>k u. look s' k = Inr (Some u)) ks us'" "inv t"
    "look t = (\<lambda>k. if k \<in> set ks then Inr None else look s' k)"
    using Cons.IH [OF s'(2) ks] by auto
  have "k \<notin> set ks"
    using IH(2) s'(3) by (auto simp: list_all2_conv_all_nth in_set_conv_nth)
  moreover have "list_all2 (\<lambda>k u. look s k = Inr (Some u)) ks us'"
    using IH(2) by (rule list_all2_mono) (auto simp: s'(3) split: if_splits)
  ultimately show ?case using IH s'(1) us by (auto simp: s'(3))
qed

lemma spend_all_ok:
  assumes "inv s" and "distinct ks" and "list_all2 (\<lambda>k u. look s k = Inr (Some u)) ks us"
  shows "\<exists>t. op_map spend ks s = (Inr us, t)"
  using assms
proof (induction ks arbitrary: s us)
  case Nil
  then show ?case by (auto simp: op_simps)
next
  case (Cons k ks)
  then obtain u us' where us: "us = u # us'" "look s k = Inr (Some u)"
    "list_all2 (\<lambda>k u. look s k = Inr (Some u)) ks us'" by (auto simp: list_all2_Cons1)
  obtain s' where s': "spend k s = (Inr u, s')" "inv s'" "look s' = (look s)(k := Inr None)"
    using spend_ok [OF Cons.prems(1) us(2)] by blast
  have "list_all2 (\<lambda>k u. look s' k = Inr (Some u)) ks us'"
    using us(3) Cons.prems(2) by (auto simp: s'(3) list_all2_conv_all_nth)
  then obtain t where "op_map spend ks s' = (Inr us', t)" using Cons.IH [OF s'(2)] Cons.prems(2) by auto
  with s'(1) us(1) show ?case by (auto simp: op_simps)
qed

lemma add_all:
  assumes "inv s" and "distinct (map fst xs)" and "\<And>k. k \<in> fst ` set xs \<Longrightarrow> look s k = Inr None"
  shows "\<exists>t. op_for_each (\<lambda>(k, u). add k u) xs s = (Inr (), t) \<and> inv t
    \<and> look t = (\<lambda>k. case map_of xs k of Some u \<Rightarrow> Inr (Some u) | None \<Rightarrow> look s k)"
  using assms
proof (induction xs arbitrary: s)
  case Nil
  then show ?case by (auto simp: op_simps)
next
  case (Cons x xs)
  obtain k u where x: "x = (k, u)" by (cases x)
  obtain s' where s': "add k u s = (Inr (), s')" "inv s'" "look s' = (look s)(k := Inr (Some u))"
    using add_ok [OF Cons.prems(1), of k u] Cons.prems(3) x by auto
  have "\<And>j. j \<in> fst ` set xs \<Longrightarrow> look s' j = Inr None"
    using Cons.prems(2,3) by (auto simp: s'(3) x)
  then obtain t where t: "op_for_each (\<lambda>(k, u). add k u) xs s' = (Inr (), t)" "inv t"
    "look t = (\<lambda>k. case map_of xs k of Some u \<Rightarrow> Inr (Some u) | None \<Rightarrow> look s' k)"
    using Cons.IH [OF s'(2)] Cons.prems(2) by auto
  have "map_of xs k = None" using Cons.prems(2) x by (auto simp: map_of_eq_None_iff)
  then have "look t = (\<lambda>j. case map_of (x # xs) j of Some u \<Rightarrow> Inr (Some u) | None \<Rightarrow> look s j)"
    by (auto simp: t(3) s'(3) x fun_eq_iff split: option.splits)
  with t s'(1) x show ?case by (auto simp: op_for_each_Cons)
qed

text \<open>Moving value from the outpoints \<open>ks\<close> to new outputs \<open>xs\<close>, and moving it back.\<close>

lemma move_undo:
  assumes "inv s" and "op_map spend ks s = (Inr us, s1)" and "distinct (map fst xs)"
    and "\<And>k. k \<in> fst ` set xs \<Longrightarrow> look s k = Inr None"
  shows "\<exists>s2. op_for_each (\<lambda>(k, u). add k u) xs s1 = (Inr (), s2) \<and> inv s2
    \<and> look s2 = (\<lambda>k. case map_of xs k of Some u \<Rightarrow> Inr (Some u) | None \<Rightarrow> if k \<in> set ks then Inr None else look s k)
    \<and> (\<exists>s3 s4. op_map spend (map fst xs) s2 = (Inr (map snd xs), s3)
      \<and> op_for_each (\<lambda>(k, u). add k u) (zip ks us) s3 = (Inr (), s4) \<and> inv s4 \<and> look s4 = look s)"
proof -
  note s1 = spend_all [OF assms(1,2)]
  obtain s2 where s2: "op_for_each (\<lambda>(k, u). add k u) xs s1 = (Inr (), s2)" "inv s2"
    "look s2 = (\<lambda>k. case map_of xs k of Some u \<Rightarrow> Inr (Some u) | None \<Rightarrow> look s1 k)"
    using add_all [of s1 xs, OF _ assms(3)] s1 assms(4) by (smt (verit, best))
  have "map_of xs (fst (xs ! i)) = Some (snd (xs ! i))" if "i < length xs" for i
    using that assms(3) by (simp add: map_of_is_SomeI)
  then have "list_all2 (\<lambda>k u. look s2 k = Inr (Some u)) (map fst xs) (map snd xs)"
    by (simp add: s2(3) list_all2_conv_all_nth)
  then obtain s3 where s3: "op_map spend (map fst xs) s2 = (Inr (map snd xs), s3)"
    using spend_all_ok [OF s2(2) assms(3)] by blast
  note s3' = spend_all [OF s2(2) s3]
  have len: "length ks = length us" using s1 by (auto dest: list_all2_lengthD)
  have look3: "look s3 k = (if k \<in> set ks then Inr None else look s k)" for k
  proof (cases "k \<in> fst ` set xs")
    case True
    with s3' assms(4) show ?thesis by simp
  next
    case False
    then have "map_of xs k = None" by (simp add: map_of_eq_None_iff)
    with False s3' s2(3) s1 show ?thesis by simp
  qed
  have "look s3 k = Inr None" if "k \<in> fst ` set (zip ks us)" for k
    using that look3 by (auto dest: set_zip_leftD)
  moreover have "distinct (map fst (zip ks us))" using s1 len by simp
  ultimately obtain s4 where s4: "op_for_each (\<lambda>(k, u). add k u) (zip ks us) s3 = (Inr (), s4)" "inv s4"
    "look s4 = (\<lambda>k. case map_of (zip ks us) k of Some u \<Rightarrow> Inr (Some u) | None \<Rightarrow> look s3 k)"
    using add_all [of s3 "zip ks us"] s3' by blast
  have "look s4 k = look s k" for k
  proof (cases "map_of (zip ks us) k")
    case None
    then have "k \<notin> set ks" using len by (auto simp: map_of_zip_is_None)
    with None s4(3) look3 show ?thesis by simp
  next
    case (Some u)
    then have "(k, u) \<in> set (zip ks us)" by (rule map_of_SomeD)
    then have "look s k = Inr (Some u)" using s1 by (auto simp: list_all2_iff)
    with Some s4(3) show ?thesis by simp
  qed
  then have "look s4 = look s" by (simp add: fun_eq_iff)
  moreover have "look s2 = (\<lambda>k. case map_of xs k of Some u \<Rightarrow> Inr (Some u) | None \<Rightarrow> if k \<in> set ks then Inr None else look s k)"
    using s1 by (simp add: s2(3) cong: option.case_cong)
  ultimately show ?thesis using s2(1,2) s3 s4(1,2) by blast
qed

end

interpretation cache: utxo_ledger "coherent P" "cache_utxo P" "spend_utxo P" "\<lambda>k u. add_utxo k u False" for P
proof
  fix s k u
  assume "coherent P s" "cache_utxo P s k = Inr (Some u)"
  then show "\<exists>t. spend_utxo P k s = (Inr u, t) \<and> coherent P t \<and> cache_utxo P t = (cache_utxo P s)(k := Inr None)"
    by (rule spend_utxo_succeeds)
next
  fix s k
  assume "coherent P s" "\<nexists>u. cache_utxo P s k = Inr (Some u)"
  then show "\<exists>e t. spend_utxo P k s = (Inl e, t) \<and> coherent P t \<and> cache_utxo P t = cache_utxo P s"
    using spend_utxo_fails by blast
next
  fix s k u
  assume "coherent P s" "cache_utxo P s k = Inr None"
  then show "\<exists>t. add_utxo k u False s = (Inr (), t) \<and> coherent P t
      \<and> cache_utxo P t = (cache_utxo P s)(k := Inr (Some u))"
    by (intro add_utxo_succeeds) simp_all
qed

end
