(* ===== verification/UtxoTransactions.thy ===== *)
theory UtxoTransactions
  imports UtxoSafety
begin

text \<open>
  Connecting a transaction or a block reward moves value from its inputs to its outputs in the set of
  unspent outputs, and disconnecting it with the recorded undo data restores the set.
\<close>

section \<open>Transactions\<close>

text \<open>The outputs that a transaction adds, with their outpoints.\<close>

definition new_utxos :: "tx_id \<Rightarrow> tx_output list \<Rightarrow> utxo_source \<Rightarrow> (utxo_outpoint \<times> utxo) list" where
  "new_utxos i outs src = map (\<lambda>(idx, out). (outpoint_at (SourceTransaction i) idx, utxo_new out src))
    (filter (\<lambda>(_, out). should_include_in_utxo_set out) (List.enumerate 0 outs))"

definition reward_utxos :: "block_id \<Rightarrow> tx_output list \<Rightarrow> utxo_source \<Rightarrow> (utxo_outpoint \<times> utxo) list" where
  "reward_utxos b outs src = map (\<lambda>(idx, out). (outpoint_at (SourceBlockReward b) idx, utxo_new out src))
    (List.enumerate 0 outs)"

lemma outpoint_at_inject:
  "i < 2 ^ 32 \<Longrightarrow> j < 2 ^ 32 \<Longrightarrow> outpoint_at s i = outpoint_at s j \<longleftrightarrow> i = j"
  by (simp add: outpoint_at_def word_unat_eq_iff unat_of_nat take_bit_nat_eq_self)

lemma distinct_outpoints:
  assumes "length outs \<le> 2 ^ 32"
  shows "distinct (map (\<lambda>(idx, out). outpoint_at s idx) (List.enumerate 0 outs))"
proof -
  have "map (\<lambda>(idx, out). outpoint_at s idx) (List.enumerate 0 outs) = map (outpoint_at s) [0..<length outs]"
    by (rule nth_equalityI) (simp_all add: nth_enumerate_eq)
  then show ?thesis using assms by (auto simp: distinct_map inj_on_def outpoint_at_inject)
qed

lemma distinct_new_utxos: "length outs \<le> 2 ^ 32 \<Longrightarrow> distinct (map fst (new_utxos i outs src))"
  using distinct_map_filter [OF distinct_outpoints] by (simp add: new_utxos_def comp_def case_prod_unfold)

lemma distinct_reward_utxos: "length outs \<le> 2 ^ 32 \<Longrightarrow> distinct (map fst (reward_utxos b outs src))"
  using distinct_outpoints by (simp add: reward_utxos_def comp_def case_prod_unfold)

lemma new_utxos_outpoint: "k \<in> fst ` set (new_utxos i outs src) \<Longrightarrow> source_id k = SourceTransaction i"
  by (auto simp: new_utxos_def outpoint_at_def)

lemma reward_utxos_outpoint: "k \<in> fst ` set (reward_utxos b outs src) \<Longrightarrow> source_id k = SourceBlockReward b"
  by (auto simp: reward_utxos_def outpoint_at_def)

text \<open>Without permission to overwrite, the query before each addition has no effect.\<close>

lemma add_checked_all:
  assumes "coherent P c" and "distinct (map fst xs)" and "\<And>k. k \<in> fst ` set xs \<Longrightarrow> cache_utxo P c k = Inr None"
  shows "op_for_each (\<lambda>(k, u). op_bind (op_read (\<lambda>c. map_err (\<lambda>_. Err ViewRead) (cache_has_utxo P c k)))
      (\<lambda>_. add_utxo k u False)) xs c = op_for_each (\<lambda>(k, u). add_utxo k u False) xs c"
  using assms
proof (induction xs arbitrary: c)
  case (Cons x xs)
  obtain k u where x: "x = (k, u)" by (cases x)
  then have k: "cache_utxo P c k = Inr None" using Cons.prems(3) by simp
  obtain t where t: "add_utxo k u False c = (Inr (), t)" "coherent P t" "cache_utxo P t = (cache_utxo P c)(k := Inr (Some u))"
    using cache.add_ok [OF Cons.prems(1) k] by blast
  have "op_for_each (\<lambda>(k, u). op_bind (op_read (\<lambda>c. map_err (\<lambda>_. Err ViewRead) (cache_has_utxo P c k)))
      (\<lambda>_. add_utxo k u False)) xs t = op_for_each (\<lambda>(k, u). add_utxo k u False) xs t"
    using Cons.prems(2,3) by (intro Cons.IH [OF t(2)]) (auto simp: t(3) x)
  moreover have "op_bind (op_read (\<lambda>c. map_err (\<lambda>_. Err ViewRead) (cache_has_utxo P c k))) (\<lambda>_. add_utxo k u False) c = (Inr (), t)"
    using k t(1) by (simp add: op_run cache_has_utxo_def)
  ultimately show ?case using t(1) by (simp only: op_for_each_Cons_eq x split op_bind_ok)
qed simp

lemma add_utxos_from_tx_eq:
  assumes "coherent P c" and "length (outputs tx) \<le> 2 ^ 32"
    and "\<And>k. source_id k = SourceTransaction (get_id tx) \<Longrightarrow> cache_utxo P c k = Inr None"
  shows "add_utxos_from_tx get_id P tx src False c
    = op_for_each (\<lambda>(k, u). add_utxo k u False) (new_utxos (get_id tx) (outputs tx) src) c"
proof -
  have "add_utxos_from_tx get_id P tx src False
    = op_for_each (\<lambda>(k, u). op_bind (op_read (\<lambda>c. map_err (\<lambda>_. Err ViewRead) (cache_has_utxo P c k)))
      (\<lambda>_. add_utxo k u False)) (new_utxos (get_id tx) (outputs tx) src)"
    by (simp add: add_utxos_from_tx_def new_utxos_def op_for_each_map case_prod_unfold Let_def)
  then show ?thesis
    using add_checked_all [OF assms(1) distinct_new_utxos [OF assms(2)] assms(3) [OF new_utxos_outpoint]] by simp
qed

text \<open>The undo data of a transaction has a spent output for every input that is an outpoint.\<close>

lemma utxo_outpoint_of_simps [simp]:
  "utxo_outpoint_of (Utxo k) = Some k" "utxo_outpoint_of (Account x) = None" "utxo_outpoint_of (AccountCommand n y) = None"
  by (simp_all add: utxo_outpoint_of_def)

definition undo_matches :: "tx_input list \<Rightarrow> utxo option list \<Rightarrow> bool" where
  "undo_matches ins us \<longleftrightarrow> list_all2 (\<lambda>i u. utxo_outpoint_of i = None \<longleftrightarrow> u = None) ins us"

lemma spend_inputs:
  assumes "\<And>k. h (Utxo k) = op_bind (f k) (\<lambda>u. op_return (Some u))"
    and "\<And>x. h (Account x) = op_return None" and "\<And>n y. h (AccountCommand n y) = op_return None"
    and "op_map h ins s = (Inr us, t)"
  shows "op_map f (List.map_filter utxo_outpoint_of ins) s = (Inr (List.map_filter id us), t) \<and> undo_matches ins us"
  using assms(4)
proof (induction ins arbitrary: s us)
  case Nil
  then show ?case by (simp add: op_simps map_filter_simps undo_matches_def)
next
  case (Cons i ins)
  then obtain u s' us' where u: "h i s = (Inr u, s')" "op_map h ins s' = (Inr us', t)" "us = u # us'"
    by (auto simp: op_simps)
  then show ?case
    using Cons.IH [OF u(2)] by (cases i) (auto simp: assms(1-3) op_simps map_filter_simps undo_matches_def)
qed

lemma unspend_inputs:
  assumes "\<And>k u. h (Utxo k, Some u) = g (k, u)" and "\<And>i. h (i, None) = op_return ()" and "undo_matches ins us"
  shows "op_for_each h (zip ins us) = op_for_each g (zip (List.map_filter utxo_outpoint_of ins) (List.map_filter id us))"
  using assms(3) unfolding undo_matches_def
proof (induction rule: list_all2_induct)
  case Nil
  then show ?case by (simp add: map_filter_simps)
next
  case (Cons i ins u us)
  have "op_bind (op_return ()) (\<lambda>_. m) = m" for m :: "('s, 'e, unit) op"
    by (simp add: fun_eq_iff op_bind_def op_return_def)
  with Cons show ?case
    by (cases i; cases u) (simp_all add: op_for_each_Cons_eq map_filter_simps assms(1,2))
qed

lemma disconnect_outputs:
  "op_for_each (\<lambda>(i, out).
        let tx_outpoint = outpoint_at (SourceTransaction t) i in
        if should_include_in_utxo_set out
        then op_bind (f tx_outpoint) (\<lambda>_. op_return ()) else op_return ())
      (List.enumerate 0 outs) = op_for_each f (map fst (new_utxos t outs src))"
  using op_for_each_filter [of "\<lambda>p. should_include_in_utxo_set (snd p)" "\<lambda>p. f (outpoint_at (SourceTransaction t) (fst p))"
      "List.enumerate 0 outs"]
  by (simp add: new_utxos_def op_for_each_map case_prod_unfold Let_def comp_def)


abbreviation spent_outpoints :: "transaction \<Rightarrow> utxo_outpoint list" where
  "spent_outpoints tx \<equiv> List.map_filter utxo_outpoint_of (inputs tx)"

text \<open>No output of the transaction is in the set yet: the id of the transaction is new.\<close>

definition new_tx :: "'e utxos_view \<Rightarrow> utxos_cache \<Rightarrow> tx_id \<Rightarrow> bool" where
  "new_tx P c i \<longleftrightarrow> (\<forall>k. source_id k = SourceTransaction i \<longrightarrow> cache_utxo P c k = Inr None)"

lemma new_tx_utxos: "new_tx P c i \<Longrightarrow> k \<in> fst ` set (new_utxos i outs src) \<Longrightarrow> cache_utxo P c k = Inr None"
  using new_utxos_outpoint by (auto simp: new_tx_def)

lemma new_tx_spend_all:
  assumes "coherent P c" and "op_map (spend_utxo P) ks c = (Inr us, t)" and "new_tx P c i"
  shows "new_tx P t i"
  using cache.spend_all [OF assms(1,2)] assms(3) by (simp add: new_tx_def)

lemma connect_transaction_Inr:
  assumes "coherent P c" and "length (outputs tx) \<le> 2 ^ 32" and "new_tx P c (get_id tx)"
    and "connect_transaction get_id P tx src c = (Inr undo, t)"
  shows "\<exists>s1. op_map (spend_utxo P) (spent_outpoints tx) c = (Inr (List.map_filter id (undo_utxos undo)), s1)
    \<and> op_for_each (\<lambda>(k, u). add_utxo k u False) (new_utxos (get_id tx) (outputs tx) src) s1 = (Inr (), t)
    \<and> undo_matches (inputs tx) (undo_utxos undo) \<and> undo_sources undo = map source_id (spent_outpoints tx)"
proof -
  let ?h = "\<lambda>input. case input of
        Utxo outpoint \<Rightarrow> op_bind (spend_utxo P outpoint) (\<lambda>u. op_return (Some u))
      | Account _ \<Rightarrow> op_return None
      | AccountCommand _ _ \<Rightarrow> op_return None"
  obtain s1 us where s1: "op_map ?h (inputs tx) c = (Inr us, s1)" "add_utxos_from_tx get_id P tx src False s1 = (Inr (), t)"
    and undo: "undo = \<lparr>undo_utxos = us, undo_sources = map source_id (spent_outpoints tx)\<rparr>"
    using assms(4) by (auto simp: connect_transaction_def op_simps Let_def)
  have spent: "op_map (spend_utxo P) (spent_outpoints tx) c = (Inr (List.map_filter id us), s1)"
    "undo_matches (inputs tx) us"
    using spend_inputs [of ?h "spend_utxo P", OF _ _ _ s1(1)] by simp_all
  have "new_tx P s1 (get_id tx)" using new_tx_spend_all [OF assms(1) spent(1) assms(3)] .
  moreover have "coherent P s1" using cache.spend_all [OF assms(1) spent(1)] by simp
  ultimately have "op_for_each (\<lambda>(k, u). add_utxo k u False) (new_utxos (get_id tx) (outputs tx) src) s1 = (Inr (), t)"
    using s1(2) add_utxos_from_tx_eq [OF _ assms(2), of P s1 get_id src] by (simp add: new_tx_def)
  with spent undo show ?thesis by simp
qed

lemma connect_transaction_look:
  assumes "coherent P c" and "length (outputs tx) \<le> 2 ^ 32" and "new_tx P c (get_id tx)"
    and "connect_transaction get_id P tx src c = (Inr undo, t)"
  shows "coherent P t" and "distinct (spent_outpoints tx)"
    and "\<forall>k \<in> set (spent_outpoints tx). (\<exists>u. cache_utxo P c k = Inr (Some u)) \<and> cache_utxo P t k = Inr None"
    and "cache_utxo P t = (\<lambda>k. case map_of (new_utxos (get_id tx) (outputs tx) src) k of
      Some u \<Rightarrow> Inr (Some u) | None \<Rightarrow> if k \<in> set (spent_outpoints tx) then Inr None else cache_utxo P c k)"
proof -
  let ?xs = "new_utxos (get_id tx) (outputs tx) src"
  obtain s1 where s1: "op_map (spend_utxo P) (spent_outpoints tx) c = (Inr (List.map_filter id (undo_utxos undo)), s1)"
    "op_for_each (\<lambda>(k, u). add_utxo k u False) ?xs s1 = (Inr (), t)"
    using connect_transaction_Inr [where get_id = get_id, OF assms] by blast
  note spent = cache.spend_all [OF assms(1) s1(1)]
  obtain t' where t': "op_for_each (\<lambda>(k, u). add_utxo k u False) ?xs s1 = (Inr (), t')" "coherent P t'"
    "cache_utxo P t' = (\<lambda>k. case map_of ?xs k of
      Some u \<Rightarrow> Inr (Some u) | None \<Rightarrow> if k \<in> set (spent_outpoints tx) then Inr None else cache_utxo P c k)"
    using cache.move_undo [where xs = ?xs, OF assms(1) s1(1) distinct_new_utxos [OF assms(2)] new_tx_utxos [OF assms(3), where outs = "outputs tx" and src = src]] by blast
  with s1(2) have t: "t' = t" by simp
  show "coherent P t" and look: "cache_utxo P t = (\<lambda>k. case map_of ?xs k of
      Some u \<Rightarrow> Inr (Some u) | None \<Rightarrow> if k \<in> set (spent_outpoints tx) then Inr None else cache_utxo P c k)"
    using t'(2,3) t by simp_all
  show "distinct (spent_outpoints tx)" using spent by simp
  show "\<forall>k \<in> set (spent_outpoints tx). (\<exists>u. cache_utxo P c k = Inr (Some u)) \<and> cache_utxo P t k = Inr None"
  proof
    fix k assume k: "k \<in> set (spent_outpoints tx)"
    then obtain u where u: "cache_utxo P c k = Inr (Some u)" using spent by (auto simp: list_all2_conv_all_nth in_set_conv_nth)
    then have "map_of ?xs k = None" using new_tx_utxos [OF assms(3)] by (fastforce simp: map_of_eq_None_iff)
    with k u show "(\<exists>u. cache_utxo P c k = Inr (Some u)) \<and> cache_utxo P t k = Inr None" by (simp add: look)
  qed
qed

text \<open>
  C14: Connecting a transaction spends each of its inputs once and moves the set of unspent outputs to
  exactly the set without the spent outpoints and with the outputs of the transaction that belong to the set. A
  second spend of an outpoint, in the transaction or after it, is not possible.
\<close>

theorem connect_transaction_moves:
  assumes "coherent P c" and "length (outputs tx) \<le> 2 ^ 32" and "new_tx P c (get_id tx)"
    and "connect_transaction get_id P tx src c = (Inr undo, t)"
  shows "coherent P t \<and> distinct (spent_outpoints tx)
    \<and> (\<forall>k \<in> set (spent_outpoints tx). (\<exists>u. cache_utxo P c k = Inr (Some u)) \<and> cache_utxo P t k = Inr None)
    \<and> cache_utxo P t = (\<lambda>k. case map_of (new_utxos (get_id tx) (outputs tx) src) k of
      Some u \<Rightarrow> Inr (Some u) | None \<Rightarrow> if k \<in> set (spent_outpoints tx) then Inr None else cache_utxo P c k)"
  using connect_transaction_look [where get_id = get_id, OF assms] by blast

text \<open>
  C15: Disconnecting a transaction with the undo data recorded when it was connected succeeds and restores
  the set of unspent outputs.
\<close>

theorem connect_transaction_reversible:
  assumes "coherent P c" and "length (outputs tx) \<le> 2 ^ 32" and "new_tx P c (get_id tx)"
    and "connect_transaction get_id P tx src c = (Inr undo, t)"
  shows "\<exists>d. disconnect_transaction get_id P tx (undo_utxos undo) t = (Inr (), d)
    \<and> coherent P d \<and> cache_utxo P d = cache_utxo P c"
proof -
  let ?xs = "new_utxos (get_id tx) (outputs tx) src"
  let ?h = "\<lambda>(input, undo). case undo of
        None \<Rightarrow> op_return ()
      | Some utxo \<Rightarrow> (case input of
          Utxo outpoint \<Rightarrow> add_utxo outpoint utxo False
        | Account _ \<Rightarrow> op_fail (Err (TxInputAndUndoMismatch (get_id tx)))
        | AccountCommand _ _ \<Rightarrow> op_fail (Err (TxInputAndUndoMismatch (get_id tx))))"
  obtain s1 where s1: "op_map (spend_utxo P) (spent_outpoints tx) c = (Inr (List.map_filter id (undo_utxos undo)), s1)"
    "op_for_each (\<lambda>(k, u). add_utxo k u False) ?xs s1 = (Inr (), t)"
    and m: "undo_matches (inputs tx) (undo_utxos undo)"
    using connect_transaction_Inr [where get_id = get_id, OF assms] by blast
  obtain s3 d where d: "op_map (spend_utxo P) (map fst ?xs) t = (Inr (map snd ?xs), s3)"
    "op_for_each (\<lambda>(k, u). add_utxo k u False) (zip (spent_outpoints tx) (List.map_filter id (undo_utxos undo))) s3 = (Inr (), d)"
    "coherent P d" "cache_utxo P d = cache_utxo P c"
    using cache.move_undo [where xs = ?xs, OF assms(1) s1(1) distinct_new_utxos [OF assms(2)] new_tx_utxos [OF assms(3), where outs = "outputs tx" and src = src]] s1(2)
    by auto
  have "op_for_each ?h (zip (inputs tx) (undo_utxos undo)) s3 = (Inr (), d)"
    using unspend_inputs [of ?h "\<lambda>(k, u). add_utxo k u False", OF _ _ m] d(2) by simp
  moreover have "op_for_each (spend_utxo P) (map fst ?xs) t = (Inr (), s3)" using d(1) by (simp add: op_simps)
  moreover have "length (inputs tx) = length (undo_utxos undo)"
    using m by (auto simp: undo_matches_def dest: list_all2_lengthD)
  ultimately have "disconnect_transaction get_id P tx (undo_utxos undo) t = (Inr (), d)"
    unfolding disconnect_transaction_def disconnect_outputs [where src = src] by (auto simp: op_simps)
  with d(3,4) show ?thesis by blast
qed


section \<open>Block rewards\<close>

lemma map_filter_zip_inputs:
  "list_all (\<lambda>i. utxo_outpoint_of i \<noteq> None) ins \<Longrightarrow>
   List.map_filter (\<lambda>(tx_in, utxo). map_option (\<lambda>outpoint. (outpoint, utxo)) (utxo_outpoint_of tx_in)) (zip ins us)
   = zip (List.map_filter utxo_outpoint_of ins) us"
proof (induction ins arbitrary: us)
  case (Cons i ins)
  then show ?case by (cases us) (auto simp: map_filter_simps)
qed (simp add: map_filter_simps)

definition reward_spends :: "block_reward_transactable \<Rightarrow> utxo_outpoint list" where
  "reward_spends r = (case reward_inputs r of None \<Rightarrow> [] | Some ins \<Rightarrow> List.map_filter utxo_outpoint_of ins)"

definition reward_adds :: "block_reward_transactable \<Rightarrow> tx_output list" where
  "reward_adds r = (case reward_outputs r of None \<Rightarrow> [] | Some outs \<Rightarrow> outs)"

text \<open>A reward with inputs spends at least one outpoint and nothing else.\<close>

definition reward_wf :: "block_reward_transactable \<Rightarrow> bool" where
  "reward_wf r = (case reward_inputs r of
      None \<Rightarrow> True
    | Some ins \<Rightarrow> ins \<noteq> [] \<and> list_all (\<lambda>i. utxo_outpoint_of i \<noteq> None) ins)"

lemma reward_wf_spends: "reward_wf r \<Longrightarrow> reward_inputs r = Some ins \<Longrightarrow> reward_spends r \<noteq> []"
  by (cases ins) (auto simp: reward_wf_def reward_spends_def map_filter_simps)

definition new_block :: "'e utxos_view \<Rightarrow> utxos_cache \<Rightarrow> block_id \<Rightarrow> bool" where
  "new_block P c b \<longleftrightarrow> (\<forall>k. source_id k = SourceBlockReward b \<longrightarrow> cache_utxo P c k = Inr None)"

lemma new_block_utxos: "new_block P c b \<Longrightarrow> k \<in> fst ` set (reward_utxos b outs src) \<Longrightarrow> cache_utxo P c k = Inr None"
  using reward_utxos_outpoint by (auto simp: new_block_def)

lemma connect_block_Inr:
  assumes "connect_block_transactable P r b h c = (Inr undo, t)"
  shows "\<exists>us s1. op_map (spend_utxo P) (reward_spends r) c = (Inr us, s1)
    \<and> op_for_each (\<lambda>(k, u). add_utxo k u False) (reward_utxos b (reward_adds r) (Blockchain h)) s1 = (Inr (), t)
    \<and> undo = (if reward_spends r = [] then None else Some us) \<and> list_all should_include_in_utxo_set (reward_adds r)"
proof -
  let ?add = "\<lambda>(idx, out). if \<not> should_include_in_utxo_set out then op_fail (Err (InvalidBlockRewardOutputType b))
          else add_utxo (outpoint_at (SourceBlockReward b) idx) (utxo_new out (Blockchain h)) False"
  obtain s1 us where s1: "op_map (spend_utxo P) (reward_spends r) c = (Inr us, s1)" "undo = (if us = [] then None else Some us)"
    and t: "op_for_each ?add (List.enumerate 0 (reward_adds r)) s1 = (Inr (), t)"
    using assms
    by (cases "reward_inputs r"; cases "reward_outputs r")
      (auto simp: connect_block_transactable_def op_simps reward_spends_def reward_adds_def)
  have t': "op_for_each (\<lambda>p. if \<not> should_include_in_utxo_set (snd p) then op_fail (Err (InvalidBlockRewardOutputType b))
      else add_utxo (outpoint_at (SourceBlockReward b) (fst p)) (utxo_new (snd p) (Blockchain h)) False)
      (List.enumerate 0 (reward_adds r)) s1 = (Inr (), t)"
    using t by (simp add: case_prod_unfold)
  have "us = [] \<longleftrightarrow> reward_spends r = []" using op_map_length [OF s1(1)] by auto
  moreover have "list_all should_include_in_utxo_set (reward_adds r)"
    using op_for_each_guard [OF t'] by (auto simp: list_all_length in_set_enumerate_eq)
  moreover have "op_for_each (\<lambda>(k, u). add_utxo k u False) (reward_utxos b (reward_adds r) (Blockchain h)) s1 = (Inr (), t)"
    using op_for_each_guarded [OF t'] by (simp add: reward_utxos_def op_for_each_map case_prod_unfold)
  ultimately show ?thesis using s1 by auto
qed

lemma disconnect_block_outputs:
  "(case reward_outputs r of
        Some outs \<Rightarrow> op_for_each (\<lambda>(i, _). spend_utxo P (outpoint_at (SourceBlockReward b) i)) (List.enumerate 0 outs)
      | None \<Rightarrow> op_return ()) = op_for_each (spend_utxo P) (map fst (reward_utxos b (reward_adds r) src))"
  by (simp add: reward_adds_def reward_utxos_def op_for_each_map case_prod_unfold comp_def fun_eq_iff op_return_def
      split: option.splits)

text \<open>
  C16: The reward of a block is connected and disconnected on a coherent cache in which no output of the block exists yet. Every
  output that it adds belongs to the set of unspent outputs. If the reward has no inputs at all, or a
  non-empty list of inputs all of which spend outputs, then disconnecting it with the undo data recorded when
  it was connected succeeds and restores the set of unspent outputs. If it has a list of inputs none of which spends an
  output, the empty one included, then connecting records no undo data and disconnecting fails for the lack of it. A list that mixes
  both kinds is outside the claim; see the lemma \<open>mixed_reward_not_restored\<close>.
\<close>

theorem connect_block_reversible:
  assumes "coherent P c" and "length (reward_adds r) \<le> 2 ^ 32" and "new_block P c b"
    and "connect_block_transactable P r b h c = (Inr undo, t)"
  shows "list_all should_include_in_utxo_set (reward_adds r)
    \<and> (reward_wf r \<longrightarrow>
        (\<exists>d. disconnect_block_transactable P r b undo t = (Inr (), d) \<and> coherent P d \<and> cache_utxo P d = cache_utxo P c))
    \<and> (reward_inputs r \<noteq> None \<and> reward_spends r = [] \<longrightarrow>
        undo = None \<and> fst (disconnect_block_transactable P r b undo t) = Inl (Err (MissingBlockRewardUndo b)))"
proof -
  let ?xs = "reward_utxos b (reward_adds r) (Blockchain h)"
  obtain us s1 where s1: "op_map (spend_utxo P) (reward_spends r) c = (Inr us, s1)"
    "op_for_each (\<lambda>(k, u). add_utxo k u False) ?xs s1 = (Inr (), t)"
    and undo: "undo = (if reward_spends r = [] then None else Some us)"
    and incl: "list_all should_include_in_utxo_set (reward_adds r)"
    using connect_block_Inr [OF assms(4)] by blast
  obtain s3 d where d: "op_map (spend_utxo P) (map fst ?xs) t = (Inr (map snd ?xs), s3)"
    "op_for_each (\<lambda>(k, u). add_utxo k u False) (zip (reward_spends r) us) s3 = (Inr (), d)"
    "coherent P d" "cache_utxo P d = cache_utxo P c"
    using cache.move_undo [where xs = ?xs, OF assms(1) s1(1) distinct_reward_utxos [OF assms(2)]
        new_block_utxos [OF assms(3), where outs = "reward_adds r" and src = "Blockchain h"]] s1(2)
    by auto
  have o: "op_for_each (spend_utxo P) (map fst ?xs) t = (Inr (), s3)" using d(1) by (simp add: op_simps)
  have "disconnect_block_transactable P r b undo t = (Inr (), d)" if wf: "reward_wf r"
  proof -
    have "(case reward_inputs r of
        Some ins \<Rightarrow>
          op_bind (op_read (\<lambda>_. ok_or (Err (MissingBlockRewardUndo b)) undo)) (\<lambda>block_undo.
          op_for_each (\<lambda>(outpoint, utxo). add_utxo outpoint utxo False)
            (List.map_filter (\<lambda>(tx_in, utxo). map_option (\<lambda>outpoint. (outpoint, utxo)) (utxo_outpoint_of tx_in))
              (zip ins block_undo)))
      | None \<Rightarrow> op_return ()) s3 = (Inr (), d)"
    proof (cases "reward_inputs r")
      case None
      with d(2) show ?thesis by (simp add: reward_spends_def op_return_def)
    next
      case (Some ins)
      then have "undo = Some us" using undo reward_wf_spends [OF wf] by simp
      moreover have "list_all (\<lambda>i. utxo_outpoint_of i \<noteq> None) ins" using Some wf by (simp add: reward_wf_def)
      ultimately show ?thesis
        using d(2) Some by (simp add: op_bind_def op_read_def map_filter_zip_inputs reward_spends_def)
    qed
    with o show ?thesis
      unfolding disconnect_block_transactable_def disconnect_block_outputs [where src = "Blockchain h"]
      by (simp only: op_bind_ok)
  qed
  moreover have "fst (disconnect_block_transactable P r b undo t) = Inl (Err (MissingBlockRewardUndo b))"
    if "reward_inputs r \<noteq> None" "undo = None"
    unfolding disconnect_block_transactable_def disconnect_block_outputs [where src = "Blockchain h"]
    using that o by (auto simp: op_bind_def op_read_def)
  ultimately show ?thesis using d(3,4) incl undo by auto
qed


section \<open>A sample\<close>

definition sample_utxo_db :: utxos_memory where
  "sample_utxo_db = \<lparr>mem_utxos = fmap_of_list
      [(UtxoOutPoint (SourceTransaction 3) 0, utxo_new (Transfer (Coin (Amount 10)) AnyoneCanSpend) (Blockchain 1)),
       (UtxoOutPoint (SourceTransaction 3) 1, utxo_new (Transfer (Coin (Amount 20)) AnyoneCanSpend) (Blockchain 1))],
    mem_best_block = 1\<rparr>"

abbreviation sample_utxo_view :: "storage_result_error utxos_view" where
  "sample_utxo_view \<equiv> utxos_db_view utxos_memory_store sample_utxo_db"

definition sample_utxo_cache :: utxos_cache where
  "sample_utxo_cache = \<lparr>current_block_hash = 1, cached = fmempty\<rparr>"

definition sample_tx :: transaction where
  "sample_tx = \<lparr>flags = 0, inputs = [Utxo (UtxoOutPoint (SourceTransaction 3) 0)],
    outputs = [Transfer (Coin (Amount 4)) AnyoneCanSpend, Burn (Coin (Amount 1)), Transfer (Coin (Amount 5)) AnyoneCanSpend]\<rparr>"

definition sample_reward :: block_reward_transactable where
  "sample_reward = \<lparr>reward_inputs = Some [Utxo (UtxoOutPoint (SourceTransaction 3) 1)],
    reward_outputs = Some [Transfer (Coin (Amount 21)) AnyoneCanSpend]\<rparr>"

lemma sample_coherent: "coherent sample_utxo_view sample_utxo_cache"
  by (simp add: sample_utxo_cache_def)

lemma sample_utxo_lookup:
  "source_id k \<noteq> SourceTransaction 3 \<Longrightarrow> cache_utxo sample_utxo_view sample_utxo_cache k = Inr None"
  by (cases k) (auto simp: cache_utxo_def sample_utxo_cache_def utxos_db_view_def utxos_memory_store_def sample_utxo_db_def
      fmlookup_fmap_of_list)

lemma sample_new_tx: "new_tx sample_utxo_view sample_utxo_cache 7"
  by (simp add: new_tx_def sample_utxo_lookup)

lemma sample_new_block: "new_block sample_utxo_view sample_utxo_cache 2"
  by (simp add: new_block_def sample_utxo_lookup)

lemma sample_connect:
  "case connect_transaction (\<lambda>_. 7) sample_utxo_view sample_tx (Blockchain 2) sample_utxo_cache of
    (Inr undo, t) \<Rightarrow> cache_utxo sample_utxo_view t (UtxoOutPoint (SourceTransaction 7) 2)
        = Inr (Some (utxo_new (Transfer (Coin (Amount 5)) AnyoneCanSpend) (Blockchain 2)))
    | _ \<Rightarrow> False"
  by code_simp

lemma sample_connect_block:
  "case connect_block_transactable sample_utxo_view sample_reward 2 2 sample_utxo_cache of
    (Inr undo, t) \<Rightarrow> undo \<noteq> None | _ \<Rightarrow> False"
  by code_simp

text \<open>
  Connecting keeps only the inputs that spend outputs, but disconnecting pairs all the inputs with the undo data before
  it skips the others: after an account input the first spent output is not restored.
\<close>

lemma mixed_reward_not_restored:
  "let r = \<lparr>reward_inputs = Some [Account \<lparr>acc_nonce = AccountNonce 0, acc_spending = DelegationBalance 1 (Amount 1)\<rparr>,
      Utxo (UtxoOutPoint (SourceTransaction 3) 1)], reward_outputs = None\<rparr> in
   case connect_block_transactable sample_utxo_view r 2 2 sample_utxo_cache of
    (Inr undo, t) \<Rightarrow> (case disconnect_block_transactable sample_utxo_view r 2 undo t of
      (Inr (), d) \<Rightarrow> cache_utxo sample_utxo_view sample_utxo_cache (UtxoOutPoint (SourceTransaction 3) 1) \<noteq> Inr None
        \<and> cache_utxo sample_utxo_view d (UtxoOutPoint (SourceTransaction 3) 1) = Inr None
      | _ \<Rightarrow> False)
    | _ \<Rightarrow> False"
  by code_simp

theorem connect_transaction_moves_witness:
  "\<exists>undo t. connect_transaction (\<lambda>_. 7) sample_utxo_view sample_tx (Blockchain 2) sample_utxo_cache = (Inr undo, t)
    \<and> coherent sample_utxo_view t \<and> cache_utxo sample_utxo_view t (UtxoOutPoint (SourceTransaction 3) 0) = Inr None"
proof -
  obtain undo t where t: "connect_transaction (\<lambda>_. 7) sample_utxo_view sample_tx (Blockchain 2) sample_utxo_cache = (Inr undo, t)"
    using sample_connect by (auto split: prod.splits sum.splits)
  have "length (outputs sample_tx) \<le> 2 ^ 32" "UtxoOutPoint (SourceTransaction 3) 0 \<in> set (spent_outpoints sample_tx)"
    by (simp_all add: sample_tx_def map_filter_simps)
  with t connect_transaction_moves [where get_id = "\<lambda>_. 7", OF sample_coherent _ sample_new_tx t] show ?thesis by blast
qed

theorem connect_transaction_reversible_witness:
  "\<exists>undo t d. connect_transaction (\<lambda>_. 7) sample_utxo_view sample_tx (Blockchain 2) sample_utxo_cache = (Inr undo, t)
    \<and> disconnect_transaction (\<lambda>_. 7) sample_utxo_view sample_tx (undo_utxos undo) t = (Inr (), d)
    \<and> cache_utxo sample_utxo_view d = cache_utxo sample_utxo_view sample_utxo_cache"
proof -
  obtain undo t where t: "connect_transaction (\<lambda>_. 7) sample_utxo_view sample_tx (Blockchain 2) sample_utxo_cache = (Inr undo, t)"
    using sample_connect by (auto split: prod.splits sum.splits)
  have "length (outputs sample_tx) \<le> 2 ^ 32" by (simp add: sample_tx_def)
  with t connect_transaction_reversible [where get_id = "\<lambda>_. 7", OF sample_coherent _ sample_new_tx t] show ?thesis by blast
qed

theorem connect_block_reversible_witness:
  "\<exists>undo t d. connect_block_transactable sample_utxo_view sample_reward 2 2 sample_utxo_cache = (Inr undo, t)
    \<and> disconnect_block_transactable sample_utxo_view sample_reward 2 undo t = (Inr (), d)
    \<and> cache_utxo sample_utxo_view d = cache_utxo sample_utxo_view sample_utxo_cache"
proof -
  obtain undo t where t: "connect_block_transactable sample_utxo_view sample_reward 2 2 sample_utxo_cache = (Inr undo, t)"
    using sample_connect_block by (auto split: prod.splits sum.splits)
  have "length (reward_adds sample_reward) \<le> 2 ^ 32" "reward_wf sample_reward"
    by (simp_all add: sample_reward_def reward_adds_def reward_wf_def)
  with t connect_block_reversible [OF sample_coherent _ sample_new_block t] show ?thesis by blast
qed

end
