(* ===== verification/UtxoFlush.thy ===== *)
theory UtxoFlush
  imports UtxoTransactions
begin

text \<open>
  Flushing a cache into its parent, a cache or the database, and the refinement of the cache by the plain
  set of unspent outputs. The undo data of a block keeps its two dependency sets mirrored.
\<close>

section \<open>Into a parent cache\<close>

definition batch_slot :: "utxo_outpoint \<times> utxo_entry \<Rightarrow> utxo_entry option \<Rightarrow> (utxo_error fault + unit) \<times> utxo_entry option" where
  "batch_slot x parent_entry = (let entry = snd x in
    if \<not> is_dirty entry then (Inr (), parent_entry)
    else case parent_entry of
      None \<Rightarrow> if is_fresh entry \<and> is_spent entry then (Inr (), None)
        else (case utxo_entry_new (entry_utxo entry) (is_fresh entry) True of
          Inl e \<Rightarrow> (Inl e, None) | Inr e \<Rightarrow> (Inr (), Some e))
    | Some p \<Rightarrow> if is_fresh entry \<and> \<not> is_spent p then (Inl (Err FreshUtxoAlreadyExists), Some p)
        else if is_fresh p \<and> is_spent entry then (Inr (), None)
        else (case utxo_entry_new (entry_utxo entry) (is_fresh p) True of
          Inl e \<Rightarrow> (Inl e, Some p) | Inr e \<Rightarrow> (Inr (), Some e)))"

interpretation flush: keyed_op "\<lambda>c. fmlookup (cached c)" put_entry fst batch_write_entry batch_slot
proof
  fix x s
  show "\<exists>v. batch_slot x (fmlookup (cached s) (fst x)) = (fst (batch_write_entry x s), v) \<and>
      (snd (batch_write_entry x s) = put_entry (fst x) v s \<or>
       v = fmlookup (cached s) (fst x) \<and> snd (batch_write_entry x s) = s)"
    by (cases x) (auto simp: batch_slot_def batch_write_entry_def op_run insert_entry_eq split: option.splits sum.splits)
qed simp

text \<open>A coherent child entry over a coherent parent slot.\<close>

lemma batch_slot_coherent:
  assumes "slot_coherent g s" and "entry_coherent (seen g s) e"
  shows "\<exists>s'. batch_slot (k, e) s = (Inr (), s') \<and> slot_coherent g s' \<and> seen g s' = Inr (entry_utxo e)"
proof -
  have "case batch_slot (k, e) s of (r, s') \<Rightarrow> r = Inr () \<and> slot_coherent g s' \<and> seen g s' = Inr (entry_utxo e)"
    using assms
    by (cases s) (auto simp: batch_slot_def Let_def entry_simps split: utxo_status.splits)
  then show ?thesis by (auto split: prod.splits)
qed

lemma batch_entries:
  assumes "coherent G p" and "coherent (utxos_cache_view G p) c"
  shows "\<exists>t. op_for_each batch_write_entry (sorted_list_of_fmap (cached c)) p = (Inr (), t)
    \<and> coherent G t \<and> cache_utxo G t = cache_utxo (utxos_cache_view G p) c"
proof -
  let ?xs = "sorted_list_of_fmap (cached c)"
  have slot: "\<exists>s'. batch_slot x (fmlookup (cached p) (fst x)) = (Inr (), s')
      \<and> slot_coherent (uv_utxo G (fst x)) s' \<and> seen (uv_utxo G (fst x)) s' = Inr (entry_utxo (snd x))"
    if "x \<in> set ?xs" for x
  proof -
    have "entry_coherent (seen (uv_utxo G (fst x)) (fmlookup (cached p) (fst x))) (snd x)"
      using that slot_coherent_lookup [OF assms(2), of "fst x"]
      by (simp add: slot_coherent_def utxos_cache_view_def cache_utxo_seen)
    then show ?thesis
      using batch_slot_coherent [OF slot_coherent_lookup [OF assms(1)]] by (metis prod.collapse)
  qed
  obtain us t where t: "op_map batch_write_entry ?xs p = (Inr us, t)"
    using flush.map_succeeds [of ?xs p] slot by (metis distinct_sorted_list_of_fmap)
  have here: "slot_coherent (uv_utxo G k) (fmlookup (cached t) k) \<and> cache_utxo G t k = Inr (entry_utxo e)"
    if "fmlookup (cached c) k = Some e" for k e
    using flush.map_Inr_slot [OF t distinct_sorted_list_of_fmap, of "(k, e)"] slot [of "(k, e)"] that
    by (auto simp: cache_utxo_seen)
  have other: "fmlookup (cached t) k = fmlookup (cached p) k" if "fmlookup (cached c) k = None" for k
    using flush.map_Inr_other [OF t distinct_sorted_list_of_fmap, of k] that by (simp add: fst_sorted_list_of_fmap)
  have "coherent G t"
    unfolding coherent_iff
  proof
    fix k
    show "slot_coherent (uv_utxo G k) (fmlookup (cached t) k)"
      using here other assms(1) by (cases "fmlookup (cached c) k") (auto simp: coherent_iff)
  qed
  moreover have "cache_utxo G t k = cache_utxo (utxos_cache_view G p) c k" for k
    using here other
    by (cases "fmlookup (cached c) k") (auto simp: cache_utxo_def utxos_cache_view_def)
  ultimately show ?thesis using t by (auto simp: op_simps fun_eq_iff)
qed

lemma misapplied_fresh_fails:
  assumes "fmlookup (cached c) k = Some e" "is_dirty e" "is_fresh e" "fmlookup (cached p) k = Some e'" "\<not> is_spent e'"
  shows "fst (batch_write (consume_cache c) p) \<noteq> Inr ()"
proof
  let ?xs = "sorted_list_of_fmap (cached c)"
  assume "fst (batch_write (consume_cache c) p) = Inr ()"
  then obtain t' where "batch_write (consume_cache c) p = (Inr (), t')" by (cases "batch_write (consume_cache c) p") simp
  then obtain us t where t: "op_map batch_write_entry ?xs p = (Inr us, t)"
    by (auto simp: batch_write_def consume_cache_def op_simps)
  then have "\<exists>r v. batch_slot (k, e) (fmlookup (cached p) k) = (Inr r, v)"
    using flush.map_Inr_slot [OF t distinct_sorted_list_of_fmap, of "(k, e)"] assms(1) by auto
  then show False using assms by (simp add: batch_slot_def)
qed

text \<open>
  C13: Flushing a cache into its parent cache. If both caches are coherent, which means that the flags of every entry are a valid
  combination, that a fresh flag is set only where the parent has no unspent output, and that an entry that is not dirty agrees with
  the parent, then the flush succeeds: no assertion of an entry fails and no fresh flag is found misapplied. The parent then shows, over its own parent, exactly what
  the flushed cache showed, has its best block, and is coherent again. If, on the other hand, a dirty entry of the cache is
  marked fresh although the parent holds an unspent entry for the output, the flush does not succeed.
\<close>

theorem batch_write_transparent:
  assumes "coherent G p"
  shows "(coherent (utxos_cache_view G p) c \<longrightarrow>
      (\<exists>t. batch_write (consume_cache c) p = (Inr (), t) \<and> coherent G t
        \<and> cache_utxo G t = cache_utxo (utxos_cache_view G p) c \<and> current_block_hash t = current_block_hash c))
    \<and> ((\<exists>k e e'. fmlookup (cached c) k = Some e \<and> is_dirty e \<and> is_fresh e
          \<and> fmlookup (cached p) k = Some e' \<and> \<not> is_spent e') \<longrightarrow>
      fst (batch_write (consume_cache c) p) \<noteq> Inr ())"
proof -
  have "\<exists>t. batch_write (consume_cache c) p = (Inr (), t) \<and> coherent G t
      \<and> cache_utxo G t = cache_utxo (utxos_cache_view G p) c \<and> current_block_hash t = current_block_hash c"
    if c: "coherent (utxos_cache_view G p) c"
  proof -
    obtain t where "op_for_each batch_write_entry (sorted_list_of_fmap (cached c)) p = (Inr (), t)"
      "coherent G t" "cache_utxo G t = cache_utxo (utxos_cache_view G p) c"
      using batch_entries [OF assms c] by blast
    then show ?thesis
      by (simp add: batch_write_def consume_cache_def op_bind_ok op_modify_def set_best_block_def)
  qed
  then show ?thesis using misapplied_fresh_fails by blast
qed


section \<open>Into the database\<close>

lemma or_panic_for_each:
  "op_for_each f xs s = (Inr u, t) \<Longrightarrow> op_for_each (\<lambda>x. or_panic (f x)) xs s = (Inr u, t)"
  by (induction xs arbitrary: s) (auto simp: op_for_each_Cons or_panic_def op_map_err_Inr)

lemma add_utxo_best_block: "add_utxo k u b c = (r, t) \<Longrightarrow> current_block_hash t = current_block_hash c"
  by (auto simp: add_utxo_def insert_entry_eq op_run split: sum.splits option.splits if_splits)

lemma add_all_best_block:
  assumes "op_for_each (\<lambda>(k, u). add_utxo k u b) xs c = (Inr u, t)"
  shows "current_block_hash t = current_block_hash c"
proof -
  obtain as where "op_map (\<lambda>(k, u). add_utxo k u b) xs c = (Inr as, t)" using assms by (auto simp: op_simps)
  then show ?thesis
    by (rule op_map_invariant [where I = "\<lambda>t. current_block_hash t = current_block_hash c"])
      (auto dest: add_utxo_best_block)
qed

text \<open>The contract of a store that does not fail: the content is a map with one best block.\<close>

locale utxos_storage =
  fixes st :: "('s, 'e) utxos_store"
    and look :: "'s \<Rightarrow> utxo_outpoint \<Rightarrow> utxo option"
    and put :: "utxo_outpoint \<Rightarrow> utxo option \<Rightarrow> 's \<Rightarrow> 's"
    and best :: "'s \<Rightarrow> block_id"
  assumes look_put: "look (put k v s) k' = (if k' = k then v else look s k')"
    and get_look: "us_get_utxo st s k = Inr (look s k)"
    and set_put: "us_set_utxo st k u s = (Inr (), put k (Some u) s)"
    and del_put: "us_del_utxo st k s = (Inr (), put k None s)"
    and get_best: "us_get_best_block st s = Inr (best s)"
    and set_best: "\<exists>t. us_set_best_block st h s = (Inr (), t) \<and> best t = h \<and> look t = look s"
begin

lemma view_look: "uv_utxo (utxos_db_view st s) k = Inr (look s k)"
  by (simp add: utxos_db_view_def get_look)

sublocale wr: keyed_op look put fst "utxos_db_write_entry st"
  "\<lambda>x v. (Inr (), if is_dirty (snd x) then entry_utxo (snd x) else v)"
proof
  fix x s
  show "\<exists>v. (Inr (), if is_dirty (snd x) then entry_utxo (snd x) else look s (fst x)) = (fst (utxos_db_write_entry st x s), v) \<and>
      (snd (utxos_db_write_entry st x s) = put (fst x) v s \<or>
       v = look s (fst x) \<and> snd (utxos_db_write_entry st x s) = s)"
    by (cases x) (auto simp: utxos_db_write_entry_def op_map_err_def op_return_def set_put del_put split: option.splits)
qed (simp add: look_put)

lemma db_flush:
  assumes "coherent (utxos_db_view st s) c"
  shows "\<exists>t. utxos_db_batch_write st (consume_cache c) s = (Inr (), t)
    \<and> uv_utxo (utxos_db_view st t) = cache_utxo (utxos_db_view st s) c \<and> best t = current_block_hash c"
proof -
  let ?xs = "sorted_list_of_fmap (cached c)"
  obtain us t1 where t1: "op_map (utxos_db_write_entry st) ?xs s = (Inr us, t1)"
    using wr.map_succeeds [of ?xs s] by auto
  obtain t where t: "us_set_best_block st (current_block_hash c) t1 = (Inr (), t)" "best t = current_block_hash c"
    "look t = look t1" using set_best by blast
  have "uv_utxo (utxos_db_view st t) k = cache_utxo (utxos_db_view st s) c k" for k
  proof (cases "fmlookup (cached c) k")
    case None
    then have "look t1 k = look s k"
      using wr.map_Inr_other [OF t1 distinct_sorted_list_of_fmap, of k] by (simp add: fst_sorted_list_of_fmap)
    with None show ?thesis by (simp add: view_look t(3) cache_utxo_def)
  next
    case (Some e)
    then have "look t1 k = (if is_dirty e then entry_utxo e else look s k)"
      using wr.map_Inr_slot [OF t1 distinct_sorted_list_of_fmap, of "(k, e)"] by auto
    with Some slot_coherent_lookup [OF assms Some] show ?thesis
      by (auto simp: view_look t(3) cache_utxo_def slot_coherent_def entry_coherent_def)
  qed
  moreover have "utxos_db_batch_write st (consume_cache c) s = (Inr (), t)"
    using t1 t(1) by (auto simp: utxos_db_batch_write_def consume_cache_def op_simps)
  ultimately show ?thesis using t(2) by (auto simp: fun_eq_iff)
qed

text \<open>Initialisation, on a store with no output of the genesis block.\<close>

lemma initialize:
  assumes "length outs \<le> 2 ^ 32" and "\<And>k. source_id k = SourceBlockReward g \<Longrightarrow> look s k = None"
  shows "\<exists>t. initialize_db st g outs s = (Inr (), t) \<and> best t = g
    \<and> look t = (\<lambda>k. case map_of (reward_utxos g outs (Blockchain 0)) k of Some u \<Rightarrow> Some u | None \<Rightarrow> look s k)"
proof -
  let ?xs = "reward_utxos g outs (Blockchain 0)"
  obtain s1 where s1: "us_set_best_block st g s = (Inr (), s1)" "best s1 = g" "look s1 = look s" using set_best by blast
  let ?P = "utxos_db_view st s1" and ?c = "\<lparr>current_block_hash = g, cached = fmempty\<rparr>"
  have look: "cache_utxo ?P ?c k = Inr (look s k)" for k by (simp add: cache_utxo_def view_look s1(3))
  have none: "cache_utxo ?P ?c k = Inr None" if "k \<in> fst ` set ?xs" for k
    using assms(2) [OF reward_utxos_outpoint [OF that]] look by simp
  obtain c where c: "op_for_each (\<lambda>(k, u). add_utxo k u False) ?xs ?c = (Inr (), c)" "coherent ?P c"
    "cache_utxo ?P c = (\<lambda>k. case map_of ?xs k of Some u \<Rightarrow> Inr (Some u) | None \<Rightarrow> cache_utxo ?P ?c k)"
    using cache.add_all [of ?P ?c ?xs, OF coherent_empty distinct_reward_utxos [OF assms(1)]] none by blast
  have "op_for_each (\<lambda>(index, out). or_panic (add_utxo (outpoint_at (SourceBlockReward g) index)
      (utxo_new out (Blockchain 0)) False)) (List.enumerate 0 outs) ?c = (Inr (), c)"
    using or_panic_for_each [OF c(1)] by (simp add: reward_utxos_def op_for_each_map case_prod_unfold)
  moreover have "utxos_cache_new ?P = Inr ?c" by (simp add: utxos_cache_new_def utxos_db_view_def get_best s1(2))
  moreover obtain t where t: "utxos_db_batch_write st (consume_cache c) s1 = (Inr (), t)"
    "uv_utxo (utxos_db_view st t) = cache_utxo ?P c" "best t = current_block_hash c"
    using db_flush [OF c(2)] by blast
  ultimately have "initialize_db st g outs s = (Inr (), t)"
    using s1(1) by (simp add: initialize_db_def or_panic_def op_bind_def op_read_def op_map_err_def)
  moreover have "look t k = (case map_of ?xs k of Some u \<Rightarrow> Some u | None \<Rightarrow> look s k)" for k
    using fun_cong [OF t(2), of k] by (auto simp: view_look c(3) look split: option.splits)
  moreover have "current_block_hash c = g"
    using add_all_best_block [OF c(1)] by simp
  ultimately show ?thesis using t(3) by (auto simp: fun_eq_iff)
qed

end


interpretation memory: utxos_storage utxos_memory_store "\<lambda>s. fmlookup (mem_utxos s)"
  "\<lambda>k v. mem_utxos_update (fm_put k v)" mem_best_block
  by unfold_locales (simp_all add: utxos_memory_store_def op_modify_def)

text \<open>
  A write through \<open>get_mut_utxo\<close> to an output that the cache has from its parent is shown by the cache, but
  the entry is not dirty, so a flush passes over it.
\<close>

lemma get_mut_write_not_flushed:
  assumes "fmlookup (cached c) k = None" and "uv_utxo P k = Inr (Some u)"
  shows "\<exists>e t. get_mut_utxo P k write_utxo c = (Inr (Some (write_utxo u)), t) \<and> cache_utxo P t k = Inr (Some (write_utxo u))
    \<and> fmlookup (cached t) k = Some e \<and> batch_write_entry (k, e) p = (Inr (), p)"
  using assms by (simp add: get_mut_utxo_def fetch_utxo_entry_def op_run insert_entry_eq utxo_entry_new_def valid_entry_def
      entry_utxo_def cache_utxo_def batch_write_entry_def)

section \<open>The set of unspent outputs\<close>

text \<open>
  What the cache implements: a partial function from outpoints to outputs, from which a spend takes an
  output that is there and to which an addition brings one that is not.
\<close>

datatype utxo_command = CmdSpendUtxo utxo_outpoint | CmdAddUtxo utxo_outpoint utxo

fun set_apply :: "utxo_command \<Rightarrow> (utxo_outpoint \<Rightarrow> utxo option, unit, utxo option) op" where
  "set_apply (CmdSpendUtxo k) m = (case m k of None \<Rightarrow> (Inl (), m) | Some u \<Rightarrow> (Inr (Some u), m(k := None)))"
| "set_apply (CmdAddUtxo k u) m = (case m k of None \<Rightarrow> (Inr None, m(k := Some u)) | Some _ \<Rightarrow> (Inl (), m))"

fun utxo_apply :: "'e utxos_view \<Rightarrow> utxo_command \<Rightarrow> (utxos_cache, utxo_error fault, utxo option) op" where
  "utxo_apply P (CmdSpendUtxo k) = op_bind (spend_utxo P k) (\<lambda>u. op_return (Some u))"
| "utxo_apply P (CmdAddUtxo k u) = op_bind (add_utxo k u False) (\<lambda>_. op_return None)"

lemma utxo_apply_simulates:
  assumes "coherent P c" and "\<And>k. cache_utxo P c k = Inr (m k)" and "set_apply cmd m = (Inr r, m')"
  shows "\<exists>t. utxo_apply P cmd c = (Inr r, t) \<and> coherent P t \<and> (\<forall>k. cache_utxo P t k = Inr (m' k))"
proof (cases cmd)
  case (CmdSpendUtxo k)
  with assms(3) obtain u where u: "m k = Some u" "r = Some u" "m' = m(k := None)" by (auto split: option.splits)
  then show ?thesis
    using cache.spend_ok [OF assms(1), of k u] assms(2) CmdSpendUtxo by (auto simp: op_bind_def op_return_def)
next
  case (CmdAddUtxo k u)
  with assms(3) have u: "m k = None" "r = None" "m' = m(k := Some u)" by (auto split: option.splits)
  then show ?thesis
    using cache.add_ok [OF assms(1), of k u] assms(2) CmdAddUtxo by (auto simp: op_bind_def op_return_def)
qed

lemma utxo_run_simulates:
  assumes "coherent P c" and "\<And>k. cache_utxo P c k = Inr (m k)" and "op_map set_apply cmds m = (Inr rs, m')"
  shows "\<exists>t. op_map (utxo_apply P) cmds c = (Inr rs, t) \<and> coherent P t \<and> (\<forall>k. cache_utxo P t k = Inr (m' k))"
  using assms
proof (induction cmds arbitrary: c m rs)
  case Nil
  then show ?case by (auto simp: op_simps)
next
  case (Cons cmd cmds)
  then obtain r m1 rs' where r: "set_apply cmd m = (Inr r, m1)" "op_map set_apply cmds m1 = (Inr rs', m')" "rs = r # rs'"
    by (auto simp: op_simps)
  obtain c1 where c1: "utxo_apply P cmd c = (Inr r, c1)" "coherent P c1" "\<And>k. cache_utxo P c1 k = Inr (m1 k)"
    using utxo_apply_simulates [OF Cons.prems(1,2) r(1)] by blast
  then show ?case using Cons.IH [OF c1(2,3) r(2)] r(3) by (auto simp: op_simps)
qed

text \<open>
  C12: The cache over a database implements the set of unspent outputs: every run of spends and additions that
  is legal on the set runs on the cache with the same results, the flush succeeds, and the database then
  holds exactly the set that the run leads to.
\<close>

theorem utxo_cache_refines_set:
  assumes "utxos_storage st look put best" and "utxos_cache_new (utxos_db_view st s) = Inr c"
    and "op_map set_apply cmds (look s) = (Inr rs, m)"
  shows "\<exists>c' t. op_map (utxo_apply (utxos_db_view st s)) cmds c = (Inr rs, c')
    \<and> utxos_db_batch_write st (consume_cache c') s = (Inr (), t) \<and> look t = m \<and> best t = current_block_hash c'"
proof -
  have c: "coherent (utxos_db_view st s) c" "\<And>k. cache_utxo (utxos_db_view st s) c k = Inr (look s k)"
    using assms(2) utxos_storage.view_look [OF assms(1)] by (auto simp: utxos_cache_new_def res_simps cache_utxo_def)
  obtain c' where c': "op_map (utxo_apply (utxos_db_view st s)) cmds c = (Inr rs, c')" "coherent (utxos_db_view st s) c'"
    "\<And>k. cache_utxo (utxos_db_view st s) c' k = Inr (m k)"
    using utxo_run_simulates [OF c assms(3)] by blast
  obtain t where t: "utxos_db_batch_write st (consume_cache c') s = (Inr (), t)"
    "uv_utxo (utxos_db_view st t) = cache_utxo (utxos_db_view st s) c'" "best t = current_block_hash c'"
    using utxos_storage.db_flush [OF assms(1) c'(2)] by blast
  have "look t k = m k" for k
    using fun_cong [OF t(2), of k] c'(3) by (simp add: utxos_storage.view_look [OF assms(1)])
  then have "look t = m" by (simp add: fun_eq_iff)
  with c'(1) t show ?thesis by blast
qed

text \<open>
  Initialising a database that has no output of the genesis block succeeds, makes the genesis block the
  best block, and adds exactly the outputs of the genesis block.
\<close>

theorem initialize_db_correct:
  assumes "utxos_storage st look put best" and "length outs \<le> 2 ^ 32"
    and "\<And>k. source_id k = SourceBlockReward g \<Longrightarrow> look s k = None"
  shows "\<exists>t. initialize_db st g outs s = (Inr (), t) \<and> best t = g
    \<and> look t = (\<lambda>k. case map_of (reward_utxos g outs (Blockchain 0)) k of Some u \<Rightarrow> Some u | None \<Rightarrow> look s k)"
  using assms(2,3) by (rule utxos_storage.initialize [OF assms(1)])

section \<open>Undo data of a block\<close>

lemma insert_tx_undo_fold:
  "fold (\<lambda>source_tx_id b. b\<lparr>
        child_parent_dependencies := finsert (i, source_tx_id) (child_parent_dependencies b),
        parent_child_dependencies := finsert (source_tx_id, i) (parent_child_dependencies b)\<rparr>) ps b
   = b\<lparr>child_parent_dependencies := fset_of_list (map (\<lambda>p. (i, p)) ps) |\<union>| child_parent_dependencies b,
       parent_child_dependencies := fset_of_list (map (\<lambda>p. (p, i)) ps) |\<union>| parent_child_dependencies b\<rparr>"
  by (induction ps arbitrary: b) simp_all

lemma set_tx_sources: "p \<in> set (List.map_filter get_tx_id xs) \<longleftrightarrow> SourceTransaction p \<in> set xs"
  by (induction xs) (auto simp: map_filter_simps get_tx_id_def split: out_point_source_id.splits)

lemma insert_all_undos:
  assumes "distinct (map fst xs)" and "\<And>i. i \<in> fst ` set xs \<Longrightarrow> fmlookup (block_tx_undos b) i = None"
  shows "\<exists>t. op_for_each (\<lambda>(tx_id, tx_undo). insert_tx_undo tx_id tx_undo) xs b = (Inr (), t)
    \<and> block_reward_undo t = block_reward_undo b
    \<and> fmlookup (block_tx_undos t) = (\<lambda>i. case map_of xs i of Some u \<Rightarrow> Some (undo_utxos u) | None \<Rightarrow> fmlookup (block_tx_undos b) i)
    \<and> (\<forall>i p. (i, p) |\<in>| child_parent_dependencies t \<longleftrightarrow>
        (i, p) |\<in>| child_parent_dependencies b \<or> (\<exists>u. (i, u) \<in> set xs \<and> SourceTransaction p \<in> set (undo_sources u)))
    \<and> (\<forall>i p. (p, i) |\<in>| parent_child_dependencies t \<longleftrightarrow>
        (p, i) |\<in>| parent_child_dependencies b \<or> (\<exists>u. (i, u) \<in> set xs \<and> SourceTransaction p \<in> set (undo_sources u)))"
  using assms
proof (induction xs arbitrary: b)
  case Nil
  then show ?case by simp
next
  case (Cons x xs)
  obtain i u where x: "x = (i, u)" by (cases x)
  let ?ps = "List.map_filter get_tx_id (undo_sources u)"
  let ?b = "b\<lparr>block_tx_undos := fmupd i (undo_utxos u) (block_tx_undos b),
      child_parent_dependencies := fset_of_list (map (\<lambda>p. (i, p)) ?ps) |\<union>| child_parent_dependencies b,
      parent_child_dependencies := fset_of_list (map (\<lambda>p. (p, i)) ?ps) |\<union>| parent_child_dependencies b\<rparr>"
  have "insert_tx_undo i u b = (Inr (), ?b)"
    using Cons.prems(2) [of i] by (simp add: x insert_tx_undo_def op_bind_def op_read_def op_modify_def insert_tx_undo_fold)
  moreover have "\<And>j. j \<in> fst ` set xs \<Longrightarrow> fmlookup (block_tx_undos ?b) j = None"
    using Cons.prems by (auto simp: x)
  moreover have "map_of xs i = None" using Cons.prems(1) by (simp add: x map_of_eq_None_iff)
  moreover obtain t where t: "op_for_each (\<lambda>(tx_id, tx_undo). insert_tx_undo tx_id tx_undo) xs ?b = (Inr (), t)"
    "block_reward_undo t = block_reward_undo ?b"
    "fmlookup (block_tx_undos t) = (\<lambda>i. case map_of xs i of Some u \<Rightarrow> Some (undo_utxos u) | None \<Rightarrow> fmlookup (block_tx_undos ?b) i)"
    "\<forall>i p. (i, p) |\<in>| child_parent_dependencies t \<longleftrightarrow>
        (i, p) |\<in>| child_parent_dependencies ?b \<or> (\<exists>u. (i, u) \<in> set xs \<and> SourceTransaction p \<in> set (undo_sources u))"
    "\<forall>i p. (p, i) |\<in>| parent_child_dependencies t \<longleftrightarrow>
        (p, i) |\<in>| parent_child_dependencies ?b \<or> (\<exists>u. (i, u) \<in> set xs \<and> SourceTransaction p \<in> set (undo_sources u))"
    using Cons.IH [of ?b] Cons.prems(1) calculation(2) by auto
  moreover have "fmlookup (block_tx_undos t) = (\<lambda>j. case map_of (x # xs) j of
      Some u \<Rightarrow> Some (undo_utxos u) | None \<Rightarrow> fmlookup (block_tx_undos b) j)"
    using t(3) calculation(3) by (auto simp: x fun_eq_iff split: option.splits)
  ultimately show ?case
    by (intro exI [of _ t]) (auto simp: x op_for_each_Cons set_tx_sources fset_of_list_elem)
qed

text \<open>
  The undo data of a block holds the undo of each of its transactions and records that a transaction
  depends on another exactly when it spends an output of it. The two dependency sets mirror each
  other, so rebuilding the undo data from its parts passes the assertions.
\<close>

theorem utxos_block_undo_new_correct:
  "\<exists>b. utxos_block_undo_new r undos = Inr b \<and> block_reward_undo b = r
    \<and> (\<forall>i. fmlookup (block_tx_undos b) i = map_option undo_utxos (fmlookup undos i))
    \<and> (\<forall>i p. (i, p) |\<in>| child_parent_dependencies b \<longleftrightarrow>
        (\<exists>u. fmlookup undos i = Some u \<and> SourceTransaction p \<in> set (undo_sources u)))
    \<and> utxos_block_undo_from_data (block_reward_undo b) (block_tx_undos b)
        (child_parent_dependencies b) (parent_child_dependencies b) = Inr b"
proof -
  let ?b = "\<lparr>block_reward_undo = r, block_tx_undos = fmempty,
         child_parent_dependencies = {||}, parent_child_dependencies = {||}\<rparr>"
  obtain b where b: "op_for_each (\<lambda>(tx_id, tx_undo). insert_tx_undo tx_id tx_undo) (sorted_list_of_fmap undos) ?b = (Inr (), b)"
    "block_reward_undo b = r"
    "fmlookup (block_tx_undos b) = (\<lambda>i. case map_of (sorted_list_of_fmap undos) i of Some u \<Rightarrow> Some (undo_utxos u) | None \<Rightarrow> None)"
    "\<forall>i p. (i, p) |\<in>| child_parent_dependencies b \<longleftrightarrow>
        (\<exists>u. (i, u) \<in> set (sorted_list_of_fmap undos) \<and> SourceTransaction p \<in> set (undo_sources u))"
    "\<forall>i p. (p, i) |\<in>| parent_child_dependencies b \<longleftrightarrow>
        (\<exists>u. (i, u) \<in> set (sorted_list_of_fmap undos) \<and> SourceTransaction p \<in> set (undo_sources u))"
    using insert_all_undos [of "sorted_list_of_fmap undos" ?b] by (auto cong: option.case_cong)
  have "utxos_block_undo_from_data (block_reward_undo b) (block_tx_undos b)
        (child_parent_dependencies b) (parent_child_dependencies b) = Inr b"
    using b(4,5) by (auto simp: utxos_block_undo_from_data_def)
  with b show ?thesis
    by (intro exI [of _ b]) (auto simp: utxos_block_undo_new_def map_of_sorted_list split: option.splits)
qed

section \<open>A sample\<close>

abbreviation sample_child_view :: "storage_result_error utxos_view" where
  "sample_child_view \<equiv> utxos_cache_view sample_utxo_view sample_utxo_cache"

lemma sample_child:
  "case connect_transaction (\<lambda>_. 7) sample_child_view sample_tx (Blockchain 2) sample_utxo_cache of
    (Inr undo, t) \<Rightarrow> coherent sample_child_view t
      \<and> cache_utxo sample_child_view t (UtxoOutPoint (SourceTransaction 7) 2)
        = Inr (Some (utxo_new (Transfer (Coin (Amount 5)) AnyoneCanSpend) (Blockchain 2)))
    | _ \<Rightarrow> False"
  by code_simp

theorem batch_write_transparent_witness:
  "\<exists>undo c t. connect_transaction (\<lambda>_. 7) sample_child_view sample_tx (Blockchain 2) sample_utxo_cache = (Inr undo, c)
    \<and> batch_write (consume_cache c) sample_utxo_cache = (Inr (), t)
    \<and> cache_utxo sample_utxo_view t (UtxoOutPoint (SourceTransaction 7) 2)
        = Inr (Some (utxo_new (Transfer (Coin (Amount 5)) AnyoneCanSpend) (Blockchain 2)))"
proof -
  obtain undo c where c: "connect_transaction (\<lambda>_. 7) sample_child_view sample_tx (Blockchain 2) sample_utxo_cache = (Inr undo, c)"
    and "coherent sample_child_view c" and look: "cache_utxo sample_child_view c (UtxoOutPoint (SourceTransaction 7) 2)
        = Inr (Some (utxo_new (Transfer (Coin (Amount 5)) AnyoneCanSpend) (Blockchain 2)))"
    using sample_child by (auto split: prod.splits sum.splits)
  with batch_write_transparent [OF sample_coherent] show ?thesis by metis
qed

definition sample_utxo_commands :: "utxo_command list" where
  "sample_utxo_commands = [CmdSpendUtxo (UtxoOutPoint (SourceTransaction 3) 1),
    CmdAddUtxo (UtxoOutPoint (SourceTransaction 9) 0) (utxo_new (Transfer (Coin (Amount 20)) AnyoneCanSpend) (Blockchain 2)),
    CmdSpendUtxo (UtxoOutPoint (SourceTransaction 9) 0)]"

lemma sample_set_run:
  "case op_map set_apply sample_utxo_commands (fmlookup (mem_utxos sample_utxo_db)) of
    (Inr rs, m) \<Rightarrow> m (UtxoOutPoint (SourceTransaction 3) 0) \<noteq> None \<and> m (UtxoOutPoint (SourceTransaction 3) 1) = None
    | _ \<Rightarrow> False"
  by code_simp

theorem utxo_cache_refines_set_witness:
  "\<exists>rs c' t. op_map (utxo_apply sample_utxo_view) sample_utxo_commands sample_utxo_cache = (Inr rs, c')
    \<and> utxos_db_batch_write utxos_memory_store (consume_cache c') sample_utxo_db = (Inr (), t)
    \<and> fmlookup (mem_utxos t) (UtxoOutPoint (SourceTransaction 3) 0) \<noteq> None
    \<and> fmlookup (mem_utxos t) (UtxoOutPoint (SourceTransaction 3) 1) = None"
proof -
  obtain rs m where m: "op_map set_apply sample_utxo_commands (fmlookup (mem_utxos sample_utxo_db)) = (Inr rs, m)"
    "m (UtxoOutPoint (SourceTransaction 3) 0) \<noteq> None" "m (UtxoOutPoint (SourceTransaction 3) 1) = None"
    using sample_set_run by (auto split: prod.splits sum.splits)
  have "utxos_cache_new sample_utxo_view = Inr sample_utxo_cache"
    by (simp add: utxos_cache_new_def utxos_db_view_def utxos_memory_store_def sample_utxo_db_def sample_utxo_cache_def)
  with utxo_cache_refines_set [OF memory.utxos_storage_axioms _ m(1)] m(2,3) show ?thesis by metis
qed

theorem initialize_db_correct_witness:
  "\<exists>t. initialize_db utxos_memory_store 5 [Transfer (Coin (Amount 4)) AnyoneCanSpend] sample_utxo_db = (Inr (), t)
    \<and> mem_best_block t = 5
    \<and> fmlookup (mem_utxos t) (UtxoOutPoint (SourceBlockReward 5) 0)
        = Some (utxo_new (Transfer (Coin (Amount 4)) AnyoneCanSpend) (Blockchain 0))"
proof -
  have "fmlookup (mem_utxos sample_utxo_db) k = None" if "source_id k = SourceBlockReward 5" for k
    using that by (cases k) (simp add: sample_utxo_db_def fmlookup_fmap_of_list)
  then show ?thesis
    using initialize_db_correct [OF memory.utxos_storage_axioms, of "[Transfer (Coin (Amount 4)) AnyoneCanSpend]" 5 sample_utxo_db]
    by (auto simp: reward_utxos_def outpoint_at_def fun_eq_iff)
qed

end
