(* ===== verification/Config.thy ===== *)
theory Config
  imports Chain
begin

text \<open>
  Block heights and distances, coin units, network upgrades and the parts of the chain configuration
  that the ledger rules use: required consensus, fees by version, epochs. Overflow checks are
  enabled in every build profile, so an overflow is a panic.
\<close>

section \<open>Heights\<close>

text \<open>\<open>BlockHeight\<close> is \<open>u64\<close>, \<open>BlockDistance\<close> is \<open>i64\<close> and \<open>BlockCount\<close> is \<open>u64\<close>.\<close>

type_synonym block_distance = "64 word"
type_synonym block_count = u64
type_synonym epoch_index = u64

text \<open>\<open>try_into\<close> between \<open>u64\<close> and \<open>i64\<close>.\<close>

definition u64_to_i64 :: "u64 \<Rightarrow> 64 word option" where
  "u64_to_i64 w = (if uint w < 2 ^ 63 then Some w else None)"

definition i64_to_u64 :: "64 word \<Rightarrow> u64 option" where
  "i64_to_u64 w = (if 0 \<le> sint w then Some w else None)"

definition block_height_add :: "block_height \<Rightarrow> block_distance \<Rightarrow> 'e fault + block_height option" where
  "block_height_add h d = (case u64_to_i64 h of
      None \<Rightarrow> Inr None
    | Some height \<Rightarrow> res_bind (expect (checked_sadd height d)) (\<lambda>result. Inr (i64_to_u64 result)))"

definition block_height_sub_distance :: "block_height \<Rightarrow> block_distance \<Rightarrow> block_height option" where
  "block_height_sub_distance h d = Option.bind (u64_to_i64 h) (\<lambda>height.
    if sint height < 0 then None
    else Option.bind (checked_ssub height d) (\<lambda>raw_result.
      if sint raw_result < 0 then None else i64_to_u64 raw_result))"

definition block_height_sub :: "block_height \<Rightarrow> block_height \<Rightarrow> block_distance option" where
  "block_height_sub a b = Option.bind (u64_to_i64 a) (\<lambda>h1. Option.bind (u64_to_i64 b) (\<lambda>h2. checked_ssub h1 h2))"

definition block_distance_add :: "block_distance \<Rightarrow> block_distance \<Rightarrow> block_distance option" where
  "block_distance_add a b = checked_sadd a b"

definition block_distance_sub :: "block_distance \<Rightarrow> block_distance \<Rightarrow> block_distance option" where
  "block_distance_sub a b = checked_ssub a b"

definition next_height :: "block_height \<Rightarrow> 'e fault + block_height" where
  "next_height h = expect (checked_add h 1)"

definition prev_height :: "block_height \<Rightarrow> block_height option" where
  "prev_height h = checked_sub h 1"

definition block_count_add :: "block_count \<Rightarrow> block_count \<Rightarrow> block_count option" where
  "block_count_add a b = checked_add a b"

definition block_count_sub :: "block_count \<Rightarrow> block_count \<Rightarrow> block_count option" where
  "block_count_sub a b = checked_sub a b"

lemma u64_to_i64_Some [checked_simps]: "u64_to_i64 w = Some v \<longleftrightarrow> v = w \<and> uint w < 2 ^ 63"
  by (auto simp: u64_to_i64_def)

lemma sint_eq_uint64:
  assumes "uint (w :: 64 word) < 2 ^ 63"
  shows "sint w = uint w"
proof -
  have "signed_take_bit 63 (uint w) = uint w"
    by (rule signed_take_bit_int_eq_self) (use assms uint_ge_0 [of w] in linarith)+
  then show ?thesis by (simp add: sint_uint)
qed

lemma sint_nonneg_uint64:
  assumes "0 \<le> sint (w :: 64 word)"
  shows "uint w = sint w \<and> uint w < 2 ^ 63"
proof -
  have "take_bit 64 (sint w) = sint w"
    by (rule take_bit_int_eq_self) (use assms sint_lt [of w] in auto)
  then have "uint w = sint w" by (simp add: uint_sint)
  then show ?thesis using sint_lt [of w] by simp
qed

lemma i64_to_u64_Some [checked_simps]: "i64_to_u64 w = Some v \<longleftrightarrow> v = w \<and> uint v = sint w"
  using sint_nonneg_uint64 [of w] by (auto simp: i64_to_u64_def) (metis uint_ge_0)

text \<open>The sum is exact; it is absent outside of the heights, and above the signed range the code panics.\<close>

lemma block_height_add_Some:
  "block_height_add h d = Inr (Some r) \<longleftrightarrow> uint h < 2 ^ 63 \<and> uint r < 2 ^ 63 \<and> uint r = uint h + sint d"
proof (cases "uint h < 2 ^ 63")
  case True
  have "block_height_add h d = Inr (Some r) \<longleftrightarrow> sint r = uint h + sint d \<and> uint r = sint r"
    using True sint_eq_uint64 [OF True]
    by (simp add: block_height_add_def u64_to_i64_def res_simps checked_simps)
  also have "\<dots> \<longleftrightarrow> uint r < 2 ^ 63 \<and> uint r = uint h + sint d"
    using sint_eq_uint64 [of r] sint_nonneg_uint64 [of r] uint_ge_0 [of r] by metis
  finally show ?thesis using True by simp
qed (simp add: block_height_add_def u64_to_i64_def)

lemma block_height_sub_distance_Some:
  "block_height_sub_distance h d = Some r \<longleftrightarrow> uint h < 2 ^ 63 \<and> uint r < 2 ^ 63 \<and> uint r = uint h - sint d"
proof (cases "uint h < 2 ^ 63")
  case True
  have "block_height_sub_distance h d = Some r \<longleftrightarrow> sint r = uint h - sint d \<and> uint r = sint r"
    using True sint_eq_uint64 [OF True] uint_ge_0 [of h] uint_ge_0 [of r]
    by (auto simp: block_height_sub_distance_def u64_to_i64_def bind_eq_Some_conv checked_simps split: if_splits
        intro!: exI [of _ r]) (metis diff_ge_0_iff_ge linorder_not_less uint_ge_0)
  also have "\<dots> \<longleftrightarrow> uint r < 2 ^ 63 \<and> uint r = uint h - sint d"
    using sint_eq_uint64 [of r] sint_nonneg_uint64 [of r] uint_ge_0 [of r] by metis
  finally show ?thesis using True by simp
qed (simp add: block_height_sub_distance_def u64_to_i64_def)

lemma block_height_add_sub: "block_height_add h d = Inr (Some r) \<Longrightarrow> block_height_sub_distance r d = Some h"
  by (simp add: block_height_add_Some block_height_sub_distance_Some)

section \<open>Coin units\<close>

type_synonym coin_unit = amount

definition ATOMS_PER_COIN :: u128 where
  "ATOMS_PER_COIN = 10 ^ 11"

definition from_coins :: "u64 \<Rightarrow> coin_unit" where
  "from_coins n = Amount (ucast n * ATOMS_PER_COIN)"

lemma amt_from_coins: "amt (from_coins n) = uint n * 10 ^ 11"
proof -
  have n: "uint (ucast n :: u128) = uint n" by (simp add: uint_up_ucast is_up)
  have "uint (ucast n * 10 ^ 11 :: u128) = uint n * 10 ^ 11 mod 2 ^ 128"
    using uint_mult_lem [of "ucast n :: u128" "10 ^ 11"] by (simp add: uint_word_ariths(3) n)
  also have "\<dots> = uint n * 10 ^ 11"
    using uint_range [of n] by (intro mod_pos_pos_trivial) auto
  finally show ?thesis by (simp add: from_coins_def ATOMS_PER_COIN_def amt_def)
qed


section \<open>Network upgrades\<close>

text \<open>\<open>NetUpgrades\<close> is the vector of the upgrades with their heights.\<close>

type_synonym 'a net_upgrades = "(block_height \<times> 'a) list"

datatype net_upgrades_initialize_error = NoUpgrades | FirstUpgradeNotAtGenesis

definition net_upgrades_initialize ::
  "(block_height \<times> 'a::linorder) list \<Rightarrow> net_upgrades_initialize_error + 'a net_upgrades" where
  "net_upgrades_initialize upgrades = (case sort upgrades of
      (height, v) # us \<Rightarrow> if height = 0 then Inr ((height, v) # us) else Inl FirstUpgradeNotAtGenesis
    | [] \<Rightarrow> Inl NoUpgrades)"

definition version_at_height :: "'a net_upgrades \<Rightarrow> block_height \<Rightarrow> 'e fault + block_height \<times> 'a" where
  "version_at_height us height = expect (List.find (\<lambda>(upgrade_height, _). upgrade_height \<le> height) (rev us))"

definition height_range :: "'a net_upgrades \<Rightarrow> 'a \<Rightarrow> (block_height \<times> block_height) option" where
  "height_range us version =
    map_option (\<lambda>(idx, (start_h, _)). (start_h, if idx + 1 < length us then fst (us ! (idx + 1)) else - 1))
      (List.find (\<lambda>(_, (_, elem_version)). elem_version = version) (List.enumerate 0 us))"

text \<open>What \<open>initialize\<close> guarantees.\<close>

definition upgrades_wf :: "'a net_upgrades \<Rightarrow> bool" where
  "upgrades_wf us \<longleftrightarrow> us \<noteq> [] \<and> sorted (map fst us) \<and> fst (hd us) = 0"

lemma net_upgrades_initialize_wf: "net_upgrades_initialize us = Inr vs \<Longrightarrow> upgrades_wf vs \<and> set vs = set us"
proof -
  assume i: "net_upgrades_initialize us = Inr vs"
  then have vs: "vs = sort us" "vs \<noteq> []" "fst (hd vs) = 0"
    by (cases "sort us"; auto simp: net_upgrades_initialize_def split: if_splits)+
  have "sorted (map fst (sort us))"
    by (rule sorted_map [THEN iffD2], rule sorted_wrt_mono_rel [OF _ sorted_sort]) (auto simp: less_eq_prod_def)
  with vs show ?thesis by (simp add: upgrades_wf_def)
qed

text \<open>The version at a height is the last upgrade at or below it; it is always found.\<close>

lemma version_at_height_Inr:
  assumes "upgrades_wf us"
  shows "\<exists>i < length us. version_at_height us h = Inr (us ! i) \<and> fst (us ! i) \<le> h \<and> (\<forall>j. i < j \<and> j < length us \<longrightarrow> h < fst (us ! j))"
proof -
  let ?p = "\<lambda>(upgrade_height, _). upgrade_height \<le> h"
  have "hd us \<in> set (rev us)" "?p (hd us)" using assms by (auto simp: upgrades_wf_def case_prod_unfold)
  then obtain x where x: "List.find ?p (rev us) = Some x"
    by (metis find_None_iff not_None_eq)
  then obtain k where k: "k < length us" "?p (rev us ! k)" "x = rev us ! k" "\<forall>j<k. \<not> ?p (rev us ! j)"
    by (auto simp: find_Some_iff)
  let ?i = "length us - Suc k"
  have "us ! ?i = x" using k by (simp add: rev_nth)
  moreover have "h < fst (us ! j)" if "?i < j" "j < length us" for j
  proof -
    have "length us - Suc j < k" "rev us ! (length us - Suc j) = us ! j" using that k(1) by (auto simp: rev_nth)
    with k(4) have "\<not> ?p (us ! j)" by metis
    then show ?thesis by (auto split: prod.splits)
  qed
  ultimately show ?thesis
    using k(1,2,3) x by (intro exI [of _ ?i]) (auto simp: version_at_height_def split: prod.splits)
qed

lemma version_at_height_ok:
  assumes "upgrades_wf us"
  shows "\<exists>i v. version_at_height us h = Inr (i, v) \<and> i \<le> h \<and> (i, v) \<in> set us"
  using version_at_height_Inr [OF assms, of h] by (metis nth_mem prod.collapse)

subsection \<open>Consensus upgrades\<close>

type_synonym compact = u32

record pos_chain_config =
  target_limit :: u256
  pos_spend_maturity_block_count :: block_count
  block_count_to_average_for_blocktime :: nat
  difficulty_change_limit :: per_thousand
  consensus_version :: u32

definition pos_chain_config_new ::
  "u256 \<Rightarrow> block_count \<Rightarrow> nat \<Rightarrow> per_thousand \<Rightarrow> u32 \<Rightarrow> 'e fault + pos_chain_config" where
  "pos_chain_config_new limit maturity average change version =
    (if 2 \<le> average then Inr \<lparr>target_limit = limit, pos_spend_maturity_block_count = maturity,
      block_count_to_average_for_blocktime = average, difficulty_change_limit = change, consensus_version = version\<rparr>
     else Inl Panic)"

datatype consensus_upgrade = UpgradePoW compact | UpgradePoS "compact option" pos_chain_config | UpgradeIgnoreConsensus

datatype pow_status = PoWOngoing | PoWThreshold compact

datatype pos_status = PoSOngoing pos_chain_config | PoSThreshold "compact option" pos_chain_config

datatype required_consensus = RequiredPoW pow_status | RequiredPoS pos_status | RequiredIgnoreConsensus

definition get_chain_config :: "pos_status \<Rightarrow> pos_chain_config" where
  "get_chain_config s = (case s of PoSOngoing config \<Rightarrow> config | PoSThreshold _ config \<Rightarrow> config)"

definition required_consensus_from :: "consensus_upgrade \<Rightarrow> required_consensus" where
  "required_consensus_from u = (case u of
      UpgradePoW initial_difficulty \<Rightarrow> RequiredPoW (PoWThreshold initial_difficulty)
    | UpgradePoS initial_difficulty config \<Rightarrow> RequiredPoS (PoSThreshold initial_difficulty config)
    | UpgradeIgnoreConsensus \<Rightarrow> RequiredIgnoreConsensus)"

definition consensus_status :: "consensus_upgrade net_upgrades \<Rightarrow> block_height \<Rightarrow> 'e fault + required_consensus" where
  "consensus_status us height =
    res_bind (version_at_height us height) (\<lambda>(last_upgrade_height, last_consensus_upgrade).
    case last_consensus_upgrade of
      UpgradePoW initial_difficulty \<Rightarrow>
        if last_upgrade_height < height then Inr (RequiredPoW PoWOngoing)
        else Inr (RequiredPoW (PoWThreshold initial_difficulty))
    | UpgradePoS initial_difficulty config \<Rightarrow>
        if last_upgrade_height < height then Inr (RequiredPoS (PoSOngoing config))
        else Inr (RequiredPoS (PoSThreshold initial_difficulty config))
    | UpgradeIgnoreConsensus \<Rightarrow> Inr RequiredIgnoreConsensus)"

text \<open>The status at the height of an upgrade is the one derived from the upgrade; after it, the ongoing one.\<close>

lemma consensus_status_ok:
  assumes "upgrades_wf us"
  shows "\<exists>i u. version_at_height us h = (Inr (i, u) :: 'e fault + block_height \<times> consensus_upgrade) \<and> i \<le> h
    \<and> consensus_status us h = (Inr (if i = h then required_consensus_from u
      else case u of UpgradePoW _ \<Rightarrow> RequiredPoW PoWOngoing | UpgradePoS _ config \<Rightarrow> RequiredPoS (PoSOngoing config)
        | UpgradeIgnoreConsensus \<Rightarrow> RequiredIgnoreConsensus) :: 'e fault + required_consensus)"
proof -
  obtain i u where "version_at_height us h = (Inr (i, u) :: 'e fault + block_height \<times> consensus_upgrade)" "i \<le> h"
    using version_at_height_ok [OF assms, of h] by blast
  then show ?thesis
    by (intro exI [of _ i] exI [of _ u])
      (auto simp: consensus_status_def required_consensus_from_def split: consensus_upgrade.splits)
qed

subsection \<open>Chain state upgrades\<close>

datatype token_issuance_version = TokenIssuanceVersionV0 | TokenIssuanceVersionV1
datatype reward_distribution_version = RewardDistributionV0 | RewardDistributionV1
datatype tokens_fee_version = TokensFeeV0 | TokensFeeV1
datatype data_deposit_fee_version = DataDepositFeeV0 | DataDepositFeeV1

text \<open>The activation flags with the variants \<open>Yes\<close> and \<open>No\<close> are booleans.\<close>

record chainstate_upgrade =
  token_issuance_version :: token_issuance_version
  reward_distribution_version :: reward_distribution_version
  tokens_fee_version :: tokens_fee_version
  data_deposit_fee_version :: data_deposit_fee_version
  change_token_metadata_uri_activated :: bool
  htlc_activated :: bool
  orders_activated :: bool

section \<open>The configuration\<close>

text \<open>The fields of \<open>ChainConfig\<close> that are read by the modelled code. Sizes (\<open>usize\<close>) are natural numbers,
  durations are numbers of seconds.\<close>

record pow_chain_config =
  no_retargeting :: bool
  allow_min_difficulty_blocks :: bool
  pow_limit :: u256
  reward_maturity_distance :: block_count

text \<open>Of the genesis block: its identifier and its time.\<close>

record genesis =
  genesis_id :: block_id
  genesis_timestamp :: block_timestamp

record chain_config =
  consensus_upgrades :: "consensus_upgrade net_upgrades"
  chainstate_upgrades :: "chainstate_upgrade net_upgrades"
  genesis_block :: genesis
  max_future_block_time_offset_option :: "nat option"
  target_block_spacing :: u64
  config_final_supply :: "coin_unit option"
  data_in_no_signature_witness_max_size :: nat
  data_in_no_signature_witness_allowed :: bool
  max_block_size_with_standard_txs :: nat
  max_block_size_with_smart_contracts :: nat
  pow_chain_config :: pow_chain_config
  epoch_length :: u64
  sealed_epoch_distance_from_tip :: u64
  initial_randomness :: h256
  data_deposit_max_size_option :: "nat option"
  token_max_uri_len :: nat
  token_max_dec_count :: u8
  token_max_name_len :: nat
  token_max_description_len :: nat
  token_min_hash_len :: nat
  token_max_hash_len :: nat
  empty_consensus_reward_maturity_block_count :: block_count
  min_stake_pool_pledge :: amount

definition token_max_ticker_len :: nat where
  "token_max_ticker_len = 12"

definition config_wf :: "chain_config \<Rightarrow> bool" where
  "config_wf cfg \<longleftrightarrow> upgrades_wf (consensus_upgrades cfg) \<and> upgrades_wf (chainstate_upgrades cfg) \<and> 0 < epoch_length cfg"

definition chainstate_version :: "chain_config \<Rightarrow> block_height \<Rightarrow> 'e fault + chainstate_upgrade" where
  "chainstate_version cfg height = map_ok snd (version_at_height (chainstate_upgrades cfg) height)"

definition staking_pool_spend_maturity_block_count :: "chain_config \<Rightarrow> block_height \<Rightarrow> 'e fault + block_count" where
  "staking_pool_spend_maturity_block_count cfg height =
    map_ok (\<lambda>status. case status of
        RequiredIgnoreConsensus \<Rightarrow> empty_consensus_reward_maturity_block_count cfg
      | RequiredPoW _ \<Rightarrow> empty_consensus_reward_maturity_block_count cfg
      | RequiredPoS status \<Rightarrow> pos_spend_maturity_block_count (get_chain_config status))
    (consensus_status (consensus_upgrades cfg) height)"

definition max_future_block_time_offset :: "chain_config \<Rightarrow> block_height \<Rightarrow> 'e fault + nat" where
  "max_future_block_time_offset cfg height = (case max_future_block_time_offset_option cfg of
      Some secs \<Rightarrow> Inr secs
    | None \<Rightarrow> map_ok (\<lambda>v. if htlc_activated v then 30 else 120) (chainstate_version cfg height))"

definition max_tx_size_for_mempool :: "chain_config \<Rightarrow> nat" where
  "max_tx_size_for_mempool cfg =
    min (max_block_size_with_standard_txs cfg) (max_block_size_with_smart_contracts cfg) - 1000"

subsection \<open>Fees\<close>

definition data_deposit_max_size :: "chain_config \<Rightarrow> block_height \<Rightarrow> 'e fault + nat" where
  "data_deposit_max_size cfg height = (case data_deposit_max_size_option cfg of
      Some n \<Rightarrow> Inr n
    | None \<Rightarrow> map_ok (\<lambda>v. case data_deposit_fee_version v of DataDepositFeeV0 \<Rightarrow> 128 | DataDepositFeeV1 \<Rightarrow> 384)
        (chainstate_version cfg height))"

definition data_deposit_fee :: "chain_config \<Rightarrow> block_height \<Rightarrow> 'e fault + amount" where
  "data_deposit_fee cfg height =
    map_ok (\<lambda>v. case data_deposit_fee_version v of DataDepositFeeV0 \<Rightarrow> from_coins 100 | DataDepositFeeV1 \<Rightarrow> from_coins 20)
      (chainstate_version cfg height)"

definition fungible_token_issuance_fee :: amount where
  "fungible_token_issuance_fee = from_coins 100"

definition nft_issuance_fee :: "chain_config \<Rightarrow> block_height \<Rightarrow> 'e fault + amount" where
  "nft_issuance_fee cfg height =
    map_ok (\<lambda>v. case tokens_fee_version v of TokensFeeV0 \<Rightarrow> from_coins 100 | TokensFeeV1 \<Rightarrow> from_coins 5)
      (chainstate_version cfg height)"

definition token_supply_change_fee :: "chain_config \<Rightarrow> block_height \<Rightarrow> 'e fault + amount" where
  "token_supply_change_fee cfg height =
    map_ok (\<lambda>v. case tokens_fee_version v of TokensFeeV0 \<Rightarrow> from_coins 100 | TokensFeeV1 \<Rightarrow> from_coins 50)
      (chainstate_version cfg height)"

definition token_freeze_fee :: "chain_config \<Rightarrow> block_height \<Rightarrow> 'e fault + amount" where
  "token_freeze_fee cfg height =
    map_ok (\<lambda>v. case tokens_fee_version v of TokensFeeV0 \<Rightarrow> from_coins 100 | TokensFeeV1 \<Rightarrow> from_coins 50)
      (chainstate_version cfg height)"

definition token_change_authority_fee :: "chain_config \<Rightarrow> block_height \<Rightarrow> 'e fault + amount" where
  "token_change_authority_fee cfg height =
    map_ok (\<lambda>v. case tokens_fee_version v of TokensFeeV0 \<Rightarrow> from_coins 100 | TokensFeeV1 \<Rightarrow> from_coins 20)
      (chainstate_version cfg height)"

definition token_change_metadata_uri_fee :: amount where
  "token_change_metadata_uri_fee = from_coins 20"

text \<open>In a well-formed configuration no query panics.\<close>

lemma chainstate_version_ok:
  assumes "config_wf cfg"
  shows "\<exists>v. chainstate_version cfg h = (Inr v :: 'e fault + chainstate_upgrade)"
proof -
  have "upgrades_wf (chainstate_upgrades cfg)" using assms by (simp add: config_wf_def)
  then obtain i v where "version_at_height (chainstate_upgrades cfg) h = (Inr (i, v) :: 'e fault + block_height \<times> chainstate_upgrade)"
    using version_at_height_ok by blast
  then show ?thesis by (simp add: chainstate_version_def)
qed

lemma spend_maturity_ok:
  assumes "config_wf cfg"
  shows "\<exists>n. staking_pool_spend_maturity_block_count cfg h = (Inr n :: 'e fault + block_count)"
proof -
  have "upgrades_wf (consensus_upgrades cfg)" using assms by (simp add: config_wf_def)
  then obtain r where "consensus_status (consensus_upgrades cfg) h = (Inr r :: 'e fault + required_consensus)"
    using consensus_status_ok by blast
  then show ?thesis by (simp add: staking_pool_spend_maturity_block_count_def)
qed

lemma fees_ok:
  assumes "config_wf cfg"
  shows "\<exists>a. data_deposit_fee cfg h = (Inr a :: 'e fault + amount)" "\<exists>a. nft_issuance_fee cfg h = (Inr a :: 'e fault + amount)"
    "\<exists>a. token_supply_change_fee cfg h = (Inr a :: 'e fault + amount)" "\<exists>a. token_freeze_fee cfg h = (Inr a :: 'e fault + amount)"
    "\<exists>a. token_change_authority_fee cfg h = (Inr a :: 'e fault + amount)"
proof -
  obtain v where "chainstate_version cfg h = (Inr v :: 'e fault + chainstate_upgrade)"
    using chainstate_version_ok [OF assms] by blast
  then show "\<exists>a. data_deposit_fee cfg h = (Inr a :: 'e fault + amount)" "\<exists>a. nft_issuance_fee cfg h = (Inr a :: 'e fault + amount)"
    "\<exists>a. token_supply_change_fee cfg h = (Inr a :: 'e fault + amount)" "\<exists>a. token_freeze_fee cfg h = (Inr a :: 'e fault + amount)"
    "\<exists>a. token_change_authority_fee cfg h = (Inr a :: 'e fault + amount)"
    by (simp_all add: data_deposit_fee_def nft_issuance_fee_def token_supply_change_fee_def token_freeze_fee_def
        token_change_authority_fee_def)
qed

subsection \<open>Epochs\<close>

definition epoch_index_from_height :: "chain_config \<Rightarrow> block_height \<Rightarrow> epoch_index" where
  "epoch_index_from_height cfg height = height div epoch_length cfg"

definition is_last_block_in_epoch :: "chain_config \<Rightarrow> block_height \<Rightarrow> 'e fault + bool" where
  "is_last_block_in_epoch cfg height = map_ok (\<lambda>n. n mod epoch_length cfg = 0) (next_height height)"

definition is_due_for_epoch_seal :: "chain_config \<Rightarrow> block_height \<Rightarrow> 'e fault + bool" where
  "is_due_for_epoch_seal cfg height =
    map_ok (\<lambda>l. l \<and> sealed_epoch_distance_from_tip cfg \<le> epoch_index_from_height cfg height)
      (is_last_block_in_epoch cfg height)"

definition sealed_epoch_index :: "chain_config \<Rightarrow> block_height \<Rightarrow> 'e fault + epoch_index option" where
  "sealed_epoch_index cfg height =
    res_bind (is_last_block_in_epoch cfg height) (\<lambda>l.
      if l then Inr (checked_sub (epoch_index_from_height cfg height) (sealed_epoch_distance_from_tip cfg))
      else res_bind (expect (checked_add (sealed_epoch_distance_from_tip cfg) 1)) (\<lambda>distance.
        Inr (checked_sub (epoch_index_from_height cfg height) distance)))"

text \<open>A seal is due exactly at the last block of an epoch for which a sealed epoch exists.\<close>

lemma epoch_seal_due_iff:
  assumes "is_due_for_epoch_seal cfg h = (Inr b :: 'e fault + bool)"
  shows "b \<longleftrightarrow> is_last_block_in_epoch cfg h = (Inr True :: 'e fault + bool)
    \<and> (\<exists>i. sealed_epoch_index cfg h = (Inr (Some i) :: 'e fault + epoch_index option))"
proof (cases "is_last_block_in_epoch cfg h :: 'e fault + bool")
  case (Inl e)
  with assms show ?thesis by (simp add: is_due_for_epoch_seal_def)
next
  case (Inr l)
  with assms have b: "b = (l \<and> sealed_epoch_distance_from_tip cfg \<le> epoch_index_from_height cfg h)"
    by (simp add: is_due_for_epoch_seal_def)
  show ?thesis
    by (cases l) (simp_all add: b Inr sealed_epoch_index_def checked_sub_def word_le_def)
qed

section \<open>Example\<close>

text \<open>A configuration for the examples of the other theories.\<close>

definition example_config :: chain_config where
  "example_config = \<lparr>consensus_upgrades = [(0, UpgradeIgnoreConsensus)],
    chainstate_upgrades = [(0, \<lparr>token_issuance_version = TokenIssuanceVersionV1, reward_distribution_version = RewardDistributionV1,
      tokens_fee_version = TokensFeeV1, data_deposit_fee_version = DataDepositFeeV1,
      change_token_metadata_uri_activated = True, htlc_activated = True, orders_activated = True\<rparr>)],
    genesis_block = \<lparr>genesis_id = 1, genesis_timestamp = 1000\<rparr>,
    max_future_block_time_offset_option = None, target_block_spacing = 120, config_final_supply = Some (from_coins 600000000),
    data_in_no_signature_witness_max_size = 128,
    data_in_no_signature_witness_allowed = False, max_block_size_with_standard_txs = 1048576,
    max_block_size_with_smart_contracts = 1048576,
    pow_chain_config = \<lparr>no_retargeting = False, allow_min_difficulty_blocks = False, pow_limit = 2 ^ 224 - 1,
      reward_maturity_distance = 500\<rparr>,
    epoch_length = 5, sealed_epoch_distance_from_tip = 2, initial_randomness = 7,
    data_deposit_max_size_option = None, token_max_uri_len = 1024, token_max_dec_count = 18, token_max_name_len = 10,
    token_max_description_len = 100, token_min_hash_len = 4, token_max_hash_len = 32,
    empty_consensus_reward_maturity_block_count = 10, min_stake_pool_pledge = from_coins 40000\<rparr>"

lemma example_config_wf: "config_wf example_config"
  by (simp add: config_wf_def upgrades_wf_def example_config_def)

end
