(* ===== verification/Emission.thy ===== *)
theory Emission
  imports Config
begin

text \<open>
  The emission schedule: the total supply at a height as a piecewise linear function given by a table of
  subsidy periods, evaluated from a precomputed table. It is compared with the sum of the
  subsidies of all blocks.
\<close>

section \<open>The schedule of the code\<close>

text \<open>An emission schedule is a function from heights to the total supply.\<close>

type_synonym 'e emission_schedule = "block_height \<Rightarrow> 'e fault + coin_unit"

definition emission_subsidy :: "'e emission_schedule \<Rightarrow> block_height \<Rightarrow> 'e fault + coin_unit" where
  "emission_subsidy amount_at ht =
    res_bind (expect (prev_height ht)) (\<lambda>prev_ht.
    res_bind (amount_at ht) (\<lambda>a.
    res_bind (amount_at prev_ht) (\<lambda>b.
    expect (amount_sub a b))))"

record emission_schedule_tabular =
  initial_supply :: coin_unit
  initial_subsidy :: coin_unit
  periods :: "(block_height, coin_unit) fmap"

definition subsidy_periods :: "emission_schedule_tabular \<Rightarrow> (block_height \<times> coin_unit) list" where
  "subsidy_periods t = (0, initial_subsidy t) # sorted_list_of_fmap (periods t)"

definition tail_emission :: "emission_schedule_tabular \<Rightarrow> block_height \<times> coin_unit" where
  "tail_emission t = (case rev (sorted_list_of_fmap (periods t)) of
      [] \<Rightarrow> (0, initial_subsidy t)
    | p # _ \<Rightarrow> p)"

text \<open>The precomputed table: for each period its start, the supply at the start and the subsidy.\<close>

fun scan_periods :: "coin_unit \<Rightarrow> coin_unit \<Rightarrow> block_height \<Rightarrow> (block_height \<times> coin_unit) list
    \<Rightarrow> 'e fault + (block_height \<times> coin_unit \<times> coin_unit) list" where
  "scan_periods supply old_subsidy start_block [] = Inr []"
| "scan_periods supply old_subsidy start_block ((end_block, new_subsidy) # ps) =
    res_bind (expect (checked_sub end_block start_block)) (\<lambda>n_blocks.
    res_bind (expect (amount_mul old_subsidy (ucast n_blocks))) (\<lambda>cur_period.
    res_bind (expect (amount_add supply cur_period)) (\<lambda>supply.
    res_bind (scan_periods supply new_subsidy end_block ps) (\<lambda>rest.
    Inr ((end_block, supply, new_subsidy) # rest)))))"

definition table_amount_at ::
  "coin_unit \<times> coin_unit \<Rightarrow> (block_height, coin_unit \<times> coin_unit) fmap \<Rightarrow> 'e emission_schedule" where
  "table_amount_at initial_entry table height =
    (let (start, start_supply, subsidy) = (case rev (filter (\<lambda>(k, _). k < height) (sorted_list_of_fmap table)) of
        [] \<Rightarrow> (0, initial_entry)
      | e # _ \<Rightarrow> e)
     in if \<not> start \<le> height then Inl Panic else
       res_bind (expect (checked_sub height start)) (\<lambda>n_blocks.
       res_bind (expect (amount_mul subsidy (ucast n_blocks))) (\<lambda>period_subsidy.
       expect (amount_add start_supply period_subsidy))))"

definition schedule :: "emission_schedule_tabular \<Rightarrow> 'e fault + 'e emission_schedule" where
  "schedule t =
    res_bind (scan_periods (initial_supply t) (initial_subsidy t) 0 (sorted_list_of_fmap (periods t))) (\<lambda>table.
    Inr (table_amount_at (initial_supply t, initial_subsidy t) (fmap_of_list table)))"

definition final_supply :: "emission_schedule_tabular \<Rightarrow> 'e fault + coin_unit option" where
  "final_supply t =
    (let (tail_block, tail_subsidy) = tail_emission t in
     if tail_subsidy = amount_ZERO
     then res_bind (schedule t) (\<lambda>amount_at. map_ok Some (amount_at tail_block))
     else Inr None)"

definition block_subsidy_at_height :: "'e emission_schedule \<Rightarrow> block_height \<Rightarrow> 'e fault + amount" where
  "block_subsidy_at_height amount_at height = emission_subsidy amount_at height"

text \<open>The table of the main network, for a block interval in seconds.\<close>

definition mainnet_schedule_table :: "u64 \<Rightarrow> 'e fault + emission_schedule_tabular" where
  "mainnet_schedule_table block_interval =
    res_bind (expect (checked_div (365 * 24 * 60 * 60) block_interval)) (\<lambda>blocks_per_year.
    res_bind (res_map (\<lambda>x. expect (checked_mul blocks_per_year x)) [1, 2, 3, 4, 5, 6, 7, 8, 9, 10]) (\<lambda>years.
    Inr \<lparr>initial_supply = from_coins 400000000, initial_subsidy = from_coins 202,
      periods = fmap_of_list (zip years (map from_coins [151, 113, 85, 64, 48, 36, 27, 20, 15, 0]))\<rparr>))"

section \<open>The reference: the sum of the subsidies\<close>

text \<open>\<open>rate\<close> is the subsidy of the block at a height, \<open>supply_after\<close> the total after it.\<close>

fun rate :: "int \<Rightarrow> (int \<times> int) list \<Rightarrow> int \<Rightarrow> int" where
  "rate r [] k = r"
| "rate r ((e, s) # ps) k = (if k \<le> e then r else rate s ps k)"

definition supply_after :: "int \<Rightarrow> int \<Rightarrow> (int \<times> int) list \<Rightarrow> int \<Rightarrow> int" where
  "supply_after a r ps h = a + (\<Sum>k = 1..h. rate r ps k)"

fun piecewise :: "int \<Rightarrow> int \<Rightarrow> int \<Rightarrow> (int \<times> int) list \<Rightarrow> int \<Rightarrow> int" where
  "piecewise a r b [] h = a + r * (h - b)"
| "piecewise a r b ((e, s) # ps) h = (if h \<le> e then a + r * (h - b) else piecewise (a + r * (e - b)) s e ps h)"

lemma piecewise_sum:
  assumes "b \<le> h" and "sorted (b # map fst ps)"
  shows "piecewise a r b ps h = a + (\<Sum>k = b + 1..h. rate r ps k)"
  using assms
proof (induction ps arbitrary: a r b)
  case Nil
  then show ?case by simp
next
  case (Cons p ps)
  obtain e s where p: "p = (e, s)" by (cases p)
  have be: "b \<le> e" using Cons.prems(2) p by simp
  show ?case
  proof (cases "h \<le> e")
    case True
    then have "(\<Sum>k = b + 1..h. rate r (p # ps) k) = (\<Sum>k = b + 1..h. r)" by (intro sum.cong) (auto simp: p)
    then show ?thesis using True Cons.prems(1) by (simp add: p)
  next
    case False
    have "{b + 1..h} = {b + 1..e} \<union> {e + 1..h}" "{b + 1..e} \<inter> {e + 1..h} = {}" using be False by auto
    then have "(\<Sum>k = b + 1..h. rate r (p # ps) k) = (\<Sum>k = b + 1..e. rate r (p # ps) k) + (\<Sum>k = e + 1..h. rate r (p # ps) k)"
      by (simp add: sum.union_disjoint)
    also have "(\<Sum>k = b + 1..e. rate r (p # ps) k) = r * (e - b)"
      using be by (simp add: p)
    also have "(\<Sum>k = e + 1..h. rate r (p # ps) k) = (\<Sum>k = e + 1..h. rate s ps k)"
      by (intro sum.cong) (auto simp: p)
    finally show ?thesis
      using Cons.IH [of e "a + r * (e - b)" s] Cons.prems(2) False by (simp add: p)
  qed
qed


section \<open>The schedule computes the reference\<close>

abbreviation int_period :: "block_height \<times> coin_unit \<Rightarrow> int \<times> int" where
  "int_period \<equiv> \<lambda>(e, s). (uint e, amt s)"

definition last_before ::
  "block_height \<times> coin_unit \<times> coin_unit \<Rightarrow> (block_height \<times> coin_unit \<times> coin_unit) list \<Rightarrow> block_height
    \<Rightarrow> block_height \<times> coin_unit \<times> coin_unit" where
  "last_before start table h = (case rev (filter (\<lambda>(k, _). k < h) table) of [] \<Rightarrow> start | e # _ \<Rightarrow> e)"

lemma last_before_Cons: "last_before start (e # table) h = last_before (if fst e < h then e else start) table h"
  by (auto simp: last_before_def split: list.splits prod.splits)

lemma uint_ucast_64_128: "uint (ucast (n :: u64) :: u128) = uint n"
  by (simp add: uint_up_ucast is_up)

lemma linear_step:
  "(\<exists>n. checked_sub h b = Some n \<and> (\<exists>p. amount_mul r (ucast n) = Some p \<and> amount_add a p = Some x))
    \<longleftrightarrow> uint b \<le> uint h \<and> amt x = amt a + amt r * (uint h - uint b)"
  for b h :: u64
proof
  assume "\<exists>n. checked_sub h b = Some n \<and> (\<exists>p. amount_mul r (ucast n) = Some p \<and> amount_add a p = Some x)"
  then obtain n p where n: "uint (n :: u64) = uint h - uint b" "amt p = amt r * uint n" "amt x = amt a + amt p"
    by (auto simp: checked_simps amount_simps uint_ucast_64_128)
  then show "uint b \<le> uint h \<and> amt x = amt a + amt r * (uint h - uint b)" using uint_ge_0 [of n] by simp
next
  assume h: "uint b \<le> uint h \<and> amt x = amt a + amt r * (uint h - uint b)"
  then have n: "checked_sub h b = Some (h - b)" "uint (h - b) = uint h - uint b"
    by (simp_all add: checked_sub_def uint_sub_lem [THEN iffD1])
  have "0 \<le> amt r * (uint h - uint b)" using h by (intro mult_nonneg_nonneg) simp_all
  then have "u128_range (amt r * (uint h - uint b))"
    using h amt_range [of a] amt_range [of x] by linarith
  then obtain p where p: "amt p = amt r * (uint h - uint b)" using amt_exists by blast
  have "amount_mul r (ucast (h - b)) = Some p" "amount_add a p = Some x"
    using p h n(2) by (simp_all add: amount_simps uint_ucast_64_128)
  with n(1) show "\<exists>n. checked_sub h b = Some n \<and> (\<exists>p. amount_mul r (ucast n) = Some p \<and> amount_add a p = Some x)" by blast
qed

lemma scan_Cons_Inr:
  "scan_periods a r b ((e, s) # ps) = (Inr tbl :: 'e fault + _) \<longleftrightarrow>
    (\<exists>a' rest. (uint b \<le> uint e \<and> amt a' = amt a + amt r * (uint e - uint b))
      \<and> scan_periods a' s e ps = (Inr rest :: 'e fault + _) \<and> tbl = (e, a', s) # rest)"
proof -
  have "scan_periods a r b ((e, s) # ps) = (Inr tbl :: 'e fault + _) \<longleftrightarrow>
    (\<exists>a' rest. (\<exists>n. checked_sub e b = Some n \<and> (\<exists>p. amount_mul r (ucast n) = Some p \<and> amount_add a p = Some a'))
      \<and> scan_periods a' s e ps = (Inr rest :: 'e fault + _) \<and> tbl = (e, a', s) # rest)"
    by (simp add: res_simps) blast
  then show ?thesis by (simp only: linear_step)
qed

lemma scan_keys: "scan_periods a r b ps = Inr tbl \<Longrightarrow> map fst tbl = map fst ps"
  by (induction ps arbitrary: a r b tbl) (auto simp: scan_Cons_Inr simp del: scan_periods.simps(2))

lemma scan_last_before:
  assumes "scan_periods a r b ps = (Inr tbl :: 'e fault + _)" and "sorted (map fst ps)" and "b \<le> h"
    and "last_before (b, a, r) tbl h = (st, x, q)"
  shows "st \<le> h \<and> amt x + amt q * (uint h - uint st) = piecewise (amt a) (amt r) (uint b) (map int_period ps) (uint h)"
  using assms
proof (induction ps arbitrary: a r b tbl)
  case Nil
  then show ?case by (simp add: last_before_def)
next
  case (Cons p ps)
  obtain e s where p: "p = (e, s)" by (cases p)
  obtain a' rest where a': "amt a' = amt a + amt r * (uint e - uint b)" "scan_periods a' s e ps = (Inr rest :: 'e fault + _)"
    "tbl = (e, a', s) # rest"
    using Cons.prems(1) by (auto simp: p scan_Cons_Inr simp del: scan_periods.simps(2))
  show ?case
  proof (cases "e < h")
    case True
    then have "last_before (e, a', s) rest h = (st, x, q)"
      using Cons.prems(4) by (simp add: a'(3) last_before_Cons)
    with Cons.IH [OF a'(2)] Cons.prems(2) True show ?thesis
      by (auto simp: p a'(1) word_less_def word_le_def)
  next
    case False
    have "\<not> fst x < h" if "x \<in> set tbl" for x
    proof -
      have "fst x \<in> set (map fst (p # ps))" using that scan_keys [OF Cons.prems(1)] by (metis image_eqI set_map)
      then show ?thesis using Cons.prems(2) False by (auto simp: p)
    qed
    then have "filter (\<lambda>(k, _). k < h) tbl = []" by (auto simp: filter_empty_conv)
    with Cons.prems(3,4) False show ?thesis by (simp add: last_before_def p word_less_def word_le_def)
  qed
qed


lemma scan_succeeds:
  assumes "sorted_wrt (<) (b # map fst ps) \<or> ps = [] \<or> (b \<le> fst (hd ps) \<and> sorted_wrt (<) (map fst ps))"
    and "\<And>e. e \<in> set (map fst ps) \<Longrightarrow> piecewise (amt a) (amt r) (uint b) (map int_period ps) (uint e) < 2 ^ 128"
  shows "\<exists>tbl. scan_periods a r b ps = (Inr tbl :: 'e fault + _)"
  using assms
proof (induction ps arbitrary: a r b)
  case Nil
  then show ?case by simp
next
  case (Cons p ps)
  obtain e s where p: "p = (e, s)" by (cases p)
  have be: "b \<le> e" and e: "\<forall>x\<in>set (map fst ps). e < x" and sorted: "sorted_wrt (<) (map fst ps)"
    using Cons.prems(1) by (auto simp: p)
  have ube: "uint b \<le> uint e" using be by (simp add: word_le_def)
  have "amt a + amt r * (uint e - uint b) < 2 ^ 128" using Cons.prems(2) [of e] by (simp add: p)
  moreover have "0 \<le> amt a + amt r * (uint e - uint b)" using ube by simp
  ultimately obtain a' where a': "amt a' = amt a + amt r * (uint e - uint b)" using amt_exists by blast
  have "piecewise (amt a') (amt s) (uint e) (map int_period ps) (uint x) < 2 ^ 128" if "x \<in> set (map fst ps)" for x
  proof -
    have "uint e < uint x" using e that by (auto simp: word_less_def)
    then show ?thesis using Cons.prems(2) [of x] that by (simp add: p a')
  qed
  moreover have "ps = [] \<or> e \<le> fst (hd ps) \<and> sorted_wrt (<) (map fst ps)"
    using e sorted by (cases ps) auto
  ultimately obtain rest where "scan_periods a' s e ps = (Inr rest :: 'e fault + _)" using Cons.IH [of e a' s] by blast
  with ube a' have "scan_periods a r b ((e, s) # ps) = (Inr ((e, a', s) # rest) :: 'e fault + _)"
    unfolding scan_Cons_Inr by blast
  then show ?case unfolding p by blast
qed

lemma sorted_list_of_fmap_of_list:
  assumes "sorted (map fst xs)" and "distinct (map fst xs)"
  shows "sorted_list_of_fmap (fmap_of_list xs) = xs"
proof -
  have "sorted_list_of_fset (fmdom (fmap_of_list xs)) = map fst xs"
    using sorted_list_of_set.idem_if_sorted_distinct [OF assms]
    by (simp add: sorted_list_of_fset.rep_eq fmdom_fmap_of_list fset_of_list.rep_eq)
  then have "sorted_list_of_fmap (fmap_of_list xs) = map (\<lambda>k. (k, the (map_of xs k))) (map fst xs)"
    by (simp add: sorted_list_of_fmap_def fmlookup_fmap_of_list)
  also have "\<dots> = xs"
    using assms(2) by (auto intro!: map_idI simp: comp_def)
  finally show ?thesis .
qed

definition reference_supply :: "emission_schedule_tabular \<Rightarrow> block_height \<Rightarrow> int" where
  "reference_supply t h = supply_after (amt (initial_supply t)) (amt (initial_subsidy t))
    (map int_period (sorted_list_of_fmap (periods t))) (uint h)"

definition reference_subsidy :: "emission_schedule_tabular \<Rightarrow> block_height \<Rightarrow> int" where
  "reference_subsidy t h = rate (amt (initial_subsidy t)) (map int_period (sorted_list_of_fmap (periods t))) (uint h)"

text \<open>All supplies that the table and the heights up to \<open>h\<close> need are representable.\<close>

definition emission_fits :: "emission_schedule_tabular \<Rightarrow> block_height \<Rightarrow> bool" where
  "emission_fits t h \<longleftrightarrow> reference_supply t (max h (fst (tail_emission t))) < 2 ^ 128"


lemma rate_nonneg: "0 \<le> r \<Longrightarrow> \<forall>p\<in>set ps. 0 \<le> snd p \<Longrightarrow> 0 \<le> rate r ps k"
  by (induction ps arbitrary: r) auto

lemma int_periods_sorted: "sorted (map fst (map int_period (sorted_list_of_fmap m)))"
proof -
  have "sorted (map uint (map fst (sorted_list_of_fmap m)))"
    using sorted_sorted_list_of_fmap [of m] by (simp add: sorted_map word_le_def)
  then show ?thesis by (simp add: comp_def case_prod_unfold)
qed

lemma reference_rate_nonneg: "0 \<le> rate (amt r) (map int_period xs) k"
  by (rule rate_nonneg) auto

lemma reference_supply_mono: "h \<le> k \<Longrightarrow> reference_supply t h \<le> reference_supply t k"
  unfolding reference_supply_def supply_after_def
  by (intro add_left_mono sum_mono2) (auto simp: reference_rate_nonneg word_le_def)

lemma reference_supply_piecewise:
  "reference_supply t h = piecewise (amt (initial_supply t)) (amt (initial_subsidy t)) 0
    (map int_period (sorted_list_of_fmap (periods t))) (uint h)"
  using piecewise_sum [of 0 "uint h" "map int_period (sorted_list_of_fmap (periods t))"] int_periods_sorted
  by (simp add: reference_supply_def supply_after_def case_prod_unfold)

lemma reference_supply_step:
  assumes "prev_height h = Some p"
  shows "reference_supply t h = reference_supply t p + reference_subsidy t h"
proof -
  have "uint p = uint h - 1" using assms by (simp add: prev_height_def checked_simps)
  then have "{1..uint h} = insert (uint h) {1..uint p}" using uint_ge_0 [of p] by auto
  then show ?thesis
    using \<open>uint p = uint h - 1\<close> by (simp add: reference_supply_def reference_subsidy_def supply_after_def)
qed

lemma period_before_tail:
  assumes "e \<in> fst ` set (sorted_list_of_fmap (periods t))"
  shows "e \<le> fst (tail_emission t)"
proof -
  let ?xs = "sorted_list_of_fmap (periods t)"
  obtain ys y where xs: "?xs = ys @ [y]" using assms by (cases ?xs rule: rev_cases) auto
  have "sorted (map fst (ys @ [y]))" using sorted_sorted_list_of_fmap [of "periods t"] xs by metis
  moreover have "e \<in> fst ` set (ys @ [y])" using assms xs by metis
  ultimately have "e \<le> fst y" by (auto simp: sorted_append)
  then show ?thesis by (simp add: tail_emission_def xs)
qed

lemma schedule_correct:
  assumes "emission_fits t h"
  shows "\<exists>f. schedule t = Inr f \<and> (\<forall>k \<le> h. \<exists>x. f k = (Inr x :: 'e fault + _) \<and> amt x = reference_supply t k)"
proof -
  let ?ps = "sorted_list_of_fmap (periods t)"
  let ?a = "initial_supply t" and ?r = "initial_subsidy t"
  have fits: "reference_supply t k < 2 ^ 128" if "k \<le> h \<or> k \<in> fst ` set ?ps" for k
  proof -
    have "k \<le> max h (fst (tail_emission t))" using that period_before_tail by (auto simp: le_max_iff_disj)
    then show ?thesis using order_le_less_trans [OF reference_supply_mono] assms unfolding emission_fits_def by blast
  qed
  have strict: "sorted_wrt (<) (map fst ?ps)"
    by (simp add: strict_sorted_iff)
  have scan: "piecewise (amt ?a) (amt ?r) (uint (0 :: u64)) (map int_period ?ps) (uint e) < 2 ^ 128" if "e \<in> set (map fst ?ps)" for e
    using fits [of e] that by (simp add: reference_supply_piecewise)
  obtain tbl where tbl: "scan_periods ?a ?r 0 ?ps = (Inr tbl :: 'e fault + _)"
    using scan_succeeds [of 0 ?ps ?a ?r, OF _ scan] strict by auto
  have "sorted_list_of_fmap (fmap_of_list tbl) = tbl"
    using scan_keys [OF tbl] strict by (intro sorted_list_of_fmap_of_list) (simp_all add: strict_sorted_iff)
  moreover have "\<exists>x. table_amount_at (?a, ?r) (fmap_of_list tbl) k = (Inr x :: 'e fault + _) \<and> amt x = reference_supply t k"
    if k: "k \<le> h" for k
  proof -
    obtain st x q where l: "last_before (0, ?a, ?r) tbl k = (st, x, q)" by (metis prod_cases3)
    have b: "st \<le> k" "amt x + amt q * (uint k - uint st) = reference_supply t k"
      using scan_last_before [OF tbl sorted_sorted_list_of_fmap _ l] by (simp_all add: reference_supply_piecewise)
    have "0 \<le> reference_supply t k" using b by (metis amt_range(1) add_nonneg_nonneg diff_ge_0_iff_ge mult_nonneg_nonneg word_le_def)
    then obtain y where y: "amt y = reference_supply t k" using fits [of k] k amt_exists by blast
    then have "\<exists>n. checked_sub k st = Some n \<and> (\<exists>p. amount_mul q (ucast n) = Some p \<and> amount_add x p = Some y)"
      unfolding linear_step using b by (simp add: word_le_def)
    with y b(1) l calculation show ?thesis
      by (auto simp: table_amount_at_def last_before_def Let_def split: list.splits)
  qed
  ultimately show ?thesis using tbl by (auto simp: schedule_def)
qed


text \<open>
  C30: As long as the supplies are representable, the schedule returns at every height the initial supply plus
  the sum of the subsidies of all blocks up to the height, and the subsidy of a block is the one of
  the period that its height falls into, where a period begins after the height that the table gives for it. The block at
  that height is still paid the subsidy of the period before, although the documentation of the table says that the subsidy of a
  period starts at its height.
\<close>

theorem emission_schedule_is_sum:
  assumes "emission_fits t h" and "0 < h"
  shows "\<exists>f x y. schedule t = Inr f \<and> f h = (Inr x :: 'e fault + _) \<and> amt x = reference_supply t h
    \<and> emission_subsidy f h = Inr y \<and> amt y = reference_subsidy t h"
proof -
  obtain f where f: "schedule t = Inr f" "\<forall>k \<le> h. \<exists>x. f k = (Inr x :: 'e fault + _) \<and> amt x = reference_supply t k"
    using schedule_correct [OF assms(1)] by blast
  have "0 < uint h" using assms(2) by (simp add: word_less_def)
  then have "uint (h - 1) = uint h - 1" by (simp add: uint_sub_lem [THEN iffD1])
  then have p: "prev_height h = Some (h - 1)" and le: "h - 1 \<le> h"
    by (simp_all add: prev_height_def checked_simps word_le_def)
  obtain x z where x: "f h = Inr x" "amt x = reference_supply t h" "f (h - 1) = Inr z" "amt z = reference_supply t (h - 1)"
    using f(2) le by blast
  have "amt x - amt z = reference_subsidy t h" using reference_supply_step [OF p, of t] x by simp
  moreover have "0 \<le> reference_subsidy t h" by (simp add: reference_subsidy_def reference_rate_nonneg)
  ultimately obtain y where "amount_sub x z = Some y" "amt y = reference_subsidy t h"
    using amount_sub_exists [of z x] by auto
  with f(1) x p show ?thesis by (auto simp: emission_subsidy_def)
qed

text \<open>A table whose last period has no subsidy has a final supply.\<close>

lemma rate_last: "\<forall>p\<in>set ps. fst p < k \<Longrightarrow> rate r ps k = (if ps = [] then r else snd (last ps))"
  by (induction ps arbitrary: r) auto

lemma reference_supply_final:
  assumes "snd (tail_emission t) = amount_ZERO"
  shows "reference_supply t h \<le> reference_supply t (fst (tail_emission t))"
proof (cases "h \<le> fst (tail_emission t)")
  case True
  then show ?thesis by (rule reference_supply_mono)
next
  case False
  let ?ps = "map int_period (sorted_list_of_fmap (periods t))" and ?e = "uint (fst (tail_emission t))"
  let ?xs = "sorted_list_of_fmap (periods t)"
  have zero: "rate (amt (initial_subsidy t)) ?ps k = 0" if "?e < k" for k
  proof -
    have "\<forall>p\<in>set ?ps. fst p < k"
      using that period_before_tail [of _ t] by (fastforce simp: word_le_def)
    moreover have "(if ?ps = [] then amt (initial_subsidy t) else snd (last ?ps)) = 0"
      using assms by (cases ?xs rule: rev_cases) (auto simp: tail_emission_def)
    ultimately show ?thesis by (simp only: rate_last)
  qed
  have "?e < uint h" using False by (simp add: word_le_def)
  then have "{1..uint h} = {1..?e} \<union> {?e + 1..uint h}" 
    by auto (use uint_ge_0 [of "fst (tail_emission t)"] in linarith)
  moreover have "(\<Sum>k = ?e + 1..uint h. rate (amt (initial_subsidy t)) ?ps k) = 0"
    by (intro sum.neutral) (auto simp: zero)
  ultimately show ?thesis
    by (simp add: reference_supply_def supply_after_def sum.union_disjoint)
qed

definition mainnet_periods :: "(block_height \<times> coin_unit) list" where
  "mainnet_periods = [(262800, from_coins 151), (525600, from_coins 113), (788400, from_coins 85),
      (1051200, from_coins 64), (1314000, from_coins 48), (1576800, from_coins 36), (1839600, from_coins 27),
      (2102400, from_coins 20), (2365200, from_coins 15), (2628000, from_coins 0)]"

definition mainnet_table :: emission_schedule_tabular where
  "mainnet_table = \<lparr>initial_supply = from_coins 400000000, initial_subsidy = from_coins 202,
    periods = fmap_of_list mainnet_periods\<rparr>"

lemma mainnet_table_is: "mainnet_schedule_table 120 = Inr mainnet_table"
  by (simp add: mainnet_schedule_table_def mainnet_table_def mainnet_periods_def checked_div_def checked_mul_def
      res_bind_def expect_def ok_or_def)

lemma mainnet_periods_sorted: "sorted_list_of_fmap (periods mainnet_table) = mainnet_periods"
proof -
  have "sorted (map fst mainnet_periods)" "distinct (map fst mainnet_periods)" by (simp_all add: mainnet_periods_def)
  then show ?thesis by (simp add: mainnet_table_def sorted_list_of_fmap_of_list)
qed

lemma mainnet_tail: "tail_emission mainnet_table = (2628000, amount_ZERO)"
  by (simp add: tail_emission_def mainnet_periods_sorted) (simp add: mainnet_periods_def from_coins_def amount_ZERO_def from_atoms_def)

lemma mainnet_final: "reference_supply mainnet_table 2628000 = 59999080000000000000"
  unfolding reference_supply_piecewise mainnet_periods_sorted
  by (simp add: mainnet_periods_def mainnet_table_def amt_from_coins)

lemma mainnet_supply_bound: "reference_supply mainnet_table h \<le> 59999080000000000000"
  using reference_supply_final [of mainnet_table h] by (simp add: mainnet_tail mainnet_final)

lemma amt_from_coins_mainnet: "amt (from_coins 599990800) = 59999080000000000000"
  by (simp add: amt_from_coins)

text \<open>
  C31: On the main network, with blocks every 120 seconds, the supply never exceeds 599990800 coins at any
  height, and this is the final supply that the schedule reports.
\<close>

theorem mainnet_supply_capped:
  "\<exists>t f. mainnet_schedule_table 120 = (Inr t :: unit fault + _) \<and> schedule t = Inr f
    \<and> final_supply t = (Inr (Some (from_coins 599990800)) :: unit fault + _)
    \<and> (\<forall>h. \<exists>x. f h = (Inr x :: unit fault + _) \<and> x \<le> from_coins 599990800)"
proof -
  have fits: "emission_fits mainnet_table h" for h
    using mainnet_supply_bound [of "max h (fst (tail_emission mainnet_table))"] by (simp add: emission_fits_def)
  obtain f where f: "schedule mainnet_table = (Inr f :: unit fault + _)"
    using schedule_correct [OF fits] by blast
  have "\<exists>x. f h = Inr x \<and> x \<le> from_coins 599990800" for h
  proof -
    obtain g x where "schedule mainnet_table = (Inr g :: unit fault + _)" "g h = Inr x" "amt x = reference_supply mainnet_table h"
      using schedule_correct [OF fits [of h]] by (metis order_refl)
    with f have "f h = Inr x" "amt x \<le> 59999080000000000000" using mainnet_supply_bound [of h] by simp_all
    then show ?thesis by (auto simp: amount_le amt_from_coins)
  qed
  moreover obtain g x where "schedule mainnet_table = (Inr g :: unit fault + _)" "g 2628000 = Inr x" "amt x = 59999080000000000000"
    using schedule_correct [OF fits [of 2628000]] mainnet_final by (metis order_refl)
  then have "f 2628000 = Inr (from_coins 599990800)" using f by (metis amt_inject amt_from_coins_mainnet sum.inject(2))
  then have "final_supply mainnet_table = (Inr (Some (from_coins 599990800)) :: unit fault + _)"
    by (simp add: final_supply_def mainnet_tail f)
  ultimately show ?thesis using f mainnet_table_is by blast
qed

theorem emission_schedule_is_sum_witness:
  "\<exists>f x y. schedule mainnet_table = Inr f \<and> f 262800 = (Inr x :: unit fault + _)
    \<and> emission_subsidy f 262800 = Inr y \<and> amt y = 202 * 10 ^ 11"
proof -
  have "emission_fits mainnet_table 262800"
    using mainnet_supply_bound [of "max 262800 (fst (tail_emission mainnet_table))"] by (simp add: emission_fits_def)
  moreover have "reference_subsidy mainnet_table 262800 = 202 * 10 ^ 11"
    unfolding reference_subsidy_def mainnet_periods_sorted
    by (simp add: mainnet_periods_def mainnet_table_def amt_from_coins)
  ultimately show ?thesis
    using emission_schedule_is_sum [of mainnet_table 262800] by fastforce
qed

end
