(* ===== verification/ValueAccumulator.thy ===== *)
theory ValueAccumulator
  imports PoSAccounting TokensAccounting OrdersAccounting Config
begin

text \<open>
  The crate \<open>constraints-value-accumulator\<close>: the values that the inputs of a transaction bring and that its
  outputs take are accumulated per currency, coins under a maturity constraint apart, and the
  constraints of the inputs are satisfied with the outputs; what is left over is the fee.
\<close>

section \<open>Accumulators\<close>

datatype value_error =
    ValueAmountOverflow
  | CoinOrTokenOverflow coin_or_token_id
  | AttemptToPrintMoney coin_or_token_id
  | AttemptToPrintMoneyOrViolateTimelockConstraints coin_or_token_id
  | AttemptToViolateFeeRequirements
  | InputsAndInputsUtxosLengthMismatch nat nat
  | MissingOutputOrSpent utxo_outpoint
  | ValuePoSAccountingError pos_error
  | ValueOrdersAccountingError order_error
  | ValueTokensAccountingError token_error
  | PledgeAmountNotFound pool_id
  | SpendingNonSpendableOutput utxo_outpoint
  | DelegationBalanceNotFound delegation_id
  | AccountBalanceNotFound account_type
  | NegativeAccountBalance account_type
  | ValueUnsupportedTokenVersion

text \<open>The keys of \<open>timelock_constrained\<close> are \<open>NonZeroU64\<close>.\<close>

record accumulator =
  unconstrained_value :: "(coin_or_token_id, amount) fmap"
  timelock_constrained :: "(u64, amount) fmap"

type_synonym 'a acc_op = "(accumulator, value_error fault, 'a) op"

definition accumulator_new :: accumulator where
  "accumulator_new = \<lparr>unconstrained_value = fmempty, timelock_constrained = fmempty\<rparr>"

definition insert_or_increase :: "'k \<Rightarrow> amount \<Rightarrow> (('k, amount) fmap, value_error fault, unit) op" where
  "insert_or_increase key amount =
    op_bind (op_modify (\<lambda>m. if fmlookup m key = None then fmupd key amount_ZERO m else m)) (\<lambda>_.
    op_bind (op_read (\<lambda>m. res_bind (expect (fmlookup m key)) (\<lambda>value.
      ok_or (Err ValueAmountOverflow) (amount_add value amount)))) (\<lambda>value.
    op_modify (fmupd key value)))"

abbreviation on_unconstrained :: "((coin_or_token_id, amount) fmap, value_error fault, 'a) op \<Rightarrow> 'a acc_op" where
  "on_unconstrained \<equiv> op_zoom unconstrained_value (\<lambda>m. unconstrained_value_update (\<lambda>_. m))"

abbreviation on_timelocked :: "((u64, amount) fmap, value_error fault, 'a) op \<Rightarrow> 'a acc_op" where
  "on_timelocked \<equiv> op_zoom timelock_constrained (\<lambda>m. timelock_constrained_update (\<lambda>_. m))"

definition from_block_reward :: "amount \<Rightarrow> amount \<Rightarrow> accumulator option" where
  "from_block_reward total_fee subsidy =
    map_option (\<lambda>v. \<lparr>unconstrained_value = fmupd CoinId v fmempty, timelock_constrained = fmempty\<rparr>)
      (amount_add total_fee subsidy)"

definition decrease_or :: "coin_or_token_id \<Rightarrow> amount \<Rightarrow> value_error
    \<Rightarrow> ((coin_or_token_id, amount) fmap, value_error fault, unit) op" where
  "decrease_or key amount error =
    (if amount > amount_ZERO then
      op_bind (op_read (\<lambda>m. case fmlookup m key of
          Some value \<Rightarrow> ok_or (Err error) (amount_sub value amount)
        | None \<Rightarrow> Inl (Err error))) (\<lambda>value.
      op_modify (fmupd key value))
    else op_return ())"

definition value_output_amount :: "output_value \<Rightarrow> value_error + amount" where
  "value_output_amount value = (case value of
      Coin amount \<Rightarrow> Inr amount
    | TokenV1 _ amount \<Rightarrow> Inr amount
    | TokenV0 _ \<Rightarrow> Inl ValueUnsupportedTokenVersion)"

section \<open>Values of inputs\<close>

text \<open>Coins that mature after a number of blocks, unless the number is zero.\<close>

definition add_maturing_coins :: "chain_config \<Rightarrow> block_height \<Rightarrow> amount \<Rightarrow> unit acc_op" where
  "add_maturing_coins cfg block_height coins =
    op_bind (op_read (\<lambda>_. staking_pool_spend_maturity_block_count cfg block_height)) (\<lambda>maturity_distance.
    if maturity_distance \<noteq> 0 then
      on_timelocked (
        op_bind (op_modify (\<lambda>m. if fmlookup m maturity_distance = None then fmupd maturity_distance amount_ZERO m else m)) (\<lambda>_.
        op_bind (op_read (\<lambda>m. res_bind (expect (fmlookup m maturity_distance)) (\<lambda>balance.
          ok_or (Err (CoinOrTokenOverflow CoinId)) (amount_add balance coins)))) (\<lambda>balance.
        op_modify (fmupd maturity_distance balance))))
    else on_unconstrained (insert_or_increase CoinId coins))"

text \<open>A value that is transferred: tokens of the first version are ignored.\<close>

definition add_value :: "output_value \<Rightarrow> unit acc_op" where
  "add_value value = (case value of
      Coin amount \<Rightarrow> on_unconstrained (insert_or_increase CoinId amount)
    | TokenV0 _ \<Rightarrow> op_return ()
    | TokenV1 token amount \<Rightarrow> on_unconstrained (insert_or_increase (TokenId token) amount))"

definition process_input_utxo ::
  "chain_config \<Rightarrow> block_height \<Rightarrow> 'e pos_view \<Rightarrow> utxo_outpoint \<Rightarrow> tx_output \<Rightarrow> unit acc_op" where
  "process_input_utxo cfg block_height pos_accounting_view outpoint input_utxo =
    (let pool_balance = (\<lambda>pool_id.
      op_bind (op_read (\<lambda>_.
        res_bind (map_err (\<lambda>_. Err (ValuePoSAccountingError ViewFail)) (get_pool_data pos_accounting_view pool_id)) (\<lambda>data.
        case data of
          None \<Rightarrow> Inl (Err (PledgeAmountNotFound pool_id))
        | Some p \<Rightarrow> map_err (\<lambda>e. Err (ValuePoSAccountingError e)) (staker_balance p)))) (\<lambda>balance.
      add_maturing_coins cfg block_height balance))
    in case input_utxo of
      Transfer value _ \<Rightarrow> add_value value
    | LockThenTransfer value _ _ \<Rightarrow> add_value value
    | Htlc value _ \<Rightarrow> add_value value
    | CreateDelegationId _ _ \<Rightarrow> op_fail (Err (SpendingNonSpendableOutput outpoint))
    | IssueFungibleToken _ \<Rightarrow> op_fail (Err (SpendingNonSpendableOutput outpoint))
    | Burn _ \<Rightarrow> op_fail (Err (SpendingNonSpendableOutput outpoint))
    | DataDeposit _ \<Rightarrow> op_fail (Err (SpendingNonSpendableOutput outpoint))
    | AnyoneCanTake _ \<Rightarrow> op_fail (Err (SpendingNonSpendableOutput outpoint))
    | IssueNft token _ _ \<Rightarrow> on_unconstrained (insert_or_increase (TokenId token) (from_atoms 1))
    | DelegateStaking coins _ \<Rightarrow> on_unconstrained (insert_or_increase CoinId coins)
    | CreateStakePool pool_id _ \<Rightarrow> pool_balance pool_id
    | ProduceBlockFromStake _ pool_id \<Rightarrow> pool_balance pool_id)"

text \<open>
  The state of the loop over the inputs: the accumulator, the amounts to deduct, and the temporary deltas
  over the three accounting views.
\<close>

record input_state =
  acc :: accumulator
  total_to_deduct :: "(coin_or_token_id, amount) fmap"
  temp_pos :: pos_delta_data
  temp_tokens :: tokens_delta_data
  temp_orders :: orders_delta_data

type_synonym 'a input_op = "(input_state, value_error fault, 'a) op"

abbreviation on_acc :: "'a acc_op \<Rightarrow> 'a input_op" where
  "on_acc \<equiv> op_zoom acc (\<lambda>a. acc_update (\<lambda>_. a))"

abbreviation on_temp_pos :: "(pos_delta_data, pos_error, 'a) op \<Rightarrow> 'a input_op" where
  "on_temp_pos m \<equiv> op_zoom temp_pos (\<lambda>d. temp_pos_update (\<lambda>_. d)) (op_map_err (\<lambda>e. Err (ValuePoSAccountingError e)) m)"

abbreviation on_temp_tokens :: "(tokens_delta_data, token_error, 'a) op \<Rightarrow> 'a input_op" where
  "on_temp_tokens m \<equiv> op_zoom temp_tokens (\<lambda>d. temp_tokens_update (\<lambda>_. d)) (op_map_err (\<lambda>e. Err (ValueTokensAccountingError e)) m)"

definition order_fault :: "order_error fault \<Rightarrow> value_error fault" where
  "order_fault e = (case e of Err e \<Rightarrow> Err (ValueOrdersAccountingError e) | Panic \<Rightarrow> Panic)"

abbreviation on_temp_orders :: "(orders_delta_data, order_error fault, 'a) op \<Rightarrow> 'a input_op" where
  "on_temp_orders m \<equiv> op_zoom temp_orders (\<lambda>d. temp_orders_update (\<lambda>_. d)) (op_map_err order_fault m)"

definition process_input_account ::
  "chain_config \<Rightarrow> block_height \<Rightarrow> 'p pos_view \<Rightarrow> account_spending \<Rightarrow> unit input_op" where
  "process_input_account cfg block_height pos account = (case account of
    DelegationBalance delegation_id spend_amount \<Rightarrow>
      op_bind (on_temp_pos (spend_share_from_delegation_id pos delegation_id spend_amount)) (\<lambda>_.
      op_bind (on_temp_pos (op_read (\<lambda>d. delta_get_delegation_balance pos d delegation_id))) (\<lambda>_.
      on_acc (add_maturing_coins cfg block_height spend_amount))))"

definition mint_input ::
  "chain_config \<Rightarrow> block_height \<Rightarrow> 't tokens_view \<Rightarrow> token_id \<Rightarrow> amount \<Rightarrow> (coin_or_token_id \<times> amount) input_op" where
  "mint_input cfg block_height tokens i amount =
    op_bind (on_temp_tokens (mint_tokens tokens i amount)) (\<lambda>_.
    op_bind (on_temp_tokens (op_read (\<lambda>d. cache_get_circulating_supply tokens d i))) (\<lambda>_.
    op_bind (on_acc (on_unconstrained (insert_or_increase (TokenId i) amount))) (\<lambda>_.
    op_bind (op_read (\<lambda>_. token_supply_change_fee cfg block_height)) (\<lambda>fee.
    op_return (CoinId, fee)))))"

abbreviation order_query :: "(orders_delta_data \<Rightarrow> order_error + 'a) \<Rightarrow> 'a input_op" where
  "order_query q \<equiv> on_temp_orders (op_read (\<lambda>d. lift_err (q d)))"

abbreviation order_view_query :: "(orders_delta_data \<Rightarrow> order_error + 'a) \<Rightarrow> 'a input_op" where
  "order_view_query q \<equiv> on_temp_orders (op_read (\<lambda>d. map_err (\<lambda>_. Err OrderViewFail) (q d)))"

definition conclude_input :: "'o orders_view \<Rightarrow> order_id \<Rightarrow> (coin_or_token_id \<times> amount) input_op" where
  "conclude_input orders i =
    op_bind (order_view_query (\<lambda>d. cache_get_order_data orders d i)) (\<lambda>found.
    op_bind (op_read (\<lambda>_. ok_or (Err (ValueOrdersAccountingError (OrderDataNotFound i))) found)) (\<lambda>od.
    op_bind (order_view_query (\<lambda>d. cache_get_ask_balance orders d i)) (\<lambda>ask_balance.
    op_bind (order_view_query (\<lambda>d. cache_get_give_balance orders d i)) (\<lambda>give_balance.
    op_bind (on_temp_orders (op_map_err Err (conclude_order orders i))) (\<lambda>_.
    op_bind (order_query (\<lambda>d. cache_get_ask_balance orders d i)) (\<lambda>_.
    op_bind (order_query (\<lambda>d. cache_get_give_balance orders d i)) (\<lambda>_.
    op_bind (op_read (\<lambda>_. lift_err (value_output_amount (ask od)))) (\<lambda>initially_asked.
    op_bind (op_read (\<lambda>_. ok_or (Err (NegativeAccountBalance (AccOrder i))) (amount_sub initially_asked ask_balance))) (\<lambda>filled_amount.
    op_bind (op_read (\<lambda>_. ok_or (Err ValueUnsupportedTokenVersion) (from_output_value (ask od)))) (\<lambda>ask_currency.
    op_bind (on_acc (on_unconstrained (insert_or_increase ask_currency filled_amount))) (\<lambda>_.
    op_bind (op_read (\<lambda>_. ok_or (Err ValueUnsupportedTokenVersion) (from_output_value (give od)))) (\<lambda>give_currency.
    op_bind (on_acc (on_unconstrained (insert_or_increase give_currency give_balance))) (\<lambda>_.
    op_return (CoinId, amount_ZERO))))))))))))))"

definition fill_input :: "'o orders_view \<Rightarrow> order_id \<Rightarrow> output_value \<Rightarrow> (coin_or_token_id \<times> amount) input_op" where
  "fill_input orders i fill_value =
    op_bind (order_view_query (\<lambda>d. cache_get_order_data orders d i)) (\<lambda>found.
    op_bind (op_read (\<lambda>_. ok_or (Err (ValueOrdersAccountingError (OrderDataNotFound i))) found)) (\<lambda>od.
    op_bind (on_temp_orders (op_read (\<lambda>d. calculate_fill_order (orders_cache_view orders d) i fill_value))) (\<lambda>filled_amount.
    op_bind (on_temp_orders (fill_order orders i fill_value)) (\<lambda>_.
    op_bind (order_query (\<lambda>d. cache_get_ask_balance orders d i)) (\<lambda>_.
    op_bind (order_query (\<lambda>d. cache_get_give_balance orders d i)) (\<lambda>_.
    op_bind (op_read (\<lambda>_. ok_or (Err ValueUnsupportedTokenVersion) (from_output_value (give od)))) (\<lambda>give_currency.
    op_bind (on_acc (on_unconstrained (insert_or_increase give_currency filled_amount))) (\<lambda>_.
    op_bind (op_read (\<lambda>_. ok_or (Err ValueUnsupportedTokenVersion) (from_output_value fill_value))) (\<lambda>ask_currency.
    op_bind (op_read (\<lambda>_. lift_err (value_output_amount fill_value))) (\<lambda>fill_amount.
    op_return (ask_currency, fill_amount)))))))))))"

definition process_input_account_command ::
  "chain_config \<Rightarrow> block_height \<Rightarrow> 'o orders_view \<Rightarrow> 't tokens_view \<Rightarrow> account_command
    \<Rightarrow> (coin_or_token_id \<times> amount) input_op" where
  "process_input_account_command cfg block_height orders tokens command =
    (let coin_fee = (\<lambda>fee. op_bind (op_read (\<lambda>_. fee)) (\<lambda>fee. op_return (CoinId, fee))) in
     case command of
      MintTokens i amount \<Rightarrow> mint_input cfg block_height tokens i amount
    | LockTokenSupply _ \<Rightarrow> coin_fee (token_supply_change_fee cfg block_height)
    | UnmintTokens _ \<Rightarrow> coin_fee (token_supply_change_fee cfg block_height)
    | FreezeToken _ _ \<Rightarrow> coin_fee (token_freeze_fee cfg block_height)
    | UnfreezeToken _ \<Rightarrow> coin_fee (token_freeze_fee cfg block_height)
    | ChangeTokenAuthority _ _ \<Rightarrow> coin_fee (token_change_authority_fee cfg block_height)
    | ChangeTokenMetadataUri _ _ \<Rightarrow> coin_fee (Inr token_change_metadata_uri_fee)
    | ConcludeOrder i \<Rightarrow> conclude_input orders i
    | FillOrder i fill_value _ \<Rightarrow> fill_input orders i fill_value)"

definition process_input ::
  "chain_config \<Rightarrow> block_height \<Rightarrow> 'o orders_view \<Rightarrow> 'p pos_view \<Rightarrow> 't tokens_view
    \<Rightarrow> tx_input \<times> tx_output option \<Rightarrow> unit input_op" where
  "process_input cfg block_height orders pos tokens = (\<lambda>(input, input_utxo). case input of
      Utxo outpoint \<Rightarrow>
        op_bind (op_read (\<lambda>_. ok_or (Err (MissingOutputOrSpent outpoint)) input_utxo)) (\<lambda>input_utxo.
        op_bind (op_read (\<lambda>s. Inr (delta_view pos (temp_pos s)))) (\<lambda>view.
        on_acc (process_input_utxo cfg block_height view outpoint input_utxo)))
    | Account outpoint \<Rightarrow> process_input_account cfg block_height pos (acc_spending outpoint)
    | AccountCommand _ command \<Rightarrow>
        op_bind (process_input_account_command cfg block_height orders tokens command) (\<lambda>(i, to_deduct).
        op_zoom total_to_deduct (\<lambda>m. total_to_deduct_update (\<lambda>_. m)) (insert_or_increase i to_deduct)))"

definition input_state_new :: input_state where
  "input_state_new = \<lparr>acc = accumulator_new, total_to_deduct = fmempty, temp_pos = pos_delta_data_new,
    temp_tokens = tokens_delta_data_new, temp_orders = orders_delta_data_new\<rparr>"

definition from_inputs ::
  "chain_config \<Rightarrow> block_height \<Rightarrow> 'o orders_view \<Rightarrow> 'p pos_view \<Rightarrow> 't tokens_view
    \<Rightarrow> tx_input list \<Rightarrow> tx_output option list \<Rightarrow> value_error fault + accumulator" where
  "from_inputs cfg block_height orders pos tokens ins ins_utxos =
    (if length ins \<noteq> length ins_utxos
     then Inl (Err (InputsAndInputsUtxosLengthMismatch (length ins) (length ins_utxos)))
     else case op_bind (op_for_each (process_input cfg block_height orders pos tokens) (zip ins ins_utxos)) (\<lambda>_.
        op_bind (op_read (\<lambda>s. Inr (sorted_list_of_fmap (total_to_deduct s)))) (\<lambda>deductions.
        op_for_each (\<lambda>(currency, amount).
          on_acc (on_unconstrained (decrease_or currency amount AttemptToViolateFeeRequirements))) deductions))
        input_state_new of
      (Inl e, _) \<Rightarrow> Inl e
    | (Inr _, s) \<Rightarrow> Inr (acc s))"

section \<open>Values of outputs\<close>

definition process_output_timelock :: "output_time_lock \<Rightarrow> amount \<Rightarrow> unit acc_op" where
  "process_output_timelock timelock locked_coins = (case timelock of
      UntilHeight _ \<Rightarrow> on_unconstrained (insert_or_increase CoinId locked_coins)
    | UntilTime _ \<Rightarrow> on_unconstrained (insert_or_increase CoinId locked_coins)
    | ForSeconds _ \<Rightarrow> on_unconstrained (insert_or_increase CoinId locked_coins)
    | ForBlockCount block_count \<Rightarrow>
        if block_count \<noteq> 0 then on_timelocked (insert_or_increase block_count locked_coins)
        else on_unconstrained (insert_or_increase CoinId locked_coins))"

definition process_output :: "chain_config \<Rightarrow> block_height \<Rightarrow> tx_output \<Rightarrow> unit acc_op" where
  "process_output cfg block_height output =
    (let coin_fee = (\<lambda>fee. op_bind (op_read (\<lambda>_. fee)) (\<lambda>fee. on_unconstrained (insert_or_increase CoinId fee))) in
     case output of
      Transfer value _ \<Rightarrow> add_value value
    | Burn value \<Rightarrow> add_value value
    | Htlc value _ \<Rightarrow> add_value value
    | DelegateStaking coins _ \<Rightarrow> on_unconstrained (insert_or_increase CoinId coins)
    | CreateStakePool _ data \<Rightarrow> on_unconstrained (insert_or_increase CoinId (pledge data))
    | ProduceBlockFromStake _ _ \<Rightarrow> op_return ()
    | CreateDelegationId _ _ \<Rightarrow> op_return ()
    | LockThenTransfer value _ timelock \<Rightarrow> (case value of
          Coin coins \<Rightarrow> process_output_timelock timelock coins
        | TokenV0 _ \<Rightarrow> op_return ()
        | TokenV1 token amount \<Rightarrow> on_unconstrained (insert_or_increase (TokenId token) amount))
    | DataDeposit _ \<Rightarrow> coin_fee (data_deposit_fee cfg block_height)
    | IssueFungibleToken _ \<Rightarrow> coin_fee (Inr fungible_token_issuance_fee)
    | IssueNft _ _ _ \<Rightarrow> coin_fee (nft_issuance_fee cfg block_height)
    | AnyoneCanTake od \<Rightarrow>
        op_bind (op_read (\<lambda>_. ok_or (Err ValueUnsupportedTokenVersion) (from_output_value (give od)))) (\<lambda>i.
        op_bind (op_read (\<lambda>_. lift_err (value_output_amount (give od)))) (\<lambda>amount.
        on_unconstrained (insert_or_increase i amount))))"

definition from_outputs :: "chain_config \<Rightarrow> block_height \<Rightarrow> tx_output list \<Rightarrow> value_error fault + accumulator" where
  "from_outputs cfg block_height outs = (case op_for_each (process_output cfg block_height) outs accumulator_new of
      (Inl e, _) \<Rightarrow> Inl e
    | (Inr _, a) \<Rightarrow> Inr a)"

section \<open>Satisfying the constraints\<close>

text \<open>
  The places from which the coins of an output locked for \<open>timelock\<close> blocks are taken, in the order of the
  iterator of the code: the constraints up to \<open>timelock\<close> from the longest to the shortest, then the
  unconstrained coins.
\<close>

datatype coin_place = LockedPlace u64 | FreePlace

definition coin_places :: "u64 \<Rightarrow> accumulator \<Rightarrow> (coin_place \<times> amount) list" where
  "coin_places timelock a =
    map (\<lambda>(k, v). (LockedPlace k, v)) (rev (filter (\<lambda>(k, _). k \<le> timelock) (sorted_list_of_fmap (timelock_constrained a))))
    @ (case fmlookup (unconstrained_value a) CoinId of None \<Rightarrow> [] | Some v \<Rightarrow> [(FreePlace, v)])"

text \<open>The while loop over the places: the new contents of the places that it changes.\<close>

fun take_coins :: "amount \<Rightarrow> (coin_place \<times> amount) list \<Rightarrow> value_error fault + (coin_place \<times> amount) list" where
  "take_coins output_coins [] =
    (if output_coins > amount_ZERO then Inl (Err (AttemptToPrintMoneyOrViolateTimelockConstraints CoinId)) else Inr [])"
| "take_coins output_coins ((p, constrained_coins) # rest) =
    (if output_coins > amount_ZERO then
      if output_coins > constrained_coins then
        res_bind (expect (amount_sub output_coins constrained_coins)) (\<lambda>output_coins.
        map_ok (\<lambda>changes. (p, amount_ZERO) # changes) (take_coins output_coins rest))
      else
        res_bind (expect (amount_sub constrained_coins output_coins)) (\<lambda>left.
        Inr [(p, left)])
     else Inr [])"

definition put_place :: "coin_place \<times> amount \<Rightarrow> accumulator \<Rightarrow> accumulator" where
  "put_place = (\<lambda>(p, v). case p of
      LockedPlace k \<Rightarrow> timelock_constrained_update (fmupd k v)
    | FreePlace \<Rightarrow> unconstrained_value_update (fmupd CoinId v))"

definition satisfy_timelock :: "u64 \<times> amount \<Rightarrow> unit acc_op" where
  "satisfy_timelock = (\<lambda>(timelock, locked_coins).
    op_bind (op_read (\<lambda>a. take_coins locked_coins (coin_places timelock a))) (\<lambda>changes.
    op_modify (fold put_place changes)))"

text \<open>The result, of type \<open>AccumulatedFee\<close>, has the same fields as the accumulator.\<close>

type_synonym accumulated_fee = accumulator

definition satisfy_with :: "accumulator \<Rightarrow> accumulator \<Rightarrow> value_error fault + accumulated_fee" where
  "satisfy_with self other =
    (case op_bind (op_for_each (\<lambda>(key, value).
            on_unconstrained (decrease_or key value (AttemptToPrintMoneyOrViolateTimelockConstraints key)))
          (sorted_list_of_fmap (unconstrained_value other))) (\<lambda>_.
        op_for_each satisfy_timelock (sorted_list_of_fmap (timelock_constrained other))) self of
      (Inl e, _) \<Rightarrow> Inl e
    | (Inr _, a) \<Rightarrow> Inr a)"

section \<open>Fees\<close>

definition merge_amount_maps ::
  "('k::linorder, amount) fmap \<Rightarrow> ('k, amount) fmap \<Rightarrow> value_error fault + ('k, amount) fmap" where
  "merge_amount_maps left right =
    (case op_for_each (\<lambda>(key, value). insert_or_increase key value) (sorted_list_of_fmap right) left of
      (Inl e, _) \<Rightarrow> Inl e
    | (Inr _, m) \<Rightarrow> Inr m)"

definition fee_combine :: "accumulated_fee \<Rightarrow> accumulated_fee \<Rightarrow> value_error fault + accumulated_fee" where
  "fee_combine self other =
    res_bind (merge_amount_maps (unconstrained_value self) (unconstrained_value other)) (\<lambda>u.
    res_bind (merge_amount_maps (timelock_constrained self) (timelock_constrained other)) (\<lambda>t.
    Inr \<lparr>unconstrained_value = u, timelock_constrained = t\<rparr>))"

definition map_into_block_fees :: "chain_config \<Rightarrow> block_height \<Rightarrow> accumulated_fee \<Rightarrow> value_error fault + amount" where
  "map_into_block_fees cfg block_height self =
    (let unconstrained_change = (case fmlookup (unconstrained_value self) CoinId of None \<Rightarrow> amount_ZERO | Some a \<Rightarrow> a) in
     res_bind (staking_pool_spend_maturity_block_count cfg block_height) (\<lambda>maturity_distance.
     res_bind (ok_or (Err (CoinOrTokenOverflow CoinId))
       (amount_sum (map snd (filter (\<lambda>(lock, _). lock \<le> maturity_distance) (sorted_list_of_fmap (timelock_constrained self)))))) (\<lambda>timelocked_change.
     ok_or (Err (CoinOrTokenOverflow CoinId)) (amount_add unconstrained_change timelocked_change))))"

end
