(* ===== verification/ValueSafety.thy ===== *)
theory ValueSafety
  imports ValueAccumulator
begin

text \<open>
  The accumulators as integers: the free amount of each currency and the coins under constraints. Satisfying
  the constraints of the inputs with the outputs conserves every currency, respects every maturity,
  and succeeds exactly when the coins suffice.
\<close>

section \<open>Amounts in maps\<close>

definition mval :: "('k, amount) fmap \<Rightarrow> 'k \<Rightarrow> int" where
  "mval m k = (case fmlookup m k of None \<Rightarrow> 0 | Some a \<Rightarrow> amt a)"

lemma mval_simps [simp]:
  "mval fmempty k = 0" "mval (fmupd k v m) j = (if j = k then amt v else mval m j)"
  by (simp_all add: mval_def)

lemma mval_lookup: "fmlookup m k = Some a \<Longrightarrow> mval m k = amt a"
  by (simp add: mval_def)

lemma mval_range [simp]: "0 \<le> mval m k" "mval m k < 2 ^ 128"
  by (auto simp: mval_def split: option.splits)

text \<open>The sum over the keys with a property.\<close>

definition tsum :: "('k \<Rightarrow> bool) \<Rightarrow> ('k, amount) fmap \<Rightarrow> int" where
  "tsum p m = (\<Sum>k \<in> {k \<in> fmdom' m. p k}. mval m k)"

lemma mval_outside: "k \<notin> fmdom' m \<Longrightarrow> mval m k = 0"
  by (simp add: mval_def fmdom'_notI fmdom'_notD split: option.splits)

lemma tsum_superset:
  assumes "finite S" and "\<And>k. k \<in> fmdom' m \<Longrightarrow> p k \<Longrightarrow> k \<in> S"
  shows "tsum p m = (\<Sum>k \<in> {k \<in> S. p k}. mval m k)"
  unfolding tsum_def using assms by (intro sum.mono_neutral_left) (auto, metis mval_outside)

lemma tsum_empty [simp]: "tsum p fmempty = 0"
  by (simp add: tsum_def)

lemma tsum_nonneg [simp]: "0 \<le> tsum p m"
  by (simp add: tsum_def sum_nonneg)

lemma tsum_upd: "tsum p (fmupd k v m) = tsum p m + (if p k then amt v - mval m k else 0)"
proof -
  let ?S = "insert k (fmdom' m)"
  have 1: "tsum p (fmupd k v m) = (\<Sum>j \<in> {j \<in> ?S. p j}. mval (fmupd k v m) j)"
    and 2: "tsum p m = (\<Sum>j \<in> {j \<in> ?S. p j}. mval m j)"
    by (intro tsum_superset; auto)+
  show ?thesis
  proof (cases "p k")
    case True
    then have "{j \<in> ?S. p j} = insert k ({j \<in> ?S. p j} - {k})" by auto
    moreover have "(\<Sum>j \<in> {j \<in> ?S. p j} - {k}. mval (fmupd k v m) j) = (\<Sum>j \<in> {j \<in> ?S. p j} - {k}. mval m j)"
      by (intro sum.cong) auto
    ultimately show ?thesis
      using True unfolding 1 2 by (subst (1 2) sum.remove [of _ k]) auto
  next
    case False
    then have "(\<Sum>j \<in> {j \<in> ?S. p j}. mval (fmupd k v m) j) = (\<Sum>j \<in> {j \<in> ?S. p j}. mval m j)"
      by (intro sum.cong) auto
    with False show ?thesis by (simp only: 1 2) simp
  qed
qed

lemma tsum_list: "(\<Sum>(k, v) \<leftarrow> filter (\<lambda>(k, _). p k) (sorted_list_of_fmap m). amt v) = tsum p m"
proof -
  let ?xs = "filter (\<lambda>(k, _). p k) (sorted_list_of_fmap m)"
  have d: "distinct (map fst ?xs)" by (rule distinct_map_filter) simp
  have "(\<Sum>(k, v) \<leftarrow> ?xs. amt v) = (\<Sum>k \<leftarrow> map fst ?xs. mval m k)"
    unfolding map_map by (intro arg_cong [of _ _ sum_list] map_cong) (auto simp: mval_def)
  also have "\<dots> = (\<Sum>k \<in> set (map fst ?xs). mval m k)"
    using d by (rule sum_list_distinct_conv_sum_set)
  also have "set (map fst ?xs) = {k \<in> fmdom' m. p k}"
    by (auto simp: fmdom'_alt_def fmlookup_dom_iff image_iff)
  finally show ?thesis by (simp add: tsum_def)
qed

lemma insert_or_increase_Inr:
  "insert_or_increase k a m = (Inr u, m') \<longleftrightarrow> (\<exists>s. amt s = mval m k + amt a \<and> m' = fmupd k s m)"
  by (cases "fmlookup m k")
    (auto simp: insert_or_increase_def op_simps res_simps amount_simps mval_def fmap_ext)

lemma insert_or_increase_mval:
  assumes "insert_or_increase k a m = (Inr u, m')"
  shows "mval m' = (mval m)(k := mval m k + amt a)" and "tsum p m' = tsum p m + (if p k then amt a else 0)"
  using assms by (auto simp: insert_or_increase_Inr fun_eq_iff tsum_upd)


section \<open>Coins in an accumulator\<close>

definition free_value :: "accumulator \<Rightarrow> coin_or_token_id \<Rightarrow> int" where
  "free_value a = mval (unconstrained_value a)"

definition locked_coins :: "(u64 \<Rightarrow> bool) \<Rightarrow> accumulator \<Rightarrow> int" where
  "locked_coins p a = tsum p (timelock_constrained a)"

text \<open>All that the accumulator holds of a currency.\<close>

definition worth :: "accumulator \<Rightarrow> coin_or_token_id \<Rightarrow> int" where
  "worth a c = free_value a c + (if c = CoinId then locked_coins (\<lambda>_. True) a else 0)"

definition place_value :: "accumulator \<Rightarrow> coin_place \<Rightarrow> int" where
  "place_value a p = (case p of LockedPlace k \<Rightarrow> mval (timelock_constrained a) k | FreePlace \<Rightarrow> free_value a CoinId)"

lemma put_place_simps [simp]:
  "place_value (put_place (p, v) a) q = (if q = p then amt v else place_value a q)"
  "free_value (put_place (p, v) a) (TokenId i) = free_value a (TokenId i)"
  by (auto simp: place_value_def put_place_def free_value_def split: coin_place.splits)

text \<open>
  Changing places by a loop: the changed places are among the given ones, none grows, and what the
  places lose together is the amount taken.
\<close>

definition takes :: "accumulator \<Rightarrow> coin_place list \<Rightarrow> int \<Rightarrow> accumulator \<Rightarrow> bool" where
  "takes a ps n a' \<longleftrightarrow> (\<Sum>p \<leftarrow> ps. place_value a p - place_value a' p) = n
    \<and> (\<forall>p. place_value a' p \<le> place_value a p) \<and> (\<forall>p. p \<notin> set ps \<longrightarrow> place_value a' p = place_value a p)
    \<and> (\<forall>i. free_value a' (TokenId i) = free_value a (TokenId i))"

lemma takes_refl: "takes a ps 0 a"
  by (simp add: takes_def)

lemma takes_Cons:
  assumes "takes (put_place (p, v) a) ps n a'" and "p \<notin> set ps" and "amt v \<le> place_value a p"
  shows "takes a (p # ps) (place_value a p - amt v + n) a'"
proof -
  let ?a = "put_place (p, v) a"
  have "(\<Sum>q \<leftarrow> ps. place_value a q - place_value a' q) = (\<Sum>q \<leftarrow> ps. place_value ?a q - place_value a' q)"
    using assms(2) by (intro arg_cong [of _ _ sum_list] map_cong) auto
  moreover have "place_value a' p = amt v" using assms(1,2) by (simp add: takes_def)
  moreover have "place_value a' q \<le> place_value a q" for q
    using assms(1,3) by (cases "q = p") (auto simp: takes_def dest: spec [of _ q])
  ultimately show ?thesis using assms(1) by (auto simp: takes_def)
qed

lemma amt_not_positive [simp]: "\<not> 0 < amt n \<longleftrightarrow> n = amount_ZERO"
  using amt_range(1) [of n] by (metis amt_zero_iff order_le_less order_less_irrefl)

lemma take_coins_takes:
  assumes "take_coins n places = Inr changes" and "distinct (map fst places)"
    and "\<And>p v. (p, v) \<in> set places \<Longrightarrow> place_value a p = amt v"
  shows "takes a (map fst places) (amt n) (fold put_place changes a)"
  using assms
proof (induction places arbitrary: n changes a)
  case Nil
  then show ?case by (auto simp: takes_def amount_simps split: if_splits)
next
  case (Cons x places)
  obtain p v where x: "x = (p, v)" by (cases x)
  have pv: "place_value a p = amt v" using Cons.prems(3) [of p v] by (simp add: x)
  have notin: "p \<notin> set (map fst places)" using Cons.prems(2) by (simp add: x)
  consider "changes = []" "amt n = 0" | l where "changes = [(p, l)]" "amt l = amt v - amt n"
    | m ch where "amt m = amt n - amt v" "take_coins m places = Inr ch" "changes = (p, amount_ZERO) # ch"
    using Cons.prems(1) by (auto simp: x amount_simps res_simps split: if_splits)
  then show ?case
  proof cases
    case 1
    then show ?thesis by (simp add: takes_refl)
  next
    case (2 l)
    then show ?thesis
      using takes_Cons [OF takes_refl notin, of l a] amt_range(1) [of n] by (simp add: x pv)
  next
    case (3 m ch)
    let ?a = "put_place (p, amount_ZERO) a"
    have "takes ?a (map fst places) (amt m) (fold put_place ch ?a)"
      using Cons.IH [OF 3(2), of ?a] Cons.prems(2,3) notin by (force simp: x)
    with takes_Cons [OF this notin] 3 pv show ?thesis by (simp add: x)
  qed
qed

lemma take_coins_succeeds_iff:
  "(\<exists>changes. take_coins n places = Inr changes) \<longleftrightarrow> amt n \<le> (\<Sum>(p, v) \<leftarrow> places. amt v)"
proof (induction places arbitrary: n)
  case Nil
  then show ?case using amt_range(1) [of n] by (auto simp: amount_simps)
next
  case (Cons x places)
  obtain p v where x: "x = (p, v)" by (cases x)
  have sum: "0 \<le> (\<Sum>(p, v) \<leftarrow> places. amt v)" by (rule sum_list_nonneg) auto
  show ?case
  proof (cases "amt v < amt n")
    case True
    then obtain m where m: "amount_sub n v = Some m" "amt m = amt n - amt v" using amount_sub_exists [of v n] by auto
    have "0 < amt n" using True amt_range(1) [of v] by linarith
    then have "take_coins n (x # places) = map_ok (\<lambda>changes. (p, amount_ZERO) # changes) (take_coins m places)"
      using True m(1) by (simp add: x amount_less)
    then show ?thesis using Cons.IH [of m] m(2) by (auto simp: x res_simps)
  next
    case False
    then obtain m where "amount_sub v n = Some m" using amount_sub_exists [of n v] by auto
    then have "\<exists>changes. take_coins n (x # places) = Inr changes" using False by (simp add: x amount_less)
    with False show ?thesis using sum by (simp add: x)
  qed
qed


section \<open>Satisfying constraints\<close>

text \<open>The free coins and those locked for at most \<open>n\<close> blocks.\<close>

definition available :: "u64 \<Rightarrow> accumulator \<Rightarrow> int" where
  "available n a = free_value a CoinId + locked_coins (\<lambda>k. k \<le> n) a"

lemma coin_places_values:
  "(p, v) \<in> set (coin_places t a) \<Longrightarrow> place_value a p = amt v"
  by (auto simp: coin_places_def place_value_def free_value_def mval_def split: option.splits)

lemma coin_places_keys:
  "map fst (coin_places t a) =
    rev (map LockedPlace (map fst (filter (\<lambda>(k, _). k \<le> t) (sorted_list_of_fmap (timelock_constrained a)))))
    @ (case fmlookup (unconstrained_value a) CoinId of None \<Rightarrow> [] | Some _ \<Rightarrow> [FreePlace])"
  by (simp add: coin_places_def rev_map comp_def case_prod_unfold split: option.splits)

lemma coin_places_distinct: "distinct (map fst (coin_places t a))"
proof -
  have "distinct (map fst (filter (\<lambda>(k, _). k \<le> t) (sorted_list_of_fmap (timelock_constrained a))))"
    by (rule distinct_map_filter) simp
  then have "distinct (map LockedPlace (map fst (filter (\<lambda>(k, _). k \<le> t) (sorted_list_of_fmap (timelock_constrained a)))))"
    by (subst distinct_map) (auto simp: inj_on_def)
  then show ?thesis
    unfolding coin_places_keys by (auto split: option.splits)
qed

lemma coin_places_subset:
  "set (map fst (coin_places t a)) \<subseteq> insert FreePlace (LockedPlace ` {k \<in> fmdom' (timelock_constrained a). k \<le> t})"
  unfolding coin_places_keys by (auto simp: fmdom'_alt_def fmlookup_dom_iff split: option.splits)

lemma coin_places_sum: "(\<Sum>(p, v) \<leftarrow> coin_places t a. amt v) = available t a"
proof -
  have "(\<Sum>(p, v) \<leftarrow> coin_places t a. amt v) =
      (\<Sum>(k, v) \<leftarrow> rev (filter (\<lambda>(k, _). k \<le> t) (sorted_list_of_fmap (timelock_constrained a))). amt v) + free_value a CoinId"
    by (auto simp: coin_places_def comp_def case_prod_unfold free_value_def mval_def split: option.splits)
  then show ?thesis
    using tsum_list [of "\<lambda>k. k \<le> t" "timelock_constrained a"]
    by (simp add: available_def locked_coins_def rev_map [symmetric] sum_list_rev)
qed

lemma takes_sum:
  assumes "takes a ps n a'" and "distinct ps" and "finite X"
  shows "(\<Sum>p \<in> X. place_value a p - place_value a' p) \<le> n"
    and "set ps \<subseteq> X \<Longrightarrow> (\<Sum>p \<in> X. place_value a p - place_value a' p) = n"
proof -
  let ?D = "\<lambda>p. place_value a p - place_value a' p"
  have D: "0 \<le> ?D p" "p \<notin> set ps \<Longrightarrow> ?D p = 0" for p using assms(1) by (simp_all add: takes_def)
  have n: "(\<Sum>p \<in> set ps. ?D p) = n"
    using assms(1,2) by (simp add: takes_def sum_list_distinct_conv_sum_set)
  have "(\<Sum>p \<in> X. ?D p) \<le> (\<Sum>p \<in> X \<union> set ps. ?D p)"
    using assms(3) D(1) by (intro sum_mono2) auto
  also have "(\<Sum>p \<in> X \<union> set ps. ?D p) = n"
    unfolding n [symmetric] using assms(3) D(2) by (intro sum.mono_neutral_right) auto
  finally show "(\<Sum>p \<in> X. ?D p) \<le> n" .
  show "(\<Sum>p \<in> X. ?D p) = n" if "set ps \<subseteq> X"
    unfolding n [symmetric] using assms(3) that D(2) by (intro sum.mono_neutral_right) auto
qed

lemma locked_coins_places:
  assumes "finite S" and "fmdom' (timelock_constrained a) \<subseteq> S"
  shows "locked_coins p a = (\<Sum>q \<in> LockedPlace ` {k \<in> S. p k}. place_value a q)"
proof -
  have "(\<Sum>q \<in> LockedPlace ` {k \<in> S. p k}. place_value a q) = (\<Sum>k \<in> {k \<in> S. p k}. mval (timelock_constrained a) k)"
    by (subst sum.reindex) (auto simp: inj_on_def place_value_def)
  then show ?thesis
    using tsum_superset [OF assms(1), of "timelock_constrained a" p] assms(2) by (auto simp: locked_coins_def)
qed

lemma satisfy_timelock_takes:
  assumes "satisfy_timelock (t, c) a = (Inr u, a')"
  shows "takes a (map fst (coin_places t a)) (amt c) a'"
  using assms take_coins_takes [OF _ coin_places_distinct coin_places_values]
  by (auto simp: satisfy_timelock_def op_simps)

lemma satisfy_timelock_effect:
  assumes "satisfy_timelock (t, c) a = (Inr u, a')"
  shows "free_value a' (TokenId i) = free_value a (TokenId i)"
    and "t \<le> n \<Longrightarrow> available n a' = available n a - amt c"
    and "t < n \<Longrightarrow> locked_coins (\<lambda>k. n \<le> k) a' = locked_coins (\<lambda>k. n \<le> k) a"
    and "locked_coins (\<lambda>k. n \<le> k) a \<le> locked_coins (\<lambda>k. n \<le> k) a' + amt c"
    and "worth a' CoinId = worth a CoinId - amt c"
proof -
  let ?ps = "map fst (coin_places t a)"
  let ?D = "\<lambda>p. place_value a p - place_value a' p"
  define S where "S = fmdom' (timelock_constrained a) \<union> fmdom' (timelock_constrained a')"
  note takes = satisfy_timelock_takes [OF assms]
  note sums = takes_sum [OF takes coin_places_distinct]
  have S: "finite S" "fmdom' (timelock_constrained a) \<subseteq> S" "fmdom' (timelock_constrained a') \<subseteq> S" by (auto simp: S_def)
  have lock: "locked_coins p a - locked_coins p a' = (\<Sum>q \<in> LockedPlace ` {k \<in> S. p k}. ?D q)" for p
    using locked_coins_places [OF S(1,2)] locked_coins_places [OF S(1,3)] by (simp add: sum_subtractf)
  have free: "free_value a CoinId - free_value a' CoinId + (\<Sum>q \<in> LockedPlace ` {k \<in> S. p k}. ?D q)
      = (\<Sum>q \<in> insert FreePlace (LockedPlace ` {k \<in> S. p k}). ?D q)" for p
    using S(1) by (subst sum.insert) (auto simp: place_value_def)
  show "free_value a' (TokenId i) = free_value a (TokenId i)" using takes by (simp add: takes_def)
  show "available n a' = available n a - amt c" if "t \<le> n"
  proof -
    have "set ?ps \<subseteq> insert FreePlace (LockedPlace ` {k \<in> S. k \<le> n})"
    proof -
      have "{k \<in> fmdom' (timelock_constrained a). k \<le> t} \<subseteq> {k \<in> S. k \<le> n}" using that S(2) by (blast intro: order_trans)
      with coin_places_subset [of t a] show ?thesis by blast
    qed
    then have "(\<Sum>q \<in> insert FreePlace (LockedPlace ` {k \<in> S. k \<le> n}). ?D q) = amt c"
      using S(1) by (intro sums(2)) auto
    with lock [of "\<lambda>k. k \<le> n"] free [of "\<lambda>k. k \<le> n"] show ?thesis by (simp add: available_def)
  qed
  show "worth a' CoinId = worth a CoinId - amt c"
  proof -
    have "set ?ps \<subseteq> insert FreePlace (LockedPlace ` {k \<in> S. True})"
      using coin_places_subset [of t a] S(2) by auto
    then have "(\<Sum>q \<in> insert FreePlace (LockedPlace ` {k \<in> S. True}). ?D q) = amt c"
      using S(1) by (intro sums(2)) auto
    with lock [of "\<lambda>k. True"] free [of "\<lambda>k. True"] show ?thesis by (simp add: worth_def)
  qed
  show "locked_coins (\<lambda>k. n \<le> k) a' = locked_coins (\<lambda>k. n \<le> k) a" if "t < n"
  proof -
    have "?D q = 0" if q: "q \<in> LockedPlace ` {k \<in> S. n \<le> k}" for q
    proof -
      obtain k where "q = LockedPlace k" "n \<le> k" using q by blast
      moreover have "\<not> k \<le> t" using \<open>t < n\<close> \<open>n \<le> k\<close> by simp
      ultimately have "q \<notin> set ?ps" using coin_places_subset [of t a] by blast
      then show ?thesis using takes by (simp add: takes_def)
    qed
    then have "(\<Sum>q \<in> LockedPlace ` {k \<in> S. n \<le> k}. ?D q) = 0" by (intro sum.neutral) blast
    with lock [of "\<lambda>k. n \<le> k"] show ?thesis by simp
  qed
  show "locked_coins (\<lambda>k. n \<le> k) a \<le> locked_coins (\<lambda>k. n \<le> k) a' + amt c"
    using lock [of "\<lambda>k. n \<le> k"] sums(1) [of "LockedPlace ` {k \<in> S. n \<le> k}"] S(1) by simp
qed

lemma satisfy_timelock_succeeds_iff:
  "(\<exists>u a'. satisfy_timelock (t, c) a = (Inr u, a')) \<longleftrightarrow> amt c \<le> available t a"
  using take_coins_succeeds_iff [of c "coin_places t a"] coin_places_sum [of t a]
  by (auto simp: satisfy_timelock_def op_simps)

lemma satisfy_timelocks_effect:
  assumes "op_for_each satisfy_timelock xs a = (Inr u, a')"
  shows "free_value a' (TokenId i) = free_value a (TokenId i)"
    and "worth a' CoinId = worth a CoinId - (\<Sum>(_, c) \<leftarrow> xs. amt c)"
    and "locked_coins (\<lambda>k. n \<le> k) a \<le> locked_coins (\<lambda>k. n \<le> k) a' + (\<Sum>(_, c) \<leftarrow> filter (\<lambda>(t, _). n \<le> t) xs. amt c)"
  using assms
proof (induction xs arbitrary: a)
  case Nil
  { case 1 with Nil show ?case by (simp add: op_simps) }
  { case 2 with Nil show ?case by (simp add: op_simps) }
  { case 3 with Nil show ?case by (simp add: op_simps) }
next
  case (Cons x xs)
  obtain t c where x: "x = (t, c)" by (cases x)
  { fix a assume "op_for_each satisfy_timelock (x # xs) a = (Inr u, a')"
    then have "\<exists>v b. satisfy_timelock (t, c) a = (Inr v, b) \<and> op_for_each satisfy_timelock xs b = (Inr u, a')"
      by (simp add: x op_for_each_Cons) }
  note step = this
  { case 1
    with step obtain v b where "satisfy_timelock (t, c) a = (Inr v, b)" "op_for_each satisfy_timelock xs b = (Inr u, a')" by blast
    then show ?case using Cons(1) satisfy_timelock_effect(1) by simp }
  { case 2
    with step obtain v b where "satisfy_timelock (t, c) a = (Inr v, b)" "op_for_each satisfy_timelock xs b = (Inr u, a')" by blast
    then show ?case using Cons(2) satisfy_timelock_effect(5) by (simp add: x) }
  { case 3
    with step obtain v b where b: "satisfy_timelock (t, c) a = (Inr v, b)" "op_for_each satisfy_timelock xs b = (Inr u, a')" by blast
    show ?case
      using Cons(3) [OF b(2)] satisfy_timelock_effect(3,4) [OF b(1), of n] by (cases "n \<le> t") (simp_all add: x) }
qed

lemma satisfy_timelocks_succeeds_iff:
  assumes "sorted (map fst xs)" and "distinct (map fst xs)"
  shows "(\<exists>u a'. op_for_each satisfy_timelock xs a = (Inr u, a')) \<longleftrightarrow>
    (\<forall>t \<in> fst ` set xs. (\<Sum>(_, c) \<leftarrow> filter (\<lambda>(k, _). k \<le> t) xs. amt c) \<le> available t a)"
  using assms
proof (induction xs arbitrary: a)
  case Nil
  then show ?case by (simp add: op_simps)
next
  case (Cons x xs)
  obtain t c where x: "x = (t, c)" by (cases x)
  have less: "t < k" if "k \<in> fst ` set xs" for k using Cons.prems that by (force simp: x less_le)
  have none: "filter (\<lambda>(k, _). k \<le> t) xs = []" using less by (force simp: filter_empty_conv)
  show ?case
  proof (cases "amt c \<le> available t a")
    case True
    then obtain u b where b: "satisfy_timelock (t, c) a = (Inr u, b)" using satisfy_timelock_succeeds_iff by blast
    have "op_for_each satisfy_timelock (x # xs) a = op_for_each satisfy_timelock xs b" by (simp add: x op_for_each_Cons_eq op_bind_def b)
    moreover have "available k b = available k a - amt c" if "k \<in> fst ` set xs" for k
      using satisfy_timelock_effect(2) [OF b] less [OF that] by simp
    moreover have "(\<Sum>(_, c) \<leftarrow> filter (\<lambda>(j, _). j \<le> k) (x # xs). amt c) = amt c + (\<Sum>(_, c) \<leftarrow> filter (\<lambda>(j, _). j \<le> k) xs. amt c)"
      if "k \<in> fst ` set xs" for k using less [OF that] by (simp add: x order_less_imp_le)
    ultimately show ?thesis
      using Cons.IH [of b] Cons.prems True by (simp add: x none) (smt (verit) image_eqI)
  next
    case False
    then have "\<not> (\<exists>u b. satisfy_timelock (t, c) a = (Inr u, b))" using satisfy_timelock_succeeds_iff by blast
    then have "\<not> (\<exists>u a'. op_for_each satisfy_timelock (x # xs) a = (Inr u, a'))"
      by (simp add: x op_for_each_Cons)
    with False show ?thesis by (simp add: x none)
  qed
qed

text \<open>Deducting the free amounts.\<close>

lemma decrease_or_eq:
  "decrease_or k v e m = (if amt v = 0 then (Inr (), m) else case fmlookup m k of
      None \<Rightarrow> (Inl (Err e), m)
    | Some x \<Rightarrow> (case amount_sub x v of None \<Rightarrow> (Inl (Err e), m) | Some y \<Rightarrow> (Inr (), fmupd k y m)))"
  using amt_not_positive [of v]
  by (auto simp: decrease_or_def op_bind_def op_read_def op_modify_def op_return_def amount_less split: option.splits)

lemma decrease_or_succeeds_iff: "(\<exists>u m'. decrease_or k v e m = (Inr u, m')) \<longleftrightarrow> amt v \<le> mval m k"
proof -
  have "0 < amt v" if "v \<noteq> amount_ZERO" using that amt_not_positive [of v] by blast
  then show ?thesis by (auto simp: decrease_or_eq mval_def amount_simps split: option.splits) (metis amt_range(1) diff_ge_0_iff_ge)
qed

lemma decrease_or_effect: "decrease_or k v e m = (Inr u, m') \<Longrightarrow> mval m' = (mval m)(k := mval m k - amt v)"
  by (auto simp: decrease_or_eq amount_simps mval_def fun_eq_iff split: option.splits if_splits)

abbreviation deduct :: "(coin_or_token_id \<Rightarrow> value_error) \<Rightarrow> coin_or_token_id \<times> amount \<Rightarrow> unit acc_op" where
  "deduct e \<equiv> \<lambda>(k, v). on_unconstrained (decrease_or k v (e k))"

lemma deduct_iff:
  "on_unconstrained (decrease_or k v e) a = (Inr u, a') \<longleftrightarrow>
    (\<exists>m. decrease_or k v e (unconstrained_value a) = (Inr u, m) \<and> a' = a\<lparr>unconstrained_value := m\<rparr>)"
  by (auto simp: op_simps)

lemma deduct_all:
  assumes "distinct (map fst xs)"
  shows "(\<exists>u a'. op_for_each (deduct e) xs a = (Inr u, a')) \<longleftrightarrow> (\<forall>(k, v) \<in> set xs. amt v \<le> free_value a k)"
    and "op_for_each (deduct e) xs a = (Inr u, a') \<Longrightarrow>
      free_value a' = (\<lambda>k. free_value a k - (case map_of xs k of None \<Rightarrow> 0 | Some v \<Rightarrow> amt v))
      \<and> timelock_constrained a' = timelock_constrained a"
  using assms
proof (induction xs arbitrary: a)
  case Nil
  { case 1 then show ?case by simp }
  { case 2 then show ?case by simp }
next
  case (Cons x xs)
  obtain k v where x: "x = (k, v)" by (cases x)
  have step: "deduct e x a = (Inr w, b) \<Longrightarrow> free_value b = (free_value a)(k := free_value a k - amt v)
      \<and> timelock_constrained b = timelock_constrained a" for a b w
    by (auto simp: x deduct_iff free_value_def dest: decrease_or_effect)
  { case 1
    show ?case
    proof (cases "amt v \<le> free_value a k")
      case True
      then obtain w b where b: "deduct e x a = (Inr w, b)"
        using decrease_or_succeeds_iff [of k v "e k" "unconstrained_value a"] by (auto simp: x deduct_iff free_value_def)
      have "op_for_each (deduct e) (x # xs) a = op_for_each (deduct e) xs b"
        using b by (simp add: op_for_each_Cons_eq op_bind_def)
      moreover have "free_value b j = free_value a j" if "(j, y) \<in> set xs" for j y
        using step [OF b] that 1 by (auto simp: x rev_image_eqI)
      ultimately show ?thesis using Cons(1) [of b] 1 True by (auto simp: x)
    next
      case False
      then have "\<not> (\<exists>w b. deduct e x a = (Inr w, b))"
        using decrease_or_succeeds_iff [of k v "e k" "unconstrained_value a"] by (auto simp: x deduct_iff free_value_def)
      then have "\<not> (\<exists>u a'. op_for_each (deduct e) (x # xs) a = (Inr u, a'))" by (simp add: op_for_each_Cons)
      with False show ?thesis by (auto simp: x)
    qed }
  { case 2
    then obtain w b where b: "deduct e x a = (Inr w, b)" "op_for_each (deduct e) xs b = (Inr u, a')"
      by (auto simp: op_for_each_Cons)
    have "map_of xs k = None" using 2 by (simp add: x map_of_eq_None_iff)
    with Cons(2) [OF b(2)] step [OF b(1)] 2 show ?case by (auto simp: x fun_eq_iff) }
qed

section \<open>Satisfying the inputs with the outputs\<close>

abbreviation money_error :: "coin_or_token_id \<Rightarrow> value_error" where
  "money_error \<equiv> AttemptToPrintMoneyOrViolateTimelockConstraints"

lemma satisfy_with_Inr:
  "satisfy_with self other = Inr fee \<longleftrightarrow>
    (\<exists>a. op_for_each (deduct money_error) (sorted_list_of_fmap (unconstrained_value other)) self = (Inr (), a)
      \<and> op_for_each satisfy_timelock (sorted_list_of_fmap (timelock_constrained other)) a = (Inr (), fee))"
  by (auto simp: satisfy_with_def op_bind_def split: prod.splits sum.splits)

lemma sorted_list_mval: "(case fmlookup m k of None \<Rightarrow> 0 | Some v \<Rightarrow> amt v) = mval m k"
  by (simp add: mval_def)

lemma deducted:
  assumes "op_for_each (deduct e) (sorted_list_of_fmap (unconstrained_value other)) self = (Inr u, a)"
  shows "free_value a k = free_value self k - free_value other k" and "timelock_constrained a = timelock_constrained self"
  using deduct_all(2) [OF distinct_sorted_list_of_fmap assms] by (simp_all add: free_value_def sorted_list_mval)

lemma locked_coins_eq: "timelock_constrained a = timelock_constrained b \<Longrightarrow> locked_coins p a = locked_coins p b"
  by (simp add: locked_coins_def)

lemma locked_coins_list: "(\<Sum>(_, c) \<leftarrow> filter (\<lambda>(k, _). p k) (sorted_list_of_fmap (timelock_constrained a)). amt c) = locked_coins p a"
  using tsum_list [of p "timelock_constrained a"] by (simp add: locked_coins_def case_prod_unfold)

lemma locked_coins_all: "(\<Sum>(_, c) \<leftarrow> sorted_list_of_fmap (timelock_constrained a). amt c) = locked_coins (\<lambda>_. True) a"
  using locked_coins_list [of "\<lambda>_. True" a] by (simp add: case_prod_unfold)

text \<open>The only error is the attempt to print money.\<close>

lemma take_coins_error: "take_coins n places = Inl e \<Longrightarrow> e = Err (money_error CoinId)"
proof (induction places arbitrary: n)
  case (Cons x places)
  obtain p v where x: "x = (p, v)" by (cases x)
  show ?case
    using Cons by (auto simp: x amount_simps res_simps split: if_splits)
qed (simp split: if_splits)

lemma satisfy_with_error:
  assumes "satisfy_with self other = Inl e"
  shows "\<exists>k. e = Err (money_error k)"
proof -
  consider s' where "op_for_each (deduct money_error) (sorted_list_of_fmap (unconstrained_value other)) self = (Inl e, s')"
    | a s' where "op_for_each satisfy_timelock (sorted_list_of_fmap (timelock_constrained other)) a = (Inl e, s')"
    using assms by (auto simp: satisfy_with_def op_bind_def split: prod.splits sum.splits)
  then show ?thesis
  proof cases
    case 1
    then obtain k v a a' where "on_unconstrained (decrease_or k v (money_error k)) a = (Inl e, a')"
      using op_for_each_error [OF 1] by auto
    then show ?thesis by (auto simp: op_simps decrease_or_eq split: if_splits option.splits)
  next
    case 2
    then obtain t c b b' where "satisfy_timelock (t, c) b = (Inl e, b')"
      using op_for_each_error [OF 2] by auto
    then have "take_coins c (coin_places t b) = Inl e" by (auto simp: satisfy_timelock_def op_simps)
    then show ?thesis using take_coins_error by blast
  qed
qed

text \<open>
  Satisfying the constraints of the inputs with the outputs conserves every currency: what the inputs
  hold, free or under a time lock, is what the outputs hold and the fee.
\<close>

lemma satisfy_with_conserves:
  assumes "satisfy_with self other = Inr fee"
  shows "worth self k = worth other k + worth fee k"
proof -
  obtain a where a: "op_for_each (deduct money_error) (sorted_list_of_fmap (unconstrained_value other)) self = (Inr (), a)"
    "op_for_each satisfy_timelock (sorted_list_of_fmap (timelock_constrained other)) a = (Inr (), fee)"
    using assms by (auto simp: satisfy_with_Inr)
  note d = deducted [OF a(1)] and t = satisfy_timelocks_effect(1,2) [OF a(2)]
  show ?thesis
  proof (cases k)
    case CoinId
    then show ?thesis
      using t(2) d(1) locked_coins_eq [OF d(2)] by (simp add: worth_def locked_coins_all)
  next
    case (TokenId i)
    then show ?thesis using t(1) d(1) by (simp add: worth_def)
  qed
qed

text \<open>
  Time locks are respected: for every number of blocks, the coins of the inputs that must stay locked for
  at least that long are covered by outputs locked for at least that long, or are left in the fee
  under the same constraint.
\<close>

lemma satisfy_with_respects_timelocks:
  assumes "satisfy_with self other = Inr fee"
  shows "locked_coins (\<lambda>k. n \<le> k) self \<le> locked_coins (\<lambda>k. n \<le> k) other + locked_coins (\<lambda>k. n \<le> k) fee"
proof -
  obtain a where a: "op_for_each (deduct money_error) (sorted_list_of_fmap (unconstrained_value other)) self = (Inr (), a)"
    "op_for_each satisfy_timelock (sorted_list_of_fmap (timelock_constrained other)) a = (Inr (), fee)"
    using assms by (auto simp: satisfy_with_Inr)
  show ?thesis
    using satisfy_timelocks_effect(3) [OF a(2), of n] locked_coins_eq [OF deducted(2) [OF a(1)]]
    by (simp add: locked_coins_list)
qed

text \<open>
  C28: the constraints can be satisfied exactly when the outputs take no more of any currency than is free in
  the inputs and, for every lock time of an output, the free coins and the coins locked for at most that
  time suffice for the outputs locked for at most that time: the greedy choice of the loop is
  complete. Otherwise the error is the attempt to print money; the loop never panics.
\<close>

theorem satisfy_with_succeeds_iff:
  "((\<exists>fee. satisfy_with self other = Inr fee) \<longleftrightarrow>
      (\<forall>k. free_value other k \<le> free_value self k)
      \<and> (\<forall>t. t |\<in>| fmdom (timelock_constrained other) \<longrightarrow> available t other \<le> available t self))
    \<and> ((\<exists>fee. satisfy_with self other = Inr fee)
      \<or> (\<exists>k. satisfy_with self other = Inl (Err (AttemptToPrintMoneyOrViolateTimelockConstraints k))))"
proof -
  let ?xs = "sorted_list_of_fmap (unconstrained_value other)" and ?ts = "sorted_list_of_fmap (timelock_constrained other)"
  have free: "(\<forall>(k, v) \<in> set ?xs. amt v \<le> free_value self k) \<longleftrightarrow> (\<forall>k. free_value other k \<le> free_value self k)"
    unfolding ball_sorted_list_of_fmap by (auto simp: free_value_def mval_def split: option.splits)
  have moved: "available t a = available t self - free_value other CoinId"
    if "op_for_each (deduct money_error) ?xs self = (Inr (), a)" for t a
    using deducted [OF that] locked_coins_eq [of a self] by (simp add: available_def)
  have shift: "available t other = free_value other CoinId + locked_coins (\<lambda>k. k \<le> t) other" for t
    by (simp add: available_def)
  have times: "fst ` set ?ts = {t. t |\<in>| fmdom (timelock_constrained other)}"
    using fst_sorted_list_of_fmap [of _ "timelock_constrained other"] by (auto simp: fmlookup_dom_iff)
  have "(\<exists>fee. satisfy_with self other = Inr fee) \<longleftrightarrow>
    (\<exists>a. op_for_each (deduct money_error) ?xs self = (Inr (), a)
      \<and> (\<forall>t. t |\<in>| fmdom (timelock_constrained other) \<longrightarrow> locked_coins (\<lambda>k. k \<le> t) other \<le> available t a))"
    using satisfy_timelocks_succeeds_iff [of ?ts] by (simp add: satisfy_with_Inr locked_coins_list times) blast
  also have "\<dots> \<longleftrightarrow> (\<exists>a. op_for_each (deduct money_error) ?xs self = (Inr (), a)
      \<and> (\<forall>t. t |\<in>| fmdom (timelock_constrained other) \<longrightarrow> available t other \<le> available t self))"
    unfolding shift by (simp cong: conj_cong add: moved le_diff_eq add.commute)
  also have "\<dots> \<longleftrightarrow> (\<forall>k. free_value other k \<le> free_value self k)
      \<and> (\<forall>t. t |\<in>| fmdom (timelock_constrained other) \<longrightarrow> available t other \<le> available t self)"
    using deduct_all(1) [of ?xs money_error self] free by auto
  finally show ?thesis using satisfy_with_error [of self other] by (cases "satisfy_with self other") auto
qed

section \<open>Block fees\<close>

lemma amount_sum_exists: "(\<Sum>x \<leftarrow> xs. amt x) < 2 ^ 128 \<Longrightarrow> \<exists>c. amount_sum xs = Some c \<and> amt c = (\<Sum>x \<leftarrow> xs. amt x)"
proof -
  assume "(\<Sum>x \<leftarrow> xs. amt x) < 2 ^ 128"
  moreover have "0 \<le> (\<Sum>x \<leftarrow> xs. amt x)" by (rule sum_list_nonneg) (auto simp: amt_range)
  ultimately show ?thesis using amt_exists by (auto simp: amount_sum_Some)
qed

text \<open>
  C29: the fee that a block producer receives is exactly the free coins and the coins locked for no longer
  than the maturity of a block reward; the only error is an overflow of the amount.
\<close>

theorem map_into_block_fees_exact:
  assumes "config_wf cfg"
  shows "\<exists>n. staking_pool_spend_maturity_block_count cfg h = (Inr n :: value_error fault + block_count)
    \<and> (if available n fee < 2 ^ 128 then \<exists>f. map_into_block_fees cfg h fee = Inr f \<and> amt f = available n fee
       else map_into_block_fees cfg h fee = Inl (Err (CoinOrTokenOverflow CoinId)))"
proof -
  obtain n where n: "staking_pool_spend_maturity_block_count cfg h = (Inr n :: value_error fault + block_count)"
    using spend_maturity_ok [OF assms] by blast
  define u where "u = (case fmlookup (unconstrained_value fee) CoinId of None \<Rightarrow> amount_ZERO | Some a \<Rightarrow> a)"
  define xs where "xs = map snd (filter (\<lambda>(k, _). k \<le> n) (sorted_list_of_fmap (timelock_constrained fee)))"
  have u: "amt u = free_value fee CoinId" by (simp add: u_def free_value_def mval_def split: option.splits)
  have xs: "(\<Sum>x \<leftarrow> xs. amt x) = locked_coins (\<lambda>k. k \<le> n) fee"
    using locked_coins_list [of "\<lambda>k. k \<le> n" fee] by (simp add: xs_def comp_def case_prod_unfold)
  have eq: "map_into_block_fees cfg h fee = res_bind (ok_or (Err (CoinOrTokenOverflow CoinId)) (amount_sum xs))
      (\<lambda>t. ok_or (Err (CoinOrTokenOverflow CoinId)) (amount_add u t))"
    by (simp add: map_into_block_fees_def n u_def xs_def)
  have av: "available n fee = amt u + (\<Sum>x \<leftarrow> xs. amt x)" by (simp add: available_def u xs)
  show ?thesis
  proof (intro exI conjI)
    show "if available n fee < 2 ^ 128 then \<exists>f. map_into_block_fees cfg h fee = Inr f \<and> amt f = available n fee
       else map_into_block_fees cfg h fee = Inl (Err (CoinOrTokenOverflow CoinId))"
    proof (cases "amount_sum xs")
      case None
      then have "\<not> (\<Sum>x \<leftarrow> xs. amt x) < 2 ^ 128" using amount_sum_exists [of xs] by auto
      then have "\<not> available n fee < 2 ^ 128" using av amt_range(1) [of u] by linarith
      with None show ?thesis by (simp add: eq)
    next
      case (Some t)
      then have t: "amt u + amt t = available n fee" by (simp add: av amount_sum_Some)
      show ?thesis
      proof (cases "amt u + amt t < 2 ^ 128")
        case True
        then obtain c where c: "amount_add u t = Some c" "amt c = amt u + amt t" using amount_add_exists by blast
        then have "map_into_block_fees cfg h fee = Inr c" using Some by (simp add: eq)
        with True c show ?thesis unfolding t by simp
      next
        case False
        then have "amount_add u t = None" by (simp only: amount_add_None) simp
        then have "map_into_block_fees cfg h fee = Inl (Err (CoinOrTokenOverflow CoinId))" using Some by (simp add: eq)
        with False show ?thesis unfolding t by simp
      qed
    qed
  qed (rule n)
qed

section \<open>Examples\<close>

text \<open>
  A configuration without consensus in which a reward matures after ten blocks, and a transaction with five
  free coins and twenty locked ones that moves three of the free ones and locks twenty-one.
\<close>

definition example_inputs :: accumulator where
  "example_inputs = \<lparr>unconstrained_value = fmupd CoinId (Amount 5) fmempty, timelock_constrained = fmupd 10 (Amount 20) fmempty\<rparr>"

definition example_outputs :: accumulator where
  "example_outputs = \<lparr>unconstrained_value = fmupd CoinId (Amount 3) fmempty, timelock_constrained = fmupd 12 (Amount 21) fmempty\<rparr>"

definition example_fee :: accumulator where
  "example_fee = \<lparr>unconstrained_value = fmupd CoinId (Amount 1) fmempty, timelock_constrained = fmupd 10 (Amount 0) fmempty\<rparr>"

lemma example_satisfied: "satisfy_with example_inputs example_outputs = Inr example_fee"
  by (simp add: satisfy_with_def example_inputs_def example_outputs_def example_fee_def
      op_for_each_Cons_eq op_bind_def op_zoom_def decrease_or_def op_read_def op_modify_def op_return_def
      satisfy_timelock_def coin_places_def put_place_def amount_sub_def checked_sub_def less_amount_def amount_ZERO_def from_atoms_def)

lemmas example_defs = example_inputs_def example_outputs_def example_fee_def

theorem satisfy_with_succeeds_iff_witness:
  "12 |\<in>| fmdom (timelock_constrained example_outputs) \<and> available 12 example_outputs \<le> available 12 example_inputs
    \<and> (\<exists>k. satisfy_with example_outputs example_inputs = Inl (Err (AttemptToPrintMoneyOrViolateTimelockConstraints k)))"
proof -
  have "\<not> free_value example_inputs CoinId \<le> free_value example_outputs CoinId"
    by (simp add: free_value_def example_defs amt_def)
  moreover have "12 |\<in>| fmdom (timelock_constrained example_outputs)" by (simp add: example_defs)
  moreover have "\<exists>fee. satisfy_with example_inputs example_outputs = Inr fee" using example_satisfied by blast
  ultimately show ?thesis
    using satisfy_with_succeeds_iff [of example_inputs example_outputs, THEN conjunct1]
      satisfy_with_succeeds_iff [of example_outputs example_inputs] by blast
qed

theorem map_into_block_fees_exact_witness:
  "config_wf example_config \<and> (\<exists>f. map_into_block_fees example_config 7 example_inputs = Inr f \<and> amt f = 25)"
proof -
  have "staking_pool_spend_maturity_block_count example_config 7 = (Inr 10 :: value_error fault + block_count)"
    by (simp add: staking_pool_spend_maturity_block_count_def consensus_status_def version_at_height_def example_config_def)
  moreover have "available 10 example_inputs = 25"
    by (simp add: available_def free_value_def locked_coins_def tsum_upd example_defs amt_def)
  ultimately show ?thesis
    using map_into_block_fees_exact [OF example_config_wf, of 7 example_inputs] example_config_wf by auto
qed

end
