(* ===== verification/ValueFlow.thy ===== *)
theory ValueFlow
  imports ValueSafety
begin

text \<open>
  What a transaction brings and takes, stated without accumulators, and the conservation of every currency
  by a transaction that the accumulators accept.
\<close>

section \<open>Values\<close>

abbreviation held :: "coin_or_token_id \<Rightarrow> int \<Rightarrow> coin_or_token_id \<Rightarrow> int" where
  "held c n k \<equiv> (if k = c then n else 0)"

text \<open>The amount of a currency in an output value; tokens of the first version count as nothing.\<close>

definition value_worth :: "output_value \<Rightarrow> coin_or_token_id \<Rightarrow> int" where
  "value_worth v k = (case v of Coin a \<Rightarrow> held CoinId (amt a) k | TokenV0 _ \<Rightarrow> 0 | TokenV1 i a \<Rightarrow> held (TokenId i) (amt a) k)"

definition fee_worth :: "value_error fault + amount \<Rightarrow> int" where
  "fee_worth r = (case r of Inr a \<Rightarrow> amt a | Inl _ \<Rightarrow> 0)"

definition output_worth :: "chain_config \<Rightarrow> block_height \<Rightarrow> tx_output \<Rightarrow> coin_or_token_id \<Rightarrow> int" where
  "output_worth cfg h out k = (case out of
      Transfer v _ \<Rightarrow> value_worth v k
    | LockThenTransfer v _ _ \<Rightarrow> value_worth v k
    | Burn v \<Rightarrow> value_worth v k
    | Htlc v _ \<Rightarrow> value_worth v k
    | AnyoneCanTake od \<Rightarrow> value_worth (give od) k
    | CreateStakePool _ data \<Rightarrow> held CoinId (amt (pledge data)) k
    | DelegateStaking coins _ \<Rightarrow> held CoinId (amt coins) k
    | IssueFungibleToken _ \<Rightarrow> held CoinId (amt fungible_token_issuance_fee) k
    | IssueNft _ _ _ \<Rightarrow> held CoinId (fee_worth (nft_issuance_fee cfg h)) k
    | DataDeposit _ \<Rightarrow> held CoinId (fee_worth (data_deposit_fee cfg h)) k
    | ProduceBlockFromStake _ _ \<Rightarrow> 0
    | CreateDelegationId _ _ \<Rightarrow> 0)"

text \<open>The coins that an output locks for a number of blocks with a property.\<close>

definition output_locked :: "(u64 \<Rightarrow> bool) \<Rightarrow> tx_output \<Rightarrow> int" where
  "output_locked p out = (case out of
      LockThenTransfer (Coin c) _ (ForBlockCount n) \<Rightarrow> if n \<noteq> 0 \<and> p n then amt c else 0
    | _ \<Rightarrow> 0)"

section \<open>Accumulating\<close>

lemma add_free:
  assumes "on_unconstrained (insert_or_increase c v) a = (Inr u, a')"
  shows "worth a' k = worth a k + held c (amt v) k" and "locked_coins p a' = locked_coins p a"
proof -
  obtain f where f: "insert_or_increase c v (unconstrained_value a) = (Inr u, f)" "a' = a\<lparr>unconstrained_value := f\<rparr>"
    using assms by (auto simp: op_simps)
  show "worth a' k = worth a k + held c (amt v) k" "locked_coins p a' = locked_coins p a"
    using insert_or_increase_mval(1) [OF f(1)] by (simp_all add: f(2) worth_def free_value_def locked_coins_def)
qed

lemma add_locked:
  assumes "on_timelocked (insert_or_increase n v) a = (Inr u, a')"
  shows "worth a' k = worth a k + held CoinId (amt v) k" and "locked_coins p a' = locked_coins p a + (if p n then amt v else 0)"
proof -
  obtain f where f: "insert_or_increase n v (timelock_constrained a) = (Inr u, f)" "a' = a\<lparr>timelock_constrained := f\<rparr>"
    using assms by (auto simp: op_simps)
  show "worth a' k = worth a k + held CoinId (amt v) k" "locked_coins p a' = locked_coins p a + (if p n then amt v else 0)"
    using insert_or_increase_mval(2) [OF f(1)] by (simp_all add: f(2) worth_def free_value_def locked_coins_def)
qed

lemma add_value_worth:
  assumes "add_value v a = (Inr u, a')"
  shows "worth a' k = worth a k + value_worth v k" and "locked_coins p a' = locked_coins p a"
  using assms by (auto simp: add_value_def value_worth_def op_return_eq add_free split: output_value.splits)

lemma process_output_worth:
  assumes "process_output cfg h out a = (Inr u, a')"
  shows "worth a' k = worth a k + output_worth cfg h out k"
    and "locked_coins p a' = locked_coins p a + output_locked p out"
proof -
  show "worth a' k = worth a k + output_worth cfg h out k"
    using assms add_value_worth(1) add_free(1) add_locked(1)
    by (auto simp: process_output_def output_worth_def process_output_timelock_def op_bind_Inr op_read_eq op_return_eq Let_def
        fee_worth_def value_worth_def from_output_value_def value_output_amount_def res_simps
        split: tx_output.splits output_value.splits output_time_lock.splits if_splits)
  show "locked_coins p a' = locked_coins p a + output_locked p out"
    using assms add_value_worth(2) add_free(2) add_locked(2)
    by (auto simp: process_output_def output_locked_def process_output_timelock_def op_bind_Inr op_read_eq op_return_eq Let_def
        split: tx_output.splits output_value.splits output_time_lock.splits if_splits)
qed

lemma for_each_output:
  assumes "op_for_each (process_output cfg h) outs a = (Inr u, a')"
  shows "worth a' k = worth a k + (\<Sum>out \<leftarrow> outs. output_worth cfg h out k)"
    and "locked_coins p a' = locked_coins p a + (\<Sum>out \<leftarrow> outs. output_locked p out)"
  using assms
  by (induction outs arbitrary: a) (auto simp: op_for_each_Cons process_output_worth)

lemma accumulator_new_values [simp]: "worth accumulator_new k = 0" "locked_coins p accumulator_new = 0"
  by (simp_all add: worth_def free_value_def locked_coins_def accumulator_new_def)

lemma from_outputs_worth:
  assumes "from_outputs cfg h outs = Inr a"
  shows "worth a k = (\<Sum>out \<leftarrow> outs. output_worth cfg h out k)"
    and "locked_coins p a = (\<Sum>out \<leftarrow> outs. output_locked p out)"
proof -
  have "op_for_each (process_output cfg h) outs accumulator_new = (Inr (), a)"
    using assms by (auto simp: from_outputs_def split: prod.splits sum.splits)
  from for_each_output [OF this] show "worth a k = (\<Sum>out \<leftarrow> outs. output_worth cfg h out k)"
    "locked_coins p a = (\<Sum>out \<leftarrow> outs. output_locked p out)" by simp_all
qed

section \<open>Inputs\<close>

text \<open>
  What an input brings: the value of the output it spends, the balance of the staker for the output of a pool,
  the amount withdrawn from a delegation or minted. Orders are left out: what they bring depends on their balances.
\<close>

definition input_worth :: "'e pos_view \<Rightarrow> tx_input \<times> tx_output option \<Rightarrow> coin_or_token_id \<Rightarrow> int" where
  "input_worth pos inp k =
    (let pool_worth = (\<lambda>pool. case get_pool_data pos pool of
        Inr (Some p) \<Rightarrow> held CoinId (amt (pledge_amount p) + amt (staker_rewards p)) k
      | _ \<Rightarrow> 0)
    in case inp of
      (Utxo _, Some out) \<Rightarrow> (case out of
          Transfer v _ \<Rightarrow> value_worth v k
        | LockThenTransfer v _ _ \<Rightarrow> value_worth v k
        | Htlc v _ \<Rightarrow> value_worth v k
        | IssueNft token _ _ \<Rightarrow> held (TokenId token) 1 k
        | DelegateStaking coins _ \<Rightarrow> held CoinId (amt coins) k
        | CreateStakePool pool _ \<Rightarrow> pool_worth pool
        | ProduceBlockFromStake _ pool \<Rightarrow> pool_worth pool
        | _ \<Rightarrow> 0)
    | (Account outpoint, _) \<Rightarrow> (case acc_spending outpoint of DelegationBalance _ spend \<Rightarrow> held CoinId (amt spend) k)
    | (AccountCommand _ (MintTokens i minted), _) \<Rightarrow> held (TokenId i) (amt minted) k
    | _ \<Rightarrow> 0)"

text \<open>The coins of an input that must stay locked for a number of blocks with a property.\<close>

definition input_locked :: "chain_config \<Rightarrow> block_height \<Rightarrow> 'e pos_view \<Rightarrow> (u64 \<Rightarrow> bool) \<Rightarrow> tx_input \<times> tx_output option \<Rightarrow> int" where
  "input_locked cfg h pos p inp =
    (case (staking_pool_spend_maturity_block_count cfg h :: value_error fault + block_count) of
      Inr n \<Rightarrow> if n \<noteq> 0 \<and> p n then (case inp of
          (Utxo _, Some (CreateStakePool _ _)) \<Rightarrow> input_worth pos inp CoinId
        | (Utxo _, Some (ProduceBlockFromStake _ _)) \<Rightarrow> input_worth pos inp CoinId
        | (Account _, _) \<Rightarrow> input_worth pos inp CoinId
        | _ \<Rightarrow> 0) else 0
    | Inl _ \<Rightarrow> 0)"

text \<open>The fee of a command.\<close>

definition command_fee :: "chain_config \<Rightarrow> block_height \<Rightarrow> tx_input \<times> tx_output option \<Rightarrow> int" where
  "command_fee cfg h inp = (case inp of
      (AccountCommand _ command, _) \<Rightarrow> (case command of
          MintTokens _ _ \<Rightarrow> fee_worth (token_supply_change_fee cfg h)
        | UnmintTokens _ \<Rightarrow> fee_worth (token_supply_change_fee cfg h)
        | LockTokenSupply _ \<Rightarrow> fee_worth (token_supply_change_fee cfg h)
        | FreezeToken _ _ \<Rightarrow> fee_worth (token_freeze_fee cfg h)
        | UnfreezeToken _ \<Rightarrow> fee_worth (token_freeze_fee cfg h)
        | ChangeTokenAuthority _ _ \<Rightarrow> fee_worth (token_change_authority_fee cfg h)
        | ChangeTokenMetadataUri _ _ \<Rightarrow> amt token_change_metadata_uri_fee
        | _ \<Rightarrow> 0)
    | _ \<Rightarrow> 0)"

definition no_order :: "tx_input \<Rightarrow> bool" where
  "no_order inp = (case inp of
      AccountCommand _ (ConcludeOrder _) \<Rightarrow> False
    | AccountCommand _ (FillOrder _ _ _) \<Rightarrow> False
    | _ \<Rightarrow> True)"

lemma add_maturing_coins_cases:
  assumes "add_maturing_coins cfg h c a = (Inr u, a')"
  obtains n where "staking_pool_spend_maturity_block_count cfg h = (Inr n :: value_error fault + block_count)"
    "if n \<noteq> 0 then on_timelocked (insert_or_increase n c) a = (Inr u, a')
     else on_unconstrained (insert_or_increase CoinId c) a = (Inr u, a')"
  using assms
  by (auto simp: add_maturing_coins_def insert_or_increase_def op_simps res_simps split: if_splits)

lemma add_maturing_coins_worth:
  assumes "add_maturing_coins cfg h c a = (Inr u, a')"
  shows "worth a' k = worth a k + held CoinId (amt c) k"
    and "locked_coins p a' = locked_coins p a
      + (case (staking_pool_spend_maturity_block_count cfg h :: value_error fault + block_count) of
          Inr n \<Rightarrow> if n \<noteq> 0 \<and> p n then amt c else 0 | Inl _ \<Rightarrow> 0)"
proof -
  obtain n where n: "staking_pool_spend_maturity_block_count cfg h = (Inr n :: value_error fault + block_count)"
    "if n \<noteq> 0 then on_timelocked (insert_or_increase n c) a = (Inr u, a')
     else on_unconstrained (insert_or_increase CoinId c) a = (Inr u, a')"
    using assms by (rule add_maturing_coins_cases)
  show "worth a' k = worth a k + held CoinId (amt c) k"
    using n(2) add_locked(1) add_free(1) by (auto split: if_splits)
  show "locked_coins p a' = locked_coins p a
      + (case (staking_pool_spend_maturity_block_count cfg h :: value_error fault + block_count) of
          Inr n \<Rightarrow> if n \<noteq> 0 \<and> p n then amt c else 0 | Inl _ \<Rightarrow> 0)"
    using n(2) add_locked(2) add_free(2) by (auto simp: n(1) split: if_splits)
qed

lemma staker_balance_amt: "staker_balance p = Inr b \<Longrightarrow> amt b = amt (pledge_amount p) + amt (staker_rewards p)"
  by (simp add: staker_balance_def res_simps amount_simps)

lemma process_input_utxo_worth:
  assumes "process_input_utxo cfg h view outpoint out a = (Inr u, a')"
    and "\<And>pool d. get_pool_data view pool = Inr d \<Longrightarrow> get_pool_data pos pool = Inr d"
  shows "worth a' k = worth a k + input_worth pos (Utxo outpoint, Some out) k"
    and "locked_coins p a' = locked_coins p a + input_locked cfg h pos p (Utxo outpoint, Some out)"
proof -
  have pool: "worth a' k = worth a k + (case get_pool_data pos pool of
        Inr (Some d) \<Rightarrow> held CoinId (amt (pledge_amount d) + amt (staker_rewards d)) k | _ \<Rightarrow> 0)
      \<and> locked_coins p a' = locked_coins p a
      + (case (staking_pool_spend_maturity_block_count cfg h :: value_error fault + block_count) of
          Inr n \<Rightarrow> if n \<noteq> 0 \<and> p n then (case get_pool_data pos pool of
            Inr (Some d) \<Rightarrow> amt (pledge_amount d) + amt (staker_rewards d) | _ \<Rightarrow> 0) else 0 | Inl _ \<Rightarrow> 0)"
    if o: "out = CreateStakePool pool data \<or> out = ProduceBlockFromStake dest pool" for pool data dest
  proof -
    obtain d b where d: "get_pool_data view pool = Inr (Some d)" "staker_balance d = Inr b"
        "add_maturing_coins cfg h b a = (Inr u, a')"
      using assms(1) o
      by (auto simp: process_input_utxo_def op_simps res_simps split: option.splits)
    have "get_pool_data pos pool = Inr (Some d)" using assms(2) d(1) by blast
    then show ?thesis
      using add_maturing_coins_worth [OF d(3)] staker_balance_amt [OF d(2)] by (auto split: sum.splits)
  qed
  show "worth a' k = worth a k + input_worth pos (Utxo outpoint, Some out) k"
  proof (cases out)
    case (CreateStakePool pool data)
    then show ?thesis using pool [of pool] by (simp add: input_worth_def)
  next
    case (ProduceBlockFromStake dest pool)
    then show ?thesis using pool [of pool] by (simp add: input_worth_def)
  qed (use assms(1) in \<open>auto simp: process_input_utxo_def input_worth_def add_value_worth(1) add_free(1) op_fail_eq
      from_atoms_def amt_def\<close>)
  show "locked_coins p a' = locked_coins p a + input_locked cfg h pos p (Utxo outpoint, Some out)"
  proof (cases out)
    case (CreateStakePool pool data)
    then show ?thesis using pool [of pool] by (auto simp: input_locked_def input_worth_def split: sum.splits option.splits)
  next
    case (ProduceBlockFromStake dest pool)
    then show ?thesis using pool [of pool] by (auto simp: input_locked_def input_worth_def split: sum.splits option.splits)
  qed (use assms(1) in \<open>auto simp: process_input_utxo_def input_locked_def add_value_worth(2) add_free(2) op_fail_eq
      split: sum.splits\<close>)
qed

lemma spend_share_keeps_pool_data:
  "spend_share_from_delegation_id pos i c d = (Inr u, d') \<Longrightarrow> pool_data d' = pool_data d"
  by (auto simp: spend_share_from_delegation_id_def Let_def op_simps split: if_splits)

lemma process_input_account_worth:
  assumes "process_input_account cfg h pos (acc_spending outpoint) s = (Inr u, s')"
  shows "worth (acc s') k = worth (acc s) k + input_worth pos (Account outpoint, utxo) k"
    and "locked_coins p (acc s') = locked_coins p (acc s) + input_locked cfg h pos p (Account outpoint, utxo)"
    and "total_to_deduct s' = total_to_deduct s" and "pool_data (temp_pos s') = pool_data (temp_pos s)"
proof -
  obtain i c where c: "acc_spending outpoint = DelegationBalance i c" by (cases "acc_spending outpoint")
  then obtain v d a where d: "spend_share_from_delegation_id pos i c (temp_pos s) = (Inr v, d)"
      "add_maturing_coins cfg h c (acc s) = (Inr u, a)" "s' = s\<lparr>temp_pos := d, acc := a\<rparr>"
    using assms by (auto simp: process_input_account_def op_simps)
  show "worth (acc s') k = worth (acc s) k + input_worth pos (Account outpoint, utxo) k"
    "locked_coins p (acc s') = locked_coins p (acc s) + input_locked cfg h pos p (Account outpoint, utxo)"
    "total_to_deduct s' = total_to_deduct s" "pool_data (temp_pos s') = pool_data (temp_pos s)"
    using add_maturing_coins_worth [OF d(2)] spend_share_keeps_pool_data [OF d(1)]
    by (auto simp: d(3) c input_worth_def input_locked_def split: sum.splits)
qed

lemma process_command_worth:
  assumes "process_input_account_command cfg h orders tokens command s = (Inr (c, f), s')"
    and "no_order (AccountCommand nonce command)"
  shows "worth (acc s') k = worth (acc s) k + input_worth pos (AccountCommand nonce command, utxo) k"
    and "locked_coins p (acc s') = locked_coins p (acc s)"
    and "total_to_deduct s' = total_to_deduct s" and "pool_data (temp_pos s') = pool_data (temp_pos s)"
    and "c = CoinId \<and> amt f = command_fee cfg h (AccountCommand nonce command, utxo)"
proof -
  have mint: "worth (acc s') k = worth (acc s) k + held (TokenId i) (amt n) k \<and> locked_coins p (acc s') = locked_coins p (acc s)
      \<and> total_to_deduct s' = total_to_deduct s \<and> pool_data (temp_pos s') = pool_data (temp_pos s)
      \<and> c = CoinId \<and> token_supply_change_fee cfg h = (Inr f :: value_error fault + amount)"
    if m: "mint_input cfg h tokens i n s = (Inr (c, f), s')" for i n
  proof -
    obtain d a where "on_unconstrained (insert_or_increase (TokenId i) n) (acc s) = (Inr (), a)" "c = CoinId"
      "s' = s\<lparr>temp_tokens := d, acc := a\<rparr>" "token_supply_change_fee cfg h = (Inr f :: value_error fault + amount)"
      using m by (auto simp: mint_input_def op_simps)
    then show ?thesis using add_free by auto
  qed
  show "worth (acc s') k = worth (acc s) k + input_worth pos (AccountCommand nonce command, utxo) k"
    "locked_coins p (acc s') = locked_coins p (acc s)"
    "total_to_deduct s' = total_to_deduct s" "pool_data (temp_pos s') = pool_data (temp_pos s)"
    "c = CoinId \<and> amt f = command_fee cfg h (AccountCommand nonce command, utxo)"
    using assms mint
    by (auto simp: process_input_account_command_def Let_def op_bind_Inr op_read_eq op_return_eq
        no_order_def input_worth_def command_fee_def fee_worth_def split: account_command.splits)
qed

lemma process_input_worth:
  assumes "process_input cfg h orders pos tokens (inp, utxo) s = (Inr u, s')"
    and "no_order inp" and "pool_data (temp_pos s) = fmempty"
  shows "worth (acc s') k = worth (acc s) k + input_worth pos (inp, utxo) k"
    and "locked_coins p (acc s') = locked_coins p (acc s) + input_locked cfg h pos p (inp, utxo)"
    and "mval (total_to_deduct s') k = mval (total_to_deduct s) k + held CoinId (command_fee cfg h (inp, utxo)) k"
    and "pool_data (temp_pos s') = fmempty"
proof -
  have "worth (acc s') k = worth (acc s) k + input_worth pos (inp, utxo) k
    \<and> locked_coins p (acc s') = locked_coins p (acc s) + input_locked cfg h pos p (inp, utxo)
    \<and> mval (total_to_deduct s') k = mval (total_to_deduct s) k + held CoinId (command_fee cfg h (inp, utxo)) k
    \<and> pool_data (temp_pos s') = fmempty"
  proof (cases inp)
    case (Utxo outpoint)
    have view: "get_pool_data (delta_view pos (temp_pos s)) pool = Inr d \<Longrightarrow> get_pool_data pos pool = Inr d" for pool d
      by (simp add: delta_view_def delta_get_pool_data_def get_data_def assms(3) res_simps)
    obtain out a where out: "utxo = Some out"
        "process_input_utxo cfg h (delta_view pos (temp_pos s)) outpoint out (acc s) = (Inr u, a)" "s' = s\<lparr>acc := a\<rparr>"
      using assms(1) by (auto simp: process_input_def Utxo op_simps res_simps)
    show ?thesis
      using process_input_utxo_worth [OF out(2) view] assms(3) by (simp add: out Utxo command_fee_def)
  next
    case (Account outpoint)
    then have "process_input_account cfg h pos (acc_spending outpoint) s = (Inr u, s')"
      using assms(1) by (simp add: process_input_def)
    from process_input_account_worth [OF this] assms(3) show ?thesis by (simp add: Account command_fee_def)
  next
    case (AccountCommand nonce command)
    then obtain c f t m where c: "process_input_account_command cfg h orders tokens command s = (Inr (c, f), t)"
        "insert_or_increase c f (total_to_deduct t) = (Inr u, m)" "s' = t\<lparr>total_to_deduct := m\<rparr>"
      using assms(1) by (auto simp: process_input_def op_simps)
    have "no_order (AccountCommand nonce command)" using assms(2) AccountCommand by simp
    note step = process_command_worth [OF c(1) this]
    show ?thesis
      using step(1) [where pos = pos and utxo = utxo and k = k] step(2) [where p = p] step(3,4) step(5) [where utxo = utxo]
        insert_or_increase_mval(1) [OF c(2)] assms(3)
      by (auto simp: AccountCommand c(3) input_locked_def split: sum.splits)
  qed
  then show "worth (acc s') k = worth (acc s) k + input_worth pos (inp, utxo) k"
    "locked_coins p (acc s') = locked_coins p (acc s) + input_locked cfg h pos p (inp, utxo)"
    "mval (total_to_deduct s') k = mval (total_to_deduct s) k + held CoinId (command_fee cfg h (inp, utxo)) k"
    "pool_data (temp_pos s') = fmempty" by blast+
qed

lemma for_each_input:
  assumes "op_for_each (process_input cfg h orders pos tokens) xs s = (Inr u, s')"
    and "\<forall>x \<in> set xs. no_order (fst x)" and "pool_data (temp_pos s) = fmempty"
  shows "worth (acc s') k = worth (acc s) k + (\<Sum>x \<leftarrow> xs. input_worth pos x k)
    \<and> locked_coins p (acc s') = locked_coins p (acc s) + (\<Sum>x \<leftarrow> xs. input_locked cfg h pos p x)
    \<and> mval (total_to_deduct s') k = mval (total_to_deduct s) k + held CoinId (\<Sum>x \<leftarrow> xs. command_fee cfg h x) k"
  using assms
proof (induction xs arbitrary: s)
  case (Cons x xs)
  obtain inp utxo where x: "x = (inp, utxo)" by (cases x)
  from Cons.prems(1) obtain v t where t: "process_input cfg h orders pos tokens (inp, utxo) s = (Inr v, t)"
      "op_for_each (process_input cfg h orders pos tokens) xs t = (Inr u, s')"
    by (auto simp: op_for_each_Cons x)
  have "no_order inp" using Cons.prems(2) by (simp add: x)
  note step = process_input_worth [OF t(1) this Cons.prems(3)]
  show ?case
    using Cons.IH [OF t(2)] step(4) Cons.prems(2) step(1) [of k] step(2) [of p] step(3) [of k] by (simp add: x)
qed simp

lemma from_inputs_worth:
  assumes "from_inputs cfg h orders pos tokens ins utxos = Inr a" and "\<forall>inp \<in> set ins. no_order inp"
  shows "worth a k = (\<Sum>x \<leftarrow> zip ins utxos. input_worth pos x k) - held CoinId (\<Sum>x \<leftarrow> zip ins utxos. command_fee cfg h x) k"
    and "locked_coins p a = (\<Sum>x \<leftarrow> zip ins utxos. input_locked cfg h pos p x)"
proof -
  let ?xs = "zip ins utxos"
  let ?e = "\<lambda>_. AttemptToViolateFeeRequirements"
  have step: "(\<lambda>(currency, amount). on_acc (on_unconstrained (decrease_or currency amount AttemptToViolateFeeRequirements)))
      = (\<lambda>x. on_acc (deduct ?e x))"
    by (simp add: fun_eq_iff split_paired_all)
  have zoom: "op_for_each (\<lambda>x. on_acc (deduct ?e x)) ys = on_acc (op_for_each (deduct ?e) ys)" for ys
    by (rule op_for_each_zoom) simp_all
  obtain s where s: "op_for_each (process_input cfg h orders pos tokens) ?xs input_state_new = (Inr (), s)"
    and d: "op_for_each (deduct ?e) (sorted_list_of_fmap (total_to_deduct s)) (acc s) = (Inr (), a)"
    using assms(1) unfolding from_inputs_def step zoom
    by (auto simp: op_bind_Inr op_read_eq op_zoom_eq split: if_splits prod.splits sum.splits)
  have "\<forall>x \<in> set ?xs. no_order (fst x)" using assms(2) by (auto dest: set_zip_leftD)
  note loop = for_each_input [OF s this]
  have free: "free_value a c = free_value (acc s) c - mval (total_to_deduct s) c" "timelock_constrained a = timelock_constrained (acc s)" for c
    using deduct_all(2) [OF distinct_sorted_list_of_fmap d] by (simp_all add: sorted_list_mval)
  show "worth a k = (\<Sum>x \<leftarrow> ?xs. input_worth pos x k) - held CoinId (\<Sum>x \<leftarrow> ?xs. command_fee cfg h x) k"
  proof -
    have "worth a k = worth (acc s) k - mval (total_to_deduct s) k"
      using locked_coins_eq [OF free(2)] by (simp add: worth_def free(1))
    with loop [of k] show ?thesis by (simp add: input_state_new_def pos_delta_data_new_def)
  qed
  show "locked_coins p a = (\<Sum>x \<leftarrow> ?xs. input_locked cfg h pos p x)"
    using loop [of k p] locked_coins_eq [OF free(2)] by (simp add: input_state_new_def pos_delta_data_new_def)
qed

section \<open>Transactions\<close>

text \<open>
  C26: no money is printed: when the accumulators accept a transaction without orders, what its inputs bring of a
  currency is exactly what its outputs take, the fees of its commands and the accumulated fee.
\<close>

theorem transaction_conserves_value:
  assumes "from_inputs cfg h orders pos tokens ins utxos = Inr inputs_acc"
    and "from_outputs cfg h outs = Inr outputs_acc"
    and "satisfy_with inputs_acc outputs_acc = Inr fee"
    and "\<forall>inp \<in> set ins. no_order inp"
  shows "(\<Sum>x \<leftarrow> zip ins utxos. input_worth pos x k) =
    (\<Sum>out \<leftarrow> outs. output_worth cfg h out k) + held CoinId (\<Sum>x \<leftarrow> zip ins utxos. command_fee cfg h x) k + worth fee k"
  using from_inputs_worth(1) [OF assms(1,4), of k] from_outputs_worth(1) [OF assms(2), of k]
    satisfy_with_conserves [OF assms(3), of k] by simp

text \<open>
  C27: coins withdrawn from pools and delegations stay locked when the accumulators accept a transaction without commands on
  orders (concluding or filling one). For every number of blocks, the withdrawn coins
  that must stay locked at least so long are in outputs locked at least so long, or are left as a
  fee under that constraint.
\<close>

theorem transaction_respects_maturity:
  assumes "from_inputs cfg h orders pos tokens ins utxos = Inr inputs_acc"
    and "from_outputs cfg h outs = Inr outputs_acc"
    and "satisfy_with inputs_acc outputs_acc = Inr fee"
    and "\<forall>inp \<in> set ins. no_order inp"
  shows "(\<Sum>x \<leftarrow> zip ins utxos. input_locked cfg h pos (\<lambda>k. n \<le> k) x) \<le>
    (\<Sum>out \<leftarrow> outs. output_locked (\<lambda>k. n \<le> k) out) + locked_coins (\<lambda>k. n \<le> k) fee"
  using from_inputs_worth(2) [OF assms(1,4)] from_outputs_worth(2) [OF assms(2)]
    satisfy_with_respects_timelocks [OF assms(3), of n] by simp

section \<open>Example\<close>

text \<open>
  A transaction that spends five coins and the output of a pool with twenty coins, transfers three coins and
  locks twenty-one for twelve blocks; one coin is left as a fee.
\<close>

definition example_pos :: "pos_error pos_view" where
  "example_pos = \<lparr>pool_exists = (\<lambda>_. Inr True), get_pool_balance = (\<lambda>_. Inr (Amount 20)),
    get_pool_data = (\<lambda>_. Inr (Some \<lparr>decommission_destination = AnyoneCanSpend, pledge_amount = Amount 15,
      staker_rewards = Amount 5, vrf_public_key = [], margin_ratio_per_thousand = PerThousand 0, cost_per_block = amount_ZERO\<rparr>)),
    get_pool_delegations_shares = (\<lambda>_. Inr None), get_delegation_balance = (\<lambda>_. Inr amount_ZERO),
    get_delegation_data = (\<lambda>_. Inr None), get_pool_delegation_share = (\<lambda>_ _. Inr amount_ZERO)\<rparr>"

definition example_orders :: "order_error orders_view" where
  "example_orders = \<lparr>get_order_data = (\<lambda>_. Inr None), get_ask_balance = (\<lambda>_. Inr amount_ZERO),
    get_give_balance = (\<lambda>_. Inr amount_ZERO)\<rparr>"

definition example_tokens :: "token_error tokens_view" where
  "example_tokens = \<lparr>get_token_data = (\<lambda>_. Inr None), get_circulating_supply = (\<lambda>_. Inr amount_ZERO)\<rparr>"

definition example_ins :: "tx_input list" where
  "example_ins = [Utxo (UtxoOutPoint (SourceTransaction 3) 0), Utxo (UtxoOutPoint (SourceTransaction 3) 1)]"

definition example_utxos :: "tx_output option list" where
  "example_utxos = [Some (Transfer (Coin (Amount 5)) AnyoneCanSpend), Some (ProduceBlockFromStake AnyoneCanSpend 7)]"

definition example_outs :: "tx_output list" where
  "example_outs = [Transfer (Coin (Amount 3)) AnyoneCanSpend, LockThenTransfer (Coin (Amount 21)) AnyoneCanSpend (ForBlockCount 12)]"

lemma example_maturity: "staking_pool_spend_maturity_block_count example_config 7 = (Inr 10 :: 'e fault + block_count)"
  by (simp add: staking_pool_spend_maturity_block_count_def consensus_status_def version_at_height_def example_config_def)

lemmas op_eval = op_for_each_Cons_eq op_bind_def op_zoom_def op_read_def op_modify_def op_return_def

lemma example_from_inputs:
  "from_inputs example_config 7 example_orders example_pos example_tokens example_ins example_utxos = Inr example_inputs"
  by (simp add: from_inputs_def example_ins_def example_utxos_def process_input_def process_input_utxo_def example_pos_def
      delta_view_def delta_get_pool_data_def get_data_def staker_balance_def add_maturing_coins_def example_maturity
      insert_or_increase_def add_value_def input_state_new_def accumulator_new_def pos_delta_data_new_def
      amount_add_def checked_add_def amount_ZERO_def from_atoms_def example_inputs_def op_eval)

lemma example_from_outputs: "from_outputs example_config 7 example_outs = Inr example_outputs"
  by (simp add: from_outputs_def example_outs_def process_output_def process_output_timelock_def add_value_def
      insert_or_increase_def accumulator_new_def amount_add_def checked_add_def amount_ZERO_def from_atoms_def
      example_outputs_def op_eval)

lemma example_no_order: "\<forall>inp \<in> set example_ins. no_order inp"
  by (simp add: example_ins_def no_order_def)

lemmas example_worths = example_ins_def example_utxos_def example_outs_def input_worth_def input_locked_def output_worth_def
  output_locked_def value_worth_def command_fee_def example_pos_def example_maturity amt_def

theorem transaction_conserves_value_witness:
  "(\<Sum>x \<leftarrow> zip example_ins example_utxos. input_worth example_pos x CoinId) = 25
    \<and> (\<Sum>out \<leftarrow> example_outs. output_worth example_config 7 out CoinId) = 24 \<and> worth example_fee CoinId = 1"
  using transaction_conserves_value [OF example_from_inputs example_from_outputs example_satisfied example_no_order, of CoinId]
  by (simp add: example_worths)

theorem transaction_respects_maturity_witness:
  "(\<Sum>x \<leftarrow> zip example_ins example_utxos. input_locked example_config 7 example_pos (\<lambda>k. 10 \<le> k) x) = 20
    \<and> (20 :: int) \<le> (\<Sum>out \<leftarrow> example_outs. output_locked (\<lambda>k. 10 \<le> k) out) + locked_coins (\<lambda>k. 10 \<le> k) example_fee"
  using transaction_respects_maturity [OF example_from_inputs example_from_outputs example_satisfied example_no_order, of 10]
  by (simp add: example_worths)

end
