(* ===== verification/Uint.thy ===== *)
theory Uint
  imports Amounts
begin

text \<open>
  The big unsigned integers of \<open>common/src/uint\<close>: little-endian arrays of 64-bit words (limbs). The macro
  \<open>construct_uint\<close> is instantiated with 2, 4 and 8 words; here the number of words is the length of
  the list. Every \<open>assert\<close> and every checked machine operation that can fail is a panic.
\<close>

unbundle bit_operations_syntax

type_synonym limbs = "u64 list"

datatype cmp_ordering = Less | Equal | Greater

text \<open>Loops with a state and early exit by a panic.\<close>

fun res_fold :: "('x \<Rightarrow> 's \<Rightarrow> 'e + 's) \<Rightarrow> 'x list \<Rightarrow> 's \<Rightarrow> 'e + 's" where
  "res_fold f [] s = Inr s"
| "res_fold f (x # xs) s = res_bind (f x s) (res_fold f xs)"

section \<open>Standard operations on words\<close>

definition leading_zeros :: "'l::len word \<Rightarrow> nat" where
  "leading_zeros w = length (takeWhile (\<lambda>i. \<not> bit w i) (rev [0..<LENGTH('l)]))"

definition word_trailing_zeros :: "'l::len word \<Rightarrow> nat" where
  "word_trailing_zeros w = length (takeWhile (\<lambda>i. \<not> bit w i) [0..<LENGTH('l)])"

definition overflowing_add_u64 :: "u64 \<Rightarrow> u64 \<Rightarrow> u64 \<times> bool" where
  "overflowing_add_u64 a b = (a + b, 2 ^ 64 \<le> uint a + uint b)"

section \<open>Construction\<close>

definition uint_from_u64 :: "nat \<Rightarrow> u64 \<Rightarrow> limbs" where
  "uint_from_u64 n init = (replicate n 0)[0 := init]"

definition uint_ZERO :: "nat \<Rightarrow> limbs" where
  "uint_ZERO n = uint_from_u64 n 0"

definition uint_ONE :: "nat \<Rightarrow> limbs" where
  "uint_ONE n = uint_from_u64 n 1"

definition uint_MAX :: "nat \<Rightarrow> limbs" where
  "uint_MAX n = replicate n (- 1)"

definition uint_from_u128 :: "nat \<Rightarrow> u128 \<Rightarrow> limbs" where
  "uint_from_u128 n init = (replicate n 0)[0 := ucast init, 1 := ucast (drop_bit 64 init)]"

definition uint_from_amount :: "nat \<Rightarrow> amount \<Rightarrow> limbs" where
  "uint_from_amount n init = uint_from_u128 n (into_atoms init)"

definition low_u32 :: "limbs \<Rightarrow> u32" where
  "low_u32 self = ucast (self ! 0)"

definition low_u64 :: "limbs \<Rightarrow> u64" where
  "low_u64 self = self ! 0"

definition uint_bits :: "limbs \<Rightarrow> nat" where
  "uint_bits arr = (let n = length arr in
    case List.find (\<lambda>i. arr ! (n - i) > 0) [1..<n] of
      Some i \<Rightarrow> 0x40 * (n - i + 1) - leading_zeros (arr ! (n - i))
    | None \<Rightarrow> 0x40 - leading_zeros (arr ! 0))"

section \<open>Addition, subtraction and comparison\<close>

fun overflowing_add_with_carry :: "limbs \<Rightarrow> limbs \<Rightarrow> bool \<Rightarrow> limbs \<times> bool" where
  "overflowing_add_with_carry (l # lhs) (r # rhs) carry =
    (let (ab, ab_c) = overflowing_add_u64 l r;
         (abc, abc_c) = overflowing_add_u64 ab (of_bool carry);
         (ret, c) = overflowing_add_with_carry lhs rhs (ab_c \<or> abc_c)
     in (abc # ret, c))"
| "overflowing_add_with_carry _ _ carry = ([], carry)"

definition uint_overflowing_add :: "limbs \<Rightarrow> limbs \<Rightarrow> limbs \<times> bool" where
  "uint_overflowing_add self other = overflowing_add_with_carry self other False"

definition uint_not :: "limbs \<Rightarrow> limbs" where
  "uint_not arr = map (\<lambda>w. NOT w) arr"

definition unchecked_sub :: "limbs \<Rightarrow> limbs \<Rightarrow> limbs" where
  "unchecked_sub self other =
    (let a = fst (uint_overflowing_add self (uint_not other))
     in fst (uint_overflowing_add a (uint_ONE (length self))))"

fun cmp_words :: "(u64 \<times> u64) list \<Rightarrow> cmp_ordering" where
  "cmp_words [] = Equal"
| "cmp_words ((a, b) # rest) = (if a < b then Less else if a > b then Greater else cmp_words rest)"

definition uint_cmp :: "limbs \<Rightarrow> limbs \<Rightarrow> cmp_ordering" where
  "uint_cmp self other = cmp_words (rev (zip self other))"

definition uint_checked_add :: "limbs \<Rightarrow> limbs \<Rightarrow> limbs option" where
  "uint_checked_add self other =
    (let (result, carry) = uint_overflowing_add self other in if \<not> carry then Some result else None)"

definition uint_checked_sub :: "limbs \<Rightarrow> limbs \<Rightarrow> limbs option" where
  "uint_checked_sub self other = (if uint_cmp self other \<noteq> Less then Some (unchecked_sub self other) else None)"

section \<open>Multiplication\<close>

text \<open>The loop over the limbs with the carry; the last component is the final carry.\<close>

fun mul_limbs :: "u64 \<Rightarrow> limbs \<Rightarrow> u64 \<Rightarrow> 'e fault + limbs \<times> u64" where
  "mul_limbs rhs [] carry = Inr ([], carry)"
| "mul_limbs rhs (l # lhs) carry =
    (let U64_MAX = 0xFFFFFFFFFFFFFFFF :: u128 in
     if \<not> carry < - 1 then Inl Panic else
     res_bind (expect (checked_mul (ucast l :: u128) (ucast rhs))) (\<lambda>prod.
     if \<not> prod \<le> U64_MAX * U64_MAX then Inl Panic else
     res_bind (expect (checked_add prod (ucast carry))) (\<lambda>prod.
     if \<not> prod < U64_MAX * U64_MAX + U64_MAX then Inl Panic else
     map_ok (\<lambda>(res, c). (ucast prod # res, c)) (mul_limbs rhs lhs (ucast (drop_bit 64 prod))))))"

definition widening_mul_u64 :: "limbs \<Rightarrow> u64 \<Rightarrow> 'e fault + limbs \<times> u64" where
  "widening_mul_u64 self rhs = mul_limbs rhs self 0"

definition mul_u32 :: "limbs \<Rightarrow> u32 \<Rightarrow> 'e fault + limbs" where
  "mul_u32 self other = map_ok fst (widening_mul_u64 self (ucast other))"

definition shr_words :: "limbs \<Rightarrow> nat \<Rightarrow> limbs" where
  "shr_words self n = drop n self @ replicate (length self - length (drop n self)) 0"

definition shl_words :: "limbs \<Rightarrow> nat \<Rightarrow> limbs" where
  "shl_words self n = replicate (length self - length (take (length self - n) self)) 0 @ take (length self - n) self"

definition widening_mul_step :: "limbs \<Rightarrow> nat \<times> u64 \<Rightarrow> limbs \<times> limbs \<Rightarrow> 'e fault + limbs \<times> limbs" where
  "widening_mul_step self = (\<lambda>(i, rhs_i) (res_lo, res_hi).
    res_bind (widening_mul_u64 self rhs_i) (\<lambda>(res_i, carry_mul).
    let lo = shl_words res_i i;
        hi = (shr_words res_i (length self - i))[i := carry_mul];
        (res_lo_new, carry0) = uint_overflowing_add res_lo lo;
        (res_hi_new, carry1) = overflowing_add_with_carry res_hi hi carry0
    in if carry1 then Inl Panic else Inr (res_lo_new, res_hi_new)))"

definition widening_mul :: "limbs \<Rightarrow> limbs \<Rightarrow> 'e fault + limbs \<times> limbs" where
  "widening_mul self other =
    res_fold (widening_mul_step self) (List.enumerate 0 other) (replicate (length self) 0, replicate (length self) 0)"

definition uint_checked_mul :: "limbs \<Rightarrow> limbs \<Rightarrow> 'e fault + limbs option" where
  "uint_checked_mul self other =
    map_ok (\<lambda>(res, res_hi). if res_hi = uint_ZERO (length self) then Some res else None) (widening_mul self other)"

section \<open>Shifts\<close>

text \<open>\<open>ret[k] += v\<close>, with the overflow check.\<close>

definition add_at :: "nat \<Rightarrow> u64 \<Rightarrow> limbs \<Rightarrow> 'e fault + limbs" where
  "add_at k v ret = map_ok (\<lambda>w. ret[k := w]) (expect (checked_add (ret ! k) v))"

definition uint_shl :: "limbs \<Rightarrow> nat \<Rightarrow> 'e fault + limbs" where
  "uint_shl original shift =
    (let n = length original; word_shift = shift div 64; bit_shift = shift mod 64 in
     res_fold (\<lambda>i ret.
       res_bind (if bit_shift < 64 \<and> i + word_shift < n then add_at (i + word_shift) (push_bit bit_shift (original ! i)) ret
         else Inr ret) (\<lambda>ret.
       if bit_shift > 0 \<and> i + word_shift + 1 < n then add_at (i + word_shift + 1) (drop_bit (64 - bit_shift) (original ! i)) ret
       else Inr ret))
     [0..<n] (replicate n 0))"

definition uint_shr :: "limbs \<Rightarrow> nat \<Rightarrow> 'e fault + limbs" where
  "uint_shr original shift =
    (let n = length original; word_shift = shift div 64; bit_shift = shift mod 64 in
     res_fold (\<lambda>i ret.
       res_bind (add_at (i - word_shift) (drop_bit bit_shift (original ! i)) ret) (\<lambda>ret.
       if bit_shift > 0 \<and> i < n - 1 then add_at (i - word_shift) (push_bit (64 - bit_shift) (original ! (i + 1))) ret
       else Inr ret))
     [word_shift..<n] (replicate n 0))"

section \<open>Division\<close>

text \<open>The loop of the bitwise long division; it ends because \<open>shift\<close> decreases.\<close>

primrec div_loop :: "nat \<Rightarrow> limbs \<Rightarrow> limbs \<Rightarrow> limbs \<Rightarrow> 'e fault + limbs \<times> limbs" where
  "div_loop 0 ret sub_copy shift_copy =
    (let (ret, sub_copy) = (if uint_cmp sub_copy shift_copy \<noteq> Less
       then (ret[0 := ret ! 0 OR 1], unchecked_sub sub_copy shift_copy) else (ret, sub_copy))
     in map_ok (\<lambda>_. (ret, sub_copy)) (uint_shr shift_copy 1))"
| "div_loop (Suc s) ret sub_copy shift_copy =
    (let (ret, sub_copy) = (if uint_cmp sub_copy shift_copy \<noteq> Less
       then (ret[Suc s div 64 := ret ! (Suc s div 64) OR push_bit (Suc s mod 64) 1], unchecked_sub sub_copy shift_copy)
       else (ret, sub_copy))
     in res_bind (uint_shr shift_copy 1) (div_loop s ret sub_copy))"

definition div_rem :: "limbs \<Rightarrow> limbs \<Rightarrow> 'e fault + limbs \<times> limbs" where
  "div_rem self other =
    (let ret = replicate (length self) 0; my_bits = uint_bits self; your_bits = uint_bits other in
     if your_bits = 0 then Inl Panic
     else if my_bits < your_bits then Inr (ret, self)
     else res_bind (uint_shl other (my_bits - your_bits)) (div_loop (my_bits - your_bits) ret self))"

definition uint_checked_div :: "limbs \<Rightarrow> limbs \<Rightarrow> 'e fault + limbs option" where
  "uint_checked_div self other =
    (if other \<noteq> uint_ZERO (length self) then map_ok (\<lambda>r. Some (fst r)) (div_rem self other) else Inr None)"

definition uint_checked_rem :: "limbs \<Rightarrow> limbs \<Rightarrow> 'e fault + limbs option" where
  "uint_checked_rem self other =
    (if other \<noteq> uint_ZERO (length self) then map_ok (\<lambda>r. Some (snd r)) (div_rem self other) else Inr None)"

section \<open>Bits\<close>

definition uint_bit :: "limbs \<Rightarrow> nat \<Rightarrow> 'e fault + bool" where
  "uint_bit arr index =
    (if index div 64 < length arr then Inr (arr ! (index div 64) AND push_bit (index mod 64) 1 \<noteq> 0) else Inl Panic)"

text \<open>The loop of \<open>mask\<close> ends at the first limb that is not kept whole.\<close>

fun mask_limbs :: "nat \<Rightarrow> limbs \<Rightarrow> limbs" where
  "mask_limbs n [] = []"
| "mask_limbs n (w # ws) =
    (if 0x40 \<le> n then w # mask_limbs (n - 0x40) ws else (w AND (push_bit n 1 - 1)) # replicate (length ws) 0)"

definition uint_mask :: "limbs \<Rightarrow> nat \<Rightarrow> limbs" where
  "uint_mask arr n = mask_limbs n arr"

definition bit_slice :: "limbs \<Rightarrow> nat \<Rightarrow> nat \<Rightarrow> 'e fault + limbs" where
  "bit_slice self start stop =
    res_bind (uint_shr self start) (\<lambda>shifted. if start \<le> stop then Inr (uint_mask shifted (stop - start)) else Inl Panic)"

definition uint_trailing_zeros :: "limbs \<Rightarrow> nat" where
  "uint_trailing_zeros arr = (case List.find (\<lambda>i. arr ! i > 0) [0..<length arr - 1] of
      Some i \<Rightarrow> 0x40 * i + word_trailing_zeros (arr ! i)
    | None \<Rightarrow> 0x40 * (length arr - 1) + word_trailing_zeros (arr ! (length arr - 1)))"

definition uint_bitand :: "limbs \<Rightarrow> limbs \<Rightarrow> limbs" where
  "uint_bitand a b = map2 (\<lambda>x y. x AND y) a b"

definition uint_bitxor :: "limbs \<Rightarrow> limbs \<Rightarrow> limbs" where
  "uint_bitxor a b = map2 (\<lambda>x y. x XOR y) a b"

definition uint_bitor :: "limbs \<Rightarrow> limbs \<Rightarrow> limbs" where
  "uint_bitor a b = map2 (\<lambda>x y. x OR y) a b"

section \<open>Bytes\<close>

text \<open>The macros of \<open>endian.rs\<close>, for a type of \<open>LENGTH('l) div 8\<close> bytes.\<close>

definition slice_to_be :: "bytes \<Rightarrow> 'e fault + 'l::len word" where
  "slice_to_be bs = (let n = LENGTH('l) div 8 in
    if length bs \<noteq> n then Inl Panic
    else Inr (fold (\<lambda>i res. res OR push_bit ((n - i - 1) * 8) (ucast (bs ! i))) [0..<n] 0))"

definition slice_to_le :: "bytes \<Rightarrow> 'e fault + 'l::len word" where
  "slice_to_le bs = (let n = LENGTH('l) div 8 in
    if length bs \<noteq> n then Inl Panic
    else Inr (fold (\<lambda>i res. res OR push_bit (i * 8) (ucast (bs ! i))) [0..<n] 0))"

definition to_array_be :: "'l::len word \<Rightarrow> bytes" where
  "to_array_be val = (let n = LENGTH('l) div 8 in
    map (\<lambda>i. ucast (drop_bit ((n - i - 1) * 8) val AND 0xff)) [0..<n])"

definition to_array_le :: "'l::len word \<Rightarrow> bytes" where
  "to_array_le val = map (\<lambda>i. ucast (drop_bit (i * 8) val AND 0xff)) [0..<LENGTH('l) div 8]"

fun chunks :: "nat \<Rightarrow> bytes \<Rightarrow> bytes list" where
  "chunks n [] = []"
| "chunks n (b # bs) = (if n = 0 then [] else take n (b # bs) # chunks n (drop (n - 1) bs))"

definition to_be_bytes :: "limbs \<Rightarrow> bytes" where
  "to_be_bytes self = concat (map to_array_be (rev self))"

definition to_bytes :: "limbs \<Rightarrow> bytes" where
  "to_bytes self = concat (map to_array_le self)"

record parse_length_error =
  actual :: nat
  expected :: nat

definition inner_from_slice :: "nat \<Rightarrow> bytes \<Rightarrow> 'e fault + limbs" where
  "inner_from_slice n bs = res_map slice_to_le (take n (chunks 8 bs))"

definition inner_from_be_slice :: "nat \<Rightarrow> bytes \<Rightarrow> 'e fault + limbs" where
  "inner_from_be_slice n bs = map_ok rev (res_map slice_to_be (take n (chunks 8 bs)))"

definition from_slice :: "nat \<Rightarrow> bytes \<Rightarrow> parse_length_error fault + limbs" where
  "from_slice n bs = (if length bs \<noteq> n * 8 then Inl (Err \<lparr>actual = length bs, expected = n * 8\<rparr>) else inner_from_slice n bs)"

definition from_be_slice :: "nat \<Rightarrow> bytes \<Rightarrow> parse_length_error fault + limbs" where
  "from_be_slice n bs = (if length bs \<noteq> n * 8 then Inl (Err \<lparr>actual = length bs, expected = n * 8\<rparr>) else inner_from_be_slice n bs)"

section \<open>Conversions\<close>

datatype uint_conversion_error = ConversionOverflow

definition low_128 :: "limbs \<Rightarrow> limbs" where
  "low_128 data = [data ! 0, data ! 1]"

definition u128_from_uint128 :: "limbs \<Rightarrow> 'e fault + u128" where
  "u128_from_uint128 n = slice_to_le (to_bytes n)"

definition uint512_from_uint256 :: "limbs \<Rightarrow> limbs" where
  "uint512_from_uint256 n = [n ! 0, n ! 1, n ! 2, n ! 3, 0, 0, 0, 0]"

definition uint256_from_uint128 :: "limbs \<Rightarrow> limbs" where
  "uint256_from_uint128 n = [n ! 0, n ! 1, 0, 0]"

definition u128_try_from :: "limbs \<Rightarrow> uint_conversion_error fault + u128" where
  "u128_try_from n = (if uint_cmp n (uint_from_u128 4 (- 1)) = Greater then Inl (Err ConversionOverflow)
    else u128_from_uint128 (low_128 n))"

definition uint256_try_from :: "limbs \<Rightarrow> uint_conversion_error + limbs" where
  "uint256_try_from n = (if uint_cmp n (uint512_from_uint256 (uint_MAX 4)) = Greater then Inl ConversionOverflow
    else Inr [n ! 0, n ! 1, n ! 2, n ! 3])"

end
