(* ===== verification/UintCorrect.thy ===== *)
theory UintCorrect
  imports Uint
begin

text \<open>
  The arithmetic on limbs computes with the numbers that the limbs denote: no assertion fails, no word
  overflows, and the checked operations are exact.
\<close>

unbundle bit_operations_syntax

section \<open>The number denoted by limbs\<close>

lemma u64_range: "0 \<le> uint (w :: u64)" "uint (w :: u64) < 2 ^ 64"
  using uint_range [of w] by simp_all

primrec uval :: "limbs \<Rightarrow> int" where
  "uval [] = 0"
| "uval (w # ws) = uint w + 2 ^ 64 * uval ws"

abbreviation modulus :: "limbs \<Rightarrow> int" where
  "modulus ws \<equiv> 2 ^ (64 * length ws)"

lemma uval_nonneg [simp]: "0 \<le> uval ws"
  by (induction ws) auto

lemma uval_less: "uval ws < modulus ws"
proof (induction ws)
  case (Cons w ws)
  have "uval ws + 1 \<le> modulus ws" using Cons by simp
  then have "2 ^ 64 * (uval ws + 1) \<le> 2 ^ 64 * modulus ws" by (intro mult_left_mono) auto
  with uint_range [of w] show ?case by (simp add: power_add algebra_simps)
qed simp

lemma uval_append: "uval (xs @ ys) = uval xs + modulus xs * uval ys"
  by (induction xs) (auto simp: power_add algebra_simps)

lemma uval_replicate_0 [simp]: "uval (replicate n 0) = 0"
  by (induction n) auto

lemma uval_inject: "length a = length b \<Longrightarrow> uval a = uval b \<longleftrightarrow> a = b"
proof (induction a b rule: list_induct2)
  case (Cons x xs y ys)
  have "x = y \<and> uval xs = uval ys" if e: "uint x + 2 ^ 64 * uval xs = uint y + 2 ^ 64 * uval ys"
  proof -
    have "(uint x + 2 ^ 64 * uval xs) mod 2 ^ 64 = uint x" "(uint y + 2 ^ 64 * uval ys) mod 2 ^ 64 = uint y"
      using uint_range [of x] uint_range [of y] by simp_all
    with e have "uint x = uint y" by metis
    with e show ?thesis by (simp add: word_uint_eq_iff)
  qed
  with Cons show ?case by auto
qed simp

lemma uval_zero_iff: "uval ws = 0 \<longleftrightarrow> ws = replicate (length ws) 0"
  using uval_inject [of ws "replicate (length ws) 0"] by simp

lemma uval_mod_unique:
  assumes "uval r = x + modulus r * k"
  shows "uval r = x mod modulus r"
proof -
  have "x mod modulus r = (x + modulus r * k) mod modulus r" by simp
  also have "\<dots> = uval r" using assms uval_nonneg uval_less by (metis mod_pos_pos_trivial)
  finally show ?thesis by simp
qed

lemma uval_single_update:
  "i < length ws \<Longrightarrow> uval (ws[i := w]) = uval ws + 2 ^ (64 * i) * (uint w - uint (ws ! i))"
proof (induction ws arbitrary: i)
  case (Cons x ws)
  show ?case
  proof (cases i)
    case 0
    then show ?thesis by simp
  next
    case (Suc j)
    then have "uval (ws[j := w]) = uval ws + 2 ^ (64 * j) * (uint w - uint (ws ! j))" using Cons by simp
    then show ?thesis by (simp add: Suc power_add)
  qed
qed simp

lemma uint_from_u64_length [simp]: "length (uint_from_u64 n w) = n"
  by (simp add: uint_from_u64_def)

lemma uval_from_u64 [simp]: "0 < n \<Longrightarrow> uval (uint_from_u64 n w) = uint w"
  by (simp add: uint_from_u64_def uval_single_update)

lemma uval_ZERO [simp]: "uval (uint_ZERO n) = 0" "length (uint_ZERO n) = n"
  by (cases n; simp add: uint_ZERO_def uint_from_u64_def)+

lemma uint_ZERO_replicate: "uint_ZERO n = replicate n 0"
  by (cases n) (simp_all add: uint_ZERO_def uint_from_u64_def)

lemma uval_ONE [simp]: "0 < n \<Longrightarrow> uval (uint_ONE n) = 1" "length (uint_ONE n) = n"
  by (simp_all add: uint_ONE_def)

lemma uint_max_u64: "uint (- 1 :: u64) = 2 ^ 64 - 1"
  by (simp add: unsigned_minus_1_eq_mask mask_eq_exp_minus_1)

lemma uval_MAX: "uval (uint_MAX n) = 2 ^ (64 * n) - 1"
  by (induction n) (simp_all add: uint_MAX_def power_add uint_max_u64)

section \<open>Addition and subtraction\<close>

lemma overflowing_add_u64_sum:
  "overflowing_add_u64 a b = (s, c) \<Longrightarrow> uint a + uint b = uint s + 2 ^ 64 * of_bool c"
proof -
  assume "overflowing_add_u64 a b = (s, c)"
  then have s: "s = a + b" and c: "c \<longleftrightarrow> 2 ^ 64 \<le> uint a + uint b" by (auto simp: overflowing_add_u64_def)
  have "uint s = (uint a + uint b) mod 2 ^ 64" by (simp add: s uint_word_ariths(1))
  also have "\<dots> = (uint a + uint b) - 2 ^ 64 * of_bool c"
  proof (cases c)
    case True
    have "(uint a + uint b) mod 2 ^ 64 = (uint a + uint b - 2 ^ 64) mod 2 ^ 64" by simp
    also have "\<dots> = uint a + uint b - 2 ^ 64"
      using uint_range [of a] uint_range [of b] True c by (intro mod_pos_pos_trivial) auto
    finally show ?thesis using True by simp
  next
    case False
    then show ?thesis using uint_range [of a] uint_range [of b] c by (subst mod_pos_pos_trivial) auto
  qed
  finally show ?thesis by simp
qed

lemma full_adder:
  assumes "overflowing_add_u64 x y = (ab, ab_c)" and "overflowing_add_u64 ab (of_bool carry) = (abc, abc_c)"
  shows "uint x + uint y + of_bool carry = uint abc + 2 ^ 64 * of_bool (ab_c \<or> abc_c)"
proof -
  have c: "uint (of_bool carry :: u64) = of_bool carry" by (cases carry) simp_all
  have s1: "uint x + uint y = uint ab + 2 ^ 64 * of_bool ab_c" by (rule overflowing_add_u64_sum [OF assms(1)])
  have s2: "uint ab + of_bool carry = uint abc + 2 ^ 64 * of_bool abc_c"
    using overflowing_add_u64_sum [OF assms(2)] unfolding c .
  have "of_bool carry \<le> (1 :: int)" by (cases carry) simp_all
  moreover have False if "ab_c" "abc_c" "of_bool carry \<le> (1 :: int)"
  proof -
    have "uint x + uint y + of_bool carry = uint abc + 2 ^ 64 + 2 ^ 64" using s1 s2 that by simp
    then show False using uint_range [of x] uint_range [of y] uint_range [of abc] that(3) by auto
  qed
  ultimately have "\<not> (ab_c \<and> abc_c)" by blast
  then show ?thesis using s1 s2 by (cases ab_c; cases abc_c) simp_all
qed

lemma add_with_carry:
  "length a = length b \<Longrightarrow> overflowing_add_with_carry a b carry = (r, c) \<Longrightarrow>
    length r = length a \<and> uval r + modulus a * of_bool c = uval a + uval b + of_bool carry"
proof (induction a b arbitrary: carry r c rule: list_induct2)
  case (Cons x xs y ys)
  obtain ab ab_c where ab: "overflowing_add_u64 x y = (ab, ab_c)" by (cases "overflowing_add_u64 x y")
  obtain abc abc_c where abc: "overflowing_add_u64 ab (of_bool carry) = (abc, abc_c)"
    by (cases "overflowing_add_u64 ab (of_bool carry)")
  obtain t d where t: "overflowing_add_with_carry xs ys (ab_c \<or> abc_c) = (t, d)"
    by (cases "overflowing_add_with_carry xs ys (ab_c \<or> abc_c)")
  have r: "r = abc # t" "c = d" using Cons.prems by (simp_all add: ab abc t)
  have IH: "length t = length xs" "uval t + modulus xs * of_bool d = uval xs + uval ys + of_bool (ab_c \<or> abc_c)"
    using Cons.IH [OF t] by simp_all
  have "uval r + modulus (x # xs) * of_bool c = uint abc + 2 ^ 64 * (uval t + modulus xs * of_bool d)"
    by (simp add: r power_add algebra_simps)
  also have "\<dots> = (uint abc + 2 ^ 64 * of_bool (ab_c \<or> abc_c)) + 2 ^ 64 * (uval xs + uval ys)"
    unfolding IH(2) by (simp only: distrib_left add_ac)
  also have "\<dots> = uval (x # xs) + uval (y # ys) + of_bool carry"
    unfolding full_adder [OF ab abc, symmetric] by simp
  finally show ?case using IH(1) r by simp
qed simp

lemma overflowing_add_correct:
  assumes "length a = length b" and "uint_overflowing_add a b = (r, c)"
  shows "length r = length a" and "uval r + modulus a * of_bool c = uval a + uval b"
  using add_with_carry [OF assms(1), of False r c] assms(2) by (simp_all add: uint_overflowing_add_def)

lemma uint_checked_add_correct:
  assumes "length a = length b"
  shows "if uval a + uval b < modulus a then \<exists>r. uint_checked_add a b = Some r \<and> length r = length a \<and> uval r = uval a + uval b
    else uint_checked_add a b = None"
proof -
  obtain r c where rc: "uint_overflowing_add a b = (r, c)" by (cases "uint_overflowing_add a b")
  note add = overflowing_add_correct [OF assms rc]
  have "uval r < modulus a" using uval_less [of r] add(1) by simp
  show ?thesis
  proof (cases c)
    case True
    then have "uval r + modulus a = uval a + uval b" using add(2) by simp
    then have "\<not> uval a + uval b < modulus a" using uval_nonneg [of r] by linarith
    with True show ?thesis by (simp add: uint_checked_add_def rc)
  qed (use add \<open>uval r < modulus a\<close> in \<open>simp add: uint_checked_add_def rc\<close>)
qed

lemma uval_not: "uval (uint_not a) = modulus a - 1 - uval a" "length (uint_not a) = length a"
proof -
  have "uint (NOT w :: u64) = 2 ^ 64 - 1 - uint w" for w
  proof -
    have "NOT w = - 1 - w" unfolding not_eq_complement by (rule minus_diff_commute)
    then have "uint (NOT w) = uint (- 1 - w)" by simp
    also have "\<dots> = (2 ^ 64 - 1 - uint w) mod 2 ^ 64" by (simp only: uint_word_ariths(2) uint_max_u64) simp
    also have "\<dots> = 2 ^ 64 - 1 - uint w" using u64_range [of w] by (intro mod_pos_pos_trivial) linarith+
    finally show ?thesis .
  qed
  note word = this
  show "uval (uint_not a) = modulus a - 1 - uval a"
  proof (induction a)
    case (Cons w ws)
    then show ?case
      by (simp only: uint_not_def list.map uval.simps word) (simp add: power_add right_diff_distrib)
  qed (simp add: uint_not_def)
  show "length (uint_not a) = length a" by (simp add: uint_not_def)
qed

lemma unchecked_sub_correct:
  assumes "length a = length b" and "0 < length a"
  shows "length (unchecked_sub a b) = length a" and "uval (unchecked_sub a b) = (uval a - uval b) mod modulus a"
proof -
  obtain s c where s: "uint_overflowing_add a (uint_not b) = (s, c)" by fastforce
  obtain t d where t: "uint_overflowing_add s (uint_ONE (length a)) = (t, d)" by fastforce
  have s': "length s = length a" "uval s + modulus a * of_bool c = uval a + (modulus a - 1 - uval b)"
    using overflowing_add_correct [OF _ s] assms by (simp_all add: uval_not)
  have t': "length t = length a" "uval t + modulus a * of_bool d = uval s + 1"
    using overflowing_add_correct [OF _ t] s' assms by simp_all
  have r: "unchecked_sub a b = t" by (simp add: unchecked_sub_def s t)
  show "length (unchecked_sub a b) = length a" using t' r by simp
  have "uval t = (uval a - uval b) + modulus t * (1 - of_bool c - of_bool d)"
    using s' t' by (simp add: algebra_simps)
  then show "uval (unchecked_sub a b) = (uval a - uval b) mod modulus a"
    using uval_mod_unique t'(1) r by metis
qed

section \<open>Comparison\<close>

lemma cmp_words_append: "cmp_words (xs @ ys) = (if cmp_words xs = Equal then cmp_words ys else cmp_words xs)"
  by (induction xs rule: cmp_words.induct) auto

lemma uint_cmp_correct:
  "length a = length b \<Longrightarrow> uint_cmp a b = (if uval a < uval b then Less else if uval a > uval b then Greater else Equal)"
proof (induction a b rule: list_induct2)
  case Nil
  then show ?case by (simp add: uint_cmp_def)
next
  case (Cons x xs y ys)
  have eq: "uint_cmp (x # xs) (y # ys) = (if uint_cmp xs ys = Equal then cmp_words [(x, y)] else uint_cmp xs ys)"
    by (simp add: uint_cmp_def cmp_words_append)
  have top: "uint x + 2 ^ 64 * p < uint y + 2 ^ 64 * q" if "p < q" for x y :: u64 and p q :: int
  proof -
    have "2 ^ 64 * (p + 1) \<le> 2 ^ 64 * q" using that by (intro mult_left_mono) auto
    then have "2 ^ 64 * p + 2 ^ 64 \<le> 2 ^ 64 * q" by (simp only: distrib_left mult_1_right)
    then show ?thesis using u64_range [of x] u64_range [of y] by linarith
  qed
  show ?case
  proof (cases "uval xs" "uval ys" rule: linorder_cases)
    case less
    then show ?thesis using top [OF less, of x y] Cons.IH by (simp add: eq)
  next
    case equal
    then show ?thesis using Cons.IH by (auto simp: eq word_less_def)
  next
    case greater
    then show ?thesis using top [OF greater, of y x] Cons.IH by (simp add: eq)
  qed
qed

lemma uint_checked_sub_correct:
  assumes "length a = length b" and "0 < length a"
  shows "if uval b \<le> uval a then \<exists>r. uint_checked_sub a b = Some r \<and> length r = length a \<and> uval r = uval a - uval b
    else uint_checked_sub a b = None"
proof -
  have "uval b \<le> uval a \<Longrightarrow> (uval a - uval b) mod modulus a = uval a - uval b"
    using uval_less [of a] uval_nonneg [of b] by (intro mod_pos_pos_trivial) linarith+
  then show ?thesis
    using unchecked_sub_correct [OF assms] by (auto simp: uint_checked_sub_def uint_cmp_correct [OF assms(1)])
qed

section \<open>Multiplication\<close>

lemma int_div_less: "0 < b \<Longrightarrow> x < a * b \<Longrightarrow> x div b < a" for a b x :: int
proof (rule ccontr)
  assume b: "0 < b" "x < a * b" "\<not> x div b < a"
  then have "a * b \<le> x div b * b" by (intro mult_right_mono) auto
  also have "\<dots> \<le> x" using b(1) by (simp add: minus_mod_eq_div_mult [symmetric])
  finally show False using b(2) by simp
qed

lemma mul_step:
  fixes l rhs carry :: u64
  assumes "carry < - 1"
  obtains prod sum :: u128
  where "checked_mul (ucast l :: u128) (ucast rhs) = Some prod"
    and "prod \<le> 0xFFFFFFFFFFFFFFFF * 0xFFFFFFFFFFFFFFFF"
    and "checked_add prod (ucast carry) = Some sum"
    and "sum < 0xFFFFFFFFFFFFFFFF * 0xFFFFFFFFFFFFFFFF + 0xFFFFFFFFFFFFFFFF"
    and "uint (ucast sum :: u64) + 2 ^ 64 * uint (ucast (drop_bit 64 sum) :: u64) = uint l * uint rhs + uint carry"
    and "ucast (drop_bit 64 sum) < (- 1 :: u64)"
proof -
  have c: "uint carry < 2 ^ 64 - 1" using assms by (simp add: word_less_def uint_max_u64)
  have le: "uint l * uint rhs \<le> (2 ^ 64 - 1) * (2 ^ 64 - 1)"
    using u64_range [of l] u64_range [of rhs] by (intro mult_mono) auto
  have up: "uint (ucast w :: u128) = uint w" for w :: u64 by (simp add: uint_up_ucast is_up)
  have 1: "checked_mul (ucast l :: u128) (ucast rhs) = Some (ucast l * ucast rhs)"
    using le by (simp add: checked_mul_def up)
  then have p: "uint (ucast l * ucast rhs :: u128) = uint l * uint rhs" by (simp add: checked_mul_Some up)
  have 2: "checked_add (ucast l * ucast rhs :: u128) (ucast carry) = Some (ucast l * ucast rhs + ucast carry)"
    using le c by (simp add: checked_add_def up p)
  let ?s = "ucast l * ucast rhs + ucast carry :: u128"
  have s: "uint ?s = uint l * uint rhs + uint carry" using 2 by (simp add: checked_add_Some up p)
  have lo: "uint (ucast ?s :: u64) = uint ?s mod 2 ^ 64" by (simp add: unsigned_ucast_eq take_bit_eq_mod)
  have small: "uint ?s div 2 ^ 64 < 2 ^ 64 - 1"
  proof -
    have "uint ?s < (2 ^ 64 - 1) * 2 ^ 64" using le c s by simp
    then show ?thesis by (rule int_div_less [rotated]) simp
  qed
  have "take_bit LENGTH(128) (uint ?s) = uint ?s" by (rule take_bit_int_eq_self) (use uint_range [of ?s] in auto)
  then have "uint (drop_bit 64 ?s) = uint ?s div 2 ^ 64" by (subst unsigned_drop_bit_eq) (simp only: drop_bit_eq_div)
  then have "uint (ucast (drop_bit 64 ?s) :: u64) = (uint ?s div 2 ^ 64) mod 2 ^ 64"
    by (simp only: unsigned_ucast_eq take_bit_eq_mod) simp
  also have "\<dots> = uint ?s div 2 ^ 64"
    using small uint_range [of ?s] by (intro mod_pos_pos_trivial) (auto simp: pos_imp_zdiv_nonneg_iff)
  finally have hi: "uint (ucast (drop_bit 64 ?s) :: u64) = uint ?s div 2 ^ 64" .
  show thesis
  proof (rule that [OF 1 _ 2])
    show "(ucast l * ucast rhs :: u128) \<le> 0xFFFFFFFFFFFFFFFF * 0xFFFFFFFFFFFFFFFF"
      using le by (simp add: word_le_def p)
    show "?s < 0xFFFFFFFFFFFFFFFF * 0xFFFFFFFFFFFFFFFF + 0xFFFFFFFFFFFFFFFF"
      using le c by (simp add: word_less_def s)
    show "uint (ucast ?s :: u64) + 2 ^ 64 * uint (ucast (drop_bit 64 ?s) :: u64) = uint l * uint rhs + uint carry"
      unfolding lo hi s [symmetric] by (rule mod_mult_div_eq)
    show "ucast (drop_bit 64 ?s) < (- 1 :: u64)"
      unfolding word_less_def hi uint_max_u64 by (rule small)
  qed
qed

lemma mul_limbs_correct:
  "carry < - 1 \<Longrightarrow> \<exists>r c. mul_limbs rhs ls carry = (Inr (r, c) :: 'e fault + limbs \<times> u64) \<and> length r = length ls
    \<and> uval r + modulus ls * uint c = uval ls * uint rhs + uint carry"
proof (induction ls arbitrary: carry)
  case (Cons l ls)
  obtain prod sum :: u128 where step: "checked_mul (ucast l :: u128) (ucast rhs) = Some prod"
    "prod \<le> 0xFFFFFFFFFFFFFFFF * 0xFFFFFFFFFFFFFFFF" "checked_add prod (ucast carry) = Some sum"
    "sum < 0xFFFFFFFFFFFFFFFF * 0xFFFFFFFFFFFFFFFF + 0xFFFFFFFFFFFFFFFF"
    "uint (ucast sum :: u64) + 2 ^ 64 * uint (ucast (drop_bit 64 sum) :: u64) = uint l * uint rhs + uint carry"
    "ucast (drop_bit 64 sum) < (- 1 :: u64)"
    using mul_step [OF Cons.prems] by metis
  obtain r c where r: "mul_limbs rhs ls (ucast (drop_bit 64 sum)) = (Inr (r, c) :: 'e fault + limbs \<times> u64)" "length r = length ls"
    "uval r + modulus ls * uint c = uval ls * uint rhs + uint (ucast (drop_bit 64 sum) :: u64)"
    using Cons.IH [OF step(6)] by blast
  have "mul_limbs rhs (l # ls) carry = (Inr (ucast sum # r, c) :: 'e fault + limbs \<times> u64)"
    using step Cons.prems by (simp only: mul_limbs.simps Let_def expect_simps res_intro_simps r(1) split: if_splits) simp
  moreover have "uval (ucast sum # r) + modulus (l # ls) * uint c
      = uint (ucast sum :: u64) + 2 ^ 64 * (uval r + modulus ls * uint c)"
    by (simp add: power_add distrib_left)
  moreover have "\<dots> = uval (l # ls) * uint rhs + uint carry"
    unfolding r(3) using step(5) by (simp add: algebra_simps)
  ultimately show ?case using r(2) by auto
qed simp

lemma widening_mul_u64_correct:
  "\<exists>r c. widening_mul_u64 a w = (Inr (r, c) :: 'e fault + limbs \<times> u64) \<and> length r = length a
    \<and> uval r + modulus a * uint c = uval a * uint w"
  using mul_limbs_correct [of 0 w a] by (simp add: widening_mul_u64_def word_less_def uint_max_u64)

lemma word_shifts:
  assumes "i \<le> length ws"
  shows "length (shl_words ws i) = length ws" and "length (shr_words ws i) = length ws"
    and "uval (shl_words ws i) = 2 ^ (64 * i) * uval (take (length ws - i) ws)"
    and "uval (shr_words ws i) = uval (drop i ws)"
  using assms by (simp_all add: shl_words_def shr_words_def uval_append)

lemma split_product:
  assumes "i < length r"
  shows "uval (shl_words r i) + modulus r * uval ((shr_words r (length r - i))[i := c])
    = 2 ^ (64 * i) * (uval r + modulus r * uint c)"
proof -
  let ?n = "length r"
  have zero: "shr_words r (?n - i) ! i = 0" using assms by (simp add: shr_words_def nth_append)
  have "uval ((shr_words r (?n - i))[i := c]) = uval (drop (?n - i) r) + 2 ^ (64 * i) * uint c"
    using assms by (simp add: uval_single_update zero word_shifts)
  moreover have "uval r = uval (take (?n - i) r) + 2 ^ (64 * (?n - i)) * uval (drop (?n - i) r)"
    using uval_append [of "take (?n - i) r" "drop (?n - i) r"] by simp
  moreover have "(2 :: int) ^ (64 * i) * 2 ^ (64 * (?n - i)) = modulus r"
    using assms by (simp add: power_add [symmetric] add_mult_distrib2 [symmetric])
  ultimately show ?thesis
    using assms by (simp add: word_shifts(3) algebra_simps)
qed

text \<open>The product of the limbs seen so far is in the two halves, so that the high half never overflows.\<close>

definition partial_product :: "limbs \<Rightarrow> int \<Rightarrow> limbs \<times> limbs \<Rightarrow> bool" where
  "partial_product a m = (\<lambda>(lo, hi). length lo = length a \<and> length hi = length a \<and> uval lo + modulus a * uval hi = uval a * m)"

lemma widening_mul_step_correct:
  assumes "partial_product a m s" and "i < length a" and "m < 2 ^ (64 * i)" and "0 \<le> m"
  shows "\<exists>t. widening_mul_step a (i, w) s = (Inr t :: 'e fault + limbs \<times> limbs) \<and> partial_product a (m + 2 ^ (64 * i) * uint w) t"
proof -
  obtain lo hi where s: "s = (lo, hi)" by (cases s)
  have inv: "length lo = length a" "length hi = length a" "uval lo + modulus a * uval hi = uval a * m"
    using assms(1) by (simp_all add: partial_product_def s)
  obtain r c where r: "widening_mul_u64 a w = (Inr (r, c) :: 'e fault + limbs \<times> u64)" "length r = length a"
    "uval r + modulus a * uint c = uval a * uint w"
    using widening_mul_u64_correct by blast
  let ?l = "shl_words r i" and ?h = "(shr_words r (length a - i))[i := c]"
  have len: "length ?l = length a" "length ?h = length a" using r(2) assms(2) by (simp_all add: word_shifts)
  obtain lo' c0 where lo': "uint_overflowing_add lo ?l = (lo', c0)" by fastforce
  obtain hi' c1 where hi': "overflowing_add_with_carry hi ?h c0 = (hi', c1)" by fastforce
  have l: "length lo' = length a" "uval lo' + modulus a * of_bool c0 = uval lo + uval ?l"
    using overflowing_add_correct [OF _ lo'] inv len by simp_all
  have h: "length hi' = length a" "uval hi' + modulus a * of_bool c1 = uval hi + uval ?h + of_bool c0"
    using add_with_carry [OF _ hi'] inv len by simp_all
  have split: "uval ?l + modulus a * uval ?h = 2 ^ (64 * i) * (uval a * uint w)"
    using split_product [of i r c] r assms(2) by simp
  have total: "uval lo' + modulus a * (uval hi' + modulus a * of_bool c1) = uval a * (m + 2 ^ (64 * i) * uint w)"
  proof -
    have "uval lo' + modulus a * (uval hi' + modulus a * of_bool c1)
        = (uval lo' + modulus a * of_bool c0) + modulus a * (uval hi + uval ?h)"
      unfolding h(2) by (simp add: distrib_left)
    also have "\<dots> = (uval lo + modulus a * uval hi) + (uval ?l + modulus a * uval ?h)"
      unfolding l(2) by (simp add: distrib_left)
    also have "\<dots> = uval a * (m + 2 ^ (64 * i) * uint w)"
      unfolding inv(3) split by (simp add: distrib_left)
    finally show ?thesis .
  qed
  have "\<not> c1"
  proof
    assume c1
    have "m + 2 ^ (64 * i) * uint w < 2 ^ (64 * Suc i)"
    proof -
      have "2 ^ (64 * i) * (uint w + 1) \<le> (2 ^ (64 * i) * 2 ^ 64 :: int)" using u64_range [of w] by (intro mult_left_mono) auto
      then have "2 ^ (64 * i) * uint w + 2 ^ (64 * i) \<le> (2 ^ (64 * Suc i) :: int)" by (simp add: distrib_left power_add mult.commute)
      then show ?thesis using assms(3) by linarith
    qed
    also have "\<dots> \<le> modulus a" using assms(2) by (intro power_increasing) auto
    finally have "uval a * (m + 2 ^ (64 * i) * uint w) \<le> uval a * modulus a" by (intro mult_left_mono) auto
    also have "\<dots> < modulus a * modulus a" using uval_less [of a] by simp
    finally have "uval lo' + modulus a * (uval hi' + modulus a) < modulus a * modulus a" using total \<open>c1\<close> by simp
    moreover have "modulus a * modulus a \<le> modulus a * (uval hi' + modulus a)" by simp
    ultimately show False using uval_nonneg [of lo'] by linarith
  qed
  then show ?thesis
    using total l(1) h(1) by (simp add: widening_mul_step_def s r lo' hi' partial_product_def)
qed

lemma widening_mul_loop:
  assumes "partial_product a (uval done_limbs) s" and "length done_limbs + length ws \<le> length a"
  shows "\<exists>t. res_fold (widening_mul_step a) (List.enumerate (length done_limbs) ws) s = (Inr t :: 'e fault + limbs \<times> limbs)
    \<and> partial_product a (uval (done_limbs @ ws)) t"
  using assms
proof (induction ws arbitrary: done_limbs s)
  case (Cons w ws)
  have "uval done_limbs < 2 ^ (64 * length done_limbs)" using uval_less by simp
  then obtain t where t: "widening_mul_step a (length done_limbs, w) s = (Inr t :: 'e fault + limbs \<times> limbs)"
      "partial_product a (uval (done_limbs @ [w])) t"
    using widening_mul_step_correct [OF Cons.prems(1), of "length done_limbs" w] Cons.prems(2) by (auto simp: uval_append)
  show ?case using Cons.IH [OF t(2)] Cons.prems(2) t(1) by simp
qed simp

lemma widening_mul_correct:
  assumes "length a = length b"
  shows "\<exists>lo hi. widening_mul a b = (Inr (lo, hi) :: 'e fault + limbs \<times> limbs) \<and> length lo = length a \<and> length hi = length a
    \<and> uval lo + modulus a * uval hi = uval a * uval b"
  using widening_mul_loop [of a "[]" "(replicate (length a) 0, replicate (length a) 0)" b] assms
  by (auto simp: widening_mul_def partial_product_def)

lemma uint_checked_mul_correct:
  assumes "length a = length b"
  shows "if uval a * uval b < modulus a
    then \<exists>r. uint_checked_mul a b = (Inr (Some r) :: 'e fault + limbs option) \<and> length r = length a \<and> uval r = uval a * uval b
    else uint_checked_mul a b = (Inr None :: 'e fault + limbs option)"
proof -
  obtain lo hi where m: "widening_mul a b = (Inr (lo, hi) :: 'e fault + limbs \<times> limbs)" "length lo = length a" "length hi = length a"
    "uval lo + modulus a * uval hi = uval a * uval b"
    using widening_mul_correct [OF assms] by blast
  have z: "hi = uint_ZERO (length a) \<longleftrightarrow> uval hi = 0" using uval_zero_iff [of hi] m(3) by (simp add: uint_ZERO_replicate)
  have "uval hi = 0 \<longleftrightarrow> uval a * uval b < modulus a"
  proof
    assume "uval hi = 0"
    then show "uval a * uval b < modulus a" using m(2,4) uval_less [of lo] by simp
  next
    assume less: "uval a * uval b < modulus a"
    show "uval hi = 0"
    proof (rule ccontr)
      assume "uval hi \<noteq> 0"
      then have "modulus a * 1 \<le> modulus a * uval hi" using uval_nonneg [of hi] by (intro mult_left_mono) (linarith, simp)
      with m(4) less uval_nonneg [of lo] show False by linarith
    qed
  qed
  with m z show ?thesis by (auto simp: uint_checked_mul_def)
qed

end
