(* ===== verification/UintDivision.thy ===== *)
theory UintDivision
  imports UintCorrect
begin

text \<open>
  Shifts and the bitwise long division on limbs: the shifts are those of the number (the left shift modulo the
  size), and the division loop ends with quotient and remainder.
\<close>

unbundle bit_operations_syntax

section \<open>Bits of the number\<close>

lemma uval_concat_bit: "uval (w # ws) = concat_bit 64 (uint w) (uval ws)"
  using u64_range [of w] by (simp add: concat_bit_eq push_bit_eq_mult take_bit_int_eq_self)

lemma bit_uval: "bit (uval ws) m \<longleftrightarrow> m div 64 < length ws \<and> bit (ws ! (m div 64)) (m mod 64)"
proof (induction ws arbitrary: m)
  case (Cons w ws)
  show ?case
  proof (cases "m < 64")
    case True
    then show ?thesis by (simp only: uval_concat_bit bit_concat_bit_iff) (simp add: bit_uint_iff)
  next
    case False
    then have "m div 64 = Suc ((m - 64) div 64)" "m mod 64 = (m - 64) mod 64"
      by (simp_all add: le_div_geq le_mod_geq)
    with False Cons.IH [of "m - 64"] show ?thesis by (simp only: uval_concat_bit bit_concat_bit_iff) simp
  qed
qed simp

lemma less_exp_if_no_bits:
  fixes x :: int
  assumes "0 \<le> x" and "\<And>m. k \<le> m \<Longrightarrow> \<not> bit x m"
  shows "x < 2 ^ k"
proof -
  have "take_bit k x = x"
  proof (rule bit_eqI)
    fix m
    show "bit (take_bit k x) m \<longleftrightarrow> bit x m" using assms(2) [of m] by (cases "m < k") (auto simp: bit_take_bit_iff)
  qed
  then show ?thesis by (metis take_bit_int_less_exp)
qed

lemma exp_le_if_bit:
  fixes x :: int
  assumes "0 \<le> x" and "bit x m"
  shows "2 ^ m \<le> x"
proof (rule ccontr)
  assume "\<not> 2 ^ m \<le> x"
  then have "take_bit m x = x" using assms(1) by (simp add: take_bit_int_eq_self)
  then have "\<not> bit x m" by (metis bit_take_bit_iff less_irrefl)
  with assms(2) show False by simp
qed

lemma leading_zeros_u64:
  fixes w :: u64
  assumes "w \<noteq> 0"
  shows "leading_zeros w < 64" and "bit w (63 - leading_zeros w)" and "64 - leading_zeros w \<le> m \<Longrightarrow> \<not> bit w m"
proof -
  let ?xs = "rev [0..<64]" and ?z = "leading_zeros w"
  have z: "?z = length (takeWhile (\<lambda>i. \<not> bit w i) ?xs)" by (simp add: leading_zeros_def)
  obtain k where k: "bit w k" using assms by (metis bit_0_eq bit_eqI bot_apply bot_bool_def)
  then have "k < 64" using bit_imp_le_length by fastforce
  then have "\<exists>i \<in> set ?xs. bit w i" using k by auto
  then have lt: "?z < length ?xs"
    by (metis (no_types, lifting) z length_takeWhile_le nat_less_le takeWhile_eq_all_conv takeWhile_eq_take take_all_iff)
  then show "?z < 64" by simp
  have "bit w (?xs ! ?z)" using nth_length_takeWhile [of "\<lambda>i. \<not> bit w i" ?xs] lt by (simp add: z [symmetric])
  then show "bit w (63 - ?z)" using lt by (simp add: rev_nth)
  show "\<not> bit w m" if m: "64 - ?z \<le> m"
  proof (cases "m < 64")
    case True
    let ?j = "63 - m"
    have "?j < ?z" "?xs ! ?j = m" using m True lt by (auto simp: rev_nth)
    then have "takeWhile (\<lambda>i. \<not> bit w i) ?xs ! ?j = m" using z by (metis takeWhile_nth)
    then show ?thesis using \<open>?j < ?z\<close> z by (metis nth_mem set_takeWhileD)
  next
    case False
    then show ?thesis using bit_imp_le_length by fastforce
  qed
qed

lemma limb_index: "r < 64 \<Longrightarrow> (64 * q + r) div 64 = q" "r < 64 \<Longrightarrow> (64 * q + r) mod 64 = r" for q r :: nat
  by simp_all

lemma uint_bits_spec:
  assumes "0 < length ws"
  shows "uint_bits ws \<le> 64 * length ws"
    and "uint_bits ws \<le> m \<Longrightarrow> \<not> bit (uval ws) m"
    and "uval ws = 0 \<longleftrightarrow> uint_bits ws = 0"
    and "uval ws \<noteq> 0 \<Longrightarrow> bit (uval ws) (uint_bits ws - 1)"
proof -
  let ?n = "length ws"
  obtain j where j: "j < ?n" "uint_bits ws = 64 * (j + 1) - leading_zeros (ws ! j)"
    "\<And>k. j < k \<Longrightarrow> k < ?n \<Longrightarrow> ws ! k = 0" "j = 0 \<or> ws ! j \<noteq> 0"
  proof (cases "List.find (\<lambda>i. ws ! (?n - i) > 0) [1..<?n]")
    case None
    have "ws ! k = 0" if "0 < k" "k < ?n" for k
    proof -
      have "?n - k \<in> set [1..<?n]" "?n - (?n - k) = k" using that by auto
      then have "\<not> ws ! k > 0" using None by (metis find_None_iff)
      then show ?thesis by (simp add: word_gt_0)
    qed
    moreover have "uint_bits ws = 64 * (0 + 1) - leading_zeros (ws ! 0)" using None by (simp add: uint_bits_def)
    ultimately show thesis using that assms by blast
  next
    case (Some i)
    then obtain p where p: "p < ?n - 1" "ws ! (?n - i) > 0" "i = p + 1" "\<forall>q < p. \<not> ws ! (?n - (q + 1)) > 0"
      by (auto simp: find_Some_iff)
    have "ws ! k = 0" if "?n - i < k" "k < ?n" for k
    proof -
      have "?n - 1 - k < p" "?n - ((?n - 1 - k) + 1) = k" using that p by auto
      then have "\<not> ws ! k > 0" using p(4) by metis
      then show ?thesis by (simp add: word_gt_0)
    qed
    moreover have "uint_bits ws = 64 * (?n - i + 1) - leading_zeros (ws ! (?n - i))" using Some by (simp add: uint_bits_def Let_def)
    moreover have "?n - i < ?n" "ws ! (?n - i) \<noteq> 0" using p by auto
    ultimately show thesis using that by blast
  qed
  have zero: "leading_zeros (0 :: u64) = 64"
    by (simp add: leading_zeros_def takeWhile_eq_all_conv [THEN iffD2])
  have le: "leading_zeros (ws ! j) \<le> 64"
    unfolding leading_zeros_def by (rule order_trans [OF length_takeWhile_le]) simp
  show "uint_bits ws \<le> 64 * ?n" using j(1,2) by (simp add: le_diff_conv)
  show none: "\<not> bit (uval ws) m" if "uint_bits ws \<le> m" for m
  proof
    assume "bit (uval ws) m"
    then have m: "m div 64 < ?n" "bit (ws ! (m div 64)) (m mod 64)" by (simp_all add: bit_uval)
    then have nz: "ws ! (m div 64) \<noteq> 0" by auto
    then have "m div 64 \<le> j" using j(3) m(1) by (metis not_le)
    moreover have "j \<le> m div 64"
    proof -
      have "64 * j \<le> m" using that j(2) le by simp
      then show ?thesis by (simp add: less_eq_div_iff_mult_less_eq mult.commute)
    qed
    ultimately have e: "m div 64 = j" by simp
    define r where "r = m mod 64"
    have "m = 64 * j + r" unfolding r_def using e by (metis mult_div_mod_eq)
    then have "64 * (j + 1) - leading_zeros (ws ! j) \<le> 64 * j + r" using that j(2) by simp
    then have "64 - leading_zeros (ws ! j) \<le> m mod 64" by (simp add: le_diff_conv r_def)
    then show False using leading_zeros_u64(3) [of "ws ! j" "m mod 64"] nz e m(2) by simp
  qed
  show top: "bit (uval ws) (uint_bits ws - 1)" if "uval ws \<noteq> 0"
  proof -
    have nz: "ws ! j \<noteq> 0"
    proof
      assume "ws ! j = 0"
      with j(4) have "j = 0" by simp
      then have "ws = replicate ?n 0" using j(3) \<open>ws ! j = 0\<close> by (metis gr0I nth_equalityI length_replicate nth_replicate)
      with that show False by (metis uval_zero_iff)
    qed
    note z = leading_zeros_u64(1,2) [OF nz]
    have "uint_bits ws - 1 = 64 * j + (63 - leading_zeros (ws ! j))" using j(2) z(1) by simp
    moreover have "(64 * j + (63 - leading_zeros (ws ! j))) div 64 = j" "(64 * j + (63 - leading_zeros (ws ! j))) mod 64 = 63 - leading_zeros (ws ! j)"
      by simp_all
    ultimately show ?thesis using z(2) j(1) by (simp only: bit_uval)
  qed
  show "uval ws = 0 \<longleftrightarrow> uint_bits ws = 0"
  proof
    assume "uval ws = 0"
    then have w: "ws = replicate ?n 0" by (simp only: uval_zero_iff)
    then have "ws ! j = 0" using j(1) by (metis nth_replicate)
    with j(2,4) zero show "uint_bits ws = 0" by auto
  next
    assume b: "uint_bits ws = 0"
    have "uval ws < 2 ^ 0" by (rule less_exp_if_no_bits) (use none b in auto)
    then have "uval ws < 1" by simp
    then show "uval ws = 0" using uval_nonneg [of ws] by linarith
  qed
qed

lemma uint_bits_bounds:
  assumes "0 < length ws"
  shows "uval ws < 2 ^ uint_bits ws" and "uval ws \<noteq> 0 \<Longrightarrow> 2 ^ (uint_bits ws - 1) \<le> uval ws"
  using uint_bits_spec [OF assms] less_exp_if_no_bits [of "uval ws"] exp_le_if_bit [of "uval ws"] by simp_all

section \<open>Shifts\<close>

lemma add_at_disjoint:
  assumes "ret ! k AND v = 0"
  shows "add_at k v ret = Inr (ret[k := ret ! k OR v])"
proof -
  have "uint (ret ! k) AND uint v = 0" using assms by (metis unsigned_and_eq unsigned_0)
  then have "uint (ret ! k) + uint v = uint (ret ! k OR v)"
    by (simp add: disjunctive_add_eq_or unsigned_or_eq)
  then have "checked_add (ret ! k) v = Some (ret ! k OR v)" by (simp add: checked_add_Some)
  then show ?thesis by (simp add: add_at_def)
qed

text \<open>The limbs of a left shift after the first \<open>k\<close> rounds of the loop.\<close>

definition shl_cell :: "limbs \<Rightarrow> nat \<Rightarrow> nat \<Rightarrow> nat \<Rightarrow> nat \<Rightarrow> u64" where
  "shl_cell orig ws bs k j =
    (if 0 < bs \<and> ws + 1 \<le> j \<and> j < ws + 1 + k then drop_bit (64 - bs) (orig ! (j - ws - 1)) else 0)
    OR (if ws \<le> j \<and> j < ws + k then push_bit bs (orig ! (j - ws)) else 0)"

lemma shifts_disjoint: "0 < bs \<Longrightarrow> bs < 64 \<Longrightarrow> drop_bit (64 - bs) x AND push_bit bs y = 0" for x y :: u64
  by (rule bit_eqI) (auto simp: bit_and_iff bit_drop_bit_eq bit_push_bit_iff dest: bit_imp_le_length)

lemma map_upt_update: "k < n \<Longrightarrow> (map f [0..<n])[k := v] = map (f(k := v)) [0..<n]"
  by (rule nth_equalityI) (auto simp: nth_list_update)

lemma shl_step:
  assumes "bs < 64" and "i < length orig" and that: "ret = map (shl_cell orig ws bs i) [0..<length orig]"
  shows "res_bind (if bs < 64 \<and> i + ws < length orig then add_at (i + ws) (push_bit bs (orig ! i)) ret else Inr ret) (\<lambda>ret.
      if bs > 0 \<and> i + ws + 1 < length orig then add_at (i + ws + 1) (drop_bit (64 - bs) (orig ! i)) ret else Inr ret)
    = Inr (map (shl_cell orig ws bs (Suc i)) [0..<length orig])"
proof -
  let ?n = "length orig"
  let ?f = "shl_cell orig ws bs i"
  have c1: "?f (i + ws) AND push_bit bs (orig ! i) = 0"
    using shifts_disjoint [OF _ assms(1)] by (auto simp: shl_cell_def)
  have e1: "?f (i + ws) OR push_bit bs (orig ! i) = shl_cell orig ws bs (Suc i) (i + ws)"
    using assms(2) by (auto simp: shl_cell_def)
  have e2: "?f (i + ws + 1) = 0" "shl_cell orig ws bs (Suc i) (i + ws + 1) = (if 0 < bs then drop_bit (64 - bs) (orig ! i) else 0)"
    by (simp_all add: shl_cell_def)
  have e3: "?f j = shl_cell orig ws bs (Suc i) j" if "j \<noteq> i + ws" "j \<noteq> i + ws + 1" for j
    using that by (auto simp: shl_cell_def)
  show ?thesis
  proof (cases "i + ws < ?n")
    case False
    then have "map ?f [0..<?n] = map (shl_cell orig ws bs (Suc i)) [0..<?n]" by (auto intro: e3)
    with False that show ?thesis by simp
  next
    case True
    let ?g = "?f(i + ws := shl_cell orig ws bs (Suc i) (i + ws))"
    have a1: "add_at (i + ws) (push_bit bs (orig ! i)) (map ?f [0..<?n]) = (Inr (map ?g [0..<?n]) :: 'a fault + limbs)"
      using True c1 by (subst add_at_disjoint) (simp_all add: map_upt_update e1)
    show ?thesis
    proof (cases "bs > 0 \<and> i + ws + 1 < ?n")
      case t: True
      have "map ?g [0..<?n] ! (i + ws + 1) = 0" using t e2(1) by simp
      then have "add_at (i + ws + 1) (drop_bit (64 - bs) (orig ! i)) (map ?g [0..<?n])
          = (Inr (map (?g(i + ws + 1 := drop_bit (64 - bs) (orig ! i))) [0..<?n]) :: 'a fault + limbs)"
        using t by (subst add_at_disjoint) (simp_all add: map_upt_update)
      moreover have "?g(i + ws + 1 := drop_bit (64 - bs) (orig ! i)) = shl_cell orig ws bs (Suc i)"
        using t e2(2) e3 by auto
      ultimately show ?thesis using True t assms(1) that a1 by simp
    next
      case f: False
      have "?g j = shl_cell orig ws bs (Suc i) j" if "j \<in> set [0..<?n]" for j
        using that f e2 e3 [of j] by (cases "j = i + ws"; cases "j = i + ws + 1") auto
      then have "map ?g [0..<?n] = map (shl_cell orig ws bs (Suc i)) [0..<?n]" by (intro map_cong) auto
      then show ?thesis using True f assms(1) that a1 by auto
    qed
  qed
qed

lemma res_fold_upt:
  assumes "\<And>i. i < n \<Longrightarrow> f i (s i) = (Inr (s (Suc i)) :: 'e + 's)"
  shows "res_fold f [0..<n] (s 0) = (Inr (s n) :: 'e + 's)"
proof -
  have "k \<le> n \<Longrightarrow> res_fold f [n - k..<n] (s (n - k)) = (Inr (s n) :: 'e + 's)" for k
  proof (induction k)
    case (Suc k)
    then have "[n - Suc k..<n] = (n - Suc k) # [n - k..<n]" by (metis Suc_diff_Suc Suc_le_lessD diff_less upt_conv_Cons zero_less_Suc less_le_trans)
    moreover have "f (n - Suc k) (s (n - Suc k)) = (Inr (s (n - k)) :: 'e + 's)"
      using assms [of "n - Suc k"] Suc.prems by (simp add: Suc_diff_Suc)
    ultimately show ?case using Suc by simp
  qed simp
  from this [of n] show ?thesis by simp
qed

lemma uint_shl_cells:
  "uint_shl orig shift = (Inr (map (shl_cell orig (shift div 64) (shift mod 64) (length orig)) [0..<length orig]) :: 'e fault + limbs)"
proof -
  let ?s = "\<lambda>k. map (shl_cell orig (shift div 64) (shift mod 64) k) [0..<length orig]"
  have "?s 0 = replicate (length orig) 0"
    by (rule nth_equalityI) (auto simp: shl_cell_def)
  then show ?thesis
    unfolding uint_shl_def Let_def
    by (elim subst) (rule res_fold_upt [where s = ?s], rule shl_step, simp_all)
qed

text \<open>The left shift is a shift of the number, without the bits above the size.\<close>

lemma bit_shl_cells:
  assumes "j < length orig" and "t < 64" and "bs < 64"
  shows "bit (shl_cell orig ws bs (length orig) j) t \<longleftrightarrow> 64 * ws + bs \<le> 64 * j + t \<and> bit (uval orig) (64 * j + t - (64 * ws + bs))"
proof (cases "ws \<le> j")
  case False
  then have "\<not> 64 * ws + bs \<le> 64 * j + t" using assms by linarith
  with False show ?thesis by (simp add: shl_cell_def)
next
  case True
  show ?thesis
  proof (cases "bs \<le> t")
    case t: True
    have e: "64 * j + t - (64 * ws + bs) = 64 * (j - ws) + (t - bs)" using True t by (simp add: diff_mult_distrib2)
    have "(64 * (j - ws) + (t - bs)) div 64 = j - ws" "(64 * (j - ws) + (t - bs)) mod 64 = t - bs" using assms by simp_all
    moreover have "\<not> bit (drop_bit (64 - bs) x) t" for x :: u64
      using t assms by (auto simp: bit_drop_bit_eq dest: bit_imp_le_length)
    ultimately show ?thesis
      using True t assms unfolding e by (simp only: bit_uval) (auto simp: shl_cell_def bit_or_iff bit_push_bit_iff)
  next
    case t: False
    show ?thesis
    proof (cases "j = ws")
      case j: True
      then show ?thesis using t assms by (simp add: shl_cell_def bit_push_bit_iff)
    next
      case j: False
      then have lt: "ws < j" using True by simp
      have e: "64 * j + t - (64 * ws + bs) = 64 * (j - ws - 1) + (64 - bs + t)"
        using lt t assms by (simp add: diff_mult_distrib2)
      have "(64 * (j - ws - 1) + (64 - bs + t)) div 64 = j - ws - 1" "(64 * (j - ws - 1) + (64 - bs + t)) mod 64 = 64 - bs + t"
        using t assms by (intro limb_index; simp)+
      then show ?thesis
        using lt t assms unfolding e by (simp only: bit_uval) (auto simp: shl_cell_def bit_or_iff bit_push_bit_iff bit_drop_bit_eq)
    qed
  qed
qed

lemma uint_shl_correct:
  "\<exists>r. uint_shl a shift = (Inr r :: 'e fault + limbs) \<and> length r = length a \<and> uval r = uval a * 2 ^ shift mod modulus a"
proof -
  let ?r = "map (shl_cell a (shift div 64) (shift mod 64) (length a)) [0..<length a]"
  have "uval ?r = take_bit (64 * length a) (push_bit shift (uval a))"
  proof (rule bit_eqI)
    fix m
    have "m div 64 < length a \<longleftrightarrow> m < 64 * length a" by (simp add: less_mult_imp_div_less div_less_iff_less_mult mult.commute)
    moreover have "64 * (shift div 64) + shift mod 64 = shift" "64 * (m div 64) + m mod 64 = m" by simp_all
    ultimately show "bit (uval ?r) m \<longleftrightarrow> bit (take_bit (64 * length a) (push_bit shift (uval a))) m"
      using bit_shl_cells [of "m div 64" a "m mod 64" "shift mod 64" "shift div 64"]
      by (auto simp: bit_uval [of ?r] bit_take_bit_iff bit_push_bit_iff)
  qed
  then show ?thesis
    by (intro exI [of _ ?r]) (simp add: uint_shl_cells take_bit_eq_mod push_bit_eq_mult)
qed

text \<open>The limbs of a right shift after the first \<open>k\<close> rounds.\<close>

definition shr_cell :: "limbs \<Rightarrow> nat \<Rightarrow> nat \<Rightarrow> nat \<Rightarrow> nat \<Rightarrow> u64" where
  "shr_cell orig ws bs k j = (if j < k \<and> j + ws < length orig
    then drop_bit bs (orig ! (j + ws))
      OR (if 0 < bs \<and> j + ws < length orig - 1 then push_bit (64 - bs) (orig ! (j + ws + 1)) else 0)
    else 0)"

lemma shifts_disjoint': "0 < bs \<Longrightarrow> bs < 64 \<Longrightarrow> drop_bit bs x AND push_bit (64 - bs) y = 0" for x y :: u64
  using shifts_disjoint [of "64 - bs" x y] by simp

lemma shr_step:
  assumes "bs < 64" and "k + ws < length orig"
  shows "res_bind (add_at (k + ws - ws) (drop_bit bs (orig ! (k + ws))) (map (shr_cell orig ws bs k) [0..<length orig])) (\<lambda>ret.
      if bs > 0 \<and> k + ws < length orig - 1 then add_at (k + ws - ws) (push_bit (64 - bs) (orig ! (k + ws + 1))) ret else Inr ret)
    = (Inr (map (shr_cell orig ws bs (Suc k)) [0..<length orig]) :: 'e fault + limbs)"
proof -
  let ?n = "length orig" and ?f = "shr_cell orig ws bs k"
  have k: "k < ?n" using assms(2) by simp
  have z: "?f k = 0" by (simp add: shr_cell_def)
  have a1: "add_at k (drop_bit bs (orig ! (k + ws))) (map ?f [0..<?n])
      = (Inr (map (?f(k := drop_bit bs (orig ! (k + ws)))) [0..<?n]) :: 'e fault + limbs)"
    using k z by (subst add_at_disjoint) (simp_all add: map_upt_update)
  show ?thesis
  proof (cases "bs > 0 \<and> k + ws < ?n - 1")
    case True
    then have "add_at k (push_bit (64 - bs) (orig ! (k + ws + 1))) (map (?f(k := drop_bit bs (orig ! (k + ws)))) [0..<?n])
        = (Inr (map (?f(k := drop_bit bs (orig ! (k + ws)) OR push_bit (64 - bs) (orig ! (k + ws + 1)))) [0..<?n]) :: 'e fault + limbs)"
      using k shifts_disjoint' [OF _ assms(1)] by (subst add_at_disjoint) (simp_all add: map_upt_update)
    moreover have "?f(k := drop_bit bs (orig ! (k + ws)) OR push_bit (64 - bs) (orig ! (k + ws + 1))) = shr_cell orig ws bs (Suc k)"
      using True assms(2) by (auto simp: shr_cell_def fun_eq_iff less_Suc_eq)
    ultimately show ?thesis using True a1 by simp
  next
    case False
    then have "?f(k := drop_bit bs (orig ! (k + ws))) = shr_cell orig ws bs (Suc k)"
      using assms(2) by (auto simp: shr_cell_def fun_eq_iff less_Suc_eq)
    with False a1 show ?thesis by auto
  qed
qed

lemma res_fold_map: "res_fold f (map g xs) s = res_fold (\<lambda>x. f (g x)) xs s"
proof (induction xs arbitrary: s)
  case (Cons x xs)
  then have "res_fold f (map g xs) = res_fold (\<lambda>x. f (g x)) xs" by blast
  then show ?case by simp
qed simp

lemma uint_shr_cells:
  "uint_shr orig shift = (Inr (map (shr_cell orig (shift div 64) (shift mod 64) (length orig)) [0..<length orig]) :: 'e fault + limbs)"
proof -
  let ?n = "length orig" and ?w = "shift div 64"
  let ?s = "\<lambda>k. map (shr_cell orig ?w (shift mod 64) k) [0..<?n]"
  have z: "?s 0 = replicate ?n 0"
    by (rule nth_equalityI) (auto simp: shr_cell_def)
  have r: "[?w..<?n] = map (\<lambda>k. k + ?w) [0..<?n - ?w]"
    by (rule nth_equalityI) auto
  have e: "?s (?n - ?w) = ?s ?n" by (rule map_cong) (auto simp: shr_cell_def)
  show ?thesis
    unfolding uint_shr_def Let_def r res_fold_map z [symmetric] e [symmetric]
    by (rule res_fold_upt [where s = ?s], rule shr_step) simp_all
qed

lemma bit_shr_cells:
  assumes "j < length orig" and "t < 64" and "bs < 64"
  shows "bit (shr_cell orig ws bs (length orig) j) t \<longleftrightarrow> bit (uval orig) (64 * j + t + (64 * ws + bs))"
proof (cases "t + bs < 64")
  case True
  have e: "64 * j + t + (64 * ws + bs) = 64 * (j + ws) + (t + bs)" by simp
  have "\<not> bit (push_bit (64 - bs) x) t" for x :: u64 using True by (auto simp: bit_push_bit_iff)
  then show ?thesis
    using assms(1) limb_index [OF True, of "j + ws"] unfolding e
    by (simp only: bit_uval) (auto simp: shr_cell_def bit_or_iff bit_drop_bit_eq add.commute)
next
  case False
  have e: "64 * j + t + (64 * ws + bs) = 64 * (j + ws + 1) + (t + bs - 64)" using False by simp
  have lt: "t + bs - 64 < 64" using assms by simp
  have "\<not> bit (drop_bit bs x) t" for x :: u64
    using False by (auto simp: bit_drop_bit_eq dest: bit_imp_le_length)
  moreover have "bit (push_bit (64 - bs) x) t \<longleftrightarrow> bit x (t + bs - 64)" for x :: u64
    using False assms by (auto simp: bit_push_bit_iff)
  ultimately show ?thesis
    using assms False limb_index [OF lt, of "j + ws + 1"] unfolding e
    by (simp only: bit_uval) (auto simp: shr_cell_def bit_or_iff)
qed

lemma uint_shr_correct:
  "\<exists>r. uint_shr a shift = (Inr r :: 'e fault + limbs) \<and> length r = length a \<and> uval r = uval a div 2 ^ shift"
proof -
  let ?r = "map (shr_cell a (shift div 64) (shift mod 64) (length a)) [0..<length a]"
  have "uval ?r = drop_bit shift (uval a)"
  proof (rule bit_eqI)
    fix m :: nat
    have split: "64 * (m div 64) + m mod 64 = m" "64 * (shift div 64) + shift mod 64 = shift" by simp_all
    show "bit (uval ?r) m \<longleftrightarrow> bit (drop_bit shift (uval a)) m"
    proof (cases "m div 64 < length a")
      case True
      then show ?thesis
        using bit_shr_cells [of "m div 64" a "m mod 64" "shift mod 64" "shift div 64"]
        by (simp add: bit_uval [of ?r] bit_drop_bit_eq split add.commute)
    next
      case False
      then have "\<not> (shift + m) div 64 < length a" by (meson div_le_mono le_add2 not_le order_trans)
      with False show ?thesis by (simp add: bit_uval bit_drop_bit_eq)
    qed
  qed
  then show ?thesis
    by (intro exI [of _ ?r]) (simp add: uint_shr_cells drop_bit_eq_div)
qed

section \<open>Division\<close>

lemma set_bit_of_limbs:
  assumes "shift div 64 < length ret" and "\<not> bit (uval ret) shift"
  shows "uval (ret[shift div 64 := ret ! (shift div 64) OR push_bit (shift mod 64) 1]) = uval ret + 2 ^ shift"
proof -
  let ?w = "ret ! (shift div 64)" and ?t = "shift mod 64"
  have clear: "\<not> bit ?w ?t" using assms by (simp add: bit_uval)
  have "uint ?w AND uint (push_bit ?t 1 :: u64) = 0"
    by (rule bit_eqI) (use clear in \<open>auto simp: bit_and_iff bit_uint_iff bit_exp_iff\<close>)
  then have "uint (?w OR push_bit ?t 1) = uint ?w + uint (push_bit ?t 1 :: u64)"
    by (simp add: disjunctive_add_eq_or unsigned_or_eq)
  moreover have "uint (push_bit ?t 1 :: u64) = 2 ^ ?t"
    by (subst unsigned_push_bit_eq) (simp add: take_bit_int_eq_self)
  moreover have "(2 :: int) ^ (64 * (shift div 64)) * 2 ^ ?t = 2 ^ shift" by (simp add: power_add [symmetric])
  ultimately show ?thesis using assms(1) by (simp add: uval_single_update)
qed

text \<open>
  The invariant of the loop: the quotient bits down to \<open>shift\<close> are found and the rest is below twice the
  shifted divisor.
\<close>

definition dividing :: "int \<Rightarrow> limbs \<Rightarrow> nat \<Rightarrow> limbs \<Rightarrow> limbs \<Rightarrow> limbs \<Rightarrow> bool" where
  "dividing a b shift ret rest shifted \<longleftrightarrow> length ret = length b \<and> length rest = length b \<and> length shifted = length b
    \<and> shift < 64 * length b \<and> uval shifted = uval b * 2 ^ shift \<and> uval rest < 2 * uval shifted
    \<and> (\<forall>m \<le> shift. \<not> bit (uval ret) m) \<and> a = uval ret * uval b + uval rest"

lemma dividing_round:
  assumes "dividing a b shift ret rest shifted"
    and "(ret', rest') = (if uint_cmp rest shifted \<noteq> Less
      then (ret[shift div 64 := ret ! (shift div 64) OR push_bit (shift mod 64) 1], unchecked_sub rest shifted) else (ret, rest))"
  shows "length ret' = length b" and "length rest' = length b" and "a = uval ret' * uval b + uval rest'"
    and "uval rest' < uval shifted" and "m < shift \<Longrightarrow> \<not> bit (uval ret') m"
proof -
  have inv: "length ret = length b" "length rest = length b" "length shifted = length b" "shift < 64 * length b"
    "uval shifted = uval b * 2 ^ shift" "uval rest < 2 * uval shifted" "\<And>m. m \<le> shift \<Longrightarrow> \<not> bit (uval ret) m"
    "a = uval ret * uval b + uval rest"
    using assms(1) by (auto simp: dividing_def)
  have pos: "0 < length b" using inv(4) by (cases b) auto
  have idx: "shift div 64 < length ret" using inv(1,4) by (simp add: less_mult_imp_div_less mult.commute)
  have cmp: "uint_cmp rest shifted \<noteq> Less \<longleftrightarrow> uval shifted \<le> uval rest"
    using uint_cmp_correct [of rest shifted] inv(2,3) by auto
  have "length ret' = length b \<and> length rest' = length b \<and> a = uval ret' * uval b + uval rest'
    \<and> uval rest' < uval shifted \<and> (\<forall>m < shift. \<not> bit (uval ret') m)"
  proof (cases "uval shifted \<le> uval rest")
    case True
    then have r: "ret' = ret[shift div 64 := ret ! (shift div 64) OR push_bit (shift mod 64) 1]" "rest' = unchecked_sub rest shifted"
      using assms(2) cmp by auto
    have u: "uval ret' = uval ret + 2 ^ shift" using set_bit_of_limbs [OF idx] inv(7) r(1) by simp
    have s: "length rest' = length b" "uval rest' = (uval rest - uval shifted) mod modulus rest"
      using unchecked_sub_correct [of rest shifted] inv(2,3) pos r(2) by simp_all
    have s': "uval rest' = uval rest - uval shifted"
      using s(2) True uval_less [of rest] uval_nonneg [of shifted] by (simp add: mod_pos_pos_trivial)
    have "\<not> bit (uval ret') m" if "m < shift" for m
    proof
      assume "bit (uval ret') m"
      then have "bit (uval ret + 2 ^ shift) m" by (simp add: u)
      moreover have "uval ret AND 2 ^ shift = 0"
        by (rule bit_eqI) (use inv(7) in \<open>auto simp: bit_and_iff bit_exp_iff\<close>)
      ultimately have "bit (uval ret OR 2 ^ shift) m" by (simp add: disjunctive_add_eq_or)
      then show False using that inv(7) [of m] by (auto simp: bit_or_iff bit_exp_iff)
    qed
    moreover have "a = uval ret' * uval b + uval rest'" using inv(5,8) u s' by (simp add: algebra_simps)
    moreover have "uval rest' < uval shifted" using s' inv(6) by linarith
    ultimately show ?thesis using r inv(1) s(1) by simp
  next
    case False
    then have "ret' = ret" "rest' = rest" using assms(2) cmp by auto
    with False inv show ?thesis by auto
  qed
  then show "length ret' = length b" "length rest' = length b" "a = uval ret' * uval b + uval rest'"
    "uval rest' < uval shifted" "m < shift \<Longrightarrow> \<not> bit (uval ret') m" by auto
qed

lemma div_loop_correct:
  "dividing a b shift ret rest shifted \<Longrightarrow>
    \<exists>q r. div_loop shift ret rest shifted = (Inr (q, r) :: 'e fault + limbs \<times> limbs) \<and> length q = length b \<and> length r = length b
      \<and> a = uval q * uval b + uval r \<and> uval r < uval b"
proof (induction shift arbitrary: ret rest shifted)
  case 0
  obtain ret' rest' where step: "(ret', rest') = (if uint_cmp rest shifted \<noteq> Less
      then (ret[0 div 64 := ret ! (0 div 64) OR push_bit (0 mod 64) 1], unchecked_sub rest shifted) else (ret, rest))"
    by (metis surj_pair)
  note round = dividing_round [OF 0 step]
  obtain t where t: "uint_shr shifted 1 = (Inr t :: 'e fault + limbs)" using uint_shr_correct by blast
  have "div_loop 0 ret rest shifted = (Inr (ret', rest') :: 'e fault + limbs \<times> limbs)"
    using step t by (auto split: if_splits)
  moreover have "uval shifted = uval b" using 0 by (simp add: dividing_def)
  ultimately show ?case using round by auto
next
  case (Suc s)
  obtain ret' rest' where step: "(ret', rest') = (if uint_cmp rest shifted \<noteq> Less
      then (ret[Suc s div 64 := ret ! (Suc s div 64) OR push_bit (Suc s mod 64) 1], unchecked_sub rest shifted) else (ret, rest))"
    by (metis surj_pair)
  note round = dividing_round [OF Suc.prems step]
  obtain t where t: "uint_shr shifted 1 = (Inr t :: 'e fault + limbs)" "length t = length shifted" "uval t = uval shifted div 2 ^ 1"
    using uint_shr_correct by blast
  have v: "uval shifted = uval b * 2 ^ Suc s" "length shifted = length b" "Suc s < 64 * length b"
    using Suc.prems by (simp_all add: dividing_def)
  have "uval t = uval b * 2 ^ s" using t(3) v(1) by simp
  moreover have "uval rest' < 2 * uval t" using round(4) v(1) calculation by simp
  ultimately have "dividing a b s ret' rest' t" using round t(2) v by (simp add: dividing_def)
  from Suc.IH [OF this] obtain q r where q: "div_loop s ret' rest' t = (Inr (q, r) :: 'e fault + limbs \<times> limbs)" "length q = length b" "length r = length b"
      "a = uval q * uval b + uval r" "uval r < uval b" by blast
  have "div_loop (Suc s) ret rest shifted = (div_loop s ret' rest' t :: 'e fault + limbs \<times> limbs)"
    using step t(1) by (auto split: if_splits)
  with q show ?case by auto
qed

lemma div_rem_correct:
  assumes "length a = length b" and "uval b \<noteq> 0"
  shows "\<exists>q r. div_rem a b = (Inr (q, r) :: 'e fault + limbs \<times> limbs) \<and> length q = length a \<and> length r = length a
    \<and> uval q = uval a div uval b \<and> uval r = uval a mod uval b"
proof -
  have pos: "0 < length a" "0 < length b" using assms by (cases b; auto)+
  have bpos: "0 < uval b" using assms(2) uval_nonneg [of b] by linarith
  have bits: "uint_bits b \<noteq> 0" using uint_bits_spec(3) [OF pos(2)] assms(2) by simp
  have ba: "uval a < 2 ^ uint_bits a" "uint_bits a \<le> 64 * length a"
    using uint_bits_bounds(1) uint_bits_spec(1) pos(1) by blast+
  have bb: "2 ^ (uint_bits b - 1) \<le> uval b" "uval b < 2 ^ uint_bits b"
    using uint_bits_bounds [OF pos(2)] assms(2) by blast+
  show ?thesis
  proof (cases "uint_bits a < uint_bits b")
    case True
    have "uval a < 2 ^ (uint_bits b - 1)"
      using ba(1) True by (rule_tac less_le_trans [OF _ power_increasing]) auto
    then have "uval a < uval b" using bb(1) by linarith
    then have "uval a div uval b = 0" "uval a mod uval b = uval a" by (simp_all add: div_pos_pos_trivial)
    with True bits show ?thesis by (simp add: div_rem_def)
  next
    case False
    let ?s = "uint_bits a - uint_bits b"
    obtain t where t: "uint_shl b ?s = (Inr t :: 'e fault + limbs)" "length t = length b" "uval t = uval b * 2 ^ ?s mod modulus b"
      using uint_shl_correct by blast
    have "uval b * 2 ^ ?s < 2 ^ uint_bits b * 2 ^ ?s" using bb(2) by simp
    also have "\<dots> = 2 ^ uint_bits a" using False by (simp add: power_add [symmetric])
    also have "\<dots> \<le> modulus b" using ba(2) assms(1) by (intro power_increasing) auto
    finally have t': "uval t = uval b * 2 ^ ?s" using t(3) by (simp add: mod_pos_pos_trivial)
    have "2 ^ uint_bits a = 2 * (2 ^ (uint_bits b - 1) * (2 :: int) ^ ?s)"
    proof -
      have "uint_bits a = Suc (uint_bits b - 1 + ?s)" using False bits by simp
      then have "(2 :: int) ^ uint_bits a = 2 ^ Suc (uint_bits b - 1 + ?s)" by simp
      then show ?thesis by (simp only: power_Suc power_add)
    qed
    also have "\<dots> \<le> 2 * (uval b * 2 ^ ?s)" using bb(1) by simp
    finally have "uval a < 2 * uval t" using ba(1) t' by linarith
    moreover have "?s < 64 * length b"
    proof -
      have "?s < uint_bits a" using False bits by simp
      with ba(2) assms(1) show ?thesis by simp
    qed
    ultimately have "dividing (uval a) b ?s (replicate (length a) 0) a t" using t(2) t' assms(1) by (simp add: dividing_def)
    from div_loop_correct [OF this] obtain q r
      where q: "div_loop ?s (replicate (length a) 0) a t = (Inr (q, r) :: 'e fault + limbs \<times> limbs)" "length q = length b" "length r = length b"
        "uval a = uval q * uval b + uval r" "uval r < uval b" by blast
    have "div_rem a b = (Inr (q, r) :: 'e fault + limbs \<times> limbs)" using False bits t(1) q(1) by (simp add: div_rem_def)
    moreover have "uval q = uval a div uval b" "uval r = uval a mod uval b"
      using q(4,5) uval_nonneg [of r] bpos by (simp_all add: div_pos_pos_trivial mod_pos_pos_trivial)
    ultimately show ?thesis using q(2,3) assms(1) by auto
  qed
qed

section \<open>Refinement of machine words\<close>

definition limbs_word :: "limbs \<Rightarrow> 'l::len word" where
  "limbs_word ws = word_of_int (uval ws)"

lemma uint_limbs_word:
  assumes "LENGTH('l::len) = 64 * length ws"
  shows "uint (limbs_word ws :: 'l word) = uval ws"
  using assms uval_less [of ws] by (simp add: limbs_word_def unsigned_of_int take_bit_int_eq_self)

lemma limbs_word_eqI:
  assumes "LENGTH('l::len) = 64 * length ws" and "uint (w :: 'l word) = uval ws"
  shows "limbs_word ws = w"
  using assms uint_limbs_word [of ws] by (simp add: word_uint_eq_iff)

lemma zero_limbs_iff:
  assumes "LENGTH('l::len) = 64 * length ws"
  shows "ws = uint_ZERO (length ws) \<longleftrightarrow> (limbs_word ws :: 'l word) = 0"
  using uval_zero_iff [of ws] uint_limbs_word [OF assms] by (simp add: uint_ZERO_replicate uint_0_iff [symmetric])

lemma checked_result:
  assumes "P \<Longrightarrow> \<exists>r. x = Some r \<and> length r = n \<and> uval r = v" and "\<not> P \<Longrightarrow> x = None"
    and "LENGTH('l::len) = 64 * n" and "\<And>c. y = Some c \<longleftrightarrow> uint (c :: 'l word) = v" and "y = None \<longleftrightarrow> \<not> P"
  shows "map_option limbs_word x = y"
proof (cases P)
  case True
  then obtain r where r: "x = Some r" "length r = n" "uval r = v" using assms(1) by blast
  then have "y = Some (limbs_word r)" using assms(3,4) uint_limbs_word [of r] by simp
  with r show ?thesis by simp
next
  case False
  with assms show ?thesis by simp
qed

lemma uint_checked_add_refines:
  assumes "length a = length b" and "LENGTH('l::len) = 64 * length a"
  shows "map_option limbs_word (uint_checked_add a b) = checked_add (limbs_word a :: 'l word) (limbs_word b)"
  using assms uint_checked_add_correct [OF assms(1)] uint_limbs_word [of a, where 'l = 'l] uint_limbs_word [of b, where 'l = 'l]
  by (intro checked_result [where P = "uval a + uval b < modulus a" and n = "length a" and v = "uval a + uval b"])
    (auto simp: checked_add_Some checked_add_None not_less)

lemma uint_checked_sub_refines:
  assumes "length a = length b" and "LENGTH('l::len) = 64 * length a"
  shows "map_option limbs_word (uint_checked_sub a b) = checked_sub (limbs_word a :: 'l word) (limbs_word b)"
proof -
  have "0 < length a" using assms(2) by (metis len_gt_0 mult_is_0 neq0_conv)
  then show ?thesis
    using assms uint_checked_sub_correct [OF assms(1)] uint_limbs_word [of a, where 'l = 'l] uint_limbs_word [of b, where 'l = 'l]
    by (intro checked_result [where P = "uval b \<le> uval a" and n = "length a" and v = "uval a - uval b"])
      (auto simp: checked_sub_Some checked_sub_None)
qed

lemma uint_checked_mul_refines:
  assumes "length a = length b" and "LENGTH('l::len) = 64 * length a"
  shows "map_ok (map_option limbs_word) (uint_checked_mul a b) = (Inr (checked_mul (limbs_word a :: 'l word) (limbs_word b)) :: 'e fault + _)"
proof -
  note m = uint_checked_mul_correct [OF assms(1), where 'e = 'e]
  then obtain x where x: "uint_checked_mul a b = (Inr x :: 'e fault + limbs option)" by (auto split: if_splits)
  have "map_option limbs_word x = checked_mul (limbs_word a :: 'l word) (limbs_word b)"
    using assms m x uint_limbs_word [of a, where 'l = 'l] uint_limbs_word [of b, where 'l = 'l]
    by (intro checked_result [where P = "uval a * uval b < modulus a" and n = "length a" and v = "uval a * uval b"])
      (auto simp: checked_mul_Some checked_mul_None not_less)
  with x show ?thesis by simp
qed

lemma uint_checked_div_refines:
  assumes "length a = length b" and "LENGTH('l::len) = 64 * length a"
  shows "map_ok (map_option limbs_word) (uint_checked_div a b) = (Inr (checked_div (limbs_word a :: 'l word) (limbs_word b)) :: 'e fault + _)"
    and "map_ok (map_option limbs_word) (uint_checked_rem a b) = (Inr (checked_rem (limbs_word a :: 'l word) (limbs_word b)) :: 'e fault + _)"
proof -
  have lens: "LENGTH('l) = 64 * length b" using assms by simp
  have z: "b \<noteq> uint_ZERO (length a) \<longleftrightarrow> (limbs_word b :: 'l word) \<noteq> 0" using zero_limbs_iff [OF lens] assms(1) by simp
  have nz: "uval b \<noteq> 0 \<longleftrightarrow> (limbs_word b :: 'l word) \<noteq> 0"
    using uint_limbs_word [OF lens] by (simp add: uint_0_iff [symmetric])
  let ?D = "map_ok (map_option limbs_word) (uint_checked_div a b) = (Inr (checked_div (limbs_word a :: 'l word) (limbs_word b)) :: 'e fault + _)"
    and ?R = "map_ok (map_option limbs_word) (uint_checked_rem a b) = (Inr (checked_rem (limbs_word a :: 'l word) (limbs_word b)) :: 'e fault + _)"
  have "?D \<and> ?R"
  proof (cases "uval b = 0")
    case True
    with z nz show ?thesis by (simp add: uint_checked_div_def checked_div_def uint_checked_rem_def checked_rem_def)
  next
    case False
    then obtain q r where q: "div_rem a b = (Inr (q, r) :: 'e fault + limbs \<times> limbs)" "length q = length a" "length r = length a"
      "uval q = uval a div uval b" "uval r = uval a mod uval b"
      using div_rem_correct [OF assms(1)] by blast
    have "limbs_word q = (limbs_word a div limbs_word b :: 'l word)" "limbs_word r = (limbs_word a mod limbs_word b :: 'l word)"
      using assms q lens by (auto intro!: limbs_word_eqI simp: uint_div uint_mod uint_limbs_word)
    with q(1) False z nz show ?thesis
      by (simp add: uint_checked_div_def checked_div_def uint_checked_rem_def checked_rem_def)
  qed
  then show ?D ?R by blast+
qed

text \<open>
  C32: the checked operations on arrays of 64-bit words are the checked operations on machine words of the same
  size, for every number of words: they return the exact result, or nothing exactly when it does not
  fit; no assertion fails on the way.
\<close>

theorem uint_refines_word:
  assumes "length a = length b" and "LENGTH('l::len) = 64 * length a"
  shows "map_option limbs_word (uint_checked_add a b) = checked_add (limbs_word a :: 'l word) (limbs_word b)
    \<and> map_option limbs_word (uint_checked_sub a b) = checked_sub (limbs_word a :: 'l word) (limbs_word b)
    \<and> map_ok (map_option limbs_word) (uint_checked_mul a b) = (Inr (checked_mul (limbs_word a :: 'l word) (limbs_word b)) :: 'e fault + _)
    \<and> map_ok (map_option limbs_word) (uint_checked_div a b) = (Inr (checked_div (limbs_word a :: 'l word) (limbs_word b)) :: 'e fault + _)
    \<and> map_ok (map_option limbs_word) (uint_checked_rem a b) = (Inr (checked_rem (limbs_word a :: 'l word) (limbs_word b)) :: 'e fault + _)
    \<and> (uint_cmp a b = Less \<longleftrightarrow> (limbs_word a :: 'l word) < limbs_word b)"
  using uint_checked_add_refines [OF assms] uint_checked_sub_refines [OF assms] uint_checked_mul_refines [OF assms]
    uint_checked_div_refines [OF assms] uint_cmp_correct [OF assms(1)] uint_limbs_word [of a, where 'l = 'l]
    uint_limbs_word [of b, where 'l = 'l] assms
  by (auto simp: word_less_def)

text \<open>
  C33: the loop of the bitwise long division always ends: for every non-zero divisor of the same size the
  division returns the quotient and the remainder, and it panics exactly for a zero divisor.
\<close>

theorem div_rem_terminates:
  assumes "length a = length b" and "0 < length a"
  shows "(uval b \<noteq> 0 \<longrightarrow> (\<exists>q r. div_rem a b = (Inr (q, r) :: 'e fault + limbs \<times> limbs)
      \<and> uval a = uval q * uval b + uval r \<and> 0 \<le> uval r \<and> uval r < uval b))
    \<and> (uval b = 0 \<longrightarrow> div_rem a b = (Inl Panic :: 'e fault + limbs \<times> limbs))"
proof (intro conjI impI)
  assume b: "uval b \<noteq> 0"
  then have "0 < uval b" using uval_nonneg [of b] by linarith
  with div_rem_correct [OF assms(1) b] show "\<exists>q r. div_rem a b = (Inr (q, r) :: 'e fault + limbs \<times> limbs)
      \<and> uval a = uval q * uval b + uval r \<and> 0 \<le> uval r \<and> uval r < uval b"
    by (metis div_mult_mod_eq pos_mod_bound uval_nonneg)
next
  assume "uval b = 0"
  then show "div_rem a b = (Inl Panic :: 'e fault + limbs \<times> limbs)"
    using uint_bits_spec(3) [of b] assms by (simp add: div_rem_def)
qed

text \<open>The bits of an array of words are the bits of the machine word that it stands for.\<close>

lemma bit_limbs_word:
  assumes "LENGTH('l::len) = 64 * length ws"
  shows "bit (limbs_word ws :: 'l word) m \<longleftrightarrow> m div 64 < length ws \<and> bit (ws ! (m div 64)) (m mod 64)"
proof -
  have "bit (limbs_word ws :: 'l word) m \<longleftrightarrow> bit (uint (limbs_word ws :: 'l word)) m" by (auto simp: bit_uint_iff dest: bit_imp_le_length)
  then show ?thesis using uint_limbs_word [OF assms] bit_uval by simp
qed

lemma limbs_word_bitwise:
  assumes "length a = length b" "LENGTH('l::len) = 64 * length a"
  shows "limbs_word (uint_bitand a b) = (limbs_word a :: 'l word) AND limbs_word b"
    and "limbs_word (uint_bitor a b) = (limbs_word a :: 'l word) OR limbs_word b"
    and "limbs_word (uint_bitxor a b) = (limbs_word a :: 'l word) XOR limbs_word b"
    and "limbs_word (uint_not a) = NOT (limbs_word a :: 'l word)"
proof -
  have m: "m div 64 < length b" if "m < LENGTH('l)" for m using that assms by (simp add: less_mult_imp_div_less mult.commute)
  note s = bit_limbs_word assms m uint_bitand_def uint_bitor_def uint_bitxor_def uint_not_def
  show "limbs_word (uint_bitand a b) = (limbs_word a :: 'l word) AND limbs_word b"
    by (rule bit_word_eqI) (simp add: s bit_and_iff)
  show "limbs_word (uint_bitor a b) = (limbs_word a :: 'l word) OR limbs_word b"
    by (rule bit_word_eqI) (simp add: s bit_or_iff)
  show "limbs_word (uint_bitxor a b) = (limbs_word a :: 'l word) XOR limbs_word b"
    by (rule bit_word_eqI) (simp add: s bit_xor_iff)
  show "limbs_word (uint_not a) = NOT (limbs_word a :: 'l word)"
    by (rule bit_word_eqI) (simp add: s bit_not_iff)
qed

lemma uint_drop_bit: "uint (drop_bit k w) = uint w div 2 ^ k" for w :: "'l::len word"
proof -
  have "take_bit LENGTH('l) (uint w) = uint w" by (rule take_bit_int_eq_self) (use uint_range [of w] in auto)
  then show ?thesis by (subst unsigned_drop_bit_eq) (simp only: drop_bit_eq_div)
qed

lemma uint_take_bit: "uint (take_bit k w) = uint w mod 2 ^ k" for w :: "'l::len word"
  by (simp only: unsigned_take_bit_eq) (simp add: take_bit_eq_mod)

lemma limbs_word_shifts:
  assumes "LENGTH('l::len) = 64 * length a"
  shows "map_ok limbs_word (uint_shl a k) = (Inr (push_bit k (limbs_word a :: 'l word)) :: 'e fault + 'l word)"
    and "map_ok limbs_word (uint_shr a k) = (Inr (drop_bit k (limbs_word a :: 'l word)) :: 'e fault + 'l word)"
proof -
  obtain r where r: "uint_shl a k = (Inr r :: 'e fault + limbs)" "length r = length a" "uval r = uval a * 2 ^ k mod modulus a"
    using uint_shl_correct by blast
  have "uint (push_bit k w) = uint w * 2 ^ k mod 2 ^ LENGTH('l)" for w :: "'l word"
    by (simp add: unsigned_push_bit_eq) (simp add: take_bit_eq_mod push_bit_eq_mult)
  then have "limbs_word r = push_bit k (limbs_word a :: 'l word)"
    using r(2,3) uint_limbs_word [OF assms] assms by (intro limbs_word_eqI) simp_all
  with r(1) show "map_ok limbs_word (uint_shl a k) = (Inr (push_bit k (limbs_word a :: 'l word)) :: 'e fault + 'l word)" by simp
  obtain q where q: "uint_shr a k = (Inr q :: 'e fault + limbs)" "length q = length a" "uval q = uval a div 2 ^ k"
    using uint_shr_correct by blast
  have "limbs_word q = drop_bit k (limbs_word a :: 'l word)"
    using q(2,3) uint_limbs_word [OF assms] assms by (intro limbs_word_eqI) (simp_all add: uint_drop_bit)
  with q(1) show "map_ok limbs_word (uint_shr a k) = (Inr (drop_bit k (limbs_word a :: 'l word)) :: 'e fault + 'l word)" by simp
qed

lemma mask_limbs_length [simp]: "length (mask_limbs n ws) = length ws"
  by (induction n ws rule: mask_limbs.induct) simp_all

lemma uval_mask_limbs: "uval (mask_limbs n ws) = uval ws mod 2 ^ n"
proof (induction n ws rule: mask_limbs.induct)
  case (2 n w ws)
  show ?case
  proof (cases "0x40 \<le> n")
    case True
    then have "(2 :: int) ^ n = 2 ^ 64 * 2 ^ (n - 64)" unfolding power_add [symmetric] by (simp only: le_add_diff_inverse)
    then have "(uint w + 2 ^ 64 * uval ws) mod 2 ^ n = 2 ^ 64 * (((uint w + 2 ^ 64 * uval ws) div 2 ^ 64) mod 2 ^ (n - 64))
        + (uint w + 2 ^ 64 * uval ws) mod 2 ^ 64"
      by (simp only: zmod_zmult2_eq zero_le_power zero_le_numeral)
    also have "\<dots> = uint w + 2 ^ 64 * (uval ws mod 2 ^ (n - 64))" using u64_range [of w] by simp
    finally show ?thesis using True 2 by simp
  next
    case False
    have "w AND (push_bit n 1 - 1) = take_bit n w" by (simp add: take_bit_eq_mask mask_eq_exp_minus_1 push_bit_eq_mult)
    moreover have "(uint w + 2 ^ 64 * uval ws) mod 2 ^ n = uint w mod 2 ^ n"
    proof -
      have "(2 :: int) ^ n dvd 2 ^ 64" using False by (intro le_imp_power_dvd) simp
      then have "2 ^ n dvd 2 ^ 64 * uval ws" by (rule dvd_mult2)
      then show ?thesis by (simp add: mod_add_eq [symmetric, of "uint w"] dvd_imp_mod_0)
    qed
    ultimately show ?thesis using False by (simp add: uint_take_bit)
  qed
qed simp

lemma limbs_word_mask:
  assumes "LENGTH('l::len) = 64 * length a"
  shows "limbs_word (uint_mask a n) = take_bit n (limbs_word a :: 'l word)"
  using uint_limbs_word [OF assms] assms by (intro limbs_word_eqI) (simp_all add: uint_mask_def uval_mask_limbs uint_take_bit)

lemma uint_bit_limbs_word:
  assumes "LENGTH('l::len) = 64 * length a"
  shows "uint_bit a k = (if k < LENGTH('l) then Inr (bit (limbs_word a :: 'l word) k) else Inl Panic :: 'e fault + bool)"
proof -
  have "w AND push_bit m 1 \<noteq> 0 \<longleftrightarrow> bit w m" for w :: u64 and m
    by (simp add: and_exp_eq_0_iff_not_bit push_bit_of_1)
  moreover have "k div 64 < length a \<longleftrightarrow> k < LENGTH('l)" using assms by (simp add: div_less_iff_less_mult mult.commute)
  ultimately show ?thesis using bit_limbs_word [OF assms] by (simp add: uint_bit_def)
qed

text \<open>
  C34: the bit operations on arrays of 64-bit words are those on machine words of the same size, for every number of words
  and every amount of a shift: and, or, exclusive or, complement, the two shifts, which never panic and drop what leaves the word, the
  mask of the low bits, the slice between two bits, which panics exactly when its end is before its start, and the
  test of a bit, which panics exactly beyond the size.
\<close>

theorem uint_bitwise_refines_word:
  assumes "length a = length b" and "LENGTH('l::len) = 64 * length a"
  shows "limbs_word (uint_bitand a b) = (limbs_word a :: 'l word) AND limbs_word b
    \<and> limbs_word (uint_bitor a b) = (limbs_word a :: 'l word) OR limbs_word b
    \<and> limbs_word (uint_bitxor a b) = (limbs_word a :: 'l word) XOR limbs_word b
    \<and> limbs_word (uint_not a) = NOT (limbs_word a :: 'l word)
    \<and> map_ok limbs_word (uint_shl a k) = (Inr (push_bit k (limbs_word a :: 'l word)) :: 'e fault + 'l word)
    \<and> map_ok limbs_word (uint_shr a k) = (Inr (drop_bit k (limbs_word a :: 'l word)) :: 'e fault + 'l word)
    \<and> limbs_word (uint_mask a n) = take_bit n (limbs_word a :: 'l word)
    \<and> map_ok limbs_word (bit_slice a k n) =
        (if k \<le> n then Inr (take_bit (n - k) (drop_bit k (limbs_word a :: 'l word))) else Inl Panic :: 'e fault + 'l word)
    \<and> uint_bit a k = (if k < LENGTH('l) then Inr (bit (limbs_word a :: 'l word) k) else Inl Panic :: 'e fault + bool)"
proof -
  obtain q where q: "uint_shr a k = (Inr q :: 'e fault + limbs)" "length q = length a" using uint_shr_correct by blast
  then have "limbs_word q = drop_bit k (limbs_word a :: 'l word)" using limbs_word_shifts(2) [OF assms(2), of k, where 'e = 'e] by simp
  then have "map_ok limbs_word (bit_slice a k n) =
      (if k \<le> n then Inr (take_bit (n - k) (drop_bit k (limbs_word a :: 'l word))) else Inl Panic :: 'e fault + 'l word)"
    using limbs_word_mask [of q, where 'l = 'l] q assms by (simp add: bit_slice_def)
  then show ?thesis
    using limbs_word_bitwise [OF assms] limbs_word_shifts [OF assms(2)] limbs_word_mask [OF assms(2)] uint_bit_limbs_word [OF assms(2)]
    by blast
qed

section \<open>Examples\<close>

theorem uint_refines_word_witness:
  "length [5, 0, 7, 1 :: u64] = 4 \<and> LENGTH(256) = 64 * length [5, 0, 7, 1 :: u64]
    \<and> map_ok (map_option limbs_word) (uint_checked_div [5, 0, 7, 1] [3, 0, 2, 0])
      = (Inr (checked_div (limbs_word [5, 0, 7, 1] :: 256 word) (limbs_word [3, 0, 2, 0])) :: unit fault + 256 word option)"
  using uint_refines_word [of "[5, 0, 7, 1]" "[3, 0, 2, 0]", where 'l = 256 and 'e = unit] by simp

theorem div_rem_terminates_witness:
  "\<exists>q r. div_rem [5, 0, 7, 1] [3, 0, 2, 0] = (Inr (q, r) :: unit fault + limbs \<times> limbs)
    \<and> uval [5, 0, 7, 1] = uval q * uval [3, 0, 2, 0] + uval r \<and> 0 \<le> uval r \<and> uval r < uval [3, 0, 2, 0]"
  using div_rem_terminates [of "[5, 0, 7, 1]" "[3, 0, 2, 0]", where 'e = unit] by simp

theorem uint_bitwise_refines_word_witness:
  "length [5, 0, 7, 1 :: u64] = length [3, 0, 2, 0 :: u64] \<and> LENGTH(256) = 64 * length [5, 0, 7, 1 :: u64]
    \<and> map_ok limbs_word (uint_shl [5, 0, 7, 1] 70) = (Inr (push_bit 70 (limbs_word [5, 0, 7, 1])) :: unit fault + 256 word)
    \<and> limbs_word (uint_bitand [5, 0, 7, 1] [3, 0, 2, 0]) = (limbs_word [5, 0, 7, 1] :: 256 word) AND limbs_word [3, 0, 2, 0]"
  using uint_bitwise_refines_word [of "[5, 0, 7, 1]" "[3, 0, 2, 0]", where 'l = 256 and 'e = unit and k = 70] by simp

end
