(* ===== verification/Compact.thy ===== *)
theory Compact
  imports UintDivision
begin

text \<open>
  Conversions of the big integers: bytes in both orders, narrower integers, and the compact form of targets
  (\<open>common/src/primitives/compact.rs\<close>).
\<close>

unbundle bit_operations_syntax

section \<open>The compact form\<close>

definition uint256_try_from_compact :: "u32 \<Rightarrow> limbs option fault + limbs" where
  "uint256_try_from_compact compact =
    (let size = drop_bit 24 compact; word = compact AND 0x007FFFFF in
     res_bind
       (if size \<le> 3 then
          let word = drop_bit (8 * (3 - unat size)) word in Inr (word, uint_from_u64 4 (ucast word))
        else map_ok (\<lambda>value. (word, value)) (uint_shl (uint_from_u64 4 (ucast word)) (8 * (unat size - 3))))
       (\<lambda>(word, value).
        if (word \<noteq> 0 \<and> compact AND 0x00800000 \<noteq> 0)
          \<or> (word \<noteq> 0 \<and> (size > 34 \<or> (word > 0xFF \<and> size > 33) \<or> (word > 0xFFFF \<and> size > 32)))
        then Inl (Err (Some value)) else Inr value))"

definition compact_from :: "limbs \<Rightarrow> 'e fault + u32" where
  "compact_from value =
    (let size = (uint_bits value + 7) div 8 in
     res_bind
       (if size \<le> 3 then Inr (push_bit (8 * (3 - size)) (low_u64 value))
        else map_ok low_u64 (uint_shr value (8 * (size - 3))))
       (\<lambda>compact.
        let (compact, size) = (if compact AND 0x00800000 \<noteq> 0 then (drop_bit 8 compact, size + 1) else (compact, size))
        in Inr (ucast compact OR ucast (push_bit 24 (of_nat size :: u64)))))"

section \<open>Bytes\<close>

lemma bit_fold_le:
  "bit (fold (\<lambda>i res. res OR push_bit (i * 8) (ucast (bs ! i))) [0..<k] (0 :: 'l::len word)) m \<longleftrightarrow>
    m div 8 < k \<and> m < LENGTH('l) \<and> bit (bs ! (m div 8) :: u8) (m mod 8)"
proof (induction k)
  case (Suc k)
  have "k * 8 \<le> m \<and> bit (bs ! k) (m - k * 8) \<longleftrightarrow> m div 8 = k \<and> bit (bs ! k) (m mod 8)"
  proof (cases "m div 8 = k")
    case True
    then have "m = 8 * k + m mod 8" by auto
    then have "m - k * 8 = m mod 8" "k * 8 \<le> m" by linarith+
    with True show ?thesis by simp
  next
    case False
    have "\<not> bit (bs ! k) (m - k * 8)" if "k * 8 \<le> m"
    proof -
      have "8 \<le> m - k * 8" using that False by auto
      then show ?thesis using bit_imp_le_length [of "bs ! k" "m - k * 8"] by fastforce
    qed
    with False show ?thesis by blast
  qed
  with Suc show ?case
    by (auto simp: bit_or_iff bit_push_bit_iff bit_ucast_iff less_Suc_eq)
qed simp

lemma bit_byte: "bit (ucast (drop_bit k val AND 0xff) :: u8) t \<longleftrightarrow> t < 8 \<and> bit val (k + t)" for val :: "'l::len word"
proof -
  have m: "(0xff :: 'l word) = mask 8" by (simp add: mask_eq_exp_minus_1)
  show ?thesis
    unfolding m by (auto simp: bit_ucast_iff bit_and_iff bit_drop_bit_eq bit_mask_iff dest: bit_imp_le_length)
qed

lemma slice_to_le_to_array_le:
  assumes "LENGTH('l::len) = 8 * n"
  shows "slice_to_le (to_array_le val) = (Inr val :: 'e fault + 'l word)"
proof -
  have n: "LENGTH('l) div 8 = n" using assms by simp
  have "fold (\<lambda>i res. res OR push_bit (i * 8) (ucast (to_array_le val ! i))) [0..<n] 0 = val"
  proof (rule bit_word_eqI)
    fix m
    assume m: "m < LENGTH('l)"
    then have "m div 8 < n" using assms by simp
    moreover have "m div 8 * 8 + m mod 8 = m" by simp
    ultimately show "bit (fold (\<lambda>i res. res OR push_bit (i * 8) (ucast (to_array_le val ! i))) [0..<n] (0 :: 'l word)) m \<longleftrightarrow> bit val m"
      using m by (simp add: bit_fold_le to_array_le_def n bit_byte)
  qed
  then show ?thesis by (simp add: slice_to_le_def n to_array_le_def)
qed

lemma fold_or_rev:
  "fold (\<lambda>i res. res OR f i) xs (fold (\<lambda>i res. res OR f i) ys r) = fold (\<lambda>i res. res OR f i) ys (fold (\<lambda>i res. res OR f i) xs r)"
  for r :: "'l::len word"
proof -
  let ?F = "fold (\<lambda>i res. res OR f i)"
  have e: "fold (\<lambda>i res. res OR f i) xs r = r OR fold (\<lambda>i res. res OR f i) xs 0" for xs r
  proof (induction xs arbitrary: r)
    case (Cons x xs)
    show ?case using Cons [of "r OR f x"] Cons [of "f x"] by (simp add: or.assoc)
  qed simp
  have "?F xs (?F ys r) = (r OR ?F ys 0) OR ?F xs 0" by (subst e [of xs "?F ys r"], subst e [of ys r], rule refl)
  moreover have "?F ys (?F xs r) = (r OR ?F xs 0) OR ?F ys 0" by (subst e [of ys "?F xs r"], subst e [of xs r], rule refl)
  ultimately show ?thesis by (simp only: or.assoc or.commute [of "?F xs 0"])
qed

lemma fold_or_set: "fold (\<lambda>i res. res OR f i) xs (r :: 'l::len word) = fold (\<lambda>i res. res OR f i) (rev xs) r"
proof (induction xs arbitrary: r)
  case (Cons x xs)
  have "fold (\<lambda>i res. res OR f i) (x # xs) r = fold (\<lambda>i res. res OR f i) xs (fold (\<lambda>i res. res OR f i) [x] r)" by simp
  also have "\<dots> = fold (\<lambda>i res. res OR f i) [x] (fold (\<lambda>i res. res OR f i) xs r)" by (rule fold_or_rev)
  also have "\<dots> = fold (\<lambda>i res. res OR f i) (rev (x # xs)) r" using Cons by simp
  finally show ?case .
qed simp

lemma to_array_be_rev: "to_array_be val = rev (to_array_le val)" for val :: "'l::len word"
  by (rule nth_equalityI) (auto simp: to_array_be_def to_array_le_def rev_nth Let_def)

lemma slice_to_be_rev: "slice_to_be (rev bs) = (slice_to_le bs :: 'e fault + 'l::len word)"
proof -
  let ?n = "LENGTH('l) div 8"
  have "fold (\<lambda>i res. res OR push_bit ((?n - i - 1) * 8) (ucast (rev bs ! i))) [0..<?n] 0
      = fold (\<lambda>i res. res OR push_bit (i * 8) (ucast (bs ! i))) [0..<?n] (0 :: 'l word)" if l: "length bs = ?n"
  proof -
    have r: "rev [0..<?n] = map (\<lambda>i. ?n - i - 1) [0..<?n]" by (rule nth_equalityI) (auto simp: rev_nth)
    have "fold (\<lambda>i res. res OR push_bit (i * 8) (ucast (bs ! i))) (rev [0..<?n]) (0 :: 'l word)
      = fold (\<lambda>i res. res OR push_bit ((?n - i - 1) * 8) (ucast (bs ! (?n - i - 1)))) [0..<?n] 0"
      unfolding r fold_map comp_def ..
    moreover have "\<dots> = fold (\<lambda>i res. res OR push_bit ((?n - i - 1) * 8) (ucast (rev bs ! i))) [0..<?n] 0"
      by (rule fold_cong) (auto simp: rev_nth l)
    ultimately show ?thesis using fold_or_set [of "\<lambda>i. push_bit (i * 8) (ucast (bs ! i)) :: 'l word" "[0..<?n]" 0] by simp
  qed
  then show ?thesis by (simp add: slice_to_be_def slice_to_le_def Let_def)
qed

lemma to_array_length [simp]: "length (to_array_le (w :: u64)) = 8" "length (to_array_be (w :: u64)) = 8"
  by (simp_all add: to_array_le_def to_array_be_def Let_def)

lemma chunks_append:
  assumes "length b = k" and "0 < k"
  shows "chunks k (b @ bs) = b # chunks k bs"
proof -
  obtain x xs where b: "b = x # xs" using assms by (cases b) auto
  have "drop (k - 1) (xs @ bs) = bs" "take k (x # xs @ bs) = x # xs" using assms b by auto
  then show ?thesis using assms(2) by (simp add: b)
qed

lemma chunks_concat: "\<forall>b \<in> set bss. length b = 8 \<Longrightarrow> chunks 8 (concat bss) = bss"
  by (induction bss) (auto simp: chunks_append)

lemma bytes_length: "length (to_bytes ws) = 8 * length ws" "length (to_be_bytes ws) = 8 * length ws"
  by (simp_all add: to_bytes_def to_be_bytes_def length_concat comp_def sum_list_triv mult.commute)

text \<open>
  The byte encodings are lossless: decoding the encoded bytes, in little-endian or in big-endian order, returns the
  same number, and a slice of any other length is refused with its length.
\<close>

theorem uint_bytes_roundtrip:
  assumes "length ws = n"
  shows "from_slice n (to_bytes ws) = Inr ws \<and> from_be_slice n (to_be_bytes ws) = Inr ws
    \<and> (length bs \<noteq> n * 8 \<longrightarrow> from_slice n bs = Inl (Err \<lparr>actual = length bs, expected = n * 8\<rparr>)
      \<and> from_be_slice n bs = Inl (Err \<lparr>actual = length bs, expected = n * 8\<rparr>))"
proof -
  have le: "chunks 8 (to_bytes ws) = map to_array_le ws"
    unfolding to_bytes_def by (rule chunks_concat) auto
  have be: "chunks 8 (to_be_bytes ws) = map to_array_be (rev ws)"
    unfolding to_be_bytes_def by (rule chunks_concat) auto
  have word: "slice_to_le (to_array_le w) = (Inr w :: 'a fault + u64)" for w
    by (rule slice_to_le_to_array_le [of 8]) simp
  have word': "slice_to_be (to_array_be w) = (Inr w :: 'a fault + u64)" for w
    unfolding to_array_be_rev slice_to_be_rev by (rule word)
  have "inner_from_slice n (to_bytes ws) = (Inr ws :: parse_length_error fault + limbs)"
    using assms by (simp add: inner_from_slice_def le res_map_Inr list_all2_map1 word list_all2_same)
  moreover have "inner_from_be_slice n (to_be_bytes ws) = (Inr ws :: parse_length_error fault + limbs)"
  proof -
    have "res_map slice_to_be (map to_array_be (rev ws)) = (Inr (rev ws) :: parse_length_error fault + limbs)"
      by (simp add: res_map_Inr list_all2_map1 word' list_all2_same)
    then show ?thesis using assms by (simp add: inner_from_be_slice_def be)
  qed
  ultimately show ?thesis using assms by (simp add: from_slice_def from_be_slice_def bytes_length)
qed

section \<open>Narrowing\<close>

lemma uval_low: "0 < length ws \<Longrightarrow> uint (ws ! 0) = uval ws mod 2 ^ 64"
  using u64_range [of "ws ! 0"] by (cases ws) simp_all

lemma length_4: "length ws = 4 \<longleftrightarrow> (\<exists>a b c d. ws = [a, b, c, d])"
  by (auto simp: length_Suc_conv eval_nat_numeral)

lemma length_8: "length ws = 8 \<longleftrightarrow> (\<exists>a b c d e f g h. ws = [a, b, c, d, e, f, g, h])"
  by (auto simp: length_Suc_conv eval_nat_numeral)

lemma high_part_zero: "l + m * h < m \<Longrightarrow> 0 < m \<Longrightarrow> 0 \<le> l \<Longrightarrow> 0 \<le> h \<Longrightarrow> h = 0" for l h m :: int
proof (rule ccontr)
  assume a: "l + m * h < m" "0 < m" "0 \<le> l" "0 \<le> h" "h \<noteq> 0"
  then have "m * 1 \<le> m * h" by (intro mult_left_mono) auto
  with a show False by linarith
qed

lemma uint_word_of_int_small: "0 \<le> x \<Longrightarrow> x < 2 ^ LENGTH('l) \<Longrightarrow> uint (word_of_int x :: 'l::len word) = x"
  by (simp add: unsigned_of_int take_bit_int_eq_self)

lemma uval_from_u128: "uval (uint_from_u128 4 w) = uint w" "length (uint_from_u128 4 w) = 4"
proof -
  have "uint (ucast w :: u64) = uint w mod 2 ^ 64" by (simp add: unsigned_ucast_eq take_bit_eq_mod)
  moreover have "uint (ucast (drop_bit 64 w) :: u64) = uint w div 2 ^ 64"
  proof -
    have "uint (drop_bit 64 w) = uint w div 2 ^ 64" by (rule uint_drop_bit)
    moreover have "uint w div 2 ^ 64 < 2 ^ 64" using uint_range [of w] by (intro int_div_less) auto
    moreover have "0 \<le> uint w div 2 ^ 64" by (simp add: pos_imp_zdiv_nonneg_iff)
    ultimately show ?thesis by (simp only: unsigned_ucast_eq) (rule take_bit_int_eq_self, simp_all)
  qed
  ultimately show "uval (uint_from_u128 4 w) = uint w"
    using mod_mult_div_eq [of "uint w" "2 ^ 64"] by (simp add: uint_from_u128_def eval_nat_numeral)
  show "length (uint_from_u128 4 w) = 4" by (simp add: uint_from_u128_def)
qed

lemma to_bytes_u128:
  "\<exists>w. slice_to_le (to_array_le a @ to_array_le b) = (Inr w :: 'e fault + u128) \<and> uint w = uval [a, b]" for a b :: u64
proof -
  obtain x :: u128 where w: "uint x = uval [a, b]"
    using uint_word_of_int_small [of "uval [a, b]", where 'l = 128] uval_less [of "[a, b]"] uval_nonneg [of "[a, b]"] by auto
  have bits: "bit x m \<longleftrightarrow> m < 128 \<and> bit ([a, b] ! (m div 64)) (m mod 64)" for m
  proof -
    have "bit x m \<longleftrightarrow> m < 128 \<and> bit (uint x) m" by (auto simp: bit_uint_iff dest: bit_imp_le_length)
    then show ?thesis unfolding w bit_uval by auto
  qed
  have "to_array_le x = to_array_le a @ to_array_le b"
  proof (rule nth_equalityI)
    fix i assume "i < length (to_array_le x)"
    then have i: "i < 16" by (simp add: to_array_le_def)
    show "to_array_le x ! i = (to_array_le a @ to_array_le b) ! i"
    proof (rule bit_word_eqI)
      fix t assume t: "t < LENGTH(8)"
      have "bit (to_array_le x ! i) t \<longleftrightarrow> bit x (i * 8 + t)" using i t by (simp add: to_array_le_def bit_byte)
      also have "\<dots> \<longleftrightarrow> bit ([a, b] ! ((i * 8 + t) div 64)) ((i * 8 + t) mod 64)" using i t by (simp add: bits)
      also have "\<dots> \<longleftrightarrow> bit ((to_array_le a @ to_array_le b) ! i) t"
      proof (cases "i < 8")
        case True
        then have "(i * 8 + t) div 64 = 0" "(i * 8 + t) mod 64 = i * 8 + t" using t by simp_all
        with True t show ?thesis by (simp add: nth_append to_array_le_def bit_byte)
      next
        case False
        then have "i * 8 + t = 64 * 1 + ((i - 8) * 8 + t)" by simp
        moreover have "(i - 8) * 8 + t < 64" using i t by simp
        ultimately have "(i * 8 + t) div 64 = 1" "(i * 8 + t) mod 64 = (i - 8) * 8 + t" using limb_index by metis+
        moreover have "i - 8 < 8" using i False by simp
        ultimately show ?thesis using False i t by (simp add: nth_append to_array_le_def bit_byte)
      qed
      finally show "bit (to_array_le x ! i) t \<longleftrightarrow> bit ((to_array_le a @ to_array_le b) ! i) t" .
    qed
  qed (simp add: to_array_le_def)
  then show ?thesis using slice_to_le_to_array_le [of 16 x] w by auto
qed

lemma u128_try_from_correct:
  assumes "length n = 4"
  shows "if uval n < 2 ^ 128 then \<exists>w. u128_try_from n = Inr w \<and> uint w = uval n else u128_try_from n = Inl (Err ConversionOverflow)"
proof -
  have max: "uint (- 1 :: u128) = 2 ^ 128 - 1" by (simp add: unsigned_minus_1_eq_mask mask_eq_exp_minus_1)
  have cmp: "uint_cmp n (uint_from_u128 4 (- 1)) = Greater \<longleftrightarrow> \<not> uval n < 2 ^ 128"
    using uint_cmp_correct [of n "uint_from_u128 4 (- 1)"] assms by (auto simp: uval_from_u128 max)
  obtain a b c d where n: "n = [a, b, c, d]" using assms by (auto simp: length_4)
  obtain w where w: "u128_from_uint128 (low_128 n) = (Inr w :: uint_conversion_error fault + u128)" "uint w = uval [a, b]"
    using to_bytes_u128 [of a b, where 'e = uint_conversion_error]
    by (auto simp: u128_from_uint128_def low_128_def n to_bytes_def)
  show ?thesis
  proof (cases "uval n < 2 ^ 128")
    case True
    have v: "uval n = uval [a, b] + 2 ^ 128 * uval [c, d]" by (simp add: n)
    have "uval [c, d] = 0"
      using True unfolding v by (rule high_part_zero) simp_all
    then have "uval n = uval [a, b]" unfolding v by simp
    with True cmp w show ?thesis by (simp add: u128_try_from_def)
  qed (use cmp in \<open>simp add: u128_try_from_def\<close>)
qed

lemma uint256_try_from_correct:
  assumes "length n = 8"
  shows "if uval n < 2 ^ 256 then \<exists>r. uint256_try_from n = Inr r \<and> length r = 4 \<and> uval r = uval n
    else uint256_try_from n = Inl ConversionOverflow"
proof -
  obtain a b c d e f g h where n: "n = [a, b, c, d, e, f, g, h]" using assms by (auto simp: length_8)
  have max: "uval (uint512_from_uint256 (uint_MAX 4)) = 2 ^ 256 - 1" "length (uint512_from_uint256 (uint_MAX 4)) = 8"
    by (simp_all add: uint512_from_uint256_def uint_MAX_def uint_max_u64)
  have cmp: "uint_cmp n (uint512_from_uint256 (uint_MAX 4)) = Greater \<longleftrightarrow> \<not> uval n < 2 ^ 256"
    using uint_cmp_correct [of n "uint512_from_uint256 (uint_MAX 4)"] assms max by auto
  have v: "uval n = uval [a, b, c, d] + 2 ^ 256 * uval [e, f, g, h]" by (simp add: n)
  show ?thesis
  proof (cases "uval n < 2 ^ 256")
    case True
    have "uval [e, f, g, h] = 0"
      using True unfolding v by (rule high_part_zero) simp_all
    then have "uval n = uval [a, b, c, d]" using v by simp
    with True cmp show ?thesis by (simp add: uint256_try_from_def n)
  qed (use cmp in \<open>simp add: uint256_try_from_def\<close>)
qed

section \<open>Compact targets\<close>

text \<open>The parts of a compact number: the size in bytes, the mantissa and the sign bit.\<close>

definition csize :: "u32 \<Rightarrow> nat" where
  "csize c = nat (uint c div 2 ^ 24)"

definition cmantissa :: "u32 \<Rightarrow> int" where
  "cmantissa c = uint c mod 2 ^ 23"

definition csign :: "u32 \<Rightarrow> bool" where
  "csign c \<longleftrightarrow> odd (uint c div 2 ^ 23)"

lemma bit_as_odd: "bit w k \<longleftrightarrow> odd (uint w div 2 ^ k)" for w :: "'l::len word"
proof -
  have "bit w k \<longleftrightarrow> bit (uint w) k" by (auto simp: bit_uint_iff dest: bit_imp_le_length)
  then show ?thesis by (simp add: bit_iff_odd)
qed

lemma compact_parts:
  "unat (drop_bit 24 c) = csize c" "uint (c AND 0x007FFFFF) = cmantissa c" "c AND 0x00800000 \<noteq> 0 \<longleftrightarrow> csign c" for c :: u32
proof -
  show "unat (drop_bit 24 c) = csize c"
    unfolding csize_def uint_drop_bit [symmetric] by simp
  have m: "(0x007FFFFF :: u32) = mask 23" by (simp add: mask_eq_exp_minus_1)
  show "uint (c AND 0x007FFFFF) = cmantissa c"
    unfolding m cmantissa_def take_bit_eq_mask [symmetric] by (rule uint_take_bit)
  have e: "(0x00800000 :: u32) = 2 ^ 23" by simp
  show "c AND 0x00800000 \<noteq> 0 \<longleftrightarrow> csign c"
    unfolding e csign_def bit_as_odd [symmetric] by (simp only: and_exp_eq_0_iff_not_bit not_not)
qed

lemma cmantissa_range: "0 \<le> cmantissa c" "cmantissa c < 2 ^ 23"
  by (simp_all add: cmantissa_def)

lemma compact_decode:
  fixes c :: u32
  defines "w \<equiv> (if csize c \<le> 3 then cmantissa c div 2 ^ (8 * (3 - csize c)) else cmantissa c)"
  shows "\<exists>y. length y = 4
    \<and> uval y = (if csize c \<le> 3 then w else w * 2 ^ (8 * (csize c - 3)) mod 2 ^ 256)
    \<and> uint256_try_from_compact c =
      (if w \<noteq> 0 \<and> (csign c \<or> 34 < csize c \<or> (0xFF < w \<and> 33 < csize c) \<or> (0xFFFF < w \<and> 32 < csize c))
       then Inl (Err (Some y)) else Inr y)"
proof -
  let ?size = "drop_bit 24 c" and ?word = "c AND 0x007FFFFF"
  have size: "?size \<le> 3 \<longleftrightarrow> csize c \<le> 3" "?size > 34 \<longleftrightarrow> 34 < csize c" "?size > 33 \<longleftrightarrow> 33 < csize c" "?size > 32 \<longleftrightarrow> 32 < csize c"
    by (simp_all add: word_le_nat_alt word_less_nat_alt compact_parts)
  have conv: "v = 0 \<longleftrightarrow> w = 0" "v > 0xFF \<longleftrightarrow> 0xFF < w" "v > 0xFFFF \<longleftrightarrow> 0xFFFF < w" if "uint v = w" for v :: u32
    unfolding that [symmetric] by (simp_all add: word_less_def uint_0_iff)
  have up: "uint (ucast v :: u64) = uint v" for v :: u32 by (simp add: uint_up_ucast is_up)
  show ?thesis
  proof (cases "csize c \<le> 3")
    case True
    define v where "v = drop_bit (8 * (3 - csize c)) ?word"
    have v: "uint v = w" unfolding w_def v_def uint_drop_bit compact_parts using True by simp
    have "length (uint_from_u64 4 (ucast v)) = 4" "uval (uint_from_u64 4 (ucast v)) = w"
      using v by (simp_all add: up)
    with True v show ?thesis
      unfolding uint256_try_from_compact_def Let_def compact_parts size v_def [symmetric]
      by (intro exI [of _ "uint_from_u64 4 (ucast v)"]) (simp add: conv [OF v])
  next
    case False
    define v where "v = ?word"
    have v: "uint v = w" unfolding w_def v_def compact_parts using False by simp
    obtain y where y: "uint_shl (uint_from_u64 4 (ucast v)) (8 * (csize c - 3)) = (Inr y :: limbs option fault + limbs)"
      "length y = 4" "uval y = w * 2 ^ (8 * (csize c - 3)) mod 2 ^ 256"
      using uint_shl_correct [of "uint_from_u64 4 (ucast v)" "8 * (csize c - 3)", where 'e = "limbs option"] v by (auto simp: up)
    with False show ?thesis
      unfolding uint256_try_from_compact_def Let_def compact_parts size v_def [symmetric]
      by (intro exI [of _ y]) (simp add: conv [OF v])
  qed
qed

text \<open>The encoder, in numbers: the size of the number in bytes, and the mantissa before the sign bit is freed.\<close>

definition byte_size :: "limbs \<Rightarrow> nat" where
  "byte_size x = (uint_bits x + 7) div 8"

definition raw_mantissa :: "limbs \<Rightarrow> int" where
  "raw_mantissa x = (if byte_size x \<le> 3 then uval x * 2 ^ (8 * (3 - byte_size x)) else uval x div 2 ^ (8 * (byte_size x - 3)))"

lemma byte_size_bounds:
  assumes "length x = 4"
  shows "byte_size x \<le> 32" and "uval x < 2 ^ (8 * byte_size x)" and "0 < byte_size x \<Longrightarrow> 2 ^ (8 * (byte_size x - 1)) \<le> uval x"
proof -
  have pos: "0 < length x" using assms by simp
  show "byte_size x \<le> 32" using uint_bits_spec(1) [OF pos] assms by (simp add: byte_size_def)
  have "uint_bits x \<le> 8 * byte_size x" unfolding byte_size_def by linarith
  then have "(2 :: int) ^ uint_bits x \<le> 2 ^ (8 * byte_size x)" by (intro power_increasing) auto
  then show "uval x < 2 ^ (8 * byte_size x)" using uint_bits_bounds(1) [OF pos] by linarith
  show "2 ^ (8 * (byte_size x - 1)) \<le> uval x" if "0 < byte_size x"
  proof -
    have "uint_bits x \<noteq> 0" using that by (auto simp: byte_size_def)
    then have "uval x \<noteq> 0" using uint_bits_spec(3) [OF pos] by simp
    then have "2 ^ (uint_bits x - 1) \<le> uval x" using uint_bits_bounds(2) [OF pos] by blast
    moreover have "8 * (byte_size x - 1) \<le> uint_bits x - 1" using that unfolding byte_size_def by linarith
    then have "(2 :: int) ^ (8 * (byte_size x - 1)) \<le> 2 ^ (uint_bits x - 1)" by (intro power_increasing) auto
    ultimately show ?thesis by linarith
  qed
qed

lemma raw_mantissa_bounds:
  assumes "length x = 4"
  shows "0 \<le> raw_mantissa x" and "raw_mantissa x < 2 ^ 24" and "3 < byte_size x \<Longrightarrow> 2 ^ 16 \<le> raw_mantissa x"
proof -
  note b = byte_size_bounds [OF assms]
  show "0 \<le> raw_mantissa x" by (simp add: raw_mantissa_def pos_imp_zdiv_nonneg_iff)
  show "raw_mantissa x < 2 ^ 24"
  proof (cases "byte_size x \<le> 3")
    case True
    have "uval x * 2 ^ (8 * (3 - byte_size x)) < 2 ^ (8 * byte_size x) * 2 ^ (8 * (3 - byte_size x))" using b(2) by simp
    also have "\<dots> = 2 ^ 24" using True by (simp add: power_add [symmetric] add_mult_distrib2 [symmetric])
    finally show ?thesis using True by (simp add: raw_mantissa_def)
  next
    case False
    have "(2 :: int) ^ (8 * byte_size x) = 2 ^ 24 * 2 ^ (8 * (byte_size x - 3))"
      using False by (simp only: power_add [symmetric]) simp
    then have "uval x div 2 ^ (8 * (byte_size x - 3)) < 2 ^ 24" using b(2) by (intro int_div_less) auto
    then show ?thesis using False by (simp add: raw_mantissa_def)
  qed
  show "2 ^ 16 \<le> raw_mantissa x" if "3 < byte_size x"
  proof -
    have "(2 :: int) ^ (8 * (byte_size x - 1)) = 2 ^ 16 * 2 ^ (8 * (byte_size x - 3))"
      using that by (simp only: power_add [symmetric]) simp
    then have "2 ^ 16 * 2 ^ (8 * (byte_size x - 3)) div 2 ^ (8 * (byte_size x - 3)) \<le> uval x div 2 ^ (8 * (byte_size x - 3))"
      using b(3) that by (intro zdiv_mono1) auto
    then show ?thesis using that by (simp add: raw_mantissa_def)
  qed
qed

lemma uint_push_bit_small: "uint w * 2 ^ k < 2 ^ LENGTH('l) \<Longrightarrow> uint (push_bit k w) = uint w * 2 ^ k" for w :: "'l::len word"
  by (subst unsigned_push_bit_eq) (simp add: push_bit_eq_mult take_bit_int_eq_self)

text \<open>The mantissa and the size that are encoded.\<close>

definition enc_mantissa :: "limbs \<Rightarrow> int" where
  "enc_mantissa x = (if 2 ^ 23 \<le> raw_mantissa x then raw_mantissa x div 2 ^ 8 else raw_mantissa x)"

definition enc_size :: "limbs \<Rightarrow> nat" where
  "enc_size x = (if 2 ^ 23 \<le> raw_mantissa x then byte_size x + 1 else byte_size x)"

lemma enc_mantissa_bounds: "length x = 4 \<Longrightarrow> 0 \<le> enc_mantissa x \<and> enc_mantissa x < 2 ^ 23"
  using raw_mantissa_bounds(1,2) [of x] int_div_less [of "2 ^ 8" "raw_mantissa x" "2 ^ 16"]
  by (auto simp: enc_mantissa_def pos_imp_zdiv_nonneg_iff)

lemma compact_encode:
  assumes "length x = 4"
  shows "\<exists>c. compact_from x = (Inr c :: 'e fault + u32) \<and> uint c = enc_mantissa x + 2 ^ 24 * int (enc_size x)"
proof -
  note b = byte_size_bounds [OF assms] and r = raw_mantissa_bounds [OF assms]
  have pos: "0 < length x" using assms by simp
  obtain m :: u64 where m: "(if byte_size x \<le> 3 then Inr (push_bit (8 * (3 - byte_size x)) (low_u64 x))
      else map_ok low_u64 (uint_shr x (8 * (byte_size x - 3)))) = (Inr m :: 'e fault + u64)" "uint m = raw_mantissa x"
  proof (cases "byte_size x \<le> 3")
    case True
    have "uval x < 2 ^ 64"
    proof -
      have "(2 :: int) ^ (8 * byte_size x) \<le> 2 ^ 64" using True by (intro power_increasing) auto
      with b(2) show ?thesis by linarith
    qed
    then have low: "uint (low_u64 x) = uval x" using uval_low [OF pos] by (simp add: low_u64_def mod_pos_pos_trivial)
    have "uint (push_bit (8 * (3 - byte_size x)) (low_u64 x)) = raw_mantissa x"
      using r(2) True low by (subst uint_push_bit_small) (simp_all add: raw_mantissa_def)
    with True that show thesis by simp
  next
    case False
    obtain t where t: "uint_shr x (8 * (byte_size x - 3)) = (Inr t :: 'e fault + limbs)" "length t = 4" "uval t = raw_mantissa x"
      using uint_shr_correct [of x "8 * (byte_size x - 3)", where 'e = 'e] assms False by (auto simp: raw_mantissa_def)
    have "uint (low_u64 t) = raw_mantissa x" using uval_low [of t] t r(1,2) by (simp add: low_u64_def mod_pos_pos_trivial)
    with False t that show thesis by simp
  qed
  have e: "(0x00800000 :: u64) = 2 ^ 23" by simp
  have set: "m AND 0x00800000 \<noteq> 0 \<longleftrightarrow> 2 ^ 23 \<le> raw_mantissa x"
  proof -
    have "m AND 0x00800000 \<noteq> 0 \<longleftrightarrow> bit m 23" unfolding e by (simp only: and_exp_eq_0_iff_not_bit not_not)
    also have "\<dots> \<longleftrightarrow> odd (raw_mantissa x div 2 ^ 23)" by (simp only: bit_as_odd m(2))
    also have "\<dots> \<longleftrightarrow> 2 ^ 23 \<le> raw_mantissa x"
    proof (cases "2 ^ 23 \<le> raw_mantissa x")
      case True
      then have "raw_mantissa x div 2 ^ 23 = 1" using r(2) by (intro int_div_pos_eq [of _ _ _ "raw_mantissa x - 2 ^ 23"]) auto
      with True show ?thesis by simp
    next
      case False
      then have "raw_mantissa x div 2 ^ 23 = 0" using r(1) by (intro div_pos_pos_trivial) auto
      with False show ?thesis by simp
    qed
    finally show ?thesis .
  qed
  let ?c = "if 2 ^ 23 \<le> raw_mantissa x then drop_bit 8 m else m"
  have c: "uint ?c = enc_mantissa x" by (simp add: enc_mantissa_def m(2) uint_drop_bit)
  have size: "enc_size x \<le> 33" using b(1) by (simp add: enc_size_def)
  have low: "uint (ucast ?c :: u32) = enc_mantissa x"
  proof -
    have "uint (ucast ?c :: u32) = enc_mantissa x mod 2 ^ 32" unfolding unsigned_ucast_eq c by (simp add: take_bit_eq_mod)
    also have "\<dots> = enc_mantissa x" using enc_mantissa_bounds [OF assms] by (intro mod_pos_pos_trivial) auto
    finally show ?thesis .
  qed
  have high: "uint (ucast (push_bit 24 (of_nat (enc_size x) :: u64)) :: u32) = 2 ^ 24 * int (enc_size x)"
  proof -
    have n: "uint (of_nat (enc_size x) :: u64) = int (enc_size x)" using size by (simp add: unsigned_of_nat take_bit_nat_eq_self)
    have "uint (push_bit 24 (of_nat (enc_size x) :: u64)) = int (enc_size x) * 2 ^ 24"
      using size n by (subst uint_push_bit_small) simp_all
    then have "uint (ucast (push_bit 24 (of_nat (enc_size x) :: u64)) :: u32) = (int (enc_size x) * 2 ^ 24) mod 2 ^ 32"
      unfolding unsigned_ucast_eq by (simp add: take_bit_eq_mod)
    also have "\<dots> = int (enc_size x) * 2 ^ 24" using size by (intro mod_pos_pos_trivial) auto
    finally show ?thesis by simp
  qed
  have "uint (ucast ?c OR ucast (push_bit 24 (of_nat (enc_size x) :: u64)) :: u32) = enc_mantissa x + 2 ^ 24 * int (enc_size x)"
  proof -
    have "enc_mantissa x AND 2 ^ 24 * int (enc_size x) = 0"
    proof (rule bit_eqI)
      fix k
      have "\<not> bit (enc_mantissa x) k" if "24 \<le> k"
        using enc_mantissa_bounds [OF assms] exp_le_if_bit [of "enc_mantissa x" k] power_increasing [of 24 k "2 :: int"] that by auto
      moreover have "bit (2 ^ 24 * int (enc_size x)) k \<Longrightarrow> 24 \<le> k"
        using bit_push_bit_iff [of 24 "int (enc_size x)" k] by (simp add: push_bit_eq_mult mult.commute)
      ultimately show "bit (enc_mantissa x AND 2 ^ 24 * int (enc_size x)) k \<longleftrightarrow> bit (0 :: int) k" by (auto simp: bit_and_iff)
    qed
    then show ?thesis unfolding unsigned_or_eq low high by (rule disjunctive_add_eq_or [symmetric])
  qed
  moreover have "compact_from x = (Inr (ucast ?c OR ucast (push_bit 24 (of_nat (enc_size x) :: u64))) :: 'e fault + u32)"
    unfolding compact_from_def byte_size_def [symmetric] Let_def m(1) by (simp add: set enc_size_def)
  ultimately show ?thesis by blast
qed

lemma enc_value:
  assumes "length x = 4"
  shows "enc_size x \<le> 3 \<Longrightarrow> enc_mantissa x div 2 ^ (8 * (3 - enc_size x)) = uval x"
    and "3 < enc_size x \<Longrightarrow> enc_mantissa x = uval x div 2 ^ (8 * (enc_size x - 3)) \<and> 2 ^ 15 \<le> enc_mantissa x"
proof -
  let ?S = "byte_size x" and ?X = "uval x"
  show "enc_mantissa x div 2 ^ (8 * (3 - enc_size x)) = ?X" if t: "enc_size x \<le> 3"
  proof (cases "2 ^ 23 \<le> raw_mantissa x")
    case True
    then have S: "?S \<le> 2" "enc_size x = ?S + 1" using t by (simp_all add: enc_size_def)
    have "(2 :: int) ^ (8 * (3 - ?S)) = 2 ^ (8 * (2 - ?S)) * 2 ^ 8" using S by (simp only: power_add [symmetric]) simp
    then have "raw_mantissa x = ?X * 2 ^ (8 * (2 - ?S)) * 2 ^ 8" using S by (simp add: raw_mantissa_def)
    then have "raw_mantissa x div 2 ^ 8 = ?X * 2 ^ (8 * (2 - ?S))" by simp
    with True S show ?thesis by (simp add: enc_mantissa_def)
  next
    case False
    with t show ?thesis by (simp add: enc_mantissa_def enc_size_def raw_mantissa_def)
  qed
  show "enc_mantissa x = ?X div 2 ^ (8 * (enc_size x - 3)) \<and> 2 ^ 15 \<le> enc_mantissa x" if t: "3 < enc_size x"
  proof (cases "2 ^ 23 \<le> raw_mantissa x")
    case True
    then have S: "3 \<le> ?S" "enc_size x = ?S + 1" using t by (simp_all add: enc_size_def)
    have "raw_mantissa x = ?X div 2 ^ (8 * (?S - 3))" using S by (cases "?S = 3") (simp_all add: raw_mantissa_def)
    then have "raw_mantissa x div 2 ^ 8 = ?X div (2 ^ (8 * (?S - 3)) * 2 ^ 8)" by (simp add: zdiv_zmult2_eq)
    also have "(2 :: int) ^ (8 * (?S - 3)) * 2 ^ 8 = 2 ^ (8 * (enc_size x - 3))" using S by (simp only: power_add [symmetric]) simp
    finally have "enc_mantissa x = ?X div 2 ^ (8 * (enc_size x - 3))" using True by (simp add: enc_mantissa_def)
    moreover have "2 ^ 23 div 2 ^ 8 \<le> raw_mantissa x div 2 ^ 8" using True by (intro zdiv_mono1) auto
    ultimately show ?thesis using True by (simp add: enc_mantissa_def)
  next
    case False
    with t raw_mantissa_bounds(3) [OF assms] show ?thesis by (simp add: enc_mantissa_def enc_size_def raw_mantissa_def)
  qed
qed

lemma compact_split:
  assumes "uint c = m + 2 ^ 24 * int n" and "0 \<le> m" and "m < 2 ^ 23"
  shows "csize c = n" and "cmantissa c = m" and "\<not> csign c"
proof -
  have "uint c div 2 ^ 24 = int n" using assms by (simp add: div_pos_pos_trivial)
  then show "csize c = n" by (simp add: csize_def)
  have "(m + 2 ^ 23 * q) mod 2 ^ 23 = m" "(m + 2 ^ 23 * q) div 2 ^ 23 = q" for q
    using assms(2,3) by simp_all
  moreover have "uint c = m + 2 ^ 23 * (2 * int n)" using assms(1) by simp
  ultimately have "cmantissa c = m" "uint c div 2 ^ 23 = 2 * int n" unfolding cmantissa_def by metis+
  then show "cmantissa c = m" "\<not> csign c" by (simp_all add: csign_def)
qed

lemma compact_from_to:
  assumes "length x = 4"
  shows "\<exists>c y k. compact_from x = (Inr c :: 'e fault + u32) \<and> uint256_try_from_compact c = Inr y \<and> length y = 4
    \<and> uval y = uval x div 2 ^ k * 2 ^ k \<and> uval y \<le> uval x \<and> (k = 0 \<or> 2 ^ 15 \<le> uval x div 2 ^ k) \<and> 8 dvd k"
proof -
  note b = byte_size_bounds [OF assms] and r = raw_mantissa_bounds [OF assms] and e = enc_mantissa_bounds [OF assms]
  obtain c where c: "compact_from x = (Inr c :: 'e fault + u32)" "uint c = enc_mantissa x + 2 ^ 24 * int (enc_size x)"
    using compact_encode [OF assms] by blast
  note parts = compact_split [OF c(2)] e
  obtain y where y: "length y = 4" "uint256_try_from_compact c = Inr y"
    "uval y = (if enc_size x \<le> 3 then enc_mantissa x div 2 ^ (8 * (3 - enc_size x)) else enc_mantissa x * 2 ^ (8 * (enc_size x - 3)) mod 2 ^ 256)"
  proof -
    define w where "w = (if csize c \<le> 3 then cmantissa c div 2 ^ (8 * (3 - csize c)) else cmantissa c)"
    have "enc_size x \<le> 33" "enc_size x = 33 \<Longrightarrow> enc_mantissa x \<le> 0xFFFF"
      using b(1) r(2) int_div_less [of "2 ^ 8" "raw_mantissa x" "2 ^ 16"] by (auto simp: enc_size_def enc_mantissa_def split: if_splits)
    then have "\<not> (w \<noteq> 0 \<and> (csign c \<or> 34 < csize c \<or> (0xFF < w \<and> 33 < csize c) \<or> (0xFFFF < w \<and> 32 < csize c)))"
      using parts by (auto simp: w_def)
    then show thesis
      using compact_decode [of c, folded w_def] that parts by (auto simp: w_def)
  qed
  have le: "uval x div 2 ^ k * 2 ^ k \<le> uval x" for k by (simp add: minus_mod_eq_div_mult [symmetric])
  have val: "uval y = uval x div 2 ^ (8 * (enc_size x - 3)) * 2 ^ (8 * (enc_size x - 3))"
    and kept: "enc_size x \<le> 3 \<or> 2 ^ 15 \<le> uval x div 2 ^ (8 * (enc_size x - 3))"
  proof -
    let ?k = "8 * (enc_size x - 3)"
    have "uval x div 2 ^ ?k * 2 ^ ?k < 2 ^ 256" using le [of ?k] uval_less [of x] assms by simp
    then show "uval y = uval x div 2 ^ ?k * 2 ^ ?k" "enc_size x \<le> 3 \<or> 2 ^ 15 \<le> uval x div 2 ^ ?k"
      using enc_value [OF assms] e y(3)
      by (cases "enc_size x \<le> 3"; simp add: mod_pos_pos_trivial not_le)+
  qed
  have "uval x div 2 ^ k * 2 ^ k \<le> uval x" for k by (simp add: minus_mod_eq_div_mult [symmetric])
  with c(1) y(1,2) val kept show ?thesis
    by (intro exI [of _ c] exI [of _ y] exI [of _ "8 * (enc_size x - 3)"]) auto
qed

text \<open>
  C35: converting a 256-bit target into its compact form and back never fails and never makes the target larger: the
  result is the number with a number of whole low bytes cleared, and at least the sixteen leading bits are kept.
\<close>

theorem compact_roundtrip:
  assumes "length x = 4"
  shows "\<exists>c y k. compact_from x = (Inr c :: 'e fault + u32) \<and> uint256_try_from_compact c = Inr y \<and> length y = 4
    \<and> uval y = uval x div 2 ^ k * 2 ^ k \<and> uval y \<le> uval x \<and> (k = 0 \<or> 2 ^ 15 \<le> uval x div 2 ^ k) \<and> 8 dvd k"
  using compact_from_to [OF assms] by blast

section \<open>Examples\<close>

theorem uint_bytes_roundtrip_witness:
  "length [5, 0, 7, 1 :: u64] = 4 \<and> from_slice 4 (to_bytes [5, 0, 7, 1]) = Inr [5, 0, 7, 1]
    \<and> from_be_slice 4 [1, 2] = Inl (Err \<lparr>actual = 2, expected = 32\<rparr>)"
  using uint_bytes_roundtrip [of "[5, 0, 7, 1]" 4 "[1, 2]"] by simp

theorem compact_roundtrip_witness:
  "length [0, 0, 0x123456, 0 :: u64] = 4 \<and> (\<exists>c y. compact_from [0, 0, 0x123456, 0] = (Inr c :: unit fault + u32)
    \<and> uint256_try_from_compact c = Inr y \<and> uval y \<le> uval [0, 0, 0x123456, 0])"
  using compact_roundtrip [of "[0, 0, 0x123456, 0]", where 'e = unit] by auto

end
