(* ===== verification/BlockIndex.thy ===== *)
theory BlockIndex
  imports Config Compact
begin

text \<open>
  Block headers with their consensus data (\<open>common/src/chain/block\<close>), and the block index of the crate
  \<open>chainstate-types\<close>: the status bits of a block, the entries of the index, and the search for an
  ancestor with the skip pointers. Hashes of headers are parameters.
\<close>

unbundle bit_operations_syntax

section \<open>Block headers\<close>

record pow_data =
  pow_bits :: compact
  pow_nonce :: u128

record pos_data =
  kernel_inputs :: "tx_input list"
  kernel_witness :: "bytes list"
  stake_pool_id :: pool_id
  vrf_data :: bytes
  compact_target :: compact

datatype consensus_data = ConsensusNone | ConsensusPoW pow_data | ConsensusPoS pos_data

record block_header =
  header_prev_block_id :: block_id
  tx_merkle_root :: h256
  witness_merkle_root :: h256
  header_timestamp :: block_timestamp
  header_consensus_data :: consensus_data

datatype block_header_signature = NoSignature | HeaderSignature bytes

record signed_block_header =
  signed_header :: block_header
  signature_data :: block_header_signature

definition with_signature :: "block_header_signature \<Rightarrow> block_header \<Rightarrow> signed_block_header" where
  "with_signature s h = \<lparr>signed_header = h, signature_data = s\<rparr>"

datatype gen_block_id = GenesisId block_id | BlockId block_id

definition classify :: "chain_config \<Rightarrow> block_id \<Rightarrow> gen_block_id" where
  "classify c i = (if i = genesis_id (genesis_block c) then GenesisId i else BlockId i)"

section \<open>Block status\<close>

datatype block_validation_stage = Unchecked | CheckBlockOk | FullyChecked

definition stage_index :: "block_validation_stage \<Rightarrow> u64" where
  "stage_index s = (case s of Unchecked \<Rightarrow> 0 | CheckBlockOk \<Rightarrow> 1 | FullyChecked \<Rightarrow> 2)"

definition stage_from_u64 :: "u64 \<Rightarrow> block_validation_stage option" where
  "stage_from_u64 n = (if n = 0 then Some Unchecked else if n = 1 then Some CheckBlockOk
    else if n = 2 then Some FullyChecked else None)"

definition next_stage :: "block_validation_stage \<Rightarrow> block_validation_stage option" where
  "next_stage s = (case s of Unchecked \<Rightarrow> Some CheckBlockOk | CheckBlockOk \<Rightarrow> Some FullyChecked | FullyChecked \<Rightarrow> None)"

datatype block_status_bit_area =
  ValidationStage | ValidationFailedBit | InvalidParentBit | ExplicitlyInvalidatedBit | ReservedArea | EndArea

definition area_start :: "block_status_bit_area \<Rightarrow> nat" where
  "area_start a = (case a of ValidationStage \<Rightarrow> 0 | ValidationFailedBit \<Rightarrow> 8 | InvalidParentBit \<Rightarrow> 9
    | ExplicitlyInvalidatedBit \<Rightarrow> 10 | ReservedArea \<Rightarrow> 11 | EndArea \<Rightarrow> 64)"

definition next_area :: "block_status_bit_area \<Rightarrow> block_status_bit_area option" where
  "next_area a = (case a of ValidationStage \<Rightarrow> Some ValidationFailedBit | ValidationFailedBit \<Rightarrow> Some InvalidParentBit
    | InvalidParentBit \<Rightarrow> Some ExplicitlyInvalidatedBit | ExplicitlyInvalidatedBit \<Rightarrow> Some ReservedArea
    | ReservedArea \<Rightarrow> Some EndArea | EndArea \<Rightarrow> None)"

text \<open>The only field of \<open>BlockStatus\<close> is a 64-bit word.\<close>

type_synonym block_status = u64

definition FAIL_BITS_RANGE :: "block_status_bit_area \<times> block_status_bit_area" where
  "FAIL_BITS_RANGE = (ValidationFailedBit, ReservedArea)"

definition bit_range_of :: "block_status_bit_area \<Rightarrow> 'e fault + nat \<times> nat" where
  "bit_range_of a = map_ok (\<lambda>n. (area_start a, area_start n)) (expect (next_area a))"

definition bit_range_of_range :: "block_status_bit_area \<times> block_status_bit_area \<Rightarrow> nat \<times> nat" where
  "bit_range_of_range r = (area_start (fst r), area_start (snd r))"

definition get_bits :: "nat \<times> nat \<Rightarrow> block_status \<Rightarrow> 'e fault + u64" where
  "get_bits = (\<lambda>(start, stop) s.
    if \<not> (start < stop \<and> stop \<le> 64) then Inl Panic
    else if stop - start = 64 then Inr s
    else let lsb_mask = push_bit (stop - start) 1 - 1 in Inr (drop_bit start s AND lsb_mask))"

definition set_bits :: "nat \<times> nat \<Rightarrow> u64 \<Rightarrow> block_status \<Rightarrow> 'e fault + block_status" where
  "set_bits = (\<lambda>(start, stop) val s.
    if \<not> (start < stop \<and> stop \<le> 64) then Inl Panic
    else if stop - start = 64 then Inr val
    else let lsb_mask = push_bit (stop - start) 1 - 1; mask = push_bit start lsb_mask in
      if \<not> val \<le> lsb_mask then Inl Panic else Inr ((s AND NOT mask) OR push_bit start val))"

definition get_field :: "block_status_bit_area \<Rightarrow> block_status \<Rightarrow> 'e fault + u64" where
  "get_field a s = res_bind (bit_range_of a) (\<lambda>r. get_bits r s)"

definition set_field :: "block_status_bit_area \<Rightarrow> u64 \<Rightarrow> block_status \<Rightarrow> 'e fault + block_status" where
  "set_field a val s = res_bind (bit_range_of a) (\<lambda>r. set_bits r val s)"

definition last_valid_stage :: "block_status \<Rightarrow> 'e fault + block_validation_stage" where
  "last_valid_stage s = res_bind (get_field ValidationStage s) (\<lambda>val. expect (stage_from_u64 val))"

definition set_last_valid_stage :: "block_validation_stage \<Rightarrow> block_status \<Rightarrow> 'e fault + block_status" where
  "set_last_valid_stage stage s = set_field ValidationStage (stage_index stage) s"

definition new_at_stage :: "block_validation_stage \<Rightarrow> 'e fault + block_status" where
  "new_at_stage stage = set_last_valid_stage stage 0"

definition advance_validation_stage_to :: "block_validation_stage \<Rightarrow> block_status \<Rightarrow> 'e fault + block_status" where
  "advance_validation_stage_to new_stage s =
    res_bind (last_valid_stage s) (\<lambda>stage.
    if next_stage stage = Some new_stage then set_last_valid_stage new_stage s else Inl Panic)"

definition status_is_ok :: "block_status \<Rightarrow> 'e fault + bool" where
  "status_is_ok s = map_ok (\<lambda>b. b = 0) (get_bits (bit_range_of_range FAIL_BITS_RANGE) s)"

definition set_validation_failed :: "block_status \<Rightarrow> 'e fault + block_status" where
  "set_validation_failed s = set_field ValidationFailedBit 1 s"

definition validation_failed :: "block_status \<Rightarrow> 'e fault + bool" where
  "validation_failed s = map_ok (\<lambda>b. b \<noteq> 0) (get_field ValidationFailedBit s)"

definition set_has_invalid_parent :: "block_status \<Rightarrow> 'e fault + block_status" where
  "set_has_invalid_parent s = set_field InvalidParentBit 1 s"

definition has_invalid_parent :: "block_status \<Rightarrow> 'e fault + bool" where
  "has_invalid_parent s = map_ok (\<lambda>b. b \<noteq> 0) (get_field InvalidParentBit s)"

definition set_explicitly_invalidated :: "block_status \<Rightarrow> 'e fault + block_status" where
  "set_explicitly_invalidated s = set_field ExplicitlyInvalidatedBit 1 s"

definition is_explicitly_invalidated :: "block_status \<Rightarrow> 'e fault + bool" where
  "is_explicitly_invalidated s = map_ok (\<lambda>b. b \<noteq> 0) (get_field ExplicitlyInvalidatedBit s)"

definition with_cleared_fail_bits :: "block_status \<Rightarrow> 'e fault + block_status" where
  "with_cleared_fail_bits s = set_bits (bit_range_of_range FAIL_BITS_RANGE) 0 s"

section \<open>Entries of the block index\<close>

record block_index =
  index_block_id :: block_id
  index_block_header :: signed_block_header
  some_ancestor :: block_id
  index_chain_trust :: u256
  index_height :: block_height
  chain_time_max :: block_timestamp
  index_chain_transaction_count :: u128
  index_status :: block_status
  index_is_persisted :: bool

abbreviation index_header :: "block_index \<Rightarrow> block_header" where
  "index_header b \<equiv> signed_header (index_block_header b)"

datatype gen_block_index = BlockIdx block_index | GenesisIdx genesis

definition gen_id :: "gen_block_index \<Rightarrow> block_id" where
  "gen_id g = (case g of BlockIdx b \<Rightarrow> index_block_id b | GenesisIdx g \<Rightarrow> genesis_id g)"

definition gen_timestamp :: "gen_block_index \<Rightarrow> block_timestamp" where
  "gen_timestamp g = (case g of BlockIdx b \<Rightarrow> header_timestamp (index_header b) | GenesisIdx g \<Rightarrow> genesis_timestamp g)"

definition chain_timestamps_max :: "gen_block_index \<Rightarrow> block_timestamp" where
  "chain_timestamps_max g = (case g of BlockIdx b \<Rightarrow> chain_time_max b | GenesisIdx g \<Rightarrow> genesis_timestamp g)"

definition gen_height :: "gen_block_index \<Rightarrow> block_height" where
  "gen_height g = (case g of BlockIdx b \<Rightarrow> index_height b | GenesisIdx _ \<Rightarrow> 0)"

definition gen_chain_trust :: "gen_block_index \<Rightarrow> u256" where
  "gen_chain_trust g = (case g of BlockIdx b \<Rightarrow> index_chain_trust b | GenesisIdx _ \<Rightarrow> 0)"

definition gen_status :: "gen_block_index \<Rightarrow> 'e fault + block_status" where
  "gen_status g = (case g of BlockIdx b \<Rightarrow> Inr (index_status b) | GenesisIdx _ \<Rightarrow> new_at_stage FullyChecked)"

definition gen_chain_transaction_count :: "gen_block_index \<Rightarrow> u128" where
  "gen_chain_transaction_count g = (case g of BlockIdx b \<Rightarrow> index_chain_transaction_count b | GenesisIdx _ \<Rightarrow> 0)"

section \<open>Ancestors\<close>

definition invert_lowest_one :: "u64 \<Rightarrow> u64" where
  "invert_lowest_one n = n AND (n - 1)"

definition get_skip_height :: "block_height \<Rightarrow> block_height" where
  "get_skip_height height =
    (if height < 2 then 0
     else if height AND 1 \<noteq> 0 then invert_lowest_one (invert_lowest_one (height - 1)) + 1
     else invert_lowest_one height)"

datatype get_ancestor_error =
    AncestorStorageError storage_result_error
  | InvalidAncestorHeight block_height block_height
  | AncestorPrevBlockIndexNotFound block_id
  | StartingPointNotFound block_id

text \<open>The database of block indices, as far as it is read here.\<close>

type_synonym index_db = "block_id \<Rightarrow> storage_result_error + block_index option"

definition gen_block_index_getter :: "index_db \<Rightarrow> chain_config \<Rightarrow> block_id \<Rightarrow> storage_result_error + gen_block_index option" where
  "gen_block_index_getter db cfg i = (case classify cfg i of
      GenesisId _ \<Rightarrow> Inr (Some (GenesisIdx (genesis_block cfg)))
    | BlockId i \<Rightarrow> map_ok (map_option BlockIdx) (db i))"

text \<open>
  Whether the walk takes the skip pointer at \<open>height_walk\<close>: it leads to the target, or not below it and
  the pointer of the previous block is not the better one.
\<close>

definition takes_skip :: "block_height \<Rightarrow> block_height \<Rightarrow> block_height \<Rightarrow> 'e fault + bool" where
  "takes_skip target_height height_walk height_walk_prev =
    (let height_skip = get_skip_height height_walk; height_skip_prev = get_skip_height height_walk_prev;
         at_target = (height_skip = target_height);
         still_not_there = (height_skip > target_height);
         prev_too_close = (height_skip_prev \<ge> target_height)
     in map_ok (\<lambda>n. let too_close = (n < height_skip) in at_target \<or> (still_not_there \<and> \<not> (too_close \<and> prev_too_close)))
       (res_bind (next_height height_skip_prev) next_height))"

lemma uint_pred: "0 < n \<Longrightarrow> uint (n - 1) = uint n - 1" for n :: u64
  using checked_sub_Some [of n 1 "n - 1"] by (simp add: checked_sub_def word_less_def)

lemma uint_succ: "uint n + 1 < 2 ^ 64 \<Longrightarrow> uint (n + 1) = uint n + 1" for n :: u64
  using checked_add_Some [of n 1 "n + 1"] by (simp add: checked_add_def)

lemma invert_lowest_one_less: "0 < n \<Longrightarrow> invert_lowest_one n < n"
proof -
  assume n: "0 < n"
  have "invert_lowest_one n \<le> n - 1" by (simp add: invert_lowest_one_def word_and_le1)
  also have "n - 1 < n" using uint_pred [OF n] by (simp add: word_less_def)
  finally show ?thesis .
qed

lemma invert_lowest_one_le: "invert_lowest_one n \<le> n"
  by (simp add: invert_lowest_one_def word_and_le2)

lemma get_skip_height_less:
  assumes "0 < h"
  shows "get_skip_height h < h"
proof -
  consider "h < 2" | "2 \<le> h" "h AND 1 \<noteq> 0" | "2 \<le> h" "h AND 1 = 0" by (cases "h < 2") (auto simp: not_less)
  then show ?thesis
  proof cases
    case 1
    with assms show ?thesis by (simp add: get_skip_height_def)
  next
    case 2
    then have "uint h \<ge> 2" by (simp add: word_le_def)
    then have h1: "uint (h - 1) = uint h - 1" by (intro uint_pred) (simp add: word_less_def)
    have "0 < h - 1" using h1 \<open>2 \<le> uint h\<close> by (simp add: word_less_def)
    then have "invert_lowest_one (invert_lowest_one (h - 1)) < h - 1"
      using invert_lowest_one_less invert_lowest_one_le by (meson le_less_trans)
    then have i: "uint (invert_lowest_one (invert_lowest_one (h - 1))) < uint h - 1" using h1 by (simp add: word_less_def)
    then have "uint (invert_lowest_one (invert_lowest_one (h - 1)) + 1) = uint (invert_lowest_one (invert_lowest_one (h - 1))) + 1"
      using uint_range [of h] by (intro uint_succ) simp
    then have "invert_lowest_one (invert_lowest_one (h - 1)) + 1 < h" using i by (simp add: word_less_def)
    with 2 assms show ?thesis by (simp add: get_skip_height_def)
  next
    case 3
    with assms show ?thesis by (simp add: get_skip_height_def invert_lowest_one_less)
  qed
qed

lemma prev_height_Some: "prev_height h = Some p \<longleftrightarrow> uint p = uint h - 1"
  by (simp add: prev_height_def checked_simps)

lemma skip_measure: "t \<le> h \<Longrightarrow> h \<noteq> t \<Longrightarrow> unat (get_skip_height h) < unat h"
proof -
  assume "t \<le> h" "h \<noteq> t"
  then have "h \<noteq> 0" using word_zero_le [of t] by (metis order_antisym)
  then have "0 < h" by (simp only: word_gt_0)
  then show ?thesis by (rule get_skip_height_less [THEN unat_mono])
qed

lemma prev_measure: "prev_height h = Some p \<Longrightarrow> unat p < unat h"
proof -
  assume "prev_height h = Some p"
  then have "uint p = uint h - 1" by (simp only: prev_height_Some)
  then have "p < h" by (simp add: word_less_def)
  then show ?thesis by (rule unat_mono)
qed

function ancestor_walk ::
  "index_db \<Rightarrow> chain_config \<Rightarrow> block_height \<Rightarrow> block_height \<Rightarrow> gen_block_index \<Rightarrow> get_ancestor_error fault + gen_block_index" where
  "ancestor_walk db cfg target_height height_walk block_index_walk =
    (if \<not> target_height \<le> height_walk then Inl Panic
     else if height_walk = target_height then Inr block_index_walk
     else case block_index_walk of
       GenesisIdx _ \<Rightarrow> Inr block_index_walk
     | BlockIdx cur_block_index \<Rightarrow> (case prev_height height_walk of
         None \<Rightarrow> Inl Panic
       | Some height_walk_prev \<Rightarrow> (case takes_skip target_height height_walk height_walk_prev of
           Inl e \<Rightarrow> Inl e
         | Inr True \<Rightarrow> (case gen_block_index_getter db cfg (some_ancestor cur_block_index) of
             Inl e \<Rightarrow> Inl (Err (AncestorStorageError e))
           | Inr None \<Rightarrow> Inl Panic
           | Inr (Some i) \<Rightarrow> ancestor_walk db cfg target_height (get_skip_height height_walk) i)
         | Inr False \<Rightarrow> (case gen_block_index_getter db cfg (header_prev_block_id (index_header cur_block_index)) of
             Inl e \<Rightarrow> Inl (Err (AncestorStorageError e))
           | Inr None \<Rightarrow> Inl (Err (AncestorPrevBlockIndexNotFound (header_prev_block_id (index_header cur_block_index))))
           | Inr (Some i) \<Rightarrow> ancestor_walk db cfg target_height height_walk_prev i))))"
  by pat_completeness auto

termination
  by (relation "measure (\<lambda>(db, cfg, t, h, w). unat h)") (simp_all add: skip_measure prev_measure)

declare ancestor_walk.simps [simp del]

datatype ancestor_getter_starting_point = StartBlockIndex gen_block_index | StartBlockId block_id

definition block_index_ancestor_getter ::
  "index_db \<Rightarrow> chain_config \<Rightarrow> ancestor_getter_starting_point \<Rightarrow> block_height \<Rightarrow> get_ancestor_error fault + gen_block_index" where
  "block_index_ancestor_getter db cfg starting_point target_height =
    res_bind (case starting_point of
        StartBlockIndex bi \<Rightarrow> Inr bi
      | StartBlockId i \<Rightarrow> (case gen_block_index_getter db cfg i of
          Inl e \<Rightarrow> Inl (Err (AncestorStorageError e))
        | Inr b \<Rightarrow> ok_or (Err (StartingPointNotFound i)) b)) (\<lambda>block_index.
    if target_height > gen_height block_index then Inl (Err (InvalidAncestorHeight (gen_height block_index) target_height))
    else ancestor_walk db cfg target_height (gen_height block_index) block_index)"

end
