(* ===== verification/BlockStatus.thy ===== *)
theory BlockStatus
  imports BlockIndex
begin

text \<open>
  The status of a block: the fields of the 64-bit word are independent, so that marking a failure keeps the
  validation stage and clearing the failures makes the block acceptable again.
\<close>

unbundle bit_operations_syntax

section \<open>The fields of a status are independent\<close>

lemma bit_low_mask: "bit (push_bit n 1 - 1 :: u64) k \<longleftrightarrow> k < n \<and> k < 64" if "n < 64"
proof -
  have "(push_bit n 1 - 1 :: u64) = mask n" by (simp add: mask_eq_exp_minus_1 push_bit_eq_mult)
  then show ?thesis by (simp add: bit_mask_iff conj_commute)
qed

lemma bit_get_bits:
  assumes "a < b" "b \<le> 64"
  shows "\<exists>v. get_bits (a, b) s = (Inr v :: 'e fault + u64) \<and> (\<forall>k. bit v k \<longleftrightarrow> k < b - a \<and> bit s (a + k))"
proof (cases "b - a = 64")
  case True
  then have "a = 0" "b = 64" using assms by simp_all
  moreover have "k < 64" if "bit s k" for k using that bit_imp_le_length [of s k] by simp
  ultimately show ?thesis by (intro exI [of _ s]) (auto simp: get_bits_def)
next
  case False
  then have n: "b - a < 64" using assms by simp
  define m :: u64 where "m = push_bit (b - a) 1 - 1"
  have m: "bit m k \<longleftrightarrow> k < b - a" for k unfolding m_def bit_low_mask [OF n] using n by auto
  have "get_bits (a, b) s = (Inr (drop_bit a s AND m) :: 'e fault + u64)"
    using assms False unfolding get_bits_def m_def by (simp only: Let_def prod.case if_True if_False not_True_eq_False simp_thms)
  moreover have "bit (drop_bit a s AND m) k \<longleftrightarrow> k < b - a \<and> bit s (a + k)" for k
    by (auto simp: bit_and_iff bit_drop_bit_eq m)
  ultimately show ?thesis by blast
qed

lemma bit_set_bits:
  assumes "a < b" "b \<le> 64" "\<And>k. bit v k \<Longrightarrow> k < b - a"
  shows "\<exists>t. set_bits (a, b) v s = (Inr t :: 'e fault + block_status) \<and> (\<forall>k. bit t k \<longleftrightarrow> (if a \<le> k \<and> k < b then bit v (k - a) else bit s k))"
proof (cases "b - a = 64")
  case True
  then have "a = 0" "b = 64" using assms by simp_all
  moreover have "k < 64" if "bit w k" for k and w :: u64 using that bit_imp_le_length [of w k] by simp
  ultimately show ?thesis by (intro exI [of _ v]) (auto simp: set_bits_def)
next
  case False
  then have n: "b - a < 64" using assms by simp
  define m :: u64 where "m = push_bit (b - a) 1 - 1"
  have m: "bit m k \<longleftrightarrow> k < b - a" for k unfolding m_def bit_low_mask [OF n] using n by auto
  have "v = v AND m" using assms(3) m by (intro bit_word_eqI) (auto simp: bit_and_iff)
  then have "v \<le> m" using word_and_le1 [of v m] by (simp only:)
  then have "set_bits (a, b) v s = (Inr ((s AND NOT (push_bit a m)) OR push_bit a v) :: 'e fault + block_status)"
    using assms False unfolding set_bits_def m_def by (simp only: Let_def prod.case if_True if_False not_True_eq_False simp_thms)
  moreover have "bit ((s AND NOT (push_bit a m)) OR push_bit a v) k \<longleftrightarrow> (if a \<le> k \<and> k < b then bit v (k - a) else bit s k)" for k
  proof (cases "k < 64")
    case True
    then show ?thesis using assms m [of "k - a"] by (auto simp: bit_or_iff bit_and_iff bit_not_iff bit_push_bit_iff)
  next
    case False
    then have "\<not> bit w k" for w :: u64 using bit_imp_le_length [of w k] by auto
    then show ?thesis using assms(2) False by auto
  qed
  ultimately show ?thesis by blast
qed

lemma area_ranges:
  "bit_range_of ValidationStage = Inr (0, 8)" "bit_range_of ValidationFailedBit = Inr (8, 9)" "bit_range_of InvalidParentBit = Inr (9, 10)"
  "bit_range_of ExplicitlyInvalidatedBit = Inr (10, 11)" "bit_range_of ReservedArea = Inr (11, 64)"
  "bit_range_of_range FAIL_BITS_RANGE = (8, 11)"
  by (simp_all add: bit_range_of_def next_area_def area_start_def bit_range_of_range_def FAIL_BITS_RANGE_def)

lemma area_range_ok:
  assumes "a \<noteq> EndArea"
  shows "\<exists>i j. bit_range_of a = (Inr (i, j) :: 'e fault + nat \<times> nat) \<and> i < j \<and> j \<le> 64"
  using assms by (cases a) (simp_all add: area_ranges)

lemma areas_disjoint:
  assumes "bit_range_of a = (Inr (i, j) :: 'e fault + nat \<times> nat)" "bit_range_of b = (Inr (k, l) :: 'e fault + nat \<times> nat)" "a \<noteq> b"
  shows "j \<le> k \<or> l \<le> i"
  using assms by (cases a; cases b) (auto simp: area_ranges bit_range_of_def next_area_def area_start_def)

lemma get_bits_cong:
  assumes "\<And>m. i \<le> m \<Longrightarrow> m < j \<Longrightarrow> bit s m = bit t m"
  shows "get_bits (i, j) s = (get_bits (i, j) t :: 'e fault + u64)"
proof (cases "i < j \<and> j \<le> 64")
  case True
  then obtain u where u: "get_bits (i, j) s = (Inr u :: 'e fault + u64)" "\<forall>k. bit u k \<longleftrightarrow> k < j - i \<and> bit s (i + k)"
    using bit_get_bits [of i j s] by blast
  from True obtain v where v: "get_bits (i, j) t = (Inr v :: 'e fault + u64)" "\<forall>k. bit v k \<longleftrightarrow> k < j - i \<and> bit t (i + k)"
    using bit_get_bits [of i j t] by blast
  have "u = v" using u(2) v(2) assms by (intro bit_word_eqI) auto
  with u v show ?thesis by simp
qed (auto simp: get_bits_def)

lemma set_field_get_field:
  assumes "a \<noteq> EndArea" "get_field a w = (Inr v :: 'e fault + u64)"
  shows "\<exists>t. set_field a v s = (Inr t :: 'e fault + block_status) \<and> get_field a t = (Inr v :: 'e fault + u64)
    \<and> (\<forall>b. b \<noteq> a \<longrightarrow> get_field b t = (get_field b s :: 'e fault + u64))"
proof -
  obtain i j where r: "bit_range_of a = (Inr (i, j) :: 'e fault + nat \<times> nat)" "i < j" "j \<le> 64" using area_range_ok [OF assms(1)] by blast
  have v: "k < j - i" if "bit v k" for k
  proof -
    obtain u where "get_bits (i, j) w = (Inr u :: 'e fault + u64)" "\<forall>k. bit u k \<longleftrightarrow> k < j - i \<and> bit w (i + k)"
      using bit_get_bits [OF r(2,3)] by blast
    with assms(2) r(1) that show ?thesis by (simp add: get_field_def)
  qed
  obtain t where t: "set_bits (i, j) v s = (Inr t :: 'e fault + block_status)"
    "\<forall>k. bit t k \<longleftrightarrow> (if i \<le> k \<and> k < j then bit v (k - i) else bit s k)" using bit_set_bits [OF r(2,3), of v s] v by blast
  obtain u where u: "get_bits (i, j) t = (Inr u :: 'e fault + u64)" "\<forall>k. bit u k \<longleftrightarrow> k < j - i \<and> bit t (i + k)"
    using bit_get_bits [OF r(2,3)] by blast
  have "bit u k = bit v k" for k using u(2) t(2) v [of k] r(2) by (cases "k < j - i") auto
  then have "u = v" by (simp add: bit_word_eqI)
  moreover have "get_field b t = (get_field b s :: 'e fault + u64)" if "b \<noteq> a" for b
  proof (cases "b = EndArea")
    case True
    then show ?thesis by (simp add: get_field_def bit_range_of_def next_area_def)
  next
    case False
    then obtain k l where kl: "bit_range_of b = (Inr (k, l) :: 'e fault + nat \<times> nat)" using area_range_ok by blast
    then have "j \<le> k \<or> l \<le> i" using areas_disjoint [OF r(1)] that by blast
    then have "bit t m = bit s m" if "k \<le> m" "m < l" for m using t(2) that by auto
    then show ?thesis using get_bits_cong [of k l t s] kl by (simp add: get_field_def)
  qed
  ultimately show ?thesis using t(1) u(1) r(1) by (intro exI [of _ t]) (simp add: get_field_def set_field_def)
qed


lemma stage_roundtrip [simp]: "stage_from_u64 (stage_index st) = Some st"
  by (cases st) (simp_all add: stage_from_u64_def stage_index_def)

lemma small_values:
  "get_field ValidationStage (stage_index st) = (Inr (stage_index st) :: 'e fault + u64)"
  "get_field ValidationFailedBit 0x100 = (Inr 1 :: 'e fault + u64)" "get_field InvalidParentBit 0x200 = (Inr 1 :: 'e fault + u64)"
  "get_field ExplicitlyInvalidatedBit 0x400 = (Inr 1 :: 'e fault + u64)"
  by (cases st; simp add: get_field_def area_ranges get_bits_def stage_index_def)
    (simp_all add: get_field_def area_ranges get_bits_def)

lemma word_zero_bits: "v = 0 \<longleftrightarrow> (\<forall>k. \<not> bit v k)" for v :: "'l::len word"
proof
  assume "\<forall>k. \<not> bit v k"
  then show "v = 0" by (intro bit_word_eqI) simp
qed simp

text \<open>The three marks of a failure, read together.\<close>

definition status_marks :: "block_status \<Rightarrow> 'e fault + bool \<times> bool \<times> bool" where
  "status_marks s = res_bind (validation_failed s) (\<lambda>failed. res_bind (has_invalid_parent s) (\<lambda>invalid_parent.
    map_ok (\<lambda>invalidated. (failed, invalid_parent, invalidated)) (is_explicitly_invalidated s)))"

lemma status_is_ok_bits: "status_is_ok s = (Inr (\<not> bit s 8 \<and> \<not> bit s 9 \<and> \<not> bit s 10) :: 'e fault + bool)"
proof -
  obtain v where v: "get_bits (8, 11) s = (Inr v :: 'e fault + u64)" "\<forall>k. bit v k \<longleftrightarrow> k < 11 - 8 \<and> bit s (8 + k)"
    using bit_get_bits [of 8 11 s] by force
  have three: "k < 11 - 8 \<longleftrightarrow> k = 0 \<or> k = 1 \<or> k = 2" for k :: nat by auto
  have "v = 0 \<longleftrightarrow> (\<forall>k. \<not> bit v k)" by (rule word_zero_bits)
  also have "\<dots> \<longleftrightarrow> (\<forall>k. k = 0 \<or> k = 1 \<or> k = 2 \<longrightarrow> \<not> bit s (8 + k))" unfolding v(2) [rule_format] three by blast
  also have "\<dots> \<longleftrightarrow> \<not> bit s 8 \<and> \<not> bit s 9 \<and> \<not> bit s 10" by auto
  finally show ?thesis using v(1) by (simp add: status_is_ok_def area_ranges)
qed

lemma get_mark:
  assumes "k < 64"
  shows "\<exists>v. get_bits (k, k + 1) s = (Inr v :: 'e fault + u64) \<and> (v \<noteq> 0 \<longleftrightarrow> bit s k)"
proof -
  have "k < k + 1" "k + 1 \<le> 64" using assms by simp_all
  then obtain v where v: "get_bits (k, k + 1) s = (Inr v :: 'e fault + u64)" "\<forall>m. bit v m \<longleftrightarrow> m < k + 1 - k \<and> bit s (k + m)"
    using bit_get_bits by blast
  have "v = 0 \<longleftrightarrow> (\<forall>m. \<not> bit v m)" by (rule word_zero_bits)
  also have "\<dots> \<longleftrightarrow> \<not> bit s k" unfolding v(2) [rule_format] by auto
  finally show ?thesis using v(1) by blast
qed

lemma status_marks_bits: "status_marks s = (Inr (bit s 8, bit s 9, bit s 10) :: 'e fault + bool \<times> bool \<times> bool)"
  using get_mark [of 8 s, where 'e = 'e] get_mark [of 9 s, where 'e = 'e] get_mark [of 10 s, where 'e = 'e]
  by (auto simp: status_marks_def validation_failed_def has_invalid_parent_def is_explicitly_invalidated_def get_field_def area_ranges)

lemma set_mark:
  assumes "k < 64"
  shows "\<exists>t. set_bits (k, k + 1) 1 s = (Inr t :: 'e fault + block_status) \<and> (\<forall>m. bit t m \<longleftrightarrow> m = k \<or> bit s m)"
proof -
  have "m < k + 1 - k" if "bit (1 :: u64) m" for m using that by (simp add: bit_1_iff)
  then obtain t where t: "set_bits (k, k + 1) 1 s = (Inr t :: 'e fault + block_status)"
    "\<forall>m. bit t m \<longleftrightarrow> (if k \<le> m \<and> m < k + 1 then bit (1 :: u64) (m - k) else bit s m)"
    using bit_set_bits [of k "k + 1" 1 s] assms by auto
  have "bit t m \<longleftrightarrow> m = k \<or> bit s m" for m using t(2) by (cases "m = k") (auto simp: bit_1_iff)
  with t(1) show ?thesis by blast
qed

text \<open>The parts that the marks leave alone: the validation stage and the reserved bits.\<close>

lemma same_stage_reserved:
  assumes "\<And>k. k < 8 \<or> 11 \<le> k \<Longrightarrow> bit t k = bit s k"
  shows "last_valid_stage t = (last_valid_stage s :: 'e fault + block_validation_stage)
    \<and> get_field ReservedArea t = (get_field ReservedArea s :: 'e fault + u64)"
proof -
  have "get_bits (0, 8) t = (get_bits (0, 8) s :: 'e fault + u64)" "get_bits (11, 64) t = (get_bits (11, 64) s :: 'e fault + u64)"
    using assms by (auto intro!: get_bits_cong)
  then show ?thesis by (simp add: last_valid_stage_def get_field_def area_ranges)
qed

lemma set_mark_field:
  assumes "k \<in> {8, 9, 10}"
  shows "\<exists>t. set_bits (k, k + 1) 1 s = (Inr t :: 'e fault + block_status)
    \<and> status_marks t = (Inr (k = 8 \<or> bit s 8, k = 9 \<or> bit s 9, k = 10 \<or> bit s 10) :: 'e fault + bool \<times> bool \<times> bool)
    \<and> last_valid_stage t = (last_valid_stage s :: 'e fault + block_validation_stage)
    \<and> get_field ReservedArea t = (get_field ReservedArea s :: 'e fault + u64)"
proof -
  have "k < 64" using assms by auto
  then obtain t where t: "set_bits (k, k + 1) 1 s = (Inr t :: 'e fault + block_status)" "\<forall>m. bit t m \<longleftrightarrow> m = k \<or> bit s m"
    using set_mark by blast
  have "bit t m = bit s m" if "m < 8 \<or> 11 \<le> m" for m using t(2) assms that by auto
  from same_stage_reserved [of t s, OF this] t show ?thesis by (auto simp: status_marks_bits)
qed

lemma cleared_marks:
  "\<exists>t. with_cleared_fail_bits s = (Inr t :: 'e fault + block_status)
    \<and> status_marks t = (Inr (False, False, False) :: 'e fault + bool \<times> bool \<times> bool)
    \<and> last_valid_stage t = (last_valid_stage s :: 'e fault + block_validation_stage)
    \<and> get_field ReservedArea t = (get_field ReservedArea s :: 'e fault + u64)"
proof -
  obtain t where t: "set_bits (8, 11) 0 s = (Inr t :: 'e fault + block_status)"
    "\<forall>k. bit t k \<longleftrightarrow> (if 8 \<le> k \<and> k < 11 then bit (0 :: u64) (k - 8) else bit s k)"
    using bit_set_bits [of 8 11 0 s] by auto
  have "bit t k = bit s k" if "k < 8 \<or> 11 \<le> k" for k using t(2) that by auto
  from same_stage_reserved [of t s, OF this] t show ?thesis
    by (simp add: with_cleared_fail_bits_def area_ranges status_marks_bits)
qed

lemma advance_stage:
  assumes "last_valid_stage s = (Inr st :: 'e fault + block_validation_stage)" "next_stage st = Some st'"
  shows "\<exists>t. advance_validation_stage_to st' s = (Inr t :: 'e fault + block_status)
    \<and> last_valid_stage t = (Inr st' :: 'e fault + block_validation_stage)
    \<and> status_marks t = (status_marks s :: 'e fault + bool \<times> bool \<times> bool)
    \<and> get_field ReservedArea t = (get_field ReservedArea s :: 'e fault + u64)"
proof -
  obtain t where t: "set_field ValidationStage (stage_index st') s = (Inr t :: 'e fault + block_status)"
    "get_field ValidationStage t = (Inr (stage_index st') :: 'e fault + u64)"
    "\<forall>b. b \<noteq> ValidationStage \<longrightarrow> get_field b t = (get_field b s :: 'e fault + u64)"
    using set_field_get_field [OF _ small_values(1)] by blast
  have "status_marks t = (status_marks s :: 'e fault + bool \<times> bool \<times> bool)" "get_field ReservedArea t = (get_field ReservedArea s :: 'e fault + u64)"
    using t(3) by (simp_all add: status_marks_def validation_failed_def has_invalid_parent_def is_explicitly_invalidated_def)
  moreover have "advance_validation_stage_to st' s = (Inr t :: 'e fault + block_status)"
    using assms t(1) by (simp add: advance_validation_stage_to_def set_last_valid_stage_def)
  moreover have "last_valid_stage t = (Inr st' :: 'e fault + block_validation_stage)"
    using t(2) by (simp add: last_valid_stage_def)
  ultimately show ?thesis by blast
qed

text \<open>
  C40: the fields of a block status are independent. The three marks can always be read, and the status is ok exactly when none of
  them is set. Setting the mark of a failed validation, of an invalid parent or of an explicit invalidation never panics, sets that
  mark and keeps the two others, the validation stage and the reserved bits; clearing the marks clears all three and
  keeps the rest; advancing to the next stage changes the stage only, and an advance to any other stage panics.
\<close>

theorem block_status_operations:
  "\<exists>failed parent invalidated. status_marks s = (Inr (failed, parent, invalidated) :: 'e fault + bool \<times> bool \<times> bool)
    \<and> status_is_ok s = (Inr (\<not> failed \<and> \<not> parent \<and> \<not> invalidated) :: 'e fault + bool)
    \<and> (\<exists>t. set_validation_failed s = (Inr t :: 'e fault + block_status)
        \<and> status_marks t = (Inr (True, parent, invalidated) :: 'e fault + bool \<times> bool \<times> bool)
        \<and> last_valid_stage t = (last_valid_stage s :: 'e fault + block_validation_stage)
        \<and> get_field ReservedArea t = (get_field ReservedArea s :: 'e fault + u64))
    \<and> (\<exists>t. set_has_invalid_parent s = (Inr t :: 'e fault + block_status)
        \<and> status_marks t = (Inr (failed, True, invalidated) :: 'e fault + bool \<times> bool \<times> bool)
        \<and> last_valid_stage t = (last_valid_stage s :: 'e fault + block_validation_stage)
        \<and> get_field ReservedArea t = (get_field ReservedArea s :: 'e fault + u64))
    \<and> (\<exists>t. set_explicitly_invalidated s = (Inr t :: 'e fault + block_status)
        \<and> status_marks t = (Inr (failed, parent, True) :: 'e fault + bool \<times> bool \<times> bool)
        \<and> last_valid_stage t = (last_valid_stage s :: 'e fault + block_validation_stage)
        \<and> get_field ReservedArea t = (get_field ReservedArea s :: 'e fault + u64))
    \<and> (\<exists>t. with_cleared_fail_bits s = (Inr t :: 'e fault + block_status)
        \<and> status_marks t = (Inr (False, False, False) :: 'e fault + bool \<times> bool \<times> bool)
        \<and> last_valid_stage t = (last_valid_stage s :: 'e fault + block_validation_stage)
        \<and> get_field ReservedArea t = (get_field ReservedArea s :: 'e fault + u64))
    \<and> (last_valid_stage s = (Inr st :: 'e fault + block_validation_stage) \<longrightarrow>
        (if next_stage st = Some st' then \<exists>t. advance_validation_stage_to st' s = (Inr t :: 'e fault + block_status)
            \<and> last_valid_stage t = (Inr st' :: 'e fault + block_validation_stage)
            \<and> status_marks t = (Inr (failed, parent, invalidated) :: 'e fault + bool \<times> bool \<times> bool)
            \<and> get_field ReservedArea t = (get_field ReservedArea s :: 'e fault + u64)
         else advance_validation_stage_to st' s = (Inl Panic :: 'e fault + block_status)))"
proof -
  have "advance_validation_stage_to st' s = (Inl Panic :: 'e fault + block_status)"
    if "last_valid_stage s = (Inr st :: 'e fault + block_validation_stage)" "next_stage st \<noteq> Some st'"
    using that by (simp add: advance_validation_stage_to_def)
  moreover note set_mark_field [of 8 s, where 'e = 'e] set_mark_field [of 9 s, where 'e = 'e] set_mark_field [of 10 s, where 'e = 'e]
  ultimately show ?thesis
    using cleared_marks [of s, where 'e = 'e] advance_stage [of s st st', where 'e = 'e]
    by (simp add: status_marks_bits [of s] status_is_ok_bits [of s] set_validation_failed_def set_has_invalid_parent_def
        set_explicitly_invalidated_def set_field_def area_ranges)
qed

theorem block_status_operations_witness:
  "last_valid_stage 0x101 = (Inr CheckBlockOk :: unit fault + block_validation_stage)
    \<and> status_is_ok 0x101 = (Inr False :: unit fault + bool)
    \<and> (\<exists>t. advance_validation_stage_to FullyChecked 0x101 = (Inr t :: unit fault + block_status)
      \<and> last_valid_stage t = (Inr FullyChecked :: unit fault + block_validation_stage)
      \<and> status_marks t = (Inr (True, False, False) :: unit fault + bool \<times> bool \<times> bool))"
proof -
  have l: "last_valid_stage 0x101 = (Inr CheckBlockOk :: unit fault + block_validation_stage)"
    by (simp add: last_valid_stage_def get_field_def area_ranges get_bits_def stage_from_u64_def)
  moreover have "status_marks 0x101 = (Inr (True, False, False) :: unit fault + bool \<times> bool \<times> bool)"
    by (simp add: status_marks_def validation_failed_def has_invalid_parent_def is_explicitly_invalidated_def get_field_def area_ranges get_bits_def)
  ultimately show ?thesis
    using block_status_operations [of "0x101" CheckBlockOk FullyChecked, where 'e = unit] by (auto simp: next_stage_def)
qed

end
