(* ===== verification/BlockTree.thy ===== *)
theory BlockTree
  imports BlockIndex
begin

text \<open>
  The tree of blocks, as \<open>ChainstateRef\<close> reads and extends it.
\<close>

unbundle bit_operations_syntax

section \<open>Queries of the chain state\<close>

datatype property_query_error =
    QueryStorageError storage_result_error
  | BestBlockIndexNotFound
  | BlockNotFound block_id
  | BlockIndexNotFound block_id
  | PrevBlockIndexNotFound block_id block_id
  | BlockForHeightNotFound block_height
  | QueryGetAncestorError get_ancestor_error
  | GenesisHeaderRequested
  | StakePoolDataNotFound pool_id
  | StakerBalanceOverflow pool_id
  | PoolBalanceNotFound pool_id
  | InvalidStartingBlockHeightForMainchainBlocks block_height
  | InvalidBlockHeightRange block_height block_height

text \<open>What the queries read of the database: block indices, the main chain by height, and the best block.\<close>

record chain_db =
  db_block_index :: index_db
  db_block_id_by_height :: "block_height \<Rightarrow> storage_result_error + block_id option"
  db_best_block_id :: "storage_result_error + block_id option"

definition get_gen_block_index :: "chain_db \<Rightarrow> chain_config \<Rightarrow> block_id \<Rightarrow> property_query_error fault + gen_block_index option" where
  "get_gen_block_index db cfg i = map_err (Err \<circ> QueryStorageError) (gen_block_index_getter (db_block_index db) cfg i)"

definition get_best_block_index :: "chain_db \<Rightarrow> chain_config \<Rightarrow> property_query_error fault + gen_block_index" where
  "get_best_block_index db cfg =
    res_bind (map_err (Err \<circ> QueryStorageError) (db_best_block_id db)) (\<lambda>bid.
    res_bind (expect bid) (\<lambda>i.
    res_bind (get_gen_block_index db cfg i) (ok_or (Err BestBlockIndexNotFound))))"

definition get_previous_block_index ::
  "chain_db \<Rightarrow> chain_config \<Rightarrow> block_index \<Rightarrow> property_query_error fault + gen_block_index" where
  "get_previous_block_index db cfg b =
    (let prev_block_id = header_prev_block_id (index_header b) in
     res_bind (get_gen_block_index db cfg prev_block_id) (ok_or (Err (PrevBlockIndexNotFound (index_block_id b) prev_block_id))))"

definition get_ancestor ::
  "chain_db \<Rightarrow> chain_config \<Rightarrow> gen_block_index \<Rightarrow> block_height \<Rightarrow> get_ancestor_error fault + gen_block_index" where
  "get_ancestor db cfg block_index target_height =
    block_index_ancestor_getter (db_block_index db) cfg (StartBlockIndex block_index) target_height"

text \<open>Errors of the ancestor search as errors of the queries.\<close>

definition lift_ancestor :: "get_ancestor_error fault + 'a \<Rightarrow> property_query_error fault + 'a" where
  "lift_ancestor = map_err (\<lambda>e. case e of Err a \<Rightarrow> Err (QueryGetAncestorError a) | Panic \<Rightarrow> Panic)"

text \<open>The loops of the next two functions follow parents and end only in a tree without cycles.\<close>

partial_function (option) lockstep ::
  "chain_db \<Rightarrow> chain_config \<Rightarrow> gen_block_index \<Rightarrow> gen_block_index \<Rightarrow> (property_query_error fault + gen_block_index) option" where
  "lockstep db cfg a b =
    (if gen_id a = gen_id b then Some (Inr a)
     else case a of
       GenesisIdx _ \<Rightarrow> Some (Inl Panic)
     | BlockIdx x \<Rightarrow> (case b of
         GenesisIdx _ \<Rightarrow> Some (Inl Panic)
       | BlockIdx y \<Rightarrow> (case get_previous_block_index db cfg x of
           Inl e \<Rightarrow> Some (Inl e)
         | Inr a' \<Rightarrow> (case get_previous_block_index db cfg y of
             Inl e \<Rightarrow> Some (Inl e)
           | Inr b' \<Rightarrow> lockstep db cfg a' b'))))"

definition last_common_ancestor ::
  "chain_db \<Rightarrow> chain_config \<Rightarrow> gen_block_index \<Rightarrow> gen_block_index \<Rightarrow> (property_query_error fault + gen_block_index) option" where
  "last_common_ancestor db cfg a b =
    (case (if gen_height a > gen_height b then lift_ancestor (get_ancestor db cfg a (gen_height b)) else Inr a) of
       Inl e \<Rightarrow> Some (Inl e)
     | Inr a' \<Rightarrow> (case (if gen_height a < gen_height b then lift_ancestor (get_ancestor db cfg b (gen_height a)) else Inr b) of
         Inl e \<Rightarrow> Some (Inl e)
       | Inr b' \<Rightarrow> lockstep db cfg a' b'))"

definition get_block_height_in_main_chain ::
  "chain_db \<Rightarrow> chain_config \<Rightarrow> block_id \<Rightarrow> property_query_error fault + block_height option" where
  "get_block_height_in_main_chain db cfg i = (case classify cfg i of
      GenesisId _ \<Rightarrow> Inr (Some 0)
    | BlockId i \<Rightarrow>
        res_bind (map_err (Err \<circ> QueryStorageError) (db_block_index db i)) (\<lambda>index. case index of
          None \<Rightarrow> Inr None
        | Some block_index \<Rightarrow>
            map_ok (\<lambda>mainchain_block_id. if mainchain_block_id = Some i then Some (index_height block_index) else None)
              (map_err (Err \<circ> QueryStorageError) (db_block_id_by_height db (index_height block_index)))))"

text \<open>The loop of \<open>get_new_chain\<close>; the result is in the order of the final \<open>reverse\<close>.\<close>

partial_function (option) new_chain_loop ::
  "chain_db \<Rightarrow> chain_config \<Rightarrow> block_index \<Rightarrow> block_index list \<Rightarrow> (property_query_error fault + block_index list) option" where
  "new_chain_loop db cfg block_index result =
    (case get_block_height_in_main_chain db cfg (index_block_id block_index) of
       Inl e \<Rightarrow> Some (Inl e)
     | Inr (Some _) \<Rightarrow> Some (Inr result)
     | Inr None \<Rightarrow> (case get_previous_block_index db cfg block_index of
         Inl e \<Rightarrow> Some (Inl e)
       | Inr (GenesisIdx _) \<Rightarrow> Some (Inr (block_index # result))
       | Inr (BlockIdx p) \<Rightarrow> new_chain_loop db cfg p (block_index # result)))"

definition get_new_chain ::
  "chain_db \<Rightarrow> chain_config \<Rightarrow> block_index \<Rightarrow> (property_query_error fault + block_index list) option" where
  "get_new_chain db cfg new_tip = new_chain_loop db cfg new_tip []"

section \<open>New blocks\<close>

text \<open>
  The weights of time slots are precomputed with floating-point numbers; the table is a parameter here, and \<open>ChainTrust\<close> relates
  it to the function that it tabulates.
\<close>

definition calculate_block_proof :: "u64 list \<Rightarrow> u64 \<Rightarrow> 'e fault + u256" where
  "calculate_block_proof weights timestamp_diff =
    (let scaling_factor = 1000000000000000000 :: u64;
         empty_time_slots_weight = (if unat timestamp_diff \<ge> length weights then scaling_factor - 1 else weights ! unat timestamp_diff)
     in expect (checked_sub (ucast scaling_factor) (ucast empty_time_slots_weight)))"

definition pow_block_proof :: "pow_data \<Rightarrow> u256 option" where
  "pow_block_proof data = (case uint256_try_from_compact (pow_bits data) of
      Inl _ \<Rightarrow> None
    | Inr target \<Rightarrow> (let t = limbs_word target :: u256 in
        Option.bind (checked_add t 1) (\<lambda>ret1.
        Option.bind (checked_div (NOT t) ret1) (\<lambda>ret.
        Some (case checked_add ret 1 of Some r \<Rightarrow> r | None \<Rightarrow> - 1)))))"

definition get_block_proof ::
  "u64 list \<Rightarrow> consensus_data \<Rightarrow> block_timestamp \<Rightarrow> block_timestamp \<Rightarrow> 'e fault + u256 option" where
  "get_block_proof weights data prev_block_timestamp this_block_timestamp = (case data of
      ConsensusNone \<Rightarrow> Inr (Some 1)
    | ConsensusPoW pow_data \<Rightarrow> Inr (pow_block_proof pow_data)
    | ConsensusPoS _ \<Rightarrow> (case checked_sub this_block_timestamp prev_block_timestamp of
        None \<Rightarrow> Inr None
      | Some timestamp_diff \<Rightarrow> map_ok Some (calculate_block_proof weights timestamp_diff)))"

datatype new_index_error =
    BlockIndexQueryError block_id property_query_error
  | PrevBlockNotFoundForNewBlock block_id
  | BlockProofCalculationError block_id

text \<open>
  A new block is given by its identifier, its header and its number of transactions.
\<close>

definition create_block_index_for_new_block ::
  "chain_db \<Rightarrow> chain_config \<Rightarrow> u64 list \<Rightarrow> block_id \<Rightarrow> signed_block_header \<Rightarrow> nat \<Rightarrow> block_status \<Rightarrow> new_index_error fault + block_index" where
  "create_block_index_for_new_block db cfg weights block_id header tx_count block_status =
    (let prev_block_id = header_prev_block_id (signed_header header) in
     res_bind (map_err (\<lambda>e. case e of Err q \<Rightarrow> Err (BlockIndexQueryError prev_block_id q) | Panic \<Rightarrow> Panic)
       (get_gen_block_index db cfg prev_block_id)) (\<lambda>prev.
     res_bind (ok_or (Err (PrevBlockNotFoundForNewBlock block_id)) prev) (\<lambda>prev_block_index.
     res_bind (next_height (gen_height prev_block_index)) (\<lambda>height.
     res_bind (map_err (\<lambda>_. Panic) (get_ancestor db cfg prev_block_index (get_skip_height height))) (\<lambda>ancestor.
     res_bind (expect (checked_add (gen_chain_transaction_count prev_block_index) (of_nat tx_count))) (\<lambda>chain_transaction_count.
     let chain_time_max = max (chain_timestamps_max prev_block_index) (header_timestamp (signed_header header)) in
     res_bind (get_block_proof weights (header_consensus_data (signed_header header)) (gen_timestamp prev_block_index)
       (header_timestamp (signed_header header))) (\<lambda>proof.
     res_bind (ok_or (Err (BlockProofCalculationError block_id)) proof) (\<lambda>current_block_proof.
     res_bind (expect (checked_add (gen_chain_trust prev_block_index) current_block_proof)) (\<lambda>chain_trust.
     Inr \<lparr>index_block_id = block_id, index_block_header = header, some_ancestor = gen_id ancestor, index_chain_trust = chain_trust,
       index_height = height, chain_time_max = chain_time_max, index_chain_transaction_count = chain_transaction_count,
       index_status = block_status, index_is_persisted = False\<rparr>)))))))))"

section \<open>Median time\<close>

text \<open>The first \<open>n\<close> entries of the iterator \<open>BlockIndexHistoryIterator\<close>; a storage error panics, a missing entry ends it.\<close>

fun block_index_history :: "chain_db \<Rightarrow> chain_config \<Rightarrow> nat \<Rightarrow> block_id option \<Rightarrow> 'e fault + gen_block_index list" where
  "block_index_history db cfg n None = Inr []"
| "block_index_history db cfg 0 (Some next_id) = Inr []"
| "block_index_history db cfg (Suc n) (Some next_id) = (case get_gen_block_index db cfg next_id of
      Inl _ \<Rightarrow> Inl Panic
    | Inr None \<Rightarrow> Inr []
    | Inr (Some block_index) \<Rightarrow>
        map_ok (\<lambda>rest. block_index # rest) (block_index_history db cfg n (case block_index of
            GenesisIdx _ \<Rightarrow> None
          | BlockIdx b \<Rightarrow> Some (header_prev_block_id (index_header b)))))"

definition median_time_past :: "block_timestamp list \<Rightarrow> 'e fault + block_timestamp" where
  "median_time_past blocktimestamps =
    (let time_values = sort (take 11 blocktimestamps) in
     if length time_values div 2 < length time_values then Inr (time_values ! (length time_values div 2)) else Inl Panic)"

definition calculate_median_time_past :: "chain_db \<Rightarrow> chain_config \<Rightarrow> block_id \<Rightarrow> 'e fault + block_timestamp" where
  "calculate_median_time_past db cfg starting_block =
    res_bind (block_index_history db cfg 11 (Some starting_block)) (\<lambda>blocks. median_time_past (map gen_timestamp blocks))"

section \<open>Ancestors are found\<close>

text \<open>The plain description: the parent of an entry, and going back one block at a time.\<close>

definition index_parent :: "index_db \<Rightarrow> chain_config \<Rightarrow> gen_block_index \<Rightarrow> gen_block_index" where
  "index_parent db cfg g = (case g of
      GenesisIdx _ \<Rightarrow> g
    | BlockIdx b \<Rightarrow> (case gen_block_index_getter db cfg (header_prev_block_id (index_header b)) of Inr (Some p) \<Rightarrow> p | _ \<Rightarrow> g))"

definition ancestor_at :: "index_db \<Rightarrow> chain_config \<Rightarrow> gen_block_index \<Rightarrow> nat \<Rightarrow> gen_block_index" where
  "ancestor_at db cfg g h = (index_parent db cfg ^^ (unat (gen_height g) - h)) g"

definition in_tree :: "index_db \<Rightarrow> chain_config \<Rightarrow> gen_block_index \<Rightarrow> bool" where
  "in_tree db cfg g \<longleftrightarrow> gen_block_index_getter db cfg (gen_id g) = Inr (Some g)"

text \<open>
  A well-formed tree of blocks: every entry is stored under its own identifier, its parent is stored too and has
  the height below, and its skip pointer leads to the ancestor at the skip height.
\<close>

definition tree_wf :: "index_db \<Rightarrow> chain_config \<Rightarrow> bool" where
  "tree_wf db cfg \<longleftrightarrow> (\<forall>i b. i \<noteq> genesis_id (genesis_block cfg) \<longrightarrow> db i = Inr (Some b) \<longrightarrow>
    index_block_id b = i
    \<and> (\<exists>p. gen_block_index_getter db cfg (header_prev_block_id (index_header b)) = Inr (Some p)
        \<and> uint (index_height b) = uint (gen_height p) + 1)
    \<and> gen_block_index_getter db cfg (some_ancestor b)
        = Inr (Some (ancestor_at db cfg (BlockIdx b) (unat (get_skip_height (index_height b))))))"

lemma uint_eq_succ: "uint a = uint b + 1 \<Longrightarrow> unat a = Suc (unat b)"
  by (simp only: unat_eq_nat_uint) (simp add: nat_add_distrib)

lemma getter_simps:
  "gen_block_index_getter db cfg i = Inr (Some g) \<longleftrightarrow>
    (if i = genesis_id (genesis_block cfg) then g = GenesisIdx (genesis_block cfg)
     else \<exists>b. g = BlockIdx b \<and> db i = Inr (Some b))"
  by (auto simp: gen_block_index_getter_def classify_def res_simps map_option_case split: option.splits)

lemma getter_in_tree:
  assumes "tree_wf db cfg" "gen_block_index_getter db cfg i = Inr (Some g)"
  shows "gen_id g = i \<and> in_tree db cfg g"
proof (cases "i = genesis_id (genesis_block cfg)")
  case True
  with assms(2) show ?thesis by (simp add: getter_simps in_tree_def gen_id_def)
next
  case False
  then obtain b where b: "g = BlockIdx b" "db i = Inr (Some b)" using assms(2) by (auto simp: getter_simps)
  then have "index_block_id b = i" using assms(1) False unfolding tree_wf_def by blast
  with b False show ?thesis by (simp add: getter_simps in_tree_def gen_id_def)
qed

lemma in_tree_block:
  assumes "tree_wf db cfg" "in_tree db cfg (BlockIdx b)"
  obtains p where "gen_block_index_getter db cfg (header_prev_block_id (index_header b)) = Inr (Some p)" "in_tree db cfg p"
    "uint (index_height b) = uint (gen_height p) + 1" "index_parent db cfg (BlockIdx b) = p"
    "gen_block_index_getter db cfg (some_ancestor b)
      = Inr (Some (ancestor_at db cfg (BlockIdx b) (unat (get_skip_height (index_height b)))))"
proof -
  have "db (index_block_id b) = Inr (Some b)" "index_block_id b \<noteq> genesis_id (genesis_block cfg)"
    using assms(2) by (auto simp: in_tree_def getter_simps gen_id_def split: if_splits)
  then obtain p where "gen_block_index_getter db cfg (header_prev_block_id (index_header b)) = Inr (Some p)"
    "uint (index_height b) = uint (gen_height p) + 1"
    "gen_block_index_getter db cfg (some_ancestor b)
      = Inr (Some (ancestor_at db cfg (BlockIdx b) (unat (get_skip_height (index_height b)))))"
    using assms(1) unfolding tree_wf_def by blast
  with getter_in_tree [OF assms(1)] that show ?thesis by (simp add: index_parent_def)
qed

lemma in_tree_genesis: "in_tree db cfg (GenesisIdx g) \<Longrightarrow> g = genesis_block cfg"
  by (auto simp: in_tree_def getter_simps split: if_splits)

lemma parent_in_tree: "tree_wf db cfg \<Longrightarrow> in_tree db cfg g \<Longrightarrow> in_tree db cfg (index_parent db cfg g)"
  by (cases g) (auto elim: in_tree_block simp: index_parent_def)

lemma parent_height:
  assumes "tree_wf db cfg" "in_tree db cfg g"
  shows "unat (gen_height (index_parent db cfg g)) = unat (gen_height g) - 1"
proof (cases g)
  case (BlockIdx b)
  then obtain p where "index_parent db cfg g = p" "uint (index_height b) = uint (gen_height p) + 1"
    using in_tree_block [OF assms(1)] assms(2) by metis
  then have "unat (index_height b) = Suc (unat (gen_height p))" by (intro uint_eq_succ)
  with \<open>index_parent db cfg g = p\<close> BlockIdx show ?thesis by (simp add: gen_height_def)
next
  case (GenesisIdx h)
  then show ?thesis by (simp add: index_parent_def gen_height_def)
qed

lemma parents_in_tree:
  assumes "tree_wf db cfg" "in_tree db cfg g"
  shows "in_tree db cfg ((index_parent db cfg ^^ n) g) \<and> unat (gen_height ((index_parent db cfg ^^ n) g)) = unat (gen_height g) - n"
  using assms by (induction n) (simp_all add: parent_in_tree parent_height)

text \<open>Going back from an ancestor leads to the same blocks.\<close>

lemma ancestor_at_ancestor:
  assumes "tree_wf db cfg" "in_tree db cfg g" "t \<le> k" "k \<le> unat (gen_height g)"
  shows "ancestor_at db cfg (ancestor_at db cfg g k) t = ancestor_at db cfg g t"
proof -
  have "unat (gen_height (ancestor_at db cfg g k)) = k"
    using parents_in_tree [OF assms(1,2)] assms(4) by (simp add: ancestor_at_def)
  moreover have "unat (gen_height g) - t = (k - t) + (unat (gen_height g) - k)" using assms(3,4) by simp
  ultimately show ?thesis by (simp only: ancestor_at_def funpow_add comp_apply)
qed

lemma ancestor_at_props:
  assumes "tree_wf db cfg" "in_tree db cfg g" "t \<le> unat (gen_height g)"
  shows "in_tree db cfg (ancestor_at db cfg g t)" "unat (gen_height (ancestor_at db cfg g t)) = t"
  using parents_in_tree [OF assms(1,2)] assms(3) by (simp_all add: ancestor_at_def)

lemma ancestor_at_self [simp]: "ancestor_at db cfg g (unat (gen_height g)) = g"
  by (simp add: ancestor_at_def)

lemma takes_skip_cases:
  assumes "t < h" "prev_height h = Some p"
  obtains b where "takes_skip t h p = (Inr b :: 'e fault + bool)" "b \<Longrightarrow> t \<le> get_skip_height h" "t \<le> p"
proof -
  have p: "uint p = uint h - 1" using assms(2) by (simp only: prev_height_Some)
  have "uint (get_skip_height p) + 2 < 2 ^ 64"
  proof (cases "p = 0")
    case True
    then show ?thesis by (simp add: get_skip_height_def)
  next
    case False
    then have "get_skip_height p < p" by (intro get_skip_height_less) (simp only: word_gt_0)
    then show ?thesis using p uint_range [of h] by (simp add: word_less_def)
  qed
  then have n: "uint (get_skip_height p + 1) = uint (get_skip_height p) + 1" by (intro uint_succ) simp
  then have "next_height (get_skip_height p) = (Inr (get_skip_height p + 1) :: 'e fault + block_height)"
    using \<open>uint (get_skip_height p) + 2 < 2 ^ 64\<close> by (simp add: next_height_def checked_add_def)
  moreover have "next_height (get_skip_height p + 1) = (Inr (get_skip_height p + 1 + 1) :: 'e fault + block_height)"
    using n \<open>uint (get_skip_height p) + 2 < 2 ^ 64\<close> by (simp add: next_height_def checked_add_def)
  ultimately have "takes_skip t h p = (Inr (get_skip_height h = t \<or> (get_skip_height h > t
      \<and> \<not> (get_skip_height p + 1 + 1 < get_skip_height h \<and> get_skip_height p \<ge> t))) :: 'e fault + bool)"
    by (simp only: takes_skip_def Let_def res_intro_simps)
  moreover have "t \<le> p" using assms(1) p by (simp add: word_le_def word_less_def)
  ultimately show ?thesis using that by (metis order.strict_implies_order order_refl)
qed

lemma ancestor_walk_correct:
  assumes "tree_wf db cfg" "in_tree db cfg g" "h = gen_height g" "t \<le> h"
  shows "ancestor_walk db cfg t h g = Inr (ancestor_at db cfg g (unat t))"
  using assms
proof (induction "unat h" arbitrary: h g rule: less_induct)
  case less
  note wf = less.prems(1) and tree = less.prems(2) and h = less.prems(3) and le = less.prems(4)
  show ?case
  proof (cases "h = t")
    case True
    with h le show ?thesis by (subst ancestor_walk.simps) simp
  next
    case False
    with le have lt: "t < h" by simp
    obtain b where g: "g = BlockIdx b"
      using h lt by (cases g) (auto simp: gen_height_def)
    obtain q where q: "gen_block_index_getter db cfg (header_prev_block_id (index_header b)) = Inr (Some q)" "in_tree db cfg q"
      "uint (index_height b) = uint (gen_height q) + 1" "index_parent db cfg (BlockIdx b) = q"
      "gen_block_index_getter db cfg (some_ancestor b)
        = Inr (Some (ancestor_at db cfg (BlockIdx b) (unat (get_skip_height (index_height b)))))"
      using in_tree_block [OF wf] tree g by metis
    have hb: "h = index_height b" using h g by (simp add: gen_height_def)
    have p: "prev_height h = Some (gen_height q)" using q(3) hb by (simp add: prev_height_Some)
    have skip: "unat (get_skip_height h) \<le> unat (gen_height g)"
      using skip_measure [OF le] False h by (simp add: less_imp_le)
    obtain s where s: "takes_skip t h (gen_height q) = (Inr s :: get_ancestor_error fault + bool)"
      "s \<Longrightarrow> t \<le> get_skip_height h" "t \<le> gen_height q" using takes_skip_cases [OF lt p] by metis
    show ?thesis
    proof (cases s)
      case True
      let ?a = "ancestor_at db cfg g (unat (get_skip_height h))"
      have a: "in_tree db cfg ?a" "gen_height ?a = get_skip_height h"
        using ancestor_at_props [OF wf tree skip] by (simp_all only: word_unat_eq_iff)
      have "ancestor_walk db cfg t h g = ancestor_walk db cfg t (get_skip_height h) ?a"
        using False le g p s(1) True q(5) hb by (subst ancestor_walk.simps) simp
      also have "\<dots> = Inr (ancestor_at db cfg ?a (unat t))"
        using skip_measure [OF le False] True s(2) a by (intro less.hyps [OF _ wf]) simp_all
      also have "ancestor_at db cfg ?a (unat t) = ancestor_at db cfg g (unat t)"
        using s(2) True skip by (intro ancestor_at_ancestor [OF wf tree]) (simp_all add: word_le_nat_alt)
      finally show ?thesis .
    next
      case nskip: False
      have "ancestor_walk db cfg t h g = ancestor_walk db cfg t (gen_height q) q"
        using False le g p s(1) nskip q(1) by (subst ancestor_walk.simps) simp
      also have "\<dots> = Inr (ancestor_at db cfg q (unat t))"
        using prev_measure [OF p] s(3) q(2) by (intro less.hyps [OF _ wf]) simp_all
      also have "q = ancestor_at db cfg g (unat (gen_height q))"
      proof -
        have "unat (gen_height g) - unat (gen_height q) = 1"
          using uint_eq_succ [OF q(3)] g by (simp add: gen_height_def)
        then show ?thesis using q(4) g by (simp add: ancestor_at_def)
      qed
      also have "ancestor_at db cfg (ancestor_at db cfg g (unat (gen_height q))) (unat t) = ancestor_at db cfg g (unat t)"
        using s(3) prev_measure [OF p] h by (intro ancestor_at_ancestor [OF wf tree]) (simp_all add: word_le_nat_alt)
      finally show ?thesis .
    qed
  qed
qed

text \<open>
  C36: in a well-formed tree the search with skip pointers ends and finds exactly the ancestor that going back one block
  at a time would find, from a block or from its identifier; a height above the block is an error.
\<close>

theorem ancestor_getter_correct:
  assumes "tree_wf db cfg" "in_tree db cfg g" "start \<in> {StartBlockIndex g, StartBlockId (gen_id g)}"
  shows "block_index_ancestor_getter db cfg start t =
    (if t \<le> gen_height g then Inr (ancestor_at db cfg g (unat t)) else Inl (Err (InvalidAncestorHeight (gen_height g) t)))"
  using assms ancestor_walk_correct [OF assms(1,2) refl, of t]
  by (auto simp: block_index_ancestor_getter_def in_tree_def)

section \<open>Common ancestors\<close>

abbreviation db_wf :: "chain_db \<Rightarrow> chain_config \<Rightarrow> bool" where
  "db_wf db cfg \<equiv> tree_wf (db_block_index db) cfg"

abbreviation stored :: "chain_db \<Rightarrow> chain_config \<Rightarrow> gen_block_index \<Rightarrow> bool" where
  "stored db cfg \<equiv> in_tree (db_block_index db) cfg"

abbreviation back_to :: "chain_db \<Rightarrow> chain_config \<Rightarrow> gen_block_index \<Rightarrow> nat \<Rightarrow> gen_block_index" where
  "back_to db cfg \<equiv> ancestor_at (db_block_index db) cfg"

lemma get_previous_block_index_stored:
  assumes "db_wf db cfg" "stored db cfg (BlockIdx b)"
  shows "get_previous_block_index db cfg b = Inr (index_parent (db_block_index db) cfg (BlockIdx b))"
  using in_tree_block [OF assms] by (metis (no_types, lifting) get_gen_block_index_def get_previous_block_index_def res_intro_simps(1,3,7))

lemma get_ancestor_stored:
  assumes "db_wf db cfg" "stored db cfg g" "t \<le> gen_height g"
  shows "get_ancestor db cfg g t = Inr (back_to db cfg g (unat t))"
  using ancestor_walk_correct [OF assms(1,2) refl assms(3)] assms(3) by (simp add: get_ancestor_def block_index_ancestor_getter_def)

lemma stored_inject:
  assumes "stored db cfg a" "stored db cfg b" "gen_id a = gen_id b"
  shows "a = b"
  using assms by (simp add: in_tree_def)

lemma back_to_parent:
  assumes "db_wf db cfg" "stored db cfg g" "k < unat (gen_height g)"
  shows "back_to db cfg (index_parent (db_block_index db) cfg g) k = back_to db cfg g k"
proof -
  have "unat (gen_height g) - k = Suc (unat (gen_height g) - 1 - k)" using assms by simp
  then show ?thesis
    using parent_height [OF assms(1,2)] by (simp only: ancestor_at_def funpow_Suc_right comp_apply)
qed

text \<open>The last common ancestor of two blocks is their ancestor at the greatest height where both have the same one.\<close>

definition is_last_common :: "chain_db \<Rightarrow> chain_config \<Rightarrow> gen_block_index \<Rightarrow> gen_block_index \<Rightarrow> gen_block_index \<Rightarrow> bool" where
  "is_last_common db cfg a b c \<longleftrightarrow> (\<exists>k. k \<le> unat (gen_height a) \<and> k \<le> unat (gen_height b)
    \<and> c = back_to db cfg a k \<and> c = back_to db cfg b k
    \<and> (\<forall>m. k < m \<and> m \<le> unat (gen_height a) \<and> m \<le> unat (gen_height b) \<longrightarrow> back_to db cfg a m \<noteq> back_to db cfg b m))"

lemma stored_height_zero:
  assumes "db_wf db cfg" "stored db cfg g" "gen_height g = 0"
  shows "g = GenesisIdx (genesis_block cfg)"
proof (cases g)
  case (BlockIdx b)
  then obtain p where "uint (index_height b) = uint (gen_height p) + 1" using in_tree_block [OF assms(1)] assms(2) by metis
  then have "uint (index_height b) \<noteq> 0" using uint_ge_0 [of "gen_height p"] by linarith
  with assms(3) BlockIdx show ?thesis by (simp add: gen_height_def)
next
  case (GenesisIdx x)
  with assms(2) in_tree_genesis show ?thesis by blast
qed

lemma lockstep_correct:
  assumes "db_wf db cfg" "stored db cfg a" "stored db cfg b" "gen_height a = gen_height b"
  shows "\<exists>c. lockstep db cfg a b = Some (Inr c) \<and> is_last_common db cfg a b c"
  using assms
proof (induction "unat (gen_height a)" arbitrary: a b)
  case 0
  then have "a = GenesisIdx (genesis_block cfg)" "b = GenesisIdx (genesis_block cfg)"
    using stored_height_zero [of db cfg] by (metis unat_eq_zero)+
  then show ?case
    by (subst lockstep.simps) (auto simp: is_last_common_def gen_height_def ancestor_at_def intro!: exI [of _ 0])
next
  case (Suc n)
  show ?case
  proof (cases "gen_id a = gen_id b")
    case True
    then have "a = b" using Suc.prems stored_inject by blast
    with True show ?thesis
      by (subst lockstep.simps) (auto simp: is_last_common_def intro!: exI [of _ "unat (gen_height b)"])
  next
    case False
    obtain x y where ab: "a = BlockIdx x" "b = BlockIdx y"
      using Suc.hyps(2) Suc.prems(4) by (cases a; cases b) (auto simp: gen_height_def)
    let ?pa = "index_parent (db_block_index db) cfg a" and ?pb = "index_parent (db_block_index db) cfg b"
    have h: "unat (gen_height ?pa) = n" "unat (gen_height ?pb) = n"
      using parent_height [OF Suc.prems(1,2)] parent_height [OF Suc.prems(1,3)] Suc.hyps(2) Suc.prems(4) by simp_all
    then have "gen_height ?pa = gen_height ?pb" by (simp only: word_unat_eq_iff)
    with h obtain c where c: "lockstep db cfg ?pa ?pb = Some (Inr c)" "is_last_common db cfg ?pa ?pb c"
      using Suc.hyps(1) [of ?pa ?pb] parent_in_tree Suc.prems by metis
    then obtain k where k: "k \<le> n" "c = back_to db cfg ?pa k" "c = back_to db cfg ?pb k"
      "\<forall>m. k < m \<and> m \<le> n \<longrightarrow> back_to db cfg ?pa m \<noteq> back_to db cfg ?pb m" using h by (auto simp: is_last_common_def)
    have bk: "back_to db cfg ?pa m = back_to db cfg a m" "back_to db cfg ?pb m = back_to db cfg b m" if "m \<le> n" for m
      using back_to_parent [OF Suc.prems(1,2), of m] back_to_parent [OF Suc.prems(1,3), of m] that Suc.hyps(2) Suc.prems(4) by simp_all
    have "back_to db cfg a m \<noteq> back_to db cfg b m" if "k < m" "m \<le> Suc n" for m
    proof (cases "m = Suc n")
      case True
      then have "back_to db cfg a m = a" "back_to db cfg b m = b" using Suc.hyps(2) Suc.prems(4) by (metis ancestor_at_self)+
      with False show ?thesis by auto
    next
      case neq: False
      with that have "m \<le> n" by simp
      with k(4) that bk [of m] show ?thesis by auto
    qed
    then have "is_last_common db cfg a b c"
      using k bk [OF k(1)] Suc.hyps(2) Suc.prems(4) by (auto simp: is_last_common_def intro!: exI [of _ k])
    moreover have "lockstep db cfg a b = Some (Inr c)"
      using False c(1) ab Suc.prems(1-3) by (subst lockstep.simps) (simp add: get_previous_block_index_stored)
    ultimately show ?thesis by blast
  qed
qed

lemma is_last_common_back:
  assumes "db_wf db cfg" "stored db cfg a" "t \<le> unat (gen_height a)" "unat (gen_height b) \<le> t"
    "is_last_common db cfg (back_to db cfg a t) b c"
  shows "is_last_common db cfg a b c"
proof -
  have h: "unat (gen_height (back_to db cfg a t)) = t" using ancestor_at_props [OF assms(1-3)] by simp
  obtain k where k: "k \<le> t" "k \<le> unat (gen_height b)" "c = back_to db cfg (back_to db cfg a t) k" "c = back_to db cfg b k"
    "\<forall>m. k < m \<and> m \<le> t \<and> m \<le> unat (gen_height b) \<longrightarrow> back_to db cfg (back_to db cfg a t) m \<noteq> back_to db cfg b m"
    using assms(5) h by (auto simp: is_last_common_def)
  have bk: "back_to db cfg (back_to db cfg a t) m = back_to db cfg a m" if "m \<le> t" for m
    using ancestor_at_ancestor [OF assms(1,2) that assms(3)] by simp
  show ?thesis unfolding is_last_common_def
    using k bk assms(3,4) by (intro exI [of _ k]) auto
qed

lemma is_last_common_sym: "is_last_common db cfg a b c \<longleftrightarrow> is_last_common db cfg b a c"
  unfolding is_last_common_def by metis

text \<open>
  C37: for two stored blocks the search of the last common ancestor ends without a panic, and its result is the ancestor of both at
  the greatest height where their ancestors agree.
\<close>

theorem last_common_ancestor_correct:
  assumes "tree_wf (db_block_index db) cfg" "in_tree (db_block_index db) cfg a" "in_tree (db_block_index db) cfg b"
  shows "\<exists>c. last_common_ancestor db cfg a b = Some (Inr c) \<and> is_last_common db cfg a b c"
proof (cases "gen_height a" "gen_height b" rule: linorder_cases)
  case equal
  then show ?thesis using lockstep_correct [OF assms] by (simp add: last_common_ancestor_def)
next
  case greater
  then have le: "gen_height b \<le> gen_height a" "unat (gen_height b) \<le> unat (gen_height a)" by (simp_all add: word_le_nat_alt word_less_nat_alt)
  let ?a = "back_to db cfg a (unat (gen_height b))"
  have st: "stored db cfg ?a" "gen_height ?a = gen_height b"
    using ancestor_at_props [OF assms(1,2) le(2)] by (simp_all only: word_unat_eq_iff)
  with lockstep_correct [OF assms(1) st(1) assms(3)] obtain c where
    c: "lockstep db cfg ?a b = Some (Inr c)" "is_last_common db cfg ?a b c" by blast
  have "\<not> gen_height a < gen_height b" using le(1) by (simp only: not_less)
  then have "last_common_ancestor db cfg a b = Some (Inr c)"
    using c(1) greater get_ancestor_stored [OF assms(1,2) le(1)] by (simp add: last_common_ancestor_def lift_ancestor_def)
  with is_last_common_back [OF assms(1,2) le(2) _ c(2)] show ?thesis by blast
next
  case less
  then have le: "gen_height a \<le> gen_height b" "unat (gen_height a) \<le> unat (gen_height b)" by (simp_all add: word_le_nat_alt word_less_nat_alt)
  let ?b = "back_to db cfg b (unat (gen_height a))"
  have st: "stored db cfg ?b" "gen_height a = gen_height ?b"
    using ancestor_at_props [OF assms(1,3) le(2)] by (simp_all only: word_unat_eq_iff)
  with lockstep_correct [OF assms(1,2) st(1)] obtain c where
    c: "lockstep db cfg a ?b = Some (Inr c)" "is_last_common db cfg a ?b c" by blast
  then have "is_last_common db cfg ?b a c" by (simp add: is_last_common_sym)
  then have "is_last_common db cfg b a c" by (intro is_last_common_back [OF assms(1,3) le(2)]) simp_all
  moreover have "\<not> gen_height b < gen_height a" using le(1) by (simp only: not_less)
  then have "last_common_ancestor db cfg a b = Some (Inr c)"
    using c(1) less get_ancestor_stored [OF assms(1,3) le(1)] by (simp add: last_common_ancestor_def lift_ancestor_def)
  ultimately show ?thesis using is_last_common_sym by blast
qed

section \<open>The path to a new tip\<close>

text \<open>The main chain stored by height is the chain that ends in the best block.\<close>

definition main_chain_wf :: "chain_db \<Rightarrow> chain_config \<Rightarrow> gen_block_index \<Rightarrow> bool" where
  "main_chain_wf db cfg best \<longleftrightarrow> stored db cfg best \<and> db_best_block_id db = Inr (Some (gen_id best))
    \<and> (\<forall>h. db_block_id_by_height db h
        = Inr (if h \<le> gen_height best then Some (gen_id (back_to db cfg best (unat h))) else None))"

definition on_main_chain :: "chain_db \<Rightarrow> chain_config \<Rightarrow> gen_block_index \<Rightarrow> gen_block_index \<Rightarrow> bool" where
  "on_main_chain db cfg best g \<longleftrightarrow> unat (gen_height g) \<le> unat (gen_height best) \<and> g = back_to db cfg best (unat (gen_height g))"

lemma height_in_main_chain:
  assumes "db_wf db cfg" "main_chain_wf db cfg best" "stored db cfg (BlockIdx b)"
  shows "get_block_height_in_main_chain db cfg (index_block_id b)
    = Inr (if on_main_chain db cfg best (BlockIdx b) then Some (index_height b) else None)"
proof -
  have b: "index_block_id b \<noteq> genesis_id (genesis_block cfg)" "db_block_index db (index_block_id b) = Inr (Some b)"
    using assms(3) by (auto simp: in_tree_def getter_simps gen_id_def split: if_splits)
  have best: "stored db cfg best" using assms(2) by (simp add: main_chain_wf_def)
  have "(if index_height b \<le> gen_height best then Some (gen_id (back_to db cfg best (unat (index_height b)))) else None) = Some (index_block_id b)
    \<longleftrightarrow> on_main_chain db cfg best (BlockIdx b)"
  proof (cases "index_height b \<le> gen_height best")
    case True
    then have le: "unat (index_height b) \<le> unat (gen_height best)" by (simp only: word_le_nat_alt)
    have "stored db cfg (back_to db cfg best (unat (index_height b)))" using ancestor_at_props(1) [OF assms(1) best le] .
    then have "gen_id (back_to db cfg best (unat (index_height b))) = gen_id (BlockIdx b) \<longleftrightarrow> back_to db cfg best (unat (index_height b)) = BlockIdx b"
      using stored_inject [of db cfg _ "BlockIdx b"] assms(3) by auto
    with True le show ?thesis by (auto simp: on_main_chain_def gen_id_def gen_height_def)
  next
    case False
    then show ?thesis by (simp add: on_main_chain_def gen_height_def word_le_nat_alt)
  qed
  then show ?thesis
    using b assms(2) by (simp add: get_block_height_in_main_chain_def classify_def main_chain_wf_def)
qed

lemma genesis_on_main_chain:
  assumes "db_wf db cfg" "main_chain_wf db cfg best" "stored db cfg (GenesisIdx g)"
  shows "on_main_chain db cfg best (GenesisIdx g)"
proof -
  have best: "stored db cfg best" using assms(2) by (simp add: main_chain_wf_def)
  have "back_to db cfg best 0 = GenesisIdx (genesis_block cfg)"
    using ancestor_at_props [OF assms(1) best, of 0] stored_height_zero [OF assms(1)] by (simp add: unat_eq_zero)
  with in_tree_genesis [OF assms(3)] show ?thesis by (simp add: on_main_chain_def gen_height_def)
qed

lemma new_chain_loop_correct:
  assumes "db_wf db cfg" "main_chain_wf db cfg best" "stored db cfg (BlockIdx b)"
  shows "\<exists>k bs. new_chain_loop db cfg b acc = Some (Inr (bs @ acc)) \<and> k \<le> unat (index_height b)
    \<and> map BlockIdx bs = map (back_to db cfg (BlockIdx b)) [Suc k..<Suc (unat (index_height b))]
    \<and> on_main_chain db cfg best (back_to db cfg (BlockIdx b) k)
    \<and> (\<forall>x \<in> set bs. \<not> on_main_chain db cfg best (BlockIdx x))"
  using assms(3)
proof (induction "unat (index_height b)" arbitrary: b acc rule: less_induct)
  case less
  let ?g = "BlockIdx b"
  have gh: "gen_height ?g = index_height b" by (simp add: gen_height_def)
  show ?case
  proof (cases "on_main_chain db cfg best ?g")
    case True
    then have "new_chain_loop db cfg b acc = Some (Inr acc)"
      using height_in_main_chain [OF assms(1,2) less.prems] by (subst new_chain_loop.simps) simp
    moreover have "back_to db cfg ?g (unat (index_height b)) = ?g" using ancestor_at_self [of _ _ ?g] gh by simp
    ultimately show ?thesis using True by (intro exI [of _ "unat (index_height b)"] exI [of _ "[]"]) simp
  next
    case False
    let ?p = "index_parent (db_block_index db) cfg ?g"
    have p: "stored db cfg ?p" using parent_in_tree [OF assms(1) less.prems] .
    obtain q where "index_parent (db_block_index db) cfg ?g = q" "uint (index_height b) = uint (gen_height q) + 1"
      using in_tree_block [OF assms(1) less.prems] by metis
    then have h: "unat (index_height b) = Suc (unat (gen_height ?p))" using uint_eq_succ by metis
    have bk: "back_to db cfg ?p m = back_to db cfg ?g m" if "m \<le> unat (gen_height ?p)" for m
      using back_to_parent [OF assms(1) less.prems, of m] that h gh by simp
    have self: "back_to db cfg ?g (unat (index_height b)) = ?g" using ancestor_at_self [of _ _ ?g] gh by simp
    have step: "new_chain_loop db cfg b acc = (case ?p of GenesisIdx _ \<Rightarrow> Some (Inr (b # acc)) | BlockIdx x \<Rightarrow> new_chain_loop db cfg x (b # acc))"
      using False height_in_main_chain [OF assms(1,2) less.prems] get_previous_block_index_stored [OF assms(1) less.prems]
      by (subst new_chain_loop.simps) simp
    show ?thesis
    proof (cases ?p)
      case (GenesisIdx x)
      then have "unat (gen_height ?p) = 0" by (simp add: gen_height_def)
      moreover have "on_main_chain db cfg best ?p" using genesis_on_main_chain [OF assms(1,2)] p GenesisIdx by simp
      moreover have "back_to db cfg ?p 0 = ?p" using ancestor_at_self [of _ _ ?p] calculation(1) by metis
      ultimately show ?thesis using step GenesisIdx h self False bk [of 0]
        by (intro exI [of _ 0] exI [of _ "[b]"]) simp
    next
      case (BlockIdx x)
      have xh: "unat (index_height x) = unat (gen_height ?p)" using BlockIdx by (simp add: gen_height_def)
      with h have lt: "unat (index_height x) < unat (index_height b)" by simp
      have "stored db cfg (BlockIdx x)" using p BlockIdx by simp
      from less.hyps [OF lt this, of "b # acc"] obtain k bs where
        k: "new_chain_loop db cfg x (b # acc) = Some (Inr (bs @ b # acc))" "k \<le> unat (index_height x)"
        "map BlockIdx bs = map (back_to db cfg (BlockIdx x)) [Suc k..<Suc (unat (index_height x))]"
        "on_main_chain db cfg best (back_to db cfg (BlockIdx x) k)" "\<forall>y \<in> set bs. \<not> on_main_chain db cfg best (BlockIdx y)"
        by blast
      have "map (back_to db cfg (BlockIdx x)) [Suc k..<unat (index_height b)] = map (back_to db cfg ?g) [Suc k..<unat (index_height b)]"
        using bk h BlockIdx by (intro map_cong) auto
      then have "map BlockIdx (bs @ [b]) = map (back_to db cfg ?g) [Suc k..<Suc (unat (index_height b))]"
        using k(2,3) h xh self by simp
      moreover have "back_to db cfg ?g k = back_to db cfg (BlockIdx x) k" using bk [of k] k(2) xh BlockIdx by simp
      ultimately show ?thesis using step BlockIdx k h xh False
        by (intro exI [of _ k] exI [of _ "bs @ [b]"]) simp
    qed
  qed
qed

text \<open>
  C38: the path to a new tip is found: it always ends, starts right above a block of the main chain, contains every
  block from there to the tip in order, and none of its blocks is on the main chain.
\<close>

theorem get_new_chain_correct:
  assumes "tree_wf (db_block_index db) cfg" "main_chain_wf db cfg best" "in_tree (db_block_index db) cfg (BlockIdx tip)"
  shows "\<exists>k bs. get_new_chain db cfg tip = Some (Inr bs) \<and> k \<le> unat (index_height tip)
    \<and> map BlockIdx bs = map (ancestor_at (db_block_index db) cfg (BlockIdx tip)) [Suc k..<Suc (unat (index_height tip))]
    \<and> on_main_chain db cfg best (ancestor_at (db_block_index db) cfg (BlockIdx tip) k)
    \<and> (\<forall>x \<in> set bs. \<not> on_main_chain db cfg best (BlockIdx x))"
  using new_chain_loop_correct [OF assms, of "[]"] by (simp add: get_new_chain_def)

section \<open>New blocks keep the tree\<close>

lemma getter_extend:
  assumes "db i = Inr None" "i \<noteq> genesis_id (genesis_block cfg)" "gen_block_index_getter db cfg j = Inr (Some g)"
  shows "gen_block_index_getter (db(i := Inr (Some b))) cfg j = Inr (Some g) \<and> j \<noteq> i"
  using assms by (auto simp: getter_simps split: if_splits)

lemma ancestors_extend:
  assumes "tree_wf db cfg" "db i = Inr None" "i \<noteq> genesis_id (genesis_block cfg)" "in_tree db cfg g"
  shows "(index_parent (db(i := Inr (Some b))) cfg ^^ n) g = (index_parent db cfg ^^ n) g"
proof (induction n)
  case (Suc n)
  let ?h = "(index_parent db cfg ^^ n) g"
  have t: "in_tree db cfg ?h" using parents_in_tree [OF assms(1,4)] by blast
  have "index_parent (db(i := Inr (Some b))) cfg ?h = index_parent db cfg ?h"
  proof (cases ?h)
    case (BlockIdx c)
    then obtain p where p: "gen_block_index_getter db cfg (header_prev_block_id (index_header c)) = Inr (Some p)"
      using in_tree_block [OF assms(1)] t by metis
    with getter_extend [of db i cfg, OF assms(2,3) p, of b] BlockIdx show ?thesis by (simp add: index_parent_def)
  qed (simp add: index_parent_def)
  with Suc show ?case by (simp only: funpow.simps comp_apply)
qed simp

lemma tree_wf_extend:
  assumes "tree_wf db cfg" "db i = Inr None" "i \<noteq> genesis_id (genesis_block cfg)" "index_block_id b = i"
    and p: "gen_block_index_getter db cfg (header_prev_block_id (index_header b)) = Inr (Some p)"
    and h: "uint (index_height b) = uint (gen_height p) + 1"
    and a: "some_ancestor b = gen_id (ancestor_at db cfg p (unat (get_skip_height (index_height b))))"
  shows "tree_wf (db(i := Inr (Some b))) cfg"
proof -
  let ?db = "db(i := Inr (Some b))"
  have pt: "in_tree db cfg p" using getter_in_tree [OF assms(1) p] by simp
  have skip: "unat (get_skip_height (index_height b)) \<le> unat (gen_height p)"
    using skip_measure [of 0 "index_height b"] uint_eq_succ [OF h] by (cases "index_height b = 0") auto
  have gp: "gen_block_index_getter ?db cfg (header_prev_block_id (index_header b)) = Inr (Some p)"
    using getter_extend [of db i cfg, OF assms(2,3) p] by simp
  let ?a = "ancestor_at db cfg p (unat (get_skip_height (index_height b)))"
  have "gen_block_index_getter db cfg (gen_id ?a) = Inr (Some ?a)"
    using ancestor_at_props(1) [OF assms(1) pt skip] by (simp add: in_tree_def)
  then have ga: "gen_block_index_getter ?db cfg (some_ancestor b) = Inr (Some ?a)" using getter_extend [of db i cfg, OF assms(2,3)] a by simp
  have "ancestor_at ?db cfg (BlockIdx b) (unat (get_skip_height (index_height b)))
      = (index_parent ?db cfg ^^ (unat (gen_height p) - unat (get_skip_height (index_height b)))) p"
    using gp uint_eq_succ [OF h] skip
    by (simp add: ancestor_at_def gen_height_def Suc_diff_le funpow_swap1 index_parent_def)
  also have "\<dots> = ?a" using ancestors_extend [OF assms(1-3) pt] by (simp add: ancestor_at_def)
  finally have new: "ancestor_at ?db cfg (BlockIdx b) (unat (get_skip_height (index_height b))) = ?a" .
  show ?thesis unfolding tree_wf_def
  proof (intro allI impI)
    fix j c assume j: "j \<noteq> genesis_id (genesis_block cfg)" "?db j = Inr (Some c)"
    show "index_block_id c = j
      \<and> (\<exists>p. gen_block_index_getter ?db cfg (header_prev_block_id (index_header c)) = Inr (Some p)
        \<and> uint (index_height c) = uint (gen_height p) + 1)
      \<and> gen_block_index_getter ?db cfg (some_ancestor c)
        = Inr (Some (ancestor_at ?db cfg (BlockIdx c) (unat (get_skip_height (index_height c)))))"
    proof (cases "j = i")
      case True
      with j(2) assms(4) gp h ga new show ?thesis by auto
    next
      case False
      with j have c: "db j = Inr (Some c)" by simp
      then have "in_tree db cfg (BlockIdx c)" "index_block_id c = j"
        using assms(1) j(1) by (auto simp: in_tree_def getter_simps gen_id_def tree_wf_def)
      moreover from this obtain q where q: "gen_block_index_getter db cfg (header_prev_block_id (index_header c)) = Inr (Some q)"
        "uint (index_height c) = uint (gen_height q) + 1"
        "gen_block_index_getter db cfg (some_ancestor c)
          = Inr (Some (ancestor_at db cfg (BlockIdx c) (unat (get_skip_height (index_height c)))))"
        using in_tree_block [OF assms(1)] by metis
      ultimately show ?thesis
        using getter_extend [of db i cfg, OF assms(2,3) q(1), of b] getter_extend [of db i cfg, OF assms(2,3) q(3), of b] q(2)
          ancestors_extend [OF assms(1-3)] by (auto simp: ancestor_at_def)
    qed
  qed
qed

lemma get_block_proof_positive:
  assumes "get_block_proof weights data t t' = (Inr (Some bp) :: 'e fault + u256 option)" "\<forall>w \<in> set weights. w < 1000000000000000000"
  shows "0 < uint bp"
proof (cases data)
  case ConsensusNone
  with assms(1) show ?thesis by (simp add: get_block_proof_def)
next
  case (ConsensusPoW d)
  then obtain r where "bp = (case checked_add r 1 of Some r \<Rightarrow> r | None \<Rightarrow> - 1)"
    using assms(1) by (auto simp: get_block_proof_def pow_block_proof_def Let_def bind_eq_Some_conv split: sum.splits)
  then show ?thesis by (cases "checked_add r 1") (simp_all add: checked_simps unsigned_minus_1_eq_mask mask_eq_exp_minus_1)
next
  case (ConsensusPoS d)
  then obtain n where n: "calculate_block_proof weights n = (Inr bp :: 'e fault + u256)"
    using assms(1) by (auto simp: get_block_proof_def res_simps split: option.splits)
  let ?w = "if unat n \<ge> length weights then 1000000000000000000 - 1 else weights ! unat n"
  have "?w < 1000000000000000000" using assms(2) by (auto simp: not_le)
  then have "uint ?w < 1000000000000000000" by (simp add: word_less_def)
  moreover have "uint bp = 1000000000000000000 - uint ?w"
    using n by (simp add: calculate_block_proof_def Let_def res_simps checked_simps uint_up_ucast is_up)
  ultimately show ?thesis by simp
qed

text \<open>
  The index entry of a new block extends the tree; its chain trust is that of its parent and the proof of the block.
\<close>

lemma new_index_in_tree:
  assumes "tree_wf (db_block_index db) cfg" "db_block_index db i = Inr None" "i \<noteq> genesis_id (genesis_block cfg)"
    "create_block_index_for_new_block db cfg weights i header n status = Inr b"
  shows "tree_wf ((db_block_index db)(i := Inr (Some b))) cfg
    \<and> (\<exists>p bp. gen_block_index_getter (db_block_index db) cfg (header_prev_block_id (signed_header header)) = Inr (Some p)
      \<and> get_block_proof weights (header_consensus_data (signed_header header)) (gen_timestamp p) (header_timestamp (signed_header header))
        = (Inr (Some bp) :: new_index_error fault + u256 option)
      \<and> uint (index_height b) = uint (gen_height p) + 1 \<and> uint (index_chain_trust b) = uint (gen_chain_trust p) + uint bp)"
proof -
  obtain p height a trust bp count where p:
    "gen_block_index_getter (db_block_index db) cfg (header_prev_block_id (signed_header header)) = Inr (Some p)"
    and h: "next_height (gen_height p) = (Inr height :: new_index_error fault + block_height)"
    and a: "get_ancestor db cfg p (get_skip_height height) = Inr a"
    and pr: "get_block_proof weights (header_consensus_data (signed_header header)) (gen_timestamp p) (header_timestamp (signed_header header))
      = (Inr (Some bp) :: new_index_error fault + u256 option)"
    and t: "checked_add (gen_chain_trust p) bp = Some trust"
    and b: "b = \<lparr>index_block_id = i, index_block_header = header, some_ancestor = gen_id a, index_chain_trust = trust,
       index_height = height, chain_time_max = max (chain_timestamps_max p) (header_timestamp (signed_header header)),
       index_chain_transaction_count = count, index_status = status, index_is_persisted = False\<rparr>"
    using assms(4) unfolding create_block_index_for_new_block_def get_gen_block_index_def Let_def
    by (auto simp: res_simps)
  have hp: "uint height = uint (gen_height p) + 1" using h by (simp add: next_height_def res_simps checked_simps)
  have pt: "stored db cfg p" using getter_in_tree [OF assms(1) p] by simp
  have "get_skip_height height < height" using hp uint_ge_0 [of "gen_height p"]
    by (intro get_skip_height_less) (simp add: word_less_def)
  then have "get_skip_height height \<le> gen_height p" using hp by (simp add: word_less_def word_le_def)
  then have "a = back_to db cfg p (unat (get_skip_height height))" using get_ancestor_stored [OF assms(1) pt] a by simp
  then have "tree_wf ((db_block_index db)(i := Inr (Some b))) cfg"
    using p hp b by (intro tree_wf_extend [OF assms(1-3)]) simp_all
  moreover have "uint trust = uint (gen_chain_trust p) + uint bp" using t by (simp add: checked_simps)
  ultimately show ?thesis using p hp b pr by auto
qed

section \<open>Example\<close>

text \<open>A chain of two blocks above the genesis block, and a block that forks off at the genesis block.\<close>

definition example_block :: "block_id \<Rightarrow> block_id \<Rightarrow> block_height \<Rightarrow> block_index" where
  "example_block i prev h = \<lparr>index_block_id = i,
    index_block_header = with_signature NoSignature \<lparr>header_prev_block_id = prev, tx_merkle_root = 0, witness_merkle_root = 0,
      header_timestamp = 2000, header_consensus_data = ConsensusNone\<rparr>,
    some_ancestor = 1, index_chain_trust = ucast h, index_height = h, chain_time_max = 2000, index_chain_transaction_count = 0,
    index_status = 2, index_is_persisted = True\<rparr>"

definition example_db :: chain_db where
  "example_db = \<lparr>db_block_index = (\<lambda>i. Inr (if i = 11 then Some (example_block 11 1 1) else if i = 12 then Some (example_block 12 11 2)
      else if i = 21 then Some (example_block 21 1 1) else None)),
    db_block_id_by_height = (\<lambda>h. Inr (if h = 0 then Some 1 else if h = 1 then Some 11 else if h = 2 then Some 12 else None)),
    db_best_block_id = Inr (Some 12)\<rparr>"

lemma example_genesis: "genesis_id (genesis_block example_config) = 1"
  by (simp add: example_config_def)

lemma example_getter:
  "gen_block_index_getter (db_block_index example_db) example_config 1 = Inr (Some (GenesisIdx (genesis_block example_config)))"
  "gen_block_index_getter (db_block_index example_db) example_config 11 = Inr (Some (BlockIdx (example_block 11 1 1)))"
  "gen_block_index_getter (db_block_index example_db) example_config 12 = Inr (Some (BlockIdx (example_block 12 11 2)))"
  "gen_block_index_getter (db_block_index example_db) example_config 21 = Inr (Some (BlockIdx (example_block 21 1 1)))"
  by (simp_all add: gen_block_index_getter_def classify_def example_config_def example_db_def)

lemma example_block_simps [simp]:
  "index_block_id (example_block i p h) = i" "header_prev_block_id (index_header (example_block i p h)) = p"
  "some_ancestor (example_block i p h) = 1" "index_height (example_block i p h) = h"
  by (simp_all add: example_block_def with_signature_def)

lemma example_parent [simp]:
  "index_parent (db_block_index example_db) example_config (BlockIdx (example_block 11 1 1)) = GenesisIdx (genesis_block example_config)"
  "index_parent (db_block_index example_db) example_config (BlockIdx (example_block 12 11 2)) = BlockIdx (example_block 11 1 1)"
  "index_parent (db_block_index example_db) example_config (BlockIdx (example_block 21 1 1)) = GenesisIdx (genesis_block example_config)"
  by (simp_all add: index_parent_def example_getter)

lemma example_skip: "get_skip_height 1 = 0" "get_skip_height 2 = 0"
  by (simp_all add: get_skip_height_def invert_lowest_one_def)

lemma example_ancestors:
  "ancestor_at (db_block_index example_db) example_config (BlockIdx (example_block 11 1 1)) 0 = GenesisIdx (genesis_block example_config)"
  "ancestor_at (db_block_index example_db) example_config (BlockIdx (example_block 21 1 1)) 0 = GenesisIdx (genesis_block example_config)"
  "ancestor_at (db_block_index example_db) example_config (BlockIdx (example_block 12 11 2)) 0 = GenesisIdx (genesis_block example_config)"
  "ancestor_at (db_block_index example_db) example_config (BlockIdx (example_block 12 11 2)) 1 = BlockIdx (example_block 11 1 1)"
proof -
  have "(f ^^ 2) x = f (f x)" for f :: "gen_block_index \<Rightarrow> gen_block_index" and x by (simp add: numeral_2_eq_2)
  then show "ancestor_at (db_block_index example_db) example_config (BlockIdx (example_block 12 11 2)) 0 = GenesisIdx (genesis_block example_config)"
    by (simp add: ancestor_at_def gen_height_def)
qed (simp_all add: ancestor_at_def gen_height_def)

lemma example_wf: "tree_wf (db_block_index example_db) example_config"
proof -
  have "i = 11 \<and> b = example_block 11 1 1 \<or> i = 12 \<and> b = example_block 12 11 2 \<or> i = 21 \<and> b = example_block 21 1 1"
    if "db_block_index example_db i = Inr (Some b)" for i b
    using that by (auto simp: example_db_def split: if_splits)
  then show ?thesis unfolding tree_wf_def
    by (fastforce simp: example_getter example_skip example_ancestors gen_height_def)
qed

lemma example_stored:
  "in_tree (db_block_index example_db) example_config (BlockIdx (example_block 12 11 2))"
  "in_tree (db_block_index example_db) example_config (BlockIdx (example_block 21 1 1))"
  by (simp_all add: in_tree_def gen_id_def example_getter)

lemma example_main_chain: "main_chain_wf example_db example_config (BlockIdx (example_block 12 11 2))"
proof -
  have "h = 0 \<or> h = 1 \<or> h = 2" if "h \<le> 2" for h :: u64
  proof -
    have "unat h = 0 \<or> unat h = 1 \<or> unat h = 2" using that by (auto simp: word_le_nat_alt)
    then show ?thesis by (auto simp: word_unat_eq_iff)
  qed
  then have "db_block_id_by_height example_db h
      = Inr (if h \<le> 2 then Some (gen_id (back_to example_db example_config (BlockIdx (example_block 12 11 2)) (unat h))) else None)" for h
    using example_ancestors ancestor_at_self [of "db_block_index example_db" example_config "BlockIdx (example_block 12 11 2)"]
    by (auto simp: example_db_def gen_id_def gen_height_def example_genesis)
  then show ?thesis
    using example_stored by (simp add: main_chain_wf_def gen_height_def gen_id_def example_db_def)
qed

theorem ancestor_getter_correct_witness:
  "block_index_ancestor_getter (db_block_index example_db) example_config (StartBlockId 12) 0 = Inr (GenesisIdx (genesis_block example_config))"
  using ancestor_getter_correct [OF example_wf example_stored(1), of "StartBlockId 12" 0] example_ancestors
  by (simp add: gen_id_def)

theorem last_common_ancestor_correct_witness:
  "\<exists>c. last_common_ancestor example_db example_config (BlockIdx (example_block 12 11 2)) (BlockIdx (example_block 21 1 1)) = Some (Inr c)
    \<and> is_last_common example_db example_config (BlockIdx (example_block 12 11 2)) (BlockIdx (example_block 21 1 1)) c"
  using last_common_ancestor_correct [OF example_wf example_stored] .

theorem get_new_chain_correct_witness:
  "\<exists>bs. get_new_chain example_db example_config (example_block 21 1 1) = Some (Inr bs)
    \<and> (\<forall>x \<in> set bs. \<not> on_main_chain example_db example_config (BlockIdx (example_block 12 11 2)) (BlockIdx x))"
  using get_new_chain_correct [OF example_wf example_main_chain example_stored(2)] by blast

end
