(* ===== verification/ProofOfWork.thy ===== *)
theory ProofOfWork
  imports BlockTree
begin

text \<open>
  Proof of work (\<open>consensus/src/pow\<close>): the work a block needs, the retargeting of the difficulty, the check
  of a block and mining. The hash of a header is a parameter.
\<close>

section \<open>Targets\<close>

text \<open>The 64-bit words of a 256-bit number, and the number that the bytes of a hash are, read from the low end.\<close>

definition limbs_of :: "u256 \<Rightarrow> limbs" where
  "limbs_of w = map (\<lambda>i. ucast (drop_bit (64 * i) w)) [0..<4]"

definition h256_bytes :: "h256 \<Rightarrow> bytes" where
  "h256_bytes h = map (\<lambda>i. ucast (drop_bit (8 * (31 - i)) h)) [0..<32]"

definition uint256_from_h256 :: "h256 \<Rightarrow> u256" where
  "uint256_from_h256 h = (\<Sum>i\<leftarrow>[0..<32]. push_bit (8 * i) (ucast (h256_bytes h ! i)))"

text \<open>\<open>Uint256::try_from(compact)\<close> with the error of the caller, and \<open>Compact::from(target)\<close>.\<close>

definition decode_target :: "'e \<Rightarrow> compact \<Rightarrow> 'e fault + u256" where
  "decode_target err compact = (case uint256_try_from_compact compact of
      Inl (Err _) \<Rightarrow> Inl (Err err)
    | Inl Panic \<Rightarrow> Inl Panic
    | Inr target \<Rightarrow> Inr (limbs_word target))"

definition encode_target :: "u256 \<Rightarrow> 'e fault + compact" where
  "encode_target target = compact_from (limbs_of target)"

section \<open>Ancestors for the consensus checks\<close>

text \<open>The text of an underlying error is represented by that error.\<close>

datatype consensus_chainstate_error =
    FailedToObtainEpochData u64 string
  | FailedToCalculateMedianTimePast block_id string
  | FailedToObtainBlockIndex block_id string
  | FailedToObtainBestBlockIndex string
  | FailedToObtainBlockIdFromHeight block_height string
  | FailedToObtainAncestor block_id block_height property_query_error
  | StakePoolDataReadError pool_id string
  | PoolBalanceReadError pool_id string

definition get_ancestor_from_block_index_handle ::
  "chain_db \<Rightarrow> chain_config \<Rightarrow> block_index \<Rightarrow> block_height \<Rightarrow> consensus_chainstate_error fault + gen_block_index" where
  "get_ancestor_from_block_index_handle db cfg block_index ancestor_height =
    map_err (\<lambda>e. case e of Err q \<Rightarrow> Err (FailedToObtainAncestor (index_block_id block_index) ancestor_height q) | Panic \<Rightarrow> Panic)
      (lift_ancestor (get_ancestor db cfg (BlockIdx block_index) ancestor_height))"

section \<open>Required work\<close>

datatype consensus_pow_error =
    PoWChainstateError consensus_chainstate_error
  | InvalidPoW block_id
  | PoWPrevBlockLoadError block_id property_query_error
  | PoWPrevBlockNotFound block_id
  | NoPowDataInPreviousBlock
  | PoWDecodingBitsFailed compact
  | PreviousBitsDecodingFailed compact
  | InvalidTargetBits compact compact
  | PoSInputDataProvided
  | PoWNoInputDataProvided

definition pow_target_timespan :: u64 where
  "pow_target_timespan = 14 * 24 * 60 * 60"

definition pow_target_spacing :: u64 where
  "pow_target_spacing = 10 * 60"

definition max_retarget_factor :: u64 where
  "max_retarget_factor = 4"

definition max_target_timespan_in_secs :: "'e fault + u64" where
  "max_target_timespan_in_secs = expect (checked_mul pow_target_timespan max_retarget_factor)"

definition min_target_timespan_in_secs :: u64 where
  "min_target_timespan_in_secs = pow_target_timespan div max_retarget_factor"

definition difficulty_adjustment_interval :: u64 where
  "difficulty_adjustment_interval = pow_target_timespan div pow_target_spacing"

definition due_for_retarget :: "u64 \<Rightarrow> block_height \<Rightarrow> bool" where
  "due_for_retarget interval height = (height mod interval = 0)"

definition get_starting_block_time ::
  "chain_db \<Rightarrow> chain_config \<Rightarrow> u64 \<Rightarrow> block_index \<Rightarrow> consensus_pow_error fault + block_timestamp" where
  "get_starting_block_time db cfg interval block_index =
    res_bind (expect (checked_sub interval 1)) (\<lambda>d.
    res_bind (expect (checked_sub (index_height block_index) d)) (\<lambda>retarget_height.
    map_ok gen_timestamp (map_err (\<lambda>e. case e of Err q \<Rightarrow> Err (PoWChainstateError q) | Panic \<Rightarrow> Panic)
      (get_ancestor_from_block_index_handle db cfg block_index retarget_height))))"

definition pow_calculate_new_target :: "u64 \<Rightarrow> u64 \<Rightarrow> compact \<Rightarrow> u256 \<Rightarrow> consensus_pow_error fault + compact" where
  "pow_calculate_new_target actual_timespan target_timespan old difficulty_limit =
    res_bind (decode_target (PreviousBitsDecodingFailed old) old) (\<lambda>old_target.
    let new_target = (case checked_mul old_target (ucast actual_timespan) of Some v \<Rightarrow> v | None \<Rightarrow> - 1) in
    res_bind (expect (checked_div new_target (ucast target_timespan))) (\<lambda>new_target.
    encode_target (if new_target > difficulty_limit then difficulty_limit else new_target)))"

definition block_production_stalled :: "u64 \<Rightarrow> u64 \<Rightarrow> u64 \<Rightarrow> 'e fault + bool" where
  "block_production_stalled target_spacing new_block_time prev_block_time =
    res_bind (expect (checked_mul target_spacing 2)) (\<lambda>d.
    map_ok (\<lambda>t. new_block_time > t) (expect (checked_add prev_block_time d)))"

definition actual_timespan :: "u64 \<Rightarrow> u64 \<Rightarrow> 'e fault + u64" where
  "actual_timespan prev_block_blocktime retarget_blocktime =
    res_bind (expect (checked_sub prev_block_blocktime retarget_blocktime)) (\<lambda>actual.
    map_ok (\<lambda>upper. if actual < min_target_timespan_in_secs then min_target_timespan_in_secs
        else if actual > upper then upper else actual)
      max_target_timespan_in_secs)"

definition next_work_required :: "chain_config \<Rightarrow> block_timestamp \<Rightarrow> block_index \<Rightarrow> compact \<Rightarrow> consensus_pow_error fault + compact" where
  "next_work_required cfg retarget_block_time prev_block_index prev_block_bits =
    res_bind (actual_timespan (header_timestamp (index_header prev_block_index)) retarget_block_time) (\<lambda>span.
    pow_calculate_new_target span pow_target_timespan prev_block_bits (pow_limit (pow_chain_config cfg)))"

definition next_work_required_for_min_difficulty ::
  "chain_config \<Rightarrow> u64 \<Rightarrow> block_index \<Rightarrow> compact \<Rightarrow> 'e fault + compact" where
  "next_work_required_for_min_difficulty cfg new_block_time prev_block_index prev_block_bits =
    res_bind (block_production_stalled pow_target_spacing new_block_time (header_timestamp (index_header prev_block_index))) (\<lambda>stalled.
    if stalled then encode_target (pow_limit (pow_chain_config cfg)) else Inr prev_block_bits)"

definition get_work_required ::
  "chain_db \<Rightarrow> chain_config \<Rightarrow> block_index \<Rightarrow> block_timestamp \<Rightarrow> consensus_pow_error fault + compact" where
  "get_work_required db cfg prev_block_index new_block_time =
    (case header_consensus_data (index_header prev_block_index) of
      ConsensusPoW pow_data \<Rightarrow>
        if no_retargeting (pow_chain_config cfg) then Inr (pow_bits pow_data)
        else res_bind (expect (checked_add (index_height prev_block_index) 1)) (\<lambda>current_height.
          if \<not> due_for_retarget difficulty_adjustment_interval current_height then
            if allow_min_difficulty_blocks (pow_chain_config cfg)
            then next_work_required_for_min_difficulty cfg new_block_time prev_block_index (pow_bits pow_data)
            else Inr (pow_bits pow_data)
          else res_bind (get_starting_block_time db cfg difficulty_adjustment_interval prev_block_index) (\<lambda>retarget_block_time.
            next_work_required cfg retarget_block_time prev_block_index (pow_bits pow_data)))
    | _ \<Rightarrow> Inl (Err NoPowDataInPreviousBlock))"

definition calculate_work_required ::
  "chain_db \<Rightarrow> chain_config \<Rightarrow> gen_block_index \<Rightarrow> block_timestamp \<Rightarrow> pow_status \<Rightarrow> consensus_pow_error fault + compact" where
  "calculate_work_required db cfg prev_gen_block_index block_timestamp pow_status = (case pow_status of
      PoWThreshold initial_difficulty \<Rightarrow> Inr initial_difficulty
    | PoWOngoing \<Rightarrow> (case prev_gen_block_index of
        GenesisIdx _ \<Rightarrow> encode_target (pow_limit (pow_chain_config cfg))
      | BlockIdx prev_block_index \<Rightarrow> get_work_required db cfg prev_block_index block_timestamp))"

section \<open>Checking and mining\<close>

definition check_proof_of_work :: "h256 \<Rightarrow> compact \<Rightarrow> consensus_pow_error fault + bool" where
  "check_proof_of_work block_hash block_bits =
    map_ok (\<lambda>target. uint256_from_h256 block_hash \<le> target) (decode_target (PoWDecodingBitsFailed block_bits) block_bits)"

definition check_pow_consensus ::
  "(block_header \<Rightarrow> block_id) \<Rightarrow> chain_db \<Rightarrow> chain_config \<Rightarrow> block_header \<Rightarrow> pow_data \<Rightarrow> pow_status \<Rightarrow> consensus_pow_error fault + unit" where
  "check_pow_consensus header_id db cfg header block_pow_data pow_status =
    res_bind (case pow_status of
        PoWThreshold initial_difficulty \<Rightarrow> Inr initial_difficulty
      | PoWOngoing \<Rightarrow> (case classify cfg (header_prev_block_id header) of
          GenesisId _ \<Rightarrow> encode_target (pow_limit (pow_chain_config cfg))
        | BlockId prev_id \<Rightarrow>
            res_bind (map_err (Err \<circ> PoWPrevBlockLoadError prev_id \<circ> QueryStorageError) (db_block_index db prev_id)) (\<lambda>prev.
            res_bind (ok_or (Err (PoWPrevBlockNotFound prev_id)) prev) (\<lambda>prev_block_index.
            get_work_required db cfg prev_block_index (header_timestamp header))))) (\<lambda>work_required.
    if work_required \<noteq> pow_bits block_pow_data then Inl (Err (InvalidTargetBits (pow_bits block_pow_data) work_required))
    else res_bind (check_proof_of_work (header_id header) work_required) (\<lambda>ok.
      if ok then Inr () else Inl (Err (InvalidPoW (header_id header)))))"

datatype mining_result = MiningSuccess | MiningFailed | MiningStopped

text \<open>The search over the nonces; \<open>stop\<close> tells what the stop flag reads after a nonce failed. The nonces left are counted down.\<close>

fun mine_from :: "(block_header \<Rightarrow> block_id) \<Rightarrow> (u128 \<Rightarrow> bool) \<Rightarrow> compact \<Rightarrow> nat \<Rightarrow> u128 \<Rightarrow> (block_header, consensus_pow_error fault, mining_result) op" where
  "mine_from header_id stop bits 0 nonce h = (Inr MiningFailed, h)"
| "mine_from header_id stop bits (Suc n) nonce h =
    (let h = h\<lparr>header_consensus_data := ConsensusPoW \<lparr>pow_bits = bits, pow_nonce = nonce\<rparr>\<rparr> in
     case check_proof_of_work (header_id h) bits of
       Inl e \<Rightarrow> (Inl e, h)
     | Inr ok \<Rightarrow> if ok then (Inr MiningSuccess, h) else if stop nonce then (Inr MiningStopped, h)
         else mine_from header_id stop bits n (nonce + 1) h)"

definition mine :: "(block_header \<Rightarrow> block_id) \<Rightarrow> (u128 \<Rightarrow> bool) \<Rightarrow> u128 \<Rightarrow> compact \<Rightarrow> (block_header, consensus_pow_error fault, mining_result) op" where
  "mine header_id stop max_nonce bits = mine_from header_id stop bits (unat max_nonce) 0"

section \<open>Targets survive encoding up to rounding\<close>

lemma base_digits:
  fixes x p :: int
  assumes "0 < p" "q = p * p" "r = p * q"
  shows "x mod p + p * (x div p mod p + p * (x div q mod p + p * (x div r))) = x"
proof -
  have "x div q = x div p div p" "x div r = x div p div p div p"
    using assms by (simp_all add: zdiv_zmult2_eq [symmetric] mult.assoc)
  then show ?thesis using mod_mult_div_eq [of "x div p div p" p] mod_mult_div_eq [of "x div p" p] mod_mult_div_eq [of x p] by simp
qed

lemma limbs_of_correct: "uval (limbs_of w) = uint w" "length (limbs_of w) = 4"
proof -
  have l: "limbs_of w = [ucast w, ucast (drop_bit 64 w), ucast (drop_bit 128 w), ucast (drop_bit 192 w)]"
    by (simp add: limbs_of_def upt_rec)
  have u: "uint (ucast v :: u64) = uint v mod 2 ^ 64" for v :: u256 by (simp add: unsigned_ucast_eq take_bit_eq_mod)
  have h: "uint w div 2 ^ 192 mod 2 ^ 64 = uint w div 2 ^ 192"
    using uint_range [of w] int_div_less [of "2 ^ 192" "uint w" "2 ^ 64"] by (intro mod_pos_pos_trivial) (simp_all add: pos_imp_zdiv_nonneg_iff)
  have "uval (limbs_of w) = uint w mod 2 ^ 64 + 2 ^ 64 * (uint w div 2 ^ 64 mod 2 ^ 64 + 2 ^ 64 * (uint w div 2 ^ 128 mod 2 ^ 64
      + 2 ^ 64 * (uint w div 2 ^ 192 mod 2 ^ 64)))"
    by (simp only: l u uint_drop_bit uval.simps mult_zero_right add_0_right)
  also have "\<dots> = uint w" unfolding h by (rule base_digits) simp_all
  finally show "uval (limbs_of w) = uint w" .
  show "length (limbs_of w) = 4" by (simp add: l)
qed

lemma round_down_bounds:
  fixes m :: int
  assumes "0 \<le> m" "k = 0 \<or> 2 ^ 15 \<le> m div 2 ^ k"
  shows "m div 2 ^ k * 2 ^ k \<le> m \<and> m - m div 2 ^ k * 2 ^ k \<le> m div 2 ^ 15"
proof (cases "k = 0")
  case False
  have "2 ^ 15 * 2 ^ k \<le> m div 2 ^ k * 2 ^ k" using assms False by (intro mult_right_mono) auto
  also have "\<dots> \<le> m" by (simp add: minus_mod_eq_div_mult [symmetric])
  finally have "2 ^ k \<le> m div 2 ^ 15" using zdiv_mono1 [of "2 ^ 15 * 2 ^ k" m "2 ^ 15"] by simp
  moreover have "m - m div 2 ^ k * 2 ^ k < 2 ^ k" "0 \<le> m - m div 2 ^ k * 2 ^ k" by (simp_all add: minus_div_mult_eq_mod)
  ultimately show ?thesis by linarith
qed (use assms in simp)

lemma encode_decode:
  "\<exists>c t. encode_target w = (Inr c :: 'e fault + compact) \<and> decode_target err c = Inr t
    \<and> uint t \<le> uint w \<and> uint w - uint t \<le> uint w div 2 ^ 15"
proof -
  obtain c y k where c: "compact_from (limbs_of w) = (Inr c :: 'e fault + u32)" "uint256_try_from_compact c = Inr y" "length y = 4"
    "uval y = uint w div 2 ^ k * 2 ^ k" "k = 0 \<or> 2 ^ 15 \<le> uint w div 2 ^ k"
    using compact_from_to [of "limbs_of w", where 'e = 'e] by (auto simp: limbs_of_correct)
  have "uint (limbs_word y :: u256) = uval y" using c(3) by (intro uint_limbs_word) simp
  then show ?thesis using c round_down_bounds [of "uint w" k]
    by (intro exI [of _ c] exI [of _ "limbs_word y"]) (simp add: encode_target_def decode_target_def)
qed

section \<open>Retargeting\<close>

text \<open>The span of the last interval, clamped, and the target before it is rounded.\<close>

definition clamped_span :: "block_timestamp \<Rightarrow> block_timestamp \<Rightarrow> int" where
  "clamped_span prev start = max (1209600 div 4) (min (4 * 1209600) (uint prev - uint start))"

definition ideal_pow_target :: "u256 \<Rightarrow> int \<Rightarrow> u256 \<Rightarrow> int" where
  "ideal_pow_target limit span old = min (uint limit) (min (2 ^ 256 - 1) (uint old * span) div 1209600)"

lemma actual_timespan_eq:
  "actual_timespan prev start = (if prev < start then Inl Panic else Inr (word_of_int (clamped_span prev start)) :: 'e fault + u64)"
  "\<not> prev < start \<Longrightarrow> uint (word_of_int (clamped_span prev start) :: u64) = clamped_span prev start"
proof -
  show u: "uint (word_of_int (clamped_span prev start) :: u64) = clamped_span prev start"
    by (rule uint_word_of_int_small) (auto simp: clamped_span_def)
  show "actual_timespan prev start = (if prev < start then Inl Panic else Inr (word_of_int (clamped_span prev start)) :: 'e fault + u64)"
  proof (cases "prev < start")
    case True
    then show ?thesis by (simp add: actual_timespan_def checked_sub_def word_less_def)
  next
    case False
    then have d: "uint (prev - start) = uint prev - uint start" by (simp add: uint_sub_if' word_less_def)
    have m: "max_target_timespan_in_secs = (Inr 4838400 :: 'e fault + u64)"
      by (simp add: max_target_timespan_in_secs_def pow_target_timespan_def max_retarget_factor_def checked_mul_def)
    have "checked_sub prev start = Some (prev - start)" using False by (simp add: checked_sub_def word_less_def)
    then show ?thesis using False d u
      by (simp add: actual_timespan_def m min_target_timespan_in_secs_def pow_target_timespan_def max_retarget_factor_def
          word_uint_eq_iff word_less_def clamped_span_def)
  qed
qed

lemma pow_new_target:
  assumes "decode_target (PreviousBitsDecodingFailed bits) bits = Inr old"
  shows "\<exists>t :: u256. uint t = ideal_pow_target limit (uint span) old
    \<and> pow_calculate_new_target span pow_target_timespan bits limit = encode_target t"
proof -
  define m :: u256 where "m = (case checked_mul old (ucast span) of Some v \<Rightarrow> v | None \<Rightarrow> - 1)"
  have c: "uint (ucast span :: u256) = uint span" by (simp add: uint_up_ucast is_up)
  have m: "uint m = min (2 ^ 256 - 1) (uint old * uint span)"
    unfolding m_def using c uint_range [of "old * ucast span"]
    by (cases "uint old * uint span < 2 ^ 256") (auto simp: checked_mul_def uint_word_ariths mod_pos_pos_trivial)
  let ?T = "ucast pow_target_timespan :: u256"
  have T: "uint ?T = 1209600" by (simp add: pow_target_timespan_def)
  then have d: "checked_div m ?T = Some (m div ?T)" by (auto simp: checked_div_def)
  have "uint (m div ?T) = uint m div 1209600" by (simp add: uint_div T)
  then show ?thesis using d assms m
    by (intro exI [of _ "if m div ?T > limit then limit else m div ?T"])
      (auto simp: pow_calculate_new_target_def m_def [symmetric] ideal_pow_target_def word_less_def)
qed

text \<open>
  C9: retargeting the difficulty of proof of work. When the last block is not older than the first block of the
  interval, the new bits are always computed, and their target is the old one scaled by the clamped time span, at
  most the limit and at most four times the old target, rounded down by at most one part in 32768. A last
  block that is older than the first one makes the subtraction of the times panic.
\<close>

theorem pow_retarget_bounded:
  assumes "decode_target (PreviousBitsDecodingFailed bits) bits = Inr old"
  shows "let prev_time = header_timestamp (index_header prev); limit = pow_limit (pow_chain_config cfg);
      ideal = ideal_pow_target limit (clamped_span prev_time start) old
    in if prev_time < start then next_work_required cfg start prev bits = Inl Panic
      else \<exists>c t. next_work_required cfg start prev bits = Inr c \<and> decode_target e c = Inr t
        \<and> uint t \<le> ideal \<and> ideal - uint t \<le> ideal div 2 ^ 15 \<and> uint t \<le> uint limit \<and> uint t \<le> 4 * uint old"
proof (cases "header_timestamp (index_header prev) < start")
  case False
  let ?span = "clamped_span (header_timestamp (index_header prev)) start"
  let ?limit = "pow_limit (pow_chain_config cfg)"
  obtain t where t: "uint t = ideal_pow_target ?limit ?span old"
    "next_work_required cfg start prev bits = encode_target t"
    using pow_new_target [OF assms, of ?limit "word_of_int ?span"] False actual_timespan_eq(2) [OF False]
    by (auto simp: next_work_required_def actual_timespan_eq(1))
  have "?span \<le> 4 * 1209600" by (simp add: clamped_span_def)
  then have "uint old * ?span \<le> uint old * (4 * 1209600)" by (rule mult_left_mono) simp
  then have "uint old * ?span div 1209600 \<le> 4 * uint old" using zdiv_mono1 [of "uint old * ?span" "uint old * (4 * 1209600)" 1209600] by simp
  moreover have "min (2 ^ 256 - 1) (uint old * ?span) div 1209600 \<le> uint old * ?span div 1209600" by (intro zdiv_mono1) auto
  ultimately have "uint t \<le> 4 * uint old" "uint t \<le> uint ?limit" by (auto simp: t(1) ideal_pow_target_def)
  then show ?thesis using False encode_decode [of t e] t by (fastforce simp: Let_def)
qed (simp add: next_work_required_def actual_timespan_eq(1) Let_def)

section \<open>Mining\<close>

lemma mine_from_success:
  assumes "mine_from header_id stop bits n nonce h = (Inr MiningSuccess, h')" "unat nonce + n < 2 ^ 128"
  shows "\<exists>k < n. h' = h\<lparr>header_consensus_data := ConsensusPoW \<lparr>pow_bits = bits, pow_nonce = nonce + of_nat k\<rparr>\<rparr>
    \<and> check_proof_of_work (header_id h') bits = Inr True
    \<and> (\<forall>j < k. check_proof_of_work (header_id (h\<lparr>header_consensus_data := ConsensusPoW \<lparr>pow_bits = bits, pow_nonce = nonce + of_nat j\<rparr>\<rparr>)) bits
        = Inr False)"
  using assms
proof (induction n arbitrary: nonce h)
  case (Suc n)
  let ?h = "h\<lparr>header_consensus_data := ConsensusPoW \<lparr>pow_bits = bits, pow_nonce = nonce\<rparr>\<rparr>"
  consider "check_proof_of_work (header_id ?h) bits = Inr True" "h' = ?h"
    | "check_proof_of_work (header_id ?h) bits = Inr False" "mine_from header_id stop bits n (nonce + 1) ?h = (Inr MiningSuccess, h')"
    using Suc.prems(1) by (auto simp: Let_def split: sum.splits if_splits)
  then show ?case
  proof cases
    case 2
    have "unat (nonce + 1) + n < 2 ^ 128" using Suc.prems(2) by (simp add: unat_word_ariths)
    from Suc.IH [OF 2(2) this] obtain k where k: "k < n"
      "h' = h\<lparr>header_consensus_data := ConsensusPoW \<lparr>pow_bits = bits, pow_nonce = nonce + of_nat (Suc k)\<rparr>\<rparr>"
      "check_proof_of_work (header_id h') bits = Inr True"
      "\<forall>j < k. check_proof_of_work (header_id (h\<lparr>header_consensus_data := ConsensusPoW \<lparr>pow_bits = bits, pow_nonce = nonce + of_nat (Suc j)\<rparr>\<rparr>)) bits = Inr False"
      by (auto simp: add.assoc)
    have "\<forall>j < Suc k. check_proof_of_work (header_id (h\<lparr>header_consensus_data := ConsensusPoW \<lparr>pow_bits = bits, pow_nonce = nonce + of_nat j\<rparr>\<rparr>)) bits = Inr False"
      using k(4) 2(1) by (auto simp: less_Suc_eq_0_disj simp del: of_nat_Suc)
    then show ?thesis using k(1-3) by (intro exI [of _ "Suc k"]) (simp del: of_nat_Suc)
  qed (auto intro!: exI [of _ 0])
qed simp

lemma required_work_agrees:
  assumes "get_gen_block_index db cfg (header_prev_block_id h) = Inr (Some prev)"
    "calculate_work_required db cfg prev (header_timestamp h) status = Inr bits"
    "check_proof_of_work (header_id h) bits = Inr True" "pow_bits data = bits"
  shows "check_pow_consensus header_id db cfg h data status = Inr ()"
  using assms
  by (cases status)
    (auto simp: check_pow_consensus_def calculate_work_required_def get_gen_block_index_def gen_block_index_getter_def res_simps
      dest!: map_option_eq_Some [THEN iffD1, OF sym] split: gen_block_id.splits gen_block_index.splits sum.splits option.splits)

text \<open>
  C8: a mined block is accepted. When mining for the work that the parent requires reports success, it has stored the
  first nonce below the bound whose header meets the target, changed nothing else in the header, and the
  verification of proof of work accepts the header.
\<close>

theorem mined_block_accepted:
  assumes "mine header_id stop max_nonce bits h = (Inr MiningSuccess, h')"
    "get_gen_block_index db cfg (header_prev_block_id h) = Inr (Some prev)"
    "calculate_work_required db cfg prev (header_timestamp h) status = Inr bits"
  shows "\<exists>nonce < max_nonce. h' = h\<lparr>header_consensus_data := ConsensusPoW \<lparr>pow_bits = bits, pow_nonce = nonce\<rparr>\<rparr>
    \<and> check_pow_consensus header_id db cfg h' \<lparr>pow_bits = bits, pow_nonce = nonce\<rparr> status = Inr ()
    \<and> (\<forall>n < nonce. check_proof_of_work (header_id (h\<lparr>header_consensus_data := ConsensusPoW \<lparr>pow_bits = bits, pow_nonce = n\<rparr>\<rparr>)) bits = Inr False)"
proof -
  have b: "unat max_nonce < 2 ^ 128" by (rule order.strict_trans2 [OF unsigned_less]) simp
  then obtain k where k: "k < unat max_nonce" "h' = h\<lparr>header_consensus_data := ConsensusPoW \<lparr>pow_bits = bits, pow_nonce = of_nat k\<rparr>\<rparr>"
    "check_proof_of_work (header_id h') bits = Inr True"
    "\<forall>j < k. check_proof_of_work (header_id (h\<lparr>header_consensus_data := ConsensusPoW \<lparr>pow_bits = bits, pow_nonce = of_nat j\<rparr>\<rparr>)) bits = Inr False"
    using mine_from_success [of header_id stop bits "unat max_nonce" 0 h h'] assms(1) by (auto simp only: mine_def unat_0 add_0)
  have u: "unat (of_nat k :: u128) = k" using k(1) b by (simp add: unat_of_nat)
  have "check_proof_of_work (header_id (h\<lparr>header_consensus_data := ConsensusPoW \<lparr>pow_bits = bits, pow_nonce = n\<rparr>\<rparr>)) bits = Inr False"
    if "n < of_nat k" for n
    using k(4) [rule_format, of "unat n"] that u by (simp add: word_less_nat_alt)
  moreover have "of_nat k < max_nonce" using k(1) u by (simp add: word_less_nat_alt)
  moreover have "check_pow_consensus header_id db cfg h' \<lparr>pow_bits = bits, pow_nonce = of_nat k\<rparr> status = Inr ()"
    by (rule required_work_agrees [of _ _ _ prev _ bits]) (use assms(2,3) k in simp_all)
  ultimately show ?thesis using k(2) by blast
qed

section \<open>Examples\<close>

definition example_header :: block_header where
  "example_header = \<lparr>header_prev_block_id = 12, tx_merkle_root = 0, witness_merkle_root = 0, header_timestamp = 2100,
    header_consensus_data = ConsensusNone\<rparr>"

lemma example_target: "decode_target e 0x03000005 = Inr 5"
proof -
  have "uint256_try_from_compact 0x03000005 = Inr [5, 0, 0, 0]" by code_simp
  then show ?thesis by (simp add: decode_target_def limbs_word_def)
qed

lemma example_hash: "uint256_from_h256 0 = 0"
proof -
  have "map (\<lambda>i. push_bit (8 * i) (ucast (h256_bytes 0 ! i)) :: u256) [0..<32] = map (\<lambda>i. 0) [0..<32]"
    by (rule map_cong) (simp_all add: h256_bytes_def)
  then show ?thesis unfolding uint256_from_h256_def by (metis sum_list_0)
qed

theorem pow_retarget_bounded_witness:
  "\<exists>c t. next_work_required example_config 2000 (example_block 12 11 2) 0x03000005 = Inr c \<and> decode_target (PreviousBitsDecodingFailed 0) c = Inr t \<and> uint t \<le> 20"
  using pow_retarget_bounded [OF example_target, of "example_block 12 11 2" example_config 2000 "PreviousBitsDecodingFailed 0"]
  by (auto simp: example_block_def with_signature_def Let_def)

theorem mined_block_accepted_witness:
  "\<exists>nonce < 1. check_pow_consensus (\<lambda>_. 0) example_db example_config
    (example_header\<lparr>header_consensus_data := ConsensusPoW \<lparr>pow_bits = 0x03000005, pow_nonce = nonce\<rparr>\<rparr>)
    \<lparr>pow_bits = 0x03000005, pow_nonce = nonce\<rparr> (PoWThreshold 0x03000005) = Inr ()"
proof -
  have "mine (\<lambda>_. 0) (\<lambda>_. False) 1 0x03000005 example_header
    = (Inr MiningSuccess, example_header\<lparr>header_consensus_data := ConsensusPoW \<lparr>pow_bits = 0x03000005, pow_nonce = 0\<rparr>\<rparr>)"
    by (simp add: mine_def check_proof_of_work_def example_target example_hash Let_def)
  moreover have "get_gen_block_index example_db example_config (header_prev_block_id example_header)
    = Inr (Some (BlockIdx (example_block 12 11 2)))"
    by (simp add: get_gen_block_index_def example_header_def example_getter)
  ultimately show ?thesis
    using mined_block_accepted [of "\<lambda>_. 0" "\<lambda>_. False" 1 "0x03000005" example_header _ example_db example_config _ "PoWThreshold 0x03000005"]
    by (fastforce simp: calculate_work_required_def)
qed

end
