(* ===== verification/PoSTarget.thy ===== *)
theory PoSTarget
  imports ProofOfWork PoSAccounting
begin

text \<open>
  The numbers of proof of stake (\<open>consensus/src/pos\<close>): the effective balance of a pool, the target of a block
  and the comparison of a hash with both.
\<close>

section \<open>Errors\<close>

datatype effective_pool_balance_error =
    EffectiveBalanceArithmeticError
  | FinalSupplyZero
  | PoolBalanceGreaterThanSupply amount amount
  | PoolPledgeGreaterThanBalance amount amount
  | AdjustmentMustFitIntoAmount

datatype block_signature_error =
    BlockSignatureNotFound block_id
  | WrongOutputType block_id
  | WrongDestination block_id
  | BadSignature block_id

datatype vrf_error = VRFVerificationError | InputAttachError string | GenerateKeyError string

datatype pos_randomness_error =
    InvalidOutputTypeInStakeKernel block_id
  | VRFDataVerificationFailed vrf_error

datatype consensus_pos_error =
    PoSStorageError storage_result_error
  | PoSPropertyQueryError property_query_error
  | PoSChainstateError consensus_chainstate_error
  | StakeKernelHashTooHigh
  | NoEpochData
  | TimestampViolation block_timestamp block_timestamp
  | NoKernel
  | MissingKernelUtxo
  | KernelOutpointMustBeUtxo
  | MultipleKernels
  | BitsToTargetConversionFailed compact
  | PoSPrevBlockIndexNotFound block_id
  | PoSPoolBalanceNotFound pool_id
  | PoolDataNotFound pool_id
  | PoSAccountingError pos_error
  | RandomnessError pos_randomness_error
  | InvalidTarget compact
  | PoSDecodingBitsFailed compact
  | TargetConversionError uint_conversion_error
  | NotEnoughTimestampsToAverage
  | InvalidTargetBlockTime
  | TimestampOverflow
  | InvariantBrokenNotMonotonicBlockTime
  | EmptyTimespan
  | PoSNoInputDataProvided
  | PoWInputDataProvided
  | FailedReadingBlock block_id
  | FutureTimestampInThePast
  | FailedToFetchUtxo
  | BlockSignatureError block_signature_error
  | FailedToSignBlockHeader
  | FailedToSignKernel
  | PoSBlockTimeStrictOrderInvalid block_id
  | FiniteTotalSupplyIsRequired
  | UnsupportedConsensusVersion
  | EffectivePoolBalanceError effective_pool_balance_error
  | FailedToCalculateCappedBalance

section \<open>Rational numbers\<close>

record rational =
  numer :: u128
  denom :: u128

definition compare_words :: "'l::len word \<Rightarrow> 'l word \<Rightarrow> cmp_ordering" where
  "compare_words a b = (if a < b then Less else if a = b then Equal else Greater)"

text \<open>The products of the large numbers are options, and an absent product is the least.\<close>

definition compare_options :: "'l::len word option \<Rightarrow> 'l word option \<Rightarrow> cmp_ordering" where
  "compare_options a b = (case (a, b) of
      (None, None) \<Rightarrow> Equal | (None, Some _) \<Rightarrow> Less | (Some _, None) \<Rightarrow> Greater | (Some x, Some y) \<Rightarrow> compare_words x y)"

definition rational_cmp :: "rational \<Rightarrow> rational \<Rightarrow> cmp_ordering" where
  "rational_cmp self other =
    (if denom self = denom other then compare_words (numer self) (numer other)
     else if numer self = numer other then compare_words (denom other) (denom self)
     else compare_options (checked_mul (ucast (numer self) :: 512 word) (ucast (denom other)))
       (checked_mul (ucast (numer other)) (ucast (denom self))))"

section \<open>Effective balance\<close>

definition POOL_SATURATION_LEVEL :: rational where
  "POOL_SATURATION_LEVEL = \<lparr>numer = 1, denom = 1000\<rparr>"

definition DEFAULT_PLEDGE_INFLUENCE_PARAMETER :: rational where
  "DEFAULT_PLEDGE_INFLUENCE_PARAMETER = \<lparr>numer = 75375728, denom = 1000000000\<rparr>"

definition effective_pool_balance_impl ::
  "amount \<Rightarrow> amount \<Rightarrow> amount \<Rightarrow> rational \<Rightarrow> rational \<Rightarrow> effective_pool_balance_error fault + amount" where
  "effective_pool_balance_impl pledged pool_balance final_supply saturation a =
    (if \<not> final_supply > amount_ZERO then Inl (Err FinalSupplyZero)
     else if \<not> pool_balance < final_supply then Inl (Err (PoolBalanceGreaterThanSupply pool_balance final_supply))
     else if \<not> pledged \<le> pool_balance then Inl (Err (PoolPledgeGreaterThanBalance pledged pool_balance))
     else let arith = (\<lambda>x. ok_or (Err EffectiveBalanceArithmeticError) x) in
     res_bind (ok_or (Err EffectiveBalanceArithmeticError)
       (Option.bind (checked_mul (into_atoms final_supply) (numer saturation)) (\<lambda>v. checked_div v (denom saturation)))) (\<lambda>z128.
     let sigma128 = min (into_atoms pool_balance) z128; sigma = ucast sigma128 :: u256;
       s = ucast (min (into_atoms pledged) z128) :: u256; z = ucast z128 :: u256 in
     res_bind (arith (checked_mul z z)) (\<lambda>z_squared.
     res_bind (arith (Option.bind (checked_sub z sigma) (\<lambda>v. checked_mul v s))) (\<lambda>term1.
     res_bind (arith (Option.bind (checked_mul z sigma) (\<lambda>v. Option.bind (checked_sub v term1) (\<lambda>v. checked_mul v s)))) (\<lambda>term2.
     res_bind (arith (Option.bind (checked_mul sigma z_squared) (\<lambda>v. Option.bind (checked_sub v term2)
       (\<lambda>v. checked_mul v (ucast (numer a)))))) (\<lambda>adjustment_numerator.
     res_bind (ok_or (Err EffectiveBalanceArithmeticError) (checked_add (numer a) (denom a))) (\<lambda>an_ad.
     res_bind (arith (Option.bind (checked_div adjustment_numerator (ucast an_ad)) (\<lambda>v. checked_div v z_squared))) (\<lambda>adjustment.
     res_bind (if uint adjustment < 2 ^ 128 then Inr (ucast adjustment :: u128) else Inl (Err AdjustmentMustFitIntoAmount)) (\<lambda>adjustment.
     res_bind (ok_or (Err EffectiveBalanceArithmeticError) (checked_sub sigma128 adjustment)) (\<lambda>effective_balance.
     if effective_balance \<le> sigma128 then Inr (from_atoms effective_balance) else Inl Panic))))))))))"

definition effective_pool_balance :: "amount \<Rightarrow> amount \<Rightarrow> amount \<Rightarrow> effective_pool_balance_error fault + amount" where
  "effective_pool_balance pledged pool_balance final_supply =
    effective_pool_balance_impl pledged pool_balance final_supply POOL_SATURATION_LEVEL DEFAULT_PLEDGE_INFLUENCE_PARAMETER"

section \<open>Targets\<close>

definition calculate_average_block_time ::
  "chain_db \<Rightarrow> chain_config \<Rightarrow> pos_chain_config \<Rightarrow> block_index \<Rightarrow> consensus_pos_error fault + u64" where
  "calculate_average_block_time db cfg pos_config block_index =
    res_bind (expect (checked_ssub (of_nat (block_count_to_average_for_blocktime pos_config)) 1)) (\<lambda>distance.
    let start = (case block_height_sub_distance (index_height block_index) distance of Some h \<Rightarrow> h | None \<Rightarrow> 0) in
    if \<not> index_height block_index > start then Inl (Err EmptyTimespan)
    else res_bind (map_err (\<lambda>e. case e of Err q \<Rightarrow> Err (PoSChainstateError q) | Panic \<Rightarrow> Panic)
        (get_ancestor_from_block_index_handle db cfg block_index start)) (\<lambda>ancestor.
      res_bind (ok_or (Err InvariantBrokenNotMonotonicBlockTime)
        (checked_sub (header_timestamp (index_header block_index)) (gen_timestamp ancestor))) (\<lambda>timespan_difference.
      res_bind (expect (block_height_sub (index_height block_index) start)) (\<lambda>blocks.
      expect (checked_div timespan_difference blocks)))))"

definition pos_calculate_new_target ::
  "pos_chain_config \<Rightarrow> u256 \<Rightarrow> u64 \<Rightarrow> u64 \<Rightarrow> consensus_pos_error fault + compact" where
  "pos_calculate_new_target pos_config prev_target actual_block_time target_block_time =
    (let actual = (if actual_block_time = 0 then 1 else ucast actual_block_time) :: 512 word; prev = ucast prev_target :: 512 word in
     res_bind (expect (checked_mul prev actual)) (\<lambda>numerator.
     res_bind (expect (checked_div numerator (ucast target_block_time))) (\<lambda>new_target.
     res_bind (expect (checked_mul prev (ucast (per_thousand_value (difficulty_change_limit pos_config))))) (\<lambda>numerator.
     res_bind (expect (checked_div numerator 1000)) (\<lambda>change_limit.
     res_bind (expect (checked_sub prev change_limit)) (\<lambda>lower_limit.
     res_bind (expect (checked_add prev change_limit)) (\<lambda>upper_limit.
     let new_target = (if new_target < lower_limit then lower_limit else if new_target > upper_limit then upper_limit else new_target);
       new_target = (if uint new_target < 2 ^ 256 then ucast new_target else target_limit pos_config)
     in encode_target (min new_target (target_limit pos_config)))))))))"

definition calculate_target_required_internal ::
  "chain_db \<Rightarrow> chain_config \<Rightarrow> pos_chain_config \<Rightarrow> block_index \<Rightarrow> consensus_pos_error fault + compact" where
  "calculate_target_required_internal db cfg pos_config prev_block_index =
    res_bind (consensus_status (consensus_upgrades cfg) (index_height prev_block_index)) (\<lambda>status. case status of
      RequiredPoS (PoSThreshold (Some difficulty) _) \<Rightarrow> Inr difficulty
    | RequiredPoS _ \<Rightarrow> (case header_consensus_data (index_header prev_block_index) of
        ConsensusPoS data \<Rightarrow>
          res_bind (decode_target (PoSDecodingBitsFailed (compact_target data)) (compact_target data)) (\<lambda>prev_target.
          res_bind (calculate_average_block_time db cfg pos_config prev_block_index) (\<lambda>average_block_time.
          if target_block_spacing cfg = 0 then Inl (Err InvalidTargetBlockTime)
          else pos_calculate_new_target pos_config prev_target average_block_time (target_block_spacing cfg)))
      | _ \<Rightarrow> Inl Panic)
    | _ \<Rightarrow> Inl Panic)"

definition calculate_target_required_from_block_index ::
  "chain_db \<Rightarrow> chain_config \<Rightarrow> pos_status \<Rightarrow> gen_block_index \<Rightarrow> consensus_pos_error fault + compact" where
  "calculate_target_required_from_block_index db cfg pos_status prev_gen_block_index = (case pos_status of
      PoSThreshold (Some difficulty) _ \<Rightarrow> Inr difficulty
    | _ \<Rightarrow> (let pos_config = get_chain_config pos_status in
        case prev_gen_block_index of
          GenesisIdx _ \<Rightarrow> encode_target (target_limit pos_config)
        | BlockIdx block_index \<Rightarrow> calculate_target_required_internal db cfg pos_config block_index))"

definition calculate_target_required ::
  "chain_db \<Rightarrow> chain_config \<Rightarrow> pos_status \<Rightarrow> block_id \<Rightarrow> consensus_pos_error fault + compact" where
  "calculate_target_required db cfg pos_status prev_block_id = (case pos_status of
      PoSThreshold (Some difficulty) _ \<Rightarrow> Inr difficulty
    | _ \<Rightarrow> (let pos_config = get_chain_config pos_status in
        case classify cfg prev_block_id of
          GenesisId _ \<Rightarrow> encode_target (target_limit pos_config)
        | BlockId i \<Rightarrow>
            res_bind (map_err (Err \<circ> PoSPropertyQueryError \<circ> QueryStorageError) (db_block_index db i)) (\<lambda>prev.
            res_bind (ok_or (Err (PoSPrevBlockIndexNotFound i)) prev) (\<lambda>prev_block_index.
            calculate_target_required_internal db cfg pos_config prev_block_index))))"

section \<open>Hash check\<close>

definition check_pos_hash_v0 :: "u256 \<Rightarrow> u256 \<Rightarrow> amount \<Rightarrow> consensus_pos_error fault + unit" where
  "check_pos_hash_v0 hash target pool_balance =
    res_bind (expect (checked_mul (ucast (into_atoms pool_balance) :: 512 word) (ucast target))) (\<lambda>bound.
    if ucast hash \<le> bound then Inr () else Inl (Err StakeKernelHashTooHigh))"

definition check_pos_hash_v1 :: "u256 \<Rightarrow> u256 \<Rightarrow> amount \<Rightarrow> amount \<Rightarrow> amount \<Rightarrow> consensus_pos_error fault + unit" where
  "check_pos_hash_v1 hash target pledged pool_balance final_supply =
    res_bind (map_err (\<lambda>e. case e of Err b \<Rightarrow> Err (EffectivePoolBalanceError b) | Panic \<Rightarrow> Panic)
      (effective_pool_balance pledged pool_balance final_supply)) (\<lambda>effective_balance.
    res_bind (expect (checked_mul (ucast (into_atoms effective_balance) :: 512 word) (ucast target))) (\<lambda>bound.
    if ucast hash \<le> bound then Inr () else Inl (Err StakeKernelHashTooHigh)))"

definition check_pos_hash :: "u32 \<Rightarrow> u256 \<Rightarrow> u256 \<Rightarrow> amount \<Rightarrow> amount \<Rightarrow> amount \<Rightarrow> consensus_pos_error fault + unit" where
  "check_pos_hash version hash target pledged pool_balance final_supply =
    (if version = 0 then check_pos_hash_v0 hash target pool_balance
     else if version = 1 then check_pos_hash_v1 hash target pledged pool_balance final_supply
     else Inl (Err UnsupportedConsensusVersion))"

section \<open>The effective balance is exact\<close>

lemma checked_of_int:
  fixes x y :: int
  assumes "0 \<le> x" "x < 2 ^ LENGTH('l)" "0 \<le> y" "y < 2 ^ LENGTH('l)"
  shows "x * y < 2 ^ LENGTH('l) \<Longrightarrow> checked_mul (word_of_int x) (word_of_int y :: 'l::len word) = Some (word_of_int (x * y))"
    "x + y < 2 ^ LENGTH('l) \<Longrightarrow> checked_add (word_of_int x) (word_of_int y :: 'l::len word) = Some (word_of_int (x + y))"
    "y \<le> x \<Longrightarrow> checked_sub (word_of_int x) (word_of_int y :: 'l word) = Some (word_of_int (x - y))"
    "0 < y \<Longrightarrow> checked_div (word_of_int x) (word_of_int y :: 'l word) = Some (word_of_int (x div y))"
proof -
  note u = uint_word_of_int_small [where 'l = 'l] and r = assms
  show "checked_mul (word_of_int x) (word_of_int y :: 'l word) = Some (word_of_int (x * y))" if "x * y < 2 ^ LENGTH('l)"
    using that r by (simp only: checked_mul_Some u mult_nonneg_nonneg)
  show "checked_add (word_of_int x) (word_of_int y :: 'l word) = Some (word_of_int (x + y))" if "x + y < 2 ^ LENGTH('l)"
    using that r by (simp only: checked_add_Some u add_nonneg_nonneg)
  show "checked_sub (word_of_int x) (word_of_int y :: 'l word) = Some (word_of_int (x - y))" if "y \<le> x"
  proof -
    have "0 \<le> x - y" "x - y < 2 ^ LENGTH('l)" using that r by linarith+
    then show ?thesis using r by (simp only: checked_sub_Some u)
  qed
  show "checked_div (word_of_int x) (word_of_int y :: 'l word) = Some (word_of_int (x div y))" if "0 < y"
  proof -
    have "x div y \<le> x" using r that zdiv_mono2 [of x 1 y] by simp
    then have "x div y < 2 ^ LENGTH('l)" "0 \<le> x div y" using r that by (auto simp: pos_imp_zdiv_nonneg_iff)
    then show ?thesis using that r by (simp add: checked_div_Some u)
  qed
qed

text \<open>The formula, over integers: \<open>z\<close> is the saturation level, \<open>sigma\<close> and \<open>s\<close> are the capped balance and pledge.\<close>

definition balance_adjustment :: "int \<Rightarrow> int \<Rightarrow> int \<Rightarrow> int" where
  "balance_adjustment z sigma s = 75375728 * (sigma * z\<^sup>2 - s * (z * sigma - s * (z - sigma))) div (1075375728 * z\<^sup>2)"

lemma adjustment_terms:
  fixes z sigma s :: int
  assumes "0 < z" "0 \<le> s" "s \<le> sigma" "sigma \<le> z"
  shows "(z - sigma) * s \<le> z * sigma" "(z * sigma - (z - sigma) * s) * s \<le> sigma * (z * z)"
    "0 \<le> (z * sigma - (z - sigma) * s) * s" "0 \<le> (z - sigma) * s"
proof -
  show t: "0 \<le> (z - sigma) * s" using assms by simp
  have "(z - sigma) * s \<le> z * sigma" using assms by (intro mult_mono) auto
  then show a: "(z - sigma) * s \<le> z * sigma" .
  then show "0 \<le> (z * sigma - (z - sigma) * s) * s" using assms by simp
  have "(z * sigma - (z - sigma) * s) * s \<le> (z * sigma) * z" using a t assms by (intro mult_mono) auto
  then show "(z * sigma - (z - sigma) * s) * s \<le> sigma * (z * z)" by (simp add: ac_simps)
qed

lemma adjustment_bounds:
  assumes "0 < z" "0 \<le> s" "s \<le> sigma" "sigma \<le> z"
  shows "0 \<le> balance_adjustment z sigma s \<and> balance_adjustment z sigma s \<le> 75375728 * sigma div 1075375728"
proof -
  note t = adjustment_terms [OF assms]
  let ?n = "75375728 * (sigma * z\<^sup>2 - s * (z * sigma - s * (z - sigma)))"
  have n: "0 \<le> ?n" "?n \<le> 75375728 * sigma * z\<^sup>2" using t by (simp_all add: power2_eq_square mult.commute)
  have "balance_adjustment z sigma s \<le> 75375728 * sigma * z\<^sup>2 div (1075375728 * z\<^sup>2)"
    unfolding balance_adjustment_def using n(2) assms(1) by (intro zdiv_mono1) auto
  also have "\<dots> = 75375728 * sigma div 1075375728" using assms(1) by (simp add: div_mult_mult2)
  finally show ?thesis using n(1) assms(1) by (simp add: balance_adjustment_def pos_imp_zdiv_nonneg_iff)
qed

lemma effective_balance_eq:
  assumes "1000 \<le> amt coins" "amt coins < 2 ^ 85" "amt pledged \<le> amt balance" "amt balance < amt coins"
  defines "z \<equiv> amt coins div 1000" and "sigma \<equiv> min (amt balance) (amt coins div 1000)"
    and "s \<equiv> min (amt pledged) (amt coins div 1000)"
  shows "effective_pool_balance pledged balance coins
    = Inr (from_atoms (word_of_int (sigma - balance_adjustment z sigma s)))"
proof -
  have z: "0 < z" "z < 2 ^ 76" using assms(1,2) by (auto simp: z_def intro: int_div_less)
  have o: "0 \<le> s" "s \<le> sigma" "sigma \<le> z" "0 \<le> sigma"
    using assms(3) amt_range [of pledged] amt_range [of balance] z(1) by (auto simp: s_def sigma_def z_def)
  note t = adjustment_terms [OF z(1) o(1-3)]
  have zz: "0 \<le> z * z" "z * z < 2 ^ 152"
    using z mult_strict_mono [of z "2 ^ 76" z "2 ^ 76"] by auto
  have sz: "z * sigma \<le> z * z" "0 \<le> z * sigma" using o z by (auto intro: mult_left_mono)
  have szz: "sigma * (z * z) < 2 ^ 228" "0 \<le> sigma * (z * z)"
    using o z zz mult_strict_mono' [of sigma "2 ^ 76" "z * z" "2 ^ 152"] by auto
  let ?n = "sigma * (z * z) - (z * sigma - (z - sigma) * s) * s"
  have n: "0 \<le> ?n" "?n < 2 ^ 228" "?n * 75375728 < 2 ^ 256" using t szz by (auto simp: algebra_simps)
  have b: "balance_adjustment z sigma s = ?n * 75375728 div 1075375728 div (z * z)"
    unfolding balance_adjustment_def using zz(1)
    by (simp add: zdiv_zmult2_eq [symmetric] power2_eq_square ac_simps)
  have a: "0 \<le> balance_adjustment z sigma s" "balance_adjustment z sigma s \<le> sigma"
    using adjustment_bounds [OF z(1) o(1-3)] o by auto
  have z128: "z < 2 ^ 128" "sigma < 2 ^ 128" "s < 2 ^ 128" using z o by auto
  have atoms: "into_atoms x = word_of_int (amt x)" for x by (simp add: amt_def into_atoms_def)
  have m: "min (word_of_int x) (word_of_int y :: u128) = word_of_int (min x y)" if "0 \<le> x" "x < 2 ^ 128" "0 \<le> y" "y < 2 ^ 128" for x y
    using that by (simp add: min_def word_le_def uint_word_of_int_small)
  have r: "amt x < 2 ^ 128" "0 \<le> amt x" for x using amt_range [of x] by auto
  have s1: "Option.bind (checked_mul (into_atoms coins) 1) (\<lambda>v. checked_div v 1000) = Some (word_of_int z)"
    using checked_of_int(1) [of "amt coins" 1, where 'l = 128] checked_of_int(4) [of "amt coins" 1000, where 'l = 128] r
    by (simp add: atoms z_def)
  have s2: "min (into_atoms balance) (word_of_int z) = word_of_int sigma" "min (into_atoms pledged) (word_of_int z) = word_of_int s"
    using m [of "amt balance" z] m [of "amt pledged" z] r z z128 by (simp_all add: atoms sigma_def s_def z_def)
  have c: "ucast (word_of_int x :: u128) = (word_of_int x :: u256)" if "0 \<le> x" "x < 2 ^ 128" for x
    using that by (simp add: word_uint_eq_iff uint_up_ucast is_up uint_word_of_int_small)
  note w = checked_of_int [where 'l = 256]
  have b1: "(z - sigma) * s < 2 ^ 256" "z * sigma < 2 ^ 256" "z * sigma - (z - sigma) * s < 2 ^ 256"
    using t(1,4) sz zz by simp_all
  have f1: "checked_mul (word_of_int z) (word_of_int z :: u256) = Some (word_of_int (z * z))"
    by (rule w(1)) (use z zz in auto)
  have f2: "Option.bind (checked_sub (word_of_int z) (word_of_int sigma :: u256)) (\<lambda>v. checked_mul v (word_of_int s)) = Some (word_of_int ((z - sigma) * s))"
    using w(3) [of z sigma] w(1) [of "z - sigma" s] z o t(4) b1 by (simp del: of_int_mult of_int_diff)
  have f3: "Option.bind (checked_mul (word_of_int z) (word_of_int sigma :: u256)) (\<lambda>v. Option.bind (checked_sub v (word_of_int ((z - sigma) * s)))
      (\<lambda>v. checked_mul v (word_of_int s))) = Some (word_of_int ((z * sigma - (z - sigma) * s) * s))"
    using w(1) [of z sigma] w(3) [of "z * sigma" "(z - sigma) * s"] w(1) [of "z * sigma - (z - sigma) * s" s] z o t szz b1
    by (simp del: of_int_mult of_int_diff)
  have f4: "Option.bind (checked_mul (word_of_int sigma) (word_of_int (z * z) :: u256)) (\<lambda>v. Option.bind (checked_sub v (word_of_int ((z * sigma - (z - sigma) * s) * s)))
      (\<lambda>v. checked_mul v 75375728)) = Some (word_of_int (?n * 75375728))"
    using w(1) [of sigma "z * z"] w(3) [of "sigma * (z * z)" "(z * sigma - (z - sigma) * s) * s"] w(1) [of ?n 75375728] z o t sz zz szz n
    by (simp del: of_int_mult of_int_diff)
  have f5: "Option.bind (checked_div (word_of_int (?n * 75375728)) (1075375728 :: u256)) (\<lambda>v. checked_div v (word_of_int (z * z)))
      = Some (word_of_int (balance_adjustment z sigma s))"
  proof -
    have "0 \<le> ?n * 75375728 div 1075375728" "?n * 75375728 div 1075375728 < 2 ^ 256"
      using n int_div_less [of 1075375728 "?n * 75375728" "2 ^ 256"] by (auto simp: pos_imp_zdiv_nonneg_iff)
    then have d: "checked_div (word_of_int (?n * 75375728 div 1075375728)) (word_of_int (z * z) :: u256) = Some (word_of_int (balance_adjustment z sigma s))"
      unfolding b using z zz by (intro w(4)) auto
    have "checked_div (word_of_int (?n * 75375728)) (word_of_int 1075375728 :: u256) = Some (word_of_int (?n * 75375728 div 1075375728))"
      by (rule w(4)) (use n in auto)
    then show ?thesis using d by (simp only: of_int_numeral Option.bind.simps)
  qed
  have f6: "checked_sub (word_of_int sigma) (word_of_int (balance_adjustment z sigma s) :: u128) = Some (word_of_int (sigma - balance_adjustment z sigma s))"
    by (rule checked_of_int) (use a o z128 in auto)
  have p: "\<not> \<not> coins > amount_ZERO" "\<not> \<not> balance < coins" "\<not> \<not> pledged \<le> balance"
    using assms(1,3,4) by (auto simp: amount_le amount_less)
  have u: "uint (word_of_int (balance_adjustment z sigma s) :: u256) < 2 ^ 128"
    "ucast (word_of_int (balance_adjustment z sigma s) :: u256) = (word_of_int (balance_adjustment z sigma s) :: u128)"
    using a o z128 by (simp_all add: uint_word_of_int_small word_uint_eq_iff unsigned_ucast_eq take_bit_int_eq_self)
  have sb: "sigma \<le> amt balance" by (simp add: sigma_def)
  have g: "word_of_int (sigma - balance_adjustment z sigma s) \<le> into_atoms balance" "word_of_int (sigma - balance_adjustment z sigma s) \<le> (word_of_int z :: u128)"
    using a o z z128 r [of balance] sb by (simp_all add: atoms word_le_def uint_word_of_int_small del: of_int_diff)
  define N where "N = ?n * 75375728"
  have h: "checked_add 75375728 (1000000000 :: u128) = Some 1075375728" by (simp add: checked_add_def)
  show ?thesis
    unfolding effective_pool_balance_def effective_pool_balance_impl_def POOL_SATURATION_LEVEL_def DEFAULT_PLEDGE_INFLUENCE_PARAMETER_def
    using p s2 c [of z] c [of sigma] c [of s] z z128 o
    by (simp add: s1 f1 f2 f3 f4 [folded N_def] f5 [folded N_def] f6 u [simplified] g h Let_def del: of_int_mult of_int_diff)
qed

lemma amt_of_int: "0 \<le> x \<Longrightarrow> x < 2 ^ 128 \<Longrightarrow> amt (from_atoms (word_of_int x)) = x"
  by (simp add: amt_def from_atoms_def uint_word_of_int_small)

text \<open>
  C10: the effective balance of a pool. For a pledge that is at most the balance, a balance below the supply and a supply of
  at least 1000 and less than 2 to the 85 atoms, the computation never fails: it is the capped balance minus the
  rounded adjustment of the formula, at most one thousandth of the supply, and at least the capped
  balance divided by 1.075375728. The adjustment is the one that the code computes; for a pledge of zero it is not zero, unlike
  what a comment in the code says (lemma \<open>effective_balance_without_pledge\<close>).
\<close>

theorem effective_pool_balance_exact:
  assumes "1000 \<le> amt coins" "amt coins < 2 ^ 85" "amt pledged \<le> amt balance" "amt balance < amt coins"
  shows "\<exists>b. effective_pool_balance pledged balance coins = Inr b
    \<and> (let z = amt coins div 1000; sigma = min (amt balance) z in
        amt b = sigma - balance_adjustment z sigma (min (amt pledged) z) \<and> amt b \<le> sigma
        \<and> 1000000000 * sigma \<le> 1075375728 * amt b)"
proof -
  let ?z = "amt coins div 1000"
  let ?sigma = "min (amt balance) ?z" and ?s = "min (amt pledged) ?z"
  let ?a = "balance_adjustment ?z ?sigma ?s"
  have z: "0 < ?z" using assms(1) by simp
  have o: "0 \<le> ?s" "?s \<le> ?sigma" "?sigma \<le> ?z" "?sigma < 2 ^ 128"
    using assms(3) amt_range [of pledged] amt_range [of balance] z by (auto simp: min_less_iff_disj)
  have a: "0 \<le> ?a" "?a \<le> 75375728 * ?sigma div 1075375728" using adjustment_bounds [OF z o(1-3)] by auto
  then have f: "1075375728 * ?a \<le> 75375728 * ?sigma" by linarith
  have le: "?a \<le> ?sigma" using a o(1,2) by linarith
  have e: "amt (from_atoms (word_of_int (?sigma - ?a))) = ?sigma - ?a"
    using a(1) o(4) le by (intro amt_of_int) linarith+
  show ?thesis unfolding Let_def
    by (intro exI conjI, rule effective_balance_eq [OF assms]) (use e f a(1) in linarith)+
qed

text \<open>A pool without pledge loses the full adjustment: its effective balance is below its capped balance.\<close>

lemma effective_balance_without_pledge:
  assumes "1000 \<le> amt coins" "amt coins < 2 ^ 85" "amt balance < amt coins"
  shows "\<exists>b. effective_pool_balance amount_ZERO balance coins = Inr b
    \<and> (let sigma = min (amt balance) (amt coins div 1000) in amt b = sigma - 75375728 * sigma div 1075375728)"
proof -
  define z sigma where "z = amt coins div 1000" and "sigma = min (amt balance) z"
  have z: "0 < z" "0 \<le> sigma" "sigma < 2 ^ 128" using assms(1) amt_range [of balance] by (auto simp: z_def sigma_def min_less_iff_disj)
  have "balance_adjustment z sigma 0 = 75375728 * sigma * z\<^sup>2 div (1075375728 * z\<^sup>2)"
    by (simp add: balance_adjustment_def)
  also have "\<dots> = 75375728 * sigma div 1075375728" using z by (intro div_mult_mult2) simp
  finally have b: "balance_adjustment z sigma 0 = 75375728 * sigma div 1075375728" .
  have m: "min (amt amount_ZERO) z = 0" using z by simp
  have "amt amount_ZERO \<le> amt balance" using amt_range [of balance] by simp
  then have "effective_pool_balance amount_ZERO balance coins = Inr (from_atoms (word_of_int (sigma - 75375728 * sigma div 1075375728)))"
    using effective_balance_eq [OF assms(1,2) _ assms(3), of amount_ZERO, folded z_def, folded sigma_def, unfolded m b] by blast
  moreover have "amt (from_atoms (word_of_int (sigma - 75375728 * sigma div 1075375728))) = sigma - 75375728 * sigma div 1075375728"
    using z by (intro amt_of_int) linarith+
  ultimately show ?thesis unfolding z_def [symmetric] sigma_def [symmetric] Let_def by blast
qed

section \<open>The target stays within its limits\<close>

definition ideal_pos_target :: "int \<Rightarrow> int \<Rightarrow> int \<Rightarrow> int \<Rightarrow> int \<Rightarrow> int" where
  "ideal_pos_target limit per_mille prev elapsed spacing =
    min limit (max (prev - prev * per_mille div 1000) (min (prev + prev * per_mille div 1000) (prev * max 1 elapsed div spacing)))"

lemma pos_new_target:
  assumes "per_thousand_value (difficulty_change_limit pos_config) \<le> 1000" "0 < spacing"
  shows "\<exists>t :: u256. uint t = ideal_pos_target (uint (target_limit pos_config))
      (uint (per_thousand_value (difficulty_change_limit pos_config))) (uint prev) (uint elapsed) (uint spacing)
    \<and> pos_calculate_new_target pos_config prev elapsed spacing = encode_target t"
proof -
  define P A S C where "P = uint prev" and "A = max 1 (uint elapsed)" and "S = uint spacing"
    and "C = uint (per_thousand_value (difficulty_change_limit pos_config))"
  have r: "0 \<le> P" "P < 2 ^ 256" "1 \<le> A" "A < 2 ^ 64" "0 < S" "S < 2 ^ 64" "0 \<le> C" "C \<le> 1000"
    using assms uint_range [of prev] uint_range [of elapsed] uint_range [of spacing]
    by (auto simp: P_def A_def S_def C_def word_less_def word_le_def)
  have u: "ucast prev = (word_of_int P :: 512 word)" "ucast spacing = (word_of_int S :: 512 word)"
    "ucast (per_thousand_value (difficulty_change_limit pos_config)) = (word_of_int C :: 512 word)"
    unfolding P_def S_def C_def by (rule ucast_eq)+
  have e: "(if elapsed = 0 then 1 else ucast elapsed) = (word_of_int A :: 512 word)"
  proof (cases "elapsed = 0")
    case False
    then have "1 \<le> uint elapsed" using uint_0_iff [of elapsed] uint_ge_0 [of elapsed] by linarith
    then have "A = uint elapsed" by (simp add: A_def)
    then show ?thesis using False by simp
  qed (simp add: A_def)
  have "P * A < 2 ^ 256 * 2 ^ 64" using r by (intro mult_strict_mono') auto
  then have pa: "0 \<le> P * A" "P * A < 2 ^ 512" using r by auto
  have pc: "0 \<le> P * C" "P * C < 2 ^ 512" "P * C div 1000 \<le> P" "0 \<le> P * C div 1000"
  proof -
    have "P * C \<le> P * 1000" using r by (intro mult_left_mono) auto
    then show "P * C < 2 ^ 512" "P * C div 1000 \<le> P" using r zdiv_mono1 [of "P * C" "P * 1000" 1000] by auto
    show "0 \<le> P * C" using r by simp
    then show "0 \<le> P * C div 1000" by simp
  qed
  define N where "N = P * A div S"
  have N: "0 \<le> N" "N < 2 ^ 512"
    using pa r int_div_less [of S "P * A" "2 ^ 512"] zdiv_mono2 [of "P * A" 1 S] by (auto simp: N_def pos_imp_zdiv_nonneg_iff)
  define D where "D = P * C div 1000"
  note w = checked_of_int [where 'l = 512]
  have f1: "checked_mul (word_of_int P) (word_of_int A :: 512 word) = Some (word_of_int (P * A))" by (rule w(1)) (use r pa in auto)
  have f2: "checked_div (word_of_int (P * A)) (word_of_int S :: 512 word) = Some (word_of_int N)" unfolding N_def by (rule w(4)) (use r pa in auto)
  have f3: "checked_mul (word_of_int P) (word_of_int C :: 512 word) = Some (word_of_int (P * C))" by (rule w(1)) (use r pc in auto)
  have f4: "checked_div (word_of_int (P * C)) (1000 :: 512 word) = Some (word_of_int D)"
    unfolding D_def using w(4) [of "P * C" 1000] pc by (simp del: of_int_mult)
  have f5: "checked_sub (word_of_int P) (word_of_int D :: 512 word) = Some (word_of_int (P - D))" by (rule w(3)) (use r pc in \<open>auto simp: D_def\<close>)
  have f6: "checked_add (word_of_int P) (word_of_int D :: 512 word) = Some (word_of_int (P + D))" by (rule w(2)) (use r pc in \<open>auto simp: D_def\<close>)
  define M where "M = max (P - D) (min (P + D) N)"
  have D: "0 \<le> D" "D \<le> P" using pc by (auto simp: D_def)
  have M: "0 \<le> M" "M < 2 ^ 512" using N D r by (auto simp: M_def)
  have c: "(if word_of_int N < (word_of_int (P - D) :: 512 word) then word_of_int (P - D)
      else if word_of_int N > (word_of_int (P + D) :: 512 word) then word_of_int (P + D) else word_of_int N) = (word_of_int M :: 512 word)"
    using N D r by (auto simp: M_def word_less_def uint_word_of_int_small max_def min_def simp del: of_int_add of_int_diff)
  let ?t = "min (if uint (word_of_int M :: 512 word) < 2 ^ 256 then ucast (word_of_int M :: 512 word) else target_limit pos_config) (target_limit pos_config)"
  have um: "uint (min a b) = min (uint a) (uint b)" for a b :: u256 by (simp add: min_def word_le_def)
  have "uint ?t = min (uint (target_limit pos_config)) M"
  proof (cases "M < 2 ^ 256")
    case True
    then have "uint (ucast (word_of_int M :: 512 word) :: u256) = M"
      using M by (simp add: unsigned_ucast_eq uint_word_of_int_small take_bit_int_eq_self)
    then show ?thesis using True M by (simp add: uint_word_of_int_small um min.commute)
  next
    case False
    then show ?thesis using M uint_range [of "target_limit pos_config"] by (simp add: uint_word_of_int_small)
  qed
  moreover have "pos_calculate_new_target pos_config prev elapsed spacing = encode_target ?t"
    unfolding pos_calculate_new_target_def Let_def u e by (simp only: f1 f2 f3 f4 f5 f6 c expect_simps res_intro_simps)
  ultimately show ?thesis unfolding ideal_pos_target_def M_def N_def D_def P_def A_def S_def C_def by blast
qed

text \<open>
  C11: retargeting of proof of stake. For a change limit of at most one and a positive block spacing the new target is always computed: it
  is the previous target scaled by the average block time, kept within the change limit around the previous target
  and below the limit of the chain, and the compact form rounds it down by at most one part in 32768.
\<close>

theorem pos_retarget_bounded:
  assumes "per_thousand_value (difficulty_change_limit pos_config) \<le> 1000" "0 < spacing"
  shows "\<exists>c t. pos_calculate_new_target pos_config prev elapsed spacing = Inr c \<and> decode_target e c = Inr t
    \<and> (let ideal = ideal_pos_target (uint (target_limit pos_config)) (uint (per_thousand_value (difficulty_change_limit pos_config)))
          (uint prev) (uint elapsed) (uint spacing)
       in uint t \<le> ideal \<and> ideal - uint t \<le> ideal div 2 ^ 15) \<and> uint t \<le> uint (target_limit pos_config)"
proof -
  obtain t where t: "uint t = ideal_pos_target (uint (target_limit pos_config))
      (uint (per_thousand_value (difficulty_change_limit pos_config))) (uint prev) (uint elapsed) (uint spacing)"
    "pos_calculate_new_target pos_config prev elapsed spacing = encode_target t"
    using pos_new_target [OF assms] by blast
  have "uint t \<le> uint (target_limit pos_config)" unfolding t(1) ideal_pos_target_def by (rule min.cobounded1)
  then show ?thesis using encode_decode [of t e] t by (fastforce simp: Let_def)
qed

section \<open>Comparing rational numbers\<close>

text \<open>The shortcut for equal numerators orders two representations of zero, which the cross product equates.\<close>

lemma rational_cmp_zero:
  "rational_cmp \<lparr>numer = 0, denom = 2\<rparr> \<lparr>numer = 0, denom = 5\<rparr> = Greater"
  "checked_mul (ucast (0 :: u128) :: 512 word) 5 = checked_mul (ucast (0 :: u128)) 2"
  by (simp_all add: rational_cmp_def compare_words_def checked_mul_def)

section \<open>Examples\<close>

definition example_pos_config :: pos_chain_config where
  "example_pos_config = \<lparr>target_limit = - 1, pos_spend_maturity_block_count = 20, block_count_to_average_for_blocktime = 100,
    difficulty_change_limit = PerThousand 500, consensus_version = 1\<rparr>"

theorem pos_retarget_bounded_witness:
  "\<exists>c t. pos_calculate_new_target example_pos_config 1000 240 120 = Inr c \<and> decode_target (BitsToTargetConversionFailed 0) c = Inr t \<and> uint t \<le> 1500"
  using pos_retarget_bounded [of example_pos_config 120 1000 240 "BitsToTargetConversionFailed 0"]
  by (auto simp: example_pos_config_def ideal_pos_target_def Let_def)

theorem effective_pool_balance_exact_witness:
  "\<exists>b. effective_pool_balance (from_atoms 40000) (from_atoms 100000) (from_atoms 600000000) = Inr b \<and> amt b \<le> 100000"
  using effective_pool_balance_exact [of "from_atoms 600000000" "from_atoms 40000" "from_atoms 100000"]
  by (auto simp: amt_def from_atoms_def Let_def)

end
