(* ===== verification/Consensus.thy ===== *)
theory Consensus
  imports PoSTarget UtxoCache
begin

text \<open>
  The verification of blocks by consensus (\<open>consensus/src/pos\<close>, \<open>consensus/src/validator.rs\<close>), and the search for a
  time slot of a staker. Hashes, signatures and verifiable random functions are a parameter.
\<close>

section \<open>Cryptography\<close>

text \<open>The data that a verifiable random function signs.\<close>

record vrf_transcript =
  transcript_randomness :: h256
  transcript_slot :: block_timestamp
  transcript_epoch :: epoch_index

record crypto =
  header_id :: "block_header \<Rightarrow> block_id"
  verify_message :: "public_key \<Rightarrow> bytes \<Rightarrow> block_header \<Rightarrow> bool"
  verify_vrf_data :: "vrf_public_key \<Rightarrow> vrf_transcript \<Rightarrow> bytes \<Rightarrow> vrf_error + unit"
  calculate_vrf_output :: "bytes \<Rightarrow> vrf_public_key \<Rightarrow> vrf_transcript \<Rightarrow> vrf_error + h256"

definition construct_transcript :: "epoch_index \<Rightarrow> h256 \<Rightarrow> block_timestamp \<Rightarrow> vrf_transcript" where
  "construct_transcript epoch_index random_seed block_timestamp =
    \<lparr>transcript_randomness = random_seed, transcript_slot = block_timestamp, transcript_epoch = epoch_index\<rparr>"

definition verify_vrf_and_get_vrf_output ::
  "crypto \<Rightarrow> epoch_index \<Rightarrow> h256 \<Rightarrow> bytes \<Rightarrow> vrf_public_key \<Rightarrow> block_timestamp \<Rightarrow> vrf_error + h256" where
  "verify_vrf_and_get_vrf_output c epoch_index random_seed vrf vrf_key block_timestamp =
    (let transcript = construct_transcript epoch_index random_seed block_timestamp in
     res_bind (verify_vrf_data c vrf_key transcript vrf) (\<lambda>_.
     calculate_vrf_output c vrf vrf_key transcript))"

definition calc_and_check_pos_hash ::
  "crypto \<Rightarrow> u32 \<Rightarrow> epoch_index \<Rightarrow> h256 \<Rightarrow> u256 \<Rightarrow> bytes \<Rightarrow> vrf_public_key \<Rightarrow> block_timestamp \<Rightarrow> amount \<Rightarrow> amount \<Rightarrow> amount
    \<Rightarrow> consensus_pos_error fault + unit" where
  "calc_and_check_pos_hash c version epoch_index random_seed target vrf vrf_pub_key block_timestamp pledged pool_balance final_supply =
    res_bind (map_err (Err \<circ> RandomnessError \<circ> VRFDataVerificationFailed)
      (verify_vrf_and_get_vrf_output c epoch_index random_seed vrf vrf_pub_key block_timestamp)) (\<lambda>hash.
    check_pos_hash version (uint256_from_h256 hash) target pledged pool_balance final_supply)"

section \<open>Kernel and signature\<close>

definition get_kernel_output :: "tx_input list \<Rightarrow> 'u utxos_view \<Rightarrow> consensus_pos_error fault + tx_output" where
  "get_kernel_output ins utxos = (case ins of
      [] \<Rightarrow> Inl (Err NoKernel)
    | [kernel_input] \<Rightarrow>
        res_bind (ok_or (Err KernelOutpointMustBeUtxo) (utxo_outpoint_of kernel_input)) (\<lambda>outpoint.
        res_bind (map_err (\<lambda>_. Err FailedToFetchUtxo) (uv_utxo utxos outpoint)) (\<lambda>u.
        map_ok utxo_output (ok_or (Err MissingKernelUtxo) u)))
    | _ \<Rightarrow> Inl (Err MultipleKernels))"

definition get_staking_kernel_destination :: "block_id \<Rightarrow> tx_output \<Rightarrow> block_signature_error + public_key" where
  "get_staking_kernel_destination header out =
    res_bind (case out of
        CreateStakePool _ stake_pool \<Rightarrow> Inr (staker stake_pool)
      | ProduceBlockFromStake dest _ \<Rightarrow> Inr dest
      | _ \<Rightarrow> Inl (WrongOutputType header)) (\<lambda>dest. case dest of
        PublicKey pk \<Rightarrow> Inr pk
      | _ \<Rightarrow> Inl (WrongDestination header))"

definition check_block_signature :: "crypto \<Rightarrow> signed_block_header \<Rightarrow> tx_output \<Rightarrow> block_signature_error + unit" where
  "check_block_signature c header kernel_output =
    (let i = header_id c (signed_header header) in
     res_bind (get_staking_kernel_destination i kernel_output) (\<lambda>public_key. case signature_data header of
         NoSignature \<Rightarrow> Inl (BlockSignatureNotFound i)
       | HeaderSignature sig_data \<Rightarrow>
           if \<not> verify_message c public_key sig_data (signed_header header) then Inl (BadSignature i) else Inr ()))"

section \<open>Proof of stake\<close>

text \<open>The randomness that the storage keeps for an epoch.\<close>

type_synonym epoch_storage = "epoch_index \<Rightarrow> storage_result_error + h256 option"

definition randomness_of_sealed_epoch :: "chain_config \<Rightarrow> block_height \<Rightarrow> epoch_storage \<Rightarrow> consensus_pos_error fault + h256" where
  "randomness_of_sealed_epoch cfg current_height epochs =
    res_bind (sealed_epoch_index cfg current_height) (\<lambda>sealed. case sealed of
      None \<Rightarrow> Inr (initial_randomness cfg)
    | Some i \<Rightarrow> map_ok (\<lambda>d. case d of Some r \<Rightarrow> r | None \<Rightarrow> initial_randomness cfg) (map_err (Err \<circ> PoSStorageError) (epochs i)))"

definition enforce_timestamp_ordering :: "crypto \<Rightarrow> gen_block_index \<Rightarrow> signed_block_header \<Rightarrow> consensus_pos_error fault + unit" where
  "enforce_timestamp_ordering c prev_block_index header =
    (if header_timestamp (signed_header header) > gen_timestamp prev_block_index then Inr ()
     else Inl (Err (PoSBlockTimeStrictOrderInvalid (header_id c (signed_header header)))))"

definition check_proof_of_stake ::
  "crypto \<Rightarrow> chain_db \<Rightarrow> epoch_storage \<Rightarrow> 'u utxos_view \<Rightarrow> pos_error pos_view \<Rightarrow> chain_config \<Rightarrow> pos_status \<Rightarrow> signed_block_header \<Rightarrow> pos_data
    \<Rightarrow> consensus_pos_error fault + unit" where
  "check_proof_of_stake c db epochs utxos pos cfg pos_status header data =
    (let hdr = signed_header header; prev_id = header_prev_block_id hdr in
     res_bind (calculate_target_required db cfg pos_status prev_id) (\<lambda>target.
     if target \<noteq> compact_target data then Inl (Err (InvalidTarget (compact_target data)))
     else res_bind (map_err (\<lambda>e. case e of Err q \<Rightarrow> Err (PoSPropertyQueryError q) | Panic \<Rightarrow> Panic) (get_gen_block_index db cfg prev_id)) (\<lambda>prev.
     res_bind (ok_or (Err (PoSPrevBlockIndexNotFound (header_id c hdr))) prev) (\<lambda>prev_block_index.
     res_bind (enforce_timestamp_ordering c prev_block_index header) (\<lambda>_.
     res_bind (next_height (gen_height prev_block_index)) (\<lambda>current_height.
     res_bind (randomness_of_sealed_epoch cfg current_height epochs) (\<lambda>random_seed.
     let current_epoch_index = epoch_index_from_height cfg current_height in
     res_bind (get_kernel_output (kernel_inputs data) utxos) (\<lambda>kernel_output.
     res_bind (map_err (Err \<circ> BlockSignatureError) (check_block_signature c header kernel_output)) (\<lambda>_.
     res_bind (case kernel_output of
         CreateStakePool _ d \<Rightarrow> Inr (stake_vrf_public_key d)
       | ProduceBlockFromStake _ pool_id \<Rightarrow>
           res_bind (map_err (Err \<circ> PoSAccountingError) (get_pool_data pos pool_id)) (\<lambda>pool.
           map_ok vrf_public_key (ok_or (Err (PoolDataNotFound pool_id)) pool))
       | _ \<Rightarrow> Inl (Err (RandomnessError (InvalidOutputTypeInStakeKernel (header_id c hdr))))) (\<lambda>vrf_pub_key.
     res_bind (map_err (Err \<circ> PoSAccountingError) (get_pool_balance pos (stake_pool_id data))) (\<lambda>balance.
     res_bind (map_err (Err \<circ> PoSAccountingError) (get_pool_data pos (stake_pool_id data))) (\<lambda>pool.
     res_bind (ok_or (Err (PoolDataNotFound (stake_pool_id data))) pool) (\<lambda>staking_pool.
     res_bind (map_err (Err \<circ> PoSAccountingError) (staker_balance staking_pool)) (\<lambda>staker_bal.
     res_bind (ok_or (Err FiniteTotalSupplyIsRequired) (config_final_supply cfg)) (\<lambda>final_supply.
     res_bind (decode_target (BitsToTargetConversionFailed (compact_target data)) (compact_target data)) (\<lambda>target.
     calc_and_check_pos_hash c (consensus_version (get_chain_config pos_status)) current_epoch_index random_seed target (vrf_data data)
       vrf_pub_key (header_timestamp hdr) staker_bal balance final_supply))))))))))))))))"

section \<open>Staking\<close>

text \<open>
  The search over the time slots from the first one; \<open>produce\<close> is the function of the private key and \<open>pub\<close> its public key.
  The code also hands a source of random numbers to the signing; the model takes the proof as a function of the signed data, so a run of
  the model is a run of the code with a fixed source.
  The slots left are counted down.
\<close>

fun find_slot ::
  "crypto \<Rightarrow> (vrf_transcript \<Rightarrow> bytes) \<Rightarrow> vrf_public_key \<Rightarrow> u32 \<Rightarrow> epoch_index \<Rightarrow> h256 \<Rightarrow> u256 \<Rightarrow> amount \<Rightarrow> amount \<Rightarrow> amount \<Rightarrow> nat \<Rightarrow> block_timestamp
    \<Rightarrow> consensus_pos_error fault + (block_timestamp \<times> bytes) option" where
  "find_slot c produce pub version epoch seed target pledged balance final_supply 0 timestamp = Inr None"
| "find_slot c produce pub version epoch seed target pledged balance final_supply (Suc n) timestamp =
    (let vrf = produce (construct_transcript epoch seed timestamp) in
     case calc_and_check_pos_hash c version epoch seed target vrf pub timestamp pledged balance final_supply of
       Inr _ \<Rightarrow> Inr (Some (timestamp, vrf))
     | Inl Panic \<Rightarrow> Inl Panic
     | Inl (Err _) \<Rightarrow> find_slot c produce pub version epoch seed target pledged balance final_supply n (timestamp + 1))"

definition find_timestamp_for_staking ::
  "crypto \<Rightarrow> (vrf_transcript \<Rightarrow> bytes) \<Rightarrow> vrf_public_key \<Rightarrow> amount \<Rightarrow> pos_chain_config \<Rightarrow> compact \<Rightarrow> block_timestamp \<Rightarrow> block_timestamp
    \<Rightarrow> h256 \<Rightarrow> epoch_index \<Rightarrow> amount \<Rightarrow> amount \<Rightarrow> consensus_pos_error fault + (block_timestamp \<times> bytes) option" where
  "find_timestamp_for_staking c produce pub final_supply pos_config target first_timestamp max_timestamp seed epoch pledged balance =
    res_bind (decode_target (BitsToTargetConversionFailed target) target) (\<lambda>target.
    if \<not> first_timestamp \<le> max_timestamp then Inl (Err FutureTimestampInThePast)
    else find_slot c produce pub (consensus_version pos_config) epoch seed target pledged balance final_supply
      (Suc (unat (max_timestamp - first_timestamp))) first_timestamp)"

datatype stake_result = StakeSuccess | StakeFailed | StakeStopped

text \<open>Staking changes the header and the time stamp of the caller.\<close>

definition stake ::
  "crypto \<Rightarrow> (vrf_transcript \<Rightarrow> bytes) \<Rightarrow> vrf_public_key \<Rightarrow> chain_config \<Rightarrow> pos_chain_config \<Rightarrow> pos_data \<Rightarrow> block_timestamp \<Rightarrow> h256 \<Rightarrow> epoch_index \<Rightarrow> amount \<Rightarrow> amount
    \<Rightarrow> (block_header \<times> block_timestamp, consensus_pos_error fault, stake_result) op" where
  "stake c produce pub cfg pos_config data max_block_timestamp seed epoch pledged balance = (\<lambda>(header, timestamp).
    case res_bind (ok_or (Err FiniteTotalSupplyIsRequired) (config_final_supply cfg)) (\<lambda>final_supply.
      find_timestamp_for_staking c produce pub final_supply pos_config (compact_target data) timestamp max_block_timestamp seed epoch pledged balance) of
      Inl e \<Rightarrow> (Inl e, header, timestamp)
    | Inr (Some (found, vrf)) \<Rightarrow>
        (Inr StakeSuccess, header\<lparr>header_consensus_data := ConsensusPoS (data\<lparr>vrf_data := vrf\<rparr>), header_timestamp := found\<rparr>, found)
    | Inr None \<Rightarrow> (Inr StakeFailed, header, max_block_timestamp))"

section \<open>Validation\<close>

datatype consensus_verification_error =
    PrevBlockLoadError block_id block_id property_query_error
  | PrevBlockNotFound block_id block_id
  | ConsensusTypeMismatch string
  | PoWError consensus_pow_error
  | PoSError consensus_pos_error
  | UnsupportedConsensusType

definition validate_consensus ::
  "crypto \<Rightarrow> chain_db \<Rightarrow> epoch_storage \<Rightarrow> 'u utxos_view \<Rightarrow> pos_error pos_view \<Rightarrow> chain_config \<Rightarrow> signed_block_header
    \<Rightarrow> consensus_verification_error fault + unit" where
  "validate_consensus c db epochs utxos pos cfg header =
    (let hdr = signed_header header; prev_block_id = header_prev_block_id hdr; i = header_id c hdr in
     res_bind (map_err (\<lambda>e. case e of Err q \<Rightarrow> Err (PrevBlockLoadError prev_block_id i q) | Panic \<Rightarrow> Panic)
       (get_gen_block_index db cfg prev_block_id)) (\<lambda>prev.
     res_bind (ok_or (Err (PrevBlockNotFound prev_block_id i)) prev) (\<lambda>prev_block_index.
     res_bind (next_height (gen_height prev_block_index)) (\<lambda>block_height.
     res_bind (consensus_status (consensus_upgrades cfg) block_height) (\<lambda>status. case status of
         RequiredPoW pow_status \<Rightarrow> (case header_consensus_data hdr of
             ConsensusPoW data \<Rightarrow> map_err (\<lambda>e. case e of Err q \<Rightarrow> Err (PoWError q) | Panic \<Rightarrow> Panic)
               (check_pow_consensus (header_id c) db cfg hdr data pow_status)
           | _ \<Rightarrow> Inl (Err (ConsensusTypeMismatch ''Chain configuration says we are PoW but block consensus data is not PoW.'')))
       | RequiredIgnoreConsensus \<Rightarrow> (case header_consensus_data hdr of
             ConsensusNone \<Rightarrow> Inr ()
           | _ \<Rightarrow> Inl (Err (ConsensusTypeMismatch
               ''Chain configuration says consensus should be empty but block consensus data is not `None`.'')))
       | RequiredPoS pos_status \<Rightarrow> (case header_consensus_data hdr of
             ConsensusPoS data \<Rightarrow> map_err (\<lambda>e. case e of Err q \<Rightarrow> Err (PoSError q) | Panic \<Rightarrow> Panic)
               (check_proof_of_stake c db epochs utxos pos cfg pos_status header data)
           | _ \<Rightarrow> Inl (Err (ConsensusTypeMismatch ''Chain configuration says we are PoS but block consensus data is not PoS.''))))))))"

section \<open>Accepted blocks\<close>

lemma effective_balance_le:
  assumes "effective_pool_balance pledged balance coins = Inr b"
  shows "amt b \<le> amt balance \<and> amt b \<le> amt coins div 1000"
proof -
  obtain z where z: "Option.bind (checked_mul (into_atoms coins) 1) (\<lambda>v. checked_div v 1000) = Some z"
    "into_atoms b \<le> min (into_atoms balance) z"
    using assms
    by (auto simp: effective_pool_balance_def effective_pool_balance_impl_def POOL_SATURATION_LEVEL_def Let_def res_simps from_atoms_def
        into_atoms_def simp del: Option.bind_eq_Some_conv split: if_splits)
  have "uint z = uint (into_atoms coins) div 1000" using z(1) by (auto simp: bind_eq_Some_conv checked_simps)
  moreover have "into_atoms b \<le> into_atoms balance" "into_atoms b \<le> z" using z(2) by simp_all
  ultimately show ?thesis by (simp add: amt_def into_atoms_def word_le_def)
qed

text \<open>
  The weight of a pool: its balance in version 0, and in version 1 its effective balance, computed from the balance of the
  staker, the balance of the pool and the final supply.
\<close>

definition hash_weight :: "u32 \<Rightarrow> amount \<Rightarrow> amount \<Rightarrow> amount \<Rightarrow> int \<Rightarrow> bool" where
  "hash_weight version pledged balance coins weight \<longleftrightarrow>
    version = 0 \<and> weight = amt balance
    \<or> version = 1 \<and> (\<exists>b. effective_pool_balance pledged balance coins = Inr b \<and> weight = amt b)"

lemma hash_weight_le:
  assumes "hash_weight version pledged balance coins weight"
  shows "weight \<le> amt balance \<and> (version = 1 \<longrightarrow> weight \<le> amt coins div 1000)"
  using assms effective_balance_le by (auto simp: hash_weight_def)

lemma weighted_target:
  "checked_mul (ucast (into_atoms b)) (ucast (target :: u256)) = Some (bound :: 512 word) \<longleftrightarrow> uint bound = amt b * uint target"
  by (simp add: checked_simps uint_up_ucast is_up amt_def into_atoms_def)

lemma check_pos_hash_Inr:
  "check_pos_hash version hash target pledged balance coins = Inr () \<longleftrightarrow>
    (\<exists>weight. hash_weight version pledged balance coins weight \<and> uint hash \<le> weight * uint target)"
proof -
  have u: "(\<exists>bound. checked_mul (ucast (into_atoms b)) (ucast target) = Some (bound :: 512 word) \<and> ucast hash \<le> bound)
      \<longleftrightarrow> uint hash \<le> amt b * uint target" for b
  proof -
    define x where "x = amt b * uint target"
    have "x < 2 ^ 128 * 2 ^ 256" "0 \<le> x"
      unfolding x_def using amt_range [of b] uint_range [of target] by (intro mult_strict_mono; simp) simp
    then have "\<exists>bound :: 512 word. uint bound = x" by (intro exI [of _ "word_of_int x"]) (simp add: uint_word_of_int_small)
    then show ?thesis unfolding weighted_target x_def by (auto simp: word_le_def uint_up_ucast is_up)
  qed
  show ?thesis
    by (auto simp: check_pos_hash_def check_pos_hash_v0_def check_pos_hash_v1_def res_simps hash_weight_def u [symmetric] split: if_splits)
qed

text \<open>
  What an accepted block satisfies, given the index of its parent. For proof of work, the bits are the ones required and the
  hash of the header is at most their target. For proof of stake, the time is later than that of the parent and the target is
  the one required; the single kernel input is an unspent output, and the header is signed by its staker; the random value is verified
  with the key of the pool of the kernel, over the time of the header, the epoch of the height and the randomness of the sealed
  epoch; and it is at most the target times the weight of the pool named in the header.
\<close>

definition pow_block_valid :: "crypto \<Rightarrow> chain_db \<Rightarrow> chain_config \<Rightarrow> gen_block_index \<Rightarrow> block_header \<Rightarrow> pow_status \<Rightarrow> pow_data \<Rightarrow> bool" where
  "pow_block_valid c db cfg prev hdr st data \<longleftrightarrow>
    calculate_work_required db cfg prev (header_timestamp hdr) st = Inr (pow_bits data)
    \<and> (\<exists>target. decode_target (PoWDecodingBitsFailed (pow_bits data)) (pow_bits data) = Inr target
        \<and> uint256_from_h256 (header_id c hdr) \<le> target)"

definition kernel_vrf_key :: "pos_error pos_view \<Rightarrow> tx_output \<Rightarrow> vrf_public_key \<Rightarrow> bool" where
  "kernel_vrf_key pos output key \<longleftrightarrow> (case output of
      CreateStakePool _ d \<Rightarrow> key = stake_vrf_public_key d
    | ProduceBlockFromStake _ pool \<Rightarrow> (\<exists>x. get_pool_data pos pool = Inr (Some x) \<and> key = vrf_public_key x)
    | _ \<Rightarrow> False)"

definition pool_weight :: "pos_error pos_view \<Rightarrow> chain_config \<Rightarrow> u32 \<Rightarrow> pool_id \<Rightarrow> int \<Rightarrow> bool" where
  "pool_weight pos cfg version pool weight \<longleftrightarrow> (\<exists>x balance pledged supply.
    get_pool_data pos pool = Inr (Some x) \<and> get_pool_balance pos pool = Inr balance
    \<and> amt pledged = amt (pledge_amount x) + amt (staker_rewards x) \<and> config_final_supply cfg = Some supply
    \<and> hash_weight version pledged balance supply weight)"

definition pos_block_valid ::
  "crypto \<Rightarrow> chain_db \<Rightarrow> epoch_storage \<Rightarrow> 'u utxos_view \<Rightarrow> pos_error pos_view \<Rightarrow> chain_config \<Rightarrow> gen_block_index \<Rightarrow> block_height \<Rightarrow> signed_block_header \<Rightarrow> pos_status \<Rightarrow> pos_data \<Rightarrow> bool" where
  "pos_block_valid c db epochs utxos pos cfg prev h header st data \<longleftrightarrow> (let hdr = signed_header header in
    gen_timestamp prev < header_timestamp hdr
    \<and> calculate_target_required_from_block_index db cfg st prev = Inr (compact_target data)
    \<and> (\<exists>outpoint u pk sig key seed hash target weight.
        kernel_inputs data = [Utxo outpoint] \<and> uv_utxo utxos outpoint = Inr (Some u)
        \<and> get_staking_kernel_destination (header_id c hdr) (utxo_output u) = Inr pk \<and> signature_data header = HeaderSignature sig
        \<and> verify_message c pk sig hdr
        \<and> kernel_vrf_key pos (utxo_output u) key \<and> randomness_of_sealed_epoch cfg h epochs = Inr seed
        \<and> verify_vrf_data c key (construct_transcript (epoch_index_from_height cfg h) seed (header_timestamp hdr)) (vrf_data data) = Inr ()
        \<and> calculate_vrf_output c (vrf_data data) key
            (construct_transcript (epoch_index_from_height cfg h) seed (header_timestamp hdr)) = Inr hash
        \<and> decode_target (BitsToTargetConversionFailed (compact_target data)) (compact_target data) = Inr target
        \<and> pool_weight pos cfg (consensus_version (get_chain_config st)) (stake_pool_id data) weight
        \<and> uint (uint256_from_h256 hash) \<le> weight * uint target))"

lemma required_target_agrees:
  assumes "get_gen_block_index db cfg i = Inr (Some prev)"
  shows "calculate_target_required db cfg st i = Inr t \<longleftrightarrow> calculate_target_required_from_block_index db cfg st prev = Inr t"
  using assms
  by (auto simp: calculate_target_required_def calculate_target_required_from_block_index_def get_gen_block_index_def
      gen_block_index_getter_def Let_def res_simps dest!: map_option_eq_Some [THEN iffD1, OF sym]
      split: pos_status.splits option.splits gen_block_id.splits gen_block_index.splits)

lemma required_work_found:
  assumes "get_gen_block_index db cfg (header_prev_block_id h) = Inr (Some prev)"
  shows "check_pow_consensus (header_id c) db cfg h data st = Inr () \<longleftrightarrow> pow_block_valid c db cfg prev h st data"
  using assms
  by (cases st)
    (auto simp: check_pow_consensus_def calculate_work_required_def get_gen_block_index_def gen_block_index_getter_def res_simps
      pow_block_valid_def check_proof_of_work_def
      dest!: map_option_eq_Some [THEN iffD1, OF sym] split: gen_block_id.splits gen_block_index.splits sum.splits option.splits if_splits)

lemma get_kernel_output_Inr:
  "get_kernel_output ins utxos = Inr kern \<longleftrightarrow> (\<exists>outpoint u. ins = [Utxo outpoint] \<and> uv_utxo utxos outpoint = Inr (Some u) \<and> utxo_output u = kern)"
  by (auto simp: get_kernel_output_def res_simps utxo_outpoint_of_def split: list.splits tx_input.splits)

lemma check_block_signature_Inr:
  "check_block_signature c header kern = Inr () \<longleftrightarrow> (\<exists>pk sig. get_staking_kernel_destination (header_id c (signed_header header)) kern = Inr pk
    \<and> signature_data header = HeaderSignature sig \<and> verify_message c pk sig (signed_header header))"
  by (cases "signature_data header") (auto simp: check_block_signature_def res_simps Let_def)

lemma calc_and_check_Inr:
  "calc_and_check_pos_hash c version epoch seed target vrf key time pledged balance coins = Inr () \<longleftrightarrow>
    (\<exists>hash weight. verify_vrf_data c key (construct_transcript epoch seed time) vrf = Inr ()
      \<and> calculate_vrf_output c vrf key (construct_transcript epoch seed time) = Inr hash
      \<and> hash_weight version pledged balance coins weight \<and> uint (uint256_from_h256 hash) \<le> weight * uint target)"
  by (auto simp: calc_and_check_pos_hash_def verify_vrf_and_get_vrf_output_def Let_def res_simps check_pos_hash_Inr)

lemma kernel_key_Inr:
  "(case kern of
      CreateStakePool _ d \<Rightarrow> Inr (stake_vrf_public_key d)
    | ProduceBlockFromStake _ pool_id \<Rightarrow>
        res_bind (map_err (Err \<circ> PoSAccountingError) (get_pool_data pos pool_id)) (\<lambda>pool.
        map_ok vrf_public_key (ok_or (Err (PoolDataNotFound pool_id)) pool))
    | _ \<Rightarrow> Inl (Err (RandomnessError (InvalidOutputTypeInStakeKernel i)))) = Inr key \<longleftrightarrow> kernel_vrf_key pos kern key"
  by (cases kern) (auto simp: kernel_vrf_key_def res_simps)

lemma staker_balance_Inr:
  "staker_balance x = Inr b \<longleftrightarrow> amt b = amt (pledge_amount x) + amt (staker_rewards x)"
  by (auto simp: staker_balance_def res_simps amount_simps)

lemma next_height_Inr: "next_height h = Inr k \<longleftrightarrow> uint k = uint h + 1"
  using uint_range [of k] by (auto simp: next_height_def res_simps checked_simps)

lemma proof_of_stake_Inr:
  assumes "get_gen_block_index db cfg (header_prev_block_id (signed_header header)) = Inr (Some prev)" "uint h = uint (gen_height prev) + 1"
  shows "check_proof_of_stake c db epochs utxos pos cfg st header data = Inr () \<longleftrightarrow> pos_block_valid c db epochs utxos pos cfg prev h header st data"
proof -
  let ?hdr = "signed_header header"
  have n: "next_height (gen_height prev) = (Inr h :: consensus_pos_error fault + block_height)"
    using assms(2) by (simp add: next_height_Inr)
  show ?thesis
    unfolding check_proof_of_stake_def pos_block_valid_def pool_weight_def Let_def
    by (simp add: res_simps assms(1) n required_target_agrees [OF assms(1)] enforce_timestamp_ordering_def get_kernel_output_Inr
        check_block_signature_Inr kernel_key_Inr calc_and_check_Inr staker_balance_Inr)
     blast
qed

text \<open>
  C6: the consensus verification is exact. It accepts a header if and only if the parent is known, the height after the parent
  exists, the consensus data has the kind that the configuration requires at that height, and the data is valid. With
  proof of work the bits are the required ones and the hash of the header is at most their target. With proof of stake the time is
  after that of the parent, the target is the required one, the header is signed by the staker of the kernel output, and the random
  value, verified with the key of the pool of the kernel output over the time of the header, the epoch of the height and the
  randomness of the sealed epoch, is at most the target times the weight of the pool named in the header: its balance in version 0,
  its effective balance in version 1. The pool of the kernel output and the pool named in the header are not compared.
\<close>

theorem accepted_block_meets_consensus:
  "validate_consensus c db epochs utxos pos cfg header = Inr () \<longleftrightarrow>
    (\<exists>prev h required. get_gen_block_index db cfg (header_prev_block_id (signed_header header)) = Inr (Some prev)
      \<and> uint h = uint (gen_height prev) + 1
      \<and> consensus_status (consensus_upgrades cfg) h = (Inr required :: consensus_verification_error fault + required_consensus)
      \<and> (case required of
          RequiredIgnoreConsensus \<Rightarrow> header_consensus_data (signed_header header) = ConsensusNone
        | RequiredPoW st \<Rightarrow> (\<exists>data. header_consensus_data (signed_header header) = ConsensusPoW data
            \<and> pow_block_valid c db cfg prev (signed_header header) st data)
        | RequiredPoS st \<Rightarrow> (\<exists>data. header_consensus_data (signed_header header) = ConsensusPoS data
            \<and> pos_block_valid c db epochs utxos pos cfg prev h header st data)))"
    (is "?accepted \<longleftrightarrow> (\<exists>prev h required. ?parent prev \<and> ?height prev h \<and> ?status h required \<and> ?valid prev h required)")
proof -
  have v: "(case required of
        RequiredPoW st \<Rightarrow> (case header_consensus_data (signed_header header) of
            ConsensusPoW data \<Rightarrow> map_err (\<lambda>e. case e of Err q \<Rightarrow> Err (PoWError q) | Panic \<Rightarrow> Panic)
              (check_pow_consensus (header_id c) db cfg (signed_header header) data st)
          | _ \<Rightarrow> Inl e1)
      | RequiredIgnoreConsensus \<Rightarrow> (case header_consensus_data (signed_header header) of ConsensusNone \<Rightarrow> Inr () | _ \<Rightarrow> Inl e2)
      | RequiredPoS st \<Rightarrow> (case header_consensus_data (signed_header header) of
            ConsensusPoS data \<Rightarrow> map_err (\<lambda>e. case e of Err q \<Rightarrow> Err (PoSError q) | Panic \<Rightarrow> Panic)
              (check_proof_of_stake c db epochs utxos pos cfg st header data)
          | _ \<Rightarrow> Inl e3)) = Inr () \<longleftrightarrow> ?valid prev h required"
    if "?parent prev" "?height prev h" for prev h required e1 e2 e3
    by (cases required; cases "header_consensus_data (signed_header header)")
      (auto simp: res_simps required_work_found [OF that(1)] proof_of_stake_Inr [OF that])
  show ?thesis
    unfolding validate_consensus_def Let_def by (simp add: res_simps next_height_Inr) (use v in blast)
qed

section \<open>The search for a time slot\<close>

lemma find_slot_Some:
  assumes "find_slot c produce pub version epoch seed target pledged balance coins n t0 = Inr (Some (t, vrf))" "unat t0 + n \<le> 2 ^ 64"
  shows "\<exists>k < n. t = t0 + of_nat k \<and> vrf = produce (construct_transcript epoch seed t)
    \<and> calc_and_check_pos_hash c version epoch seed target vrf pub t pledged balance coins = Inr ()
    \<and> (\<forall>j < k. \<exists>e. calc_and_check_pos_hash c version epoch seed target (produce (construct_transcript epoch seed (t0 + of_nat j)))
        pub (t0 + of_nat j) pledged balance coins = Inl (Err e))"
  using assms
proof (induction n arbitrary: t0)
  case (Suc n)
  let ?check = "\<lambda>u. calc_and_check_pos_hash c version epoch seed target (produce (construct_transcript epoch seed u)) pub u pledged balance coins"
  consider "?check t0 = Inr ()" "t = t0" "vrf = produce (construct_transcript epoch seed t0)"
    | e where "?check t0 = Inl (Err e)" "find_slot c produce pub version epoch seed target pledged balance coins n (t0 + 1) = Inr (Some (t, vrf))"
    using Suc.prems(1) by (auto simp: Let_def split: sum.splits fault.splits)
  then show ?case
  proof cases
    case 2
    show ?thesis
    proof (cases n)
      case 0
      then show ?thesis using 2(2) by simp
    next
      case (Suc m)
      have "unat (t0 + 1) + n \<le> 2 ^ 64" using Suc.prems(2) Suc by (simp add: unat_word_ariths)
      from Suc.IH [OF 2(2) this] obtain k where k: "k < n" "t = t0 + of_nat (Suc k)" "vrf = produce (construct_transcript epoch seed t)"
        "?check t = Inr ()" "\<forall>j < k. \<exists>e. ?check (t0 + of_nat (Suc j)) = Inl (Err e)"
        by (auto simp: add.assoc)
      have "\<exists>e. ?check (t0 + of_nat j) = Inl (Err e)" if "j < Suc k" for j
        using k(5) 2(1) that by (cases j) (auto simp del: of_nat_Suc)
      then show ?thesis using k(1-4) by (intro exI [of _ "Suc k"]) (auto simp del: of_nat_Suc)
    qed
  qed (auto intro!: exI [of _ 0])
qed simp

text \<open>
  C7: staking. When staking succeeds, it stores in the header the earliest time slot from the given one up to the maximum whose
  verifiable random value meets the target, together with that value, so that the hash check of the verification
  passes for the header; every earlier slot fails the check.
\<close>

theorem staked_slot_is_first:
  assumes "stake c produce pub cfg pos_config data max_ts seed epoch pledged balance (header, t0) = (Inr StakeSuccess, header', t')"
  shows "\<exists>vrf target coins. header' = header\<lparr>header_consensus_data := ConsensusPoS (data\<lparr>vrf_data := vrf\<rparr>), header_timestamp := t'\<rparr>
    \<and> t0 \<le> t' \<and> t' \<le> max_ts \<and> config_final_supply cfg = Some coins
    \<and> decode_target (BitsToTargetConversionFailed (compact_target data)) (compact_target data) = Inr target
    \<and> calc_and_check_pos_hash c (consensus_version pos_config) epoch seed target vrf pub t' pledged balance coins = Inr ()
    \<and> (\<forall>u. t0 \<le> u \<and> u < t' \<longrightarrow> (\<exists>e. calc_and_check_pos_hash c (consensus_version pos_config) epoch seed target
        (produce (construct_transcript epoch seed u)) pub u pledged balance coins = Inl (Err e)))"
proof -
  let ?check = "\<lambda>target coins u. calc_and_check_pos_hash c (consensus_version pos_config) epoch seed target
    (produce (construct_transcript epoch seed u)) pub u pledged balance coins"
  obtain vrf target coins where f: "config_final_supply cfg = Some coins"
    "decode_target (BitsToTargetConversionFailed (compact_target data)) (compact_target data) = Inr target" "t0 \<le> max_ts"
    "find_slot c produce pub (consensus_version pos_config) epoch seed target pledged balance coins (Suc (unat (max_ts - t0))) t0 = Inr (Some (t', vrf))"
    and h: "header' = header\<lparr>header_consensus_data := ConsensusPoS (data\<lparr>vrf_data := vrf\<rparr>), header_timestamp := t'\<rparr>"
    using assms by (auto simp: stake_def find_timestamp_for_staking_def res_simps split: sum.splits option.splits if_splits)
  have d: "unat (max_ts - t0) = unat max_ts - unat t0" using f(3) by (simp add: unat_sub word_le_nat_alt)
  have m: "unat max_ts < 2 ^ 64" by (rule order.strict_trans2 [OF unsigned_less]) simp
  have "unat t0 + Suc (unat (max_ts - t0)) \<le> 2 ^ 64" using d m f(3) by (simp add: word_le_nat_alt)
  from find_slot_Some [OF f(4) this] obtain k where k: "k \<le> unat max_ts - unat t0" "t' = t0 + of_nat k"
    "vrf = produce (construct_transcript epoch seed t')" "?check target coins t' = Inr ()"
    "\<forall>j < k. \<exists>e. ?check target coins (t0 + of_nat j) = Inl (Err e)"
    by (auto simp: d less_Suc_eq_le)
  have u: "unat t' = unat t0 + k" using k(1,2) m f(3) by (simp add: unat_word_ariths unat_of_nat word_le_nat_alt)
  have "\<exists>e. ?check target coins v = Inl (Err e)" if "t0 \<le> v" "v < t'" for v
  proof -
    have "v = t0 + of_nat (unat v - unat t0)" using that by (simp add: of_nat_diff word_le_nat_alt)
    moreover have "unat v - unat t0 < k" using that u by (simp add: word_le_nat_alt word_less_nat_alt)
    ultimately show ?thesis using k(5) by metis
  qed
  moreover have "t0 \<le> t'" "t' \<le> max_ts" using u k(1) f(3) by (simp_all add: word_le_nat_alt)
  ultimately show ?thesis using f(1,2) h k(3,4) by blast
qed

section \<open>Examples\<close>

text \<open>
  A block whose kernel spends the output of pool 7 and whose consensus data names pool 8: the balance of pool 8
  is weighed, the random value is verified with the key of pool 7, and the block is accepted.
\<close>

definition example_crypto :: crypto where
  "example_crypto = \<lparr>header_id = (\<lambda>_. 99), verify_message = (\<lambda>_ _ _. True), verify_vrf_data = (\<lambda>_ _ _. Inr ()),
    calculate_vrf_output = (\<lambda>_ _ _. Inr 0)\<rparr>"

definition example_kernel_output :: tx_output where
  "example_kernel_output = CreateStakePool 7 \<lparr>pledge = from_atoms 40000, staker = PublicKey [1], stake_vrf_public_key = [2],
    decommission_key = AnyoneCanSpend, stake_margin_ratio_per_thousand = PerThousand 0, stake_cost_per_block = amount_ZERO\<rparr>"

definition example_utxos :: "unit utxos_view" where
  "example_utxos = \<lparr>uv_utxo = (\<lambda>_. Inr (Some (utxo_new example_kernel_output (Blockchain 1)))), uv_has_utxo = (\<lambda>_. Inr True),
    uv_best_block_hash = Inr 12\<rparr>"

definition example_pools :: "pos_error pos_view" where
  "example_pools = \<lparr>pool_exists = (\<lambda>_. Inr True), get_pool_balance = (\<lambda>_. Inr (from_atoms 100000)),
    get_pool_data = (\<lambda>_. Inr (Some \<lparr>decommission_destination = AnyoneCanSpend, pledge_amount = from_atoms 40000,
      staker_rewards = amount_ZERO, vrf_public_key = [3], margin_ratio_per_thousand = PerThousand 0, cost_per_block = amount_ZERO\<rparr>)),
    get_pool_delegations_shares = (\<lambda>_. Inr None), get_delegation_balance = (\<lambda>_. Inr amount_ZERO), get_delegation_data = (\<lambda>_. Inr None),
    get_pool_delegation_share = (\<lambda>_ _. Inr amount_ZERO)\<rparr>"

definition example_pos_data :: pos_data where
  "example_pos_data = \<lparr>kernel_inputs = [Utxo (UtxoOutPoint (SourceTransaction 5) 0)], kernel_witness = [], stake_pool_id = 8,
    vrf_data = [], compact_target = 0x03000005\<rparr>"

definition pos_example_config :: chain_config where
  "pos_example_config = example_config\<lparr>consensus_upgrades := [(0, UpgradeIgnoreConsensus), (3, UpgradePoS (Some 0x03000005) example_pos_config)]\<rparr>"

definition example_pos_header :: signed_block_header where
  "example_pos_header = with_signature (HeaderSignature [1])
    (example_header\<lparr>header_consensus_data := ConsensusPoS example_pos_data\<rparr>)"

lemma example_hash_check: "calc_and_check_pos_hash example_crypto 1 epoch seed 5 [] key time (from_atoms 40000) (from_atoms 100000) (from_coins 600000000) = Inr ()"
proof -
  have "amt (from_atoms w) = uint w" for w by (simp add: amt_def from_atoms_def)
  then obtain b where "effective_pool_balance (from_atoms 40000) (from_atoms 100000) (from_coins 600000000) = Inr b"
    using effective_balance_eq [of "from_coins 600000000" "from_atoms 40000" "from_atoms 100000"]
    by (auto simp: amt_from_coins)
  moreover obtain w where "checked_mul (ucast (into_atoms b) :: 512 word) 5 = Some w"
  proof -
    have "uint (into_atoms b) * 5 < 2 ^ 128 * 8" using uint_range [of "into_atoms b"] by simp
    then show thesis using that by (auto simp: checked_mul_def uint_up_ucast is_up)
  qed
  ultimately show ?thesis
    by (simp add: calc_and_check_pos_hash_def verify_vrf_and_get_vrf_output_def example_crypto_def example_hash check_pos_hash_def
        check_pos_hash_v1_def)
qed

lemma example_status: "consensus_status (consensus_upgrades pos_example_config) 3 = Inr (RequiredPoS (PoSThreshold (Some 0x03000005) example_pos_config))"
  by (simp add: consensus_status_def version_at_height_def pos_example_config_def required_consensus_from_def)

lemma example_parent_index: "get_gen_block_index example_db pos_example_config 12 = Inr (Some (BlockIdx (example_block 12 11 2)))"
  by (simp add: get_gen_block_index_def gen_block_index_getter_def classify_def pos_example_config_def example_config_def example_db_def)

lemma example_pos_accepted:
  "check_proof_of_stake example_crypto example_db (\<lambda>_. Inr None) example_utxos example_pools pos_example_config
    (PoSThreshold (Some 0x03000005) example_pos_config) example_pos_header example_pos_data = Inr ()"
proof -
  have "randomness_of_sealed_epoch pos_example_config 3 (\<lambda>_. Inr None) = Inr 7"
    by (simp add: randomness_of_sealed_epoch_def sealed_epoch_index_def is_last_block_in_epoch_def next_height_def
        epoch_index_from_height_def pos_example_config_def example_config_def checked_add_def checked_sub_def)
  moreover have "next_height (2 :: block_height) = (Inr 3 :: consensus_pos_error fault + block_height)"
    by (simp add: next_height_def checked_add_def)
  moreover have "staker_balance \<lparr>decommission_destination = AnyoneCanSpend, pledge_amount = from_atoms 40000,
      staker_rewards = amount_ZERO, vrf_public_key = [3], margin_ratio_per_thousand = PerThousand 0, cost_per_block = amount_ZERO\<rparr> = Inr (from_atoms 40000)"
    by (simp add: staker_balance_def amount_add_def from_atoms_def amount_ZERO_def checked_add_def)
  moreover have "consensus_version example_pos_config = 1" "config_final_supply pos_example_config = Some (from_coins 600000000)"
    by (simp_all add: example_pos_config_def pos_example_config_def example_config_def)
  ultimately show ?thesis
    by (simp add: check_proof_of_stake_def calculate_target_required_def example_pos_header_def example_pos_data_def with_signature_def
        example_header_def example_parent_index enforce_timestamp_ordering_def example_block_def get_kernel_output_def utxo_outpoint_of_def
        example_utxos_def utxo_new_def check_block_signature_def get_staking_kernel_destination_def example_kernel_output_def
        example_crypto_def [THEN arg_cong, of verify_message] example_pools_def example_target get_chain_config_def example_hash_check Let_def
        gen_timestamp_def gen_height_def)
qed

text \<open>Nothing compares the pool of the kernel output with the pool whose balance is weighed.\<close>

lemma kernel_pool_not_compared:
  "\<exists>c db epochs (utxos :: unit utxos_view) pos cfg st header data pool d.
    check_proof_of_stake c db epochs utxos pos cfg st header data = Inr ()
    \<and> get_kernel_output (kernel_inputs data) utxos = Inr (CreateStakePool pool d) \<and> pool \<noteq> stake_pool_id data"
proof -
  have "\<exists>d. get_kernel_output (kernel_inputs example_pos_data) example_utxos = Inr (CreateStakePool 7 d) \<and> 7 \<noteq> stake_pool_id example_pos_data"
    by (simp add: get_kernel_output_def example_pos_data_def utxo_outpoint_of_def example_utxos_def utxo_new_def example_kernel_output_def)
  then show ?thesis using example_pos_accepted by blast
qed

theorem accepted_block_meets_consensus_witness:
  "\<exists>prev. validate_consensus example_crypto example_db (\<lambda>_. Inr None) example_utxos example_pools pos_example_config example_pos_header = Inr ()
    \<and> pos_block_valid example_crypto example_db (\<lambda>_. Inr None) example_utxos example_pools pos_example_config prev 3 example_pos_header
        (PoSThreshold (Some 0x03000005) example_pos_config) example_pos_data"
proof -
  have hdr: "header_prev_block_id (signed_header example_pos_header) = 12"
    "header_consensus_data (signed_header example_pos_header) = ConsensusPoS example_pos_data"
    by (simp_all add: example_pos_header_def with_signature_def example_header_def)
  have n: "next_height (2 :: block_height) = (Inr 3 :: consensus_verification_error fault + block_height)"
    by (simp add: next_height_def checked_add_def)
  have v: "validate_consensus example_crypto example_db (\<lambda>_. Inr None) example_utxos example_pools pos_example_config example_pos_header = Inr ()"
    by (simp add: validate_consensus_def hdr example_parent_index n example_status example_pos_accepted gen_height_def)
  from v [unfolded accepted_block_meets_consensus] obtain prev h required where
    p: "get_gen_block_index example_db pos_example_config 12 = Inr (Some prev)" "uint h = uint (gen_height prev) + 1"
      "consensus_status (consensus_upgrades pos_example_config) h = (Inr required :: consensus_verification_error fault + required_consensus)"
    and r: "case required of
        RequiredIgnoreConsensus \<Rightarrow> header_consensus_data (signed_header example_pos_header) = ConsensusNone
      | RequiredPoW st \<Rightarrow> (\<exists>data. header_consensus_data (signed_header example_pos_header) = ConsensusPoW data
          \<and> pow_block_valid example_crypto example_db pos_example_config prev (signed_header example_pos_header) st data)
      | RequiredPoS st \<Rightarrow> (\<exists>data. header_consensus_data (signed_header example_pos_header) = ConsensusPoS data
          \<and> pos_block_valid example_crypto example_db (\<lambda>_. Inr None) example_utxos example_pools pos_example_config prev h example_pos_header st data)"
    unfolding hdr(1) by blast
  have h: "h = 3" using p(1,2) by (auto simp: example_parent_index gen_height_def word_uint_eq_iff)
  then have "required = RequiredPoS (PoSThreshold (Some 0x03000005) example_pos_config)" using p(3) by (simp add: example_status)
  then show ?thesis using v r h by (auto simp: hdr)
qed

theorem staked_slot_is_first_witness:
  "\<exists>t \<le> 2200. \<exists>vrf. calc_and_check_pos_hash example_crypto 1 0 7 5 vrf [2] t (from_atoms 40000) (from_atoms 100000) (from_coins 600000000) = Inr ()"
proof -
  have "find_slot example_crypto (\<lambda>_. []) [2] 1 0 7 5 (from_atoms 40000) (from_atoms 100000) (from_coins 600000000) (Suc n) 2100 = Inr (Some (2100, []))" for n
    by (simp add: example_hash_check)
  from this [of 100] have f: "find_slot example_crypto (\<lambda>_. []) [2] 1 0 7 5 (from_atoms 40000) (from_atoms 100000) (from_coins 600000000) 101 2100
    = Inr (Some (2100, []))" by simp
  have "find_timestamp_for_staking example_crypto (\<lambda>_. []) [2] (from_coins 600000000) example_pos_config 0x03000005 2100 2200 7 0
      (from_atoms 40000) (from_atoms 100000) = Inr (Some (2100, []))"
    by (simp add: find_timestamp_for_staking_def example_target example_pos_config_def f)
  then have "\<exists>h. stake example_crypto (\<lambda>_. []) [2] pos_example_config example_pos_config example_pos_data 2200 7 0 (from_atoms 40000) (from_atoms 100000)
      (example_header, 2100) = (Inr StakeSuccess, h, 2100)"
    by (simp add: stake_def pos_example_config_def example_config_def example_pos_data_def)
  then show ?thesis
    using staked_slot_is_first [of example_crypto "\<lambda>_. []" "[2]" pos_example_config example_pos_config example_pos_data 2200 7 0]
    by (fastforce simp: example_target example_pos_data_def pos_example_config_def example_config_def example_pos_config_def)
qed

end
