(* ===== verification/ChainTrust.thy ===== *)
theory ChainTrust
  imports BlockTree Complex_Main
begin

text \<open>
  The chain trust of new blocks. The proof of a block under proof of stake depends on a table of weights of empty time slots, which
  the code computes with floating-point numbers (\<open>common/src/chain/chaintrust/asymptote.rs\<close>). Floating-point rounding is not modelled:
  the table is any one that is close to the function over the real numbers that it tabulates.
\<close>

section \<open>The table of weights\<close>

definition asymptote_to_infinity_to_one :: "nat \<Rightarrow> real \<Rightarrow> real" where
  "asymptote_to_infinity_to_one t alpha = 1 - exp (- alpha * real t)"

text \<open>
  The table has the length of the code, and each entry is within a million of the function scaled by 10 to the 18, one part
  in 10 to the 12. The double precision of the code is finer than one part in 10 to the 15.
\<close>

definition approximates_weights :: "u64 list \<Rightarrow> bool" where
  "approximates_weights weights \<longleftrightarrow> length weights = 1200
    \<and> (\<forall>t < 1200. \<bar>real_of_int (uint (weights ! t)) - 10 ^ 18 * asymptote_to_infinity_to_one t (1 / 100)\<bar> \<le> 10 ^ 6)"

lemma exp_slots:
  assumes "t < 1200"
  shows "1 / 531441 \<le> exp (- (1 / 100) * real t)"
proof -
  have "exp (real t / 100) \<le> exp 12" using assms by simp
  also have "exp 12 = exp (1 :: real) ^ 12" by (simp add: exp_of_nat_mult [symmetric])
  also have "\<dots> \<le> 3 ^ 12" by (intro power_mono exp_le) simp
  finally have "exp (real t / 100) \<le> 531441" by simp
  then have "inverse 531441 \<le> inverse (exp (real t / 100))" by (intro le_imp_inverse_le) simp_all
  moreover have "exp (- (1 / 100) * real t) = inverse (exp (real t / 100))" by (subst exp_minus [symmetric]) simp
  ultimately show ?thesis by simp
qed

lemma approximated_weight_less:
  assumes "approximates_weights weights" "w \<in> set weights"
  shows "w < 1000000000000000000"
proof -
  obtain t where t: "t < 1200" "w = weights ! t" using assms by (auto simp: in_set_conv_nth approximates_weights_def)
  then have "\<bar>real_of_int (uint w) - 10 ^ 18 * asymptote_to_infinity_to_one t (1 / 100)\<bar> \<le> 10 ^ 6"
    using assms(1) by (auto simp: approximates_weights_def)
  then have "real_of_int (uint w) < real_of_int (10 ^ 18)"
    using exp_slots [OF t(1)] by (simp add: asymptote_to_infinity_to_one_def abs_le_iff field_simps)
  then have "uint w < 10 ^ 18" by (simp only: of_int_less_iff)
  then show ?thesis by (simp add: word_less_def)
qed

section \<open>Properties\<close>

text \<open>
  C39: the index entry of a new block extends the tree. Take a well-formed tree without the block, and a table of weights that
  approximates the documented function to one part in 10 to the 12. When the entry is created, the tree with the entry is
  well-formed again, its height is the one above its parent, and its chain trust is the trust of its parent plus the
  proof of the block, hence strictly greater than the trust of its parent.
\<close>

theorem new_block_index_extends_tree:
  assumes "tree_wf (db_block_index db) cfg" "db_block_index db i = Inr None" "i \<noteq> genesis_id (genesis_block cfg)"
    "approximates_weights weights" "create_block_index_for_new_block db cfg weights i header n status = Inr b"
  shows "tree_wf ((db_block_index db)(i := Inr (Some b))) cfg
    \<and> (\<exists>p bp. gen_block_index_getter (db_block_index db) cfg (header_prev_block_id (signed_header header)) = Inr (Some p)
      \<and> get_block_proof weights (header_consensus_data (signed_header header)) (gen_timestamp p) (header_timestamp (signed_header header))
        = (Inr (Some bp) :: new_index_error fault + u256 option)
      \<and> uint (index_height b) = uint (gen_height p) + 1 \<and> uint (index_chain_trust b) = uint (gen_chain_trust p) + uint bp
      \<and> gen_chain_trust p < index_chain_trust b)"
proof -
  have "\<forall>w \<in> set weights. w < 1000000000000000000" using approximated_weight_less [OF assms(4)] by blast
  then show ?thesis
    using new_index_in_tree [OF assms(1-3,5)] get_block_proof_positive by (fastforce simp: word_less_def)
qed

section \<open>Example\<close>

text \<open>The exact table, rounded down, and a block under proof of stake that comes 100 time slots after its parent.\<close>

definition exact_weights :: "u64 list" where
  "exact_weights = map (\<lambda>t. word_of_int \<lfloor>10 ^ 18 * asymptote_to_infinity_to_one t (1 / 100)\<rfloor>) [0..<1200]"

lemma exact_weights: "approximates_weights exact_weights"
proof -
  have "\<bar>real_of_int (uint (exact_weights ! t)) - 10 ^ 18 * asymptote_to_infinity_to_one t (1 / 100)\<bar> \<le> 10 ^ 6" if "t < 1200" for t
  proof -
    let ?x = "10 ^ 18 * asymptote_to_infinity_to_one t (1 / 100)"
    have x: "0 \<le> ?x" "?x \<le> 10 ^ 18" by (simp_all add: asymptote_to_infinity_to_one_def)
    have "0 \<le> \<lfloor>?x\<rfloor>" using x(1) by simp
    moreover have "\<lfloor>?x\<rfloor> \<le> 10 ^ 18" using x(2) floor_mono [OF x(2)] by simp
    ultimately have "uint (exact_weights ! t) = \<lfloor>?x\<rfloor>" using that by (simp add: exact_weights_def uint_word_of_int_small)
    moreover have "\<bar>real_of_int \<lfloor>x\<rfloor> - x\<bar> \<le> 10 ^ 6" for x :: real using floor_correct [of x] by (simp add: abs_le_iff) linarith
    ultimately show ?thesis by simp
  qed
  then show ?thesis by (simp add: approximates_weights_def exact_weights_def)
qed

definition example_new_header :: signed_block_header where
  "example_new_header = with_signature NoSignature \<lparr>header_prev_block_id = 12, tx_merkle_root = 0, witness_merkle_root = 0,
    header_timestamp = 2100, header_consensus_data = ConsensusPoS \<lparr>kernel_inputs = [], kernel_witness = [], stake_pool_id = 8,
      vrf_data = [], compact_target = 0x03000005\<rparr>\<rparr>"

lemma example_new_index: "\<exists>b. create_block_index_for_new_block example_db example_config exact_weights 13 example_new_header 1 2 = Inr b"
proof -
  have "get_ancestor example_db example_config (BlockIdx (example_block 12 11 2)) 1 = Inr (BlockIdx (example_block 11 1 1))"
    using get_ancestor_stored [OF example_wf example_stored(1), of 1] example_ancestors by (simp add: gen_height_def)
  moreover obtain bp where "get_block_proof exact_weights (header_consensus_data (signed_header example_new_header)) 2000 2100
      = (Inr (Some bp) :: new_index_error fault + u256 option)" "uint bp \<le> 10 ^ 18"
  proof -
    let ?w = "exact_weights ! 100"
    have l: "length exact_weights = 1200" by (simp add: exact_weights_def)
    have "?w < 1000000000000000000" by (rule approximated_weight_less [OF exact_weights]) (simp add: l)
    then have w: "0 \<le> uint ?w" "uint ?w < 1000000000000000000" by (simp_all add: word_less_def)
    define x where "x = 1000000000000000000 - uint ?w"
    define bp :: u256 where "bp = word_of_int x"
    have "0 \<le> x" "x \<le> 1000000000000000000" using w by (simp_all add: x_def)
    then have bp: "uint bp = 1000000000000000000 - uint ?w" unfolding x_def [symmetric] by (simp add: bp_def uint_word_of_int_small)
    then have "checked_sub (1000000000000000000 :: u256) (ucast ?w) = Some bp" by (simp add: checked_simps uint_up_ucast is_up)
    moreover have "checked_sub 2100 (2000 :: u64) = Some 100" by (simp add: checked_sub_def)
    ultimately have "get_block_proof exact_weights (header_consensus_data (signed_header example_new_header)) 2000 2100
      = (Inr (Some bp) :: new_index_error fault + u256 option)"
      by (simp add: get_block_proof_def example_new_header_def with_signature_def calculate_block_proof_def l)
    then show thesis using that bp w by simp
  qed
  moreover from this(2) obtain trust where "checked_add 2 bp = Some trust"
    by (cases "checked_add 2 bp") (auto simp: checked_simps)
  ultimately show ?thesis
    by (simp add: create_block_index_for_new_block_def get_gen_block_index_def example_getter example_new_header_def with_signature_def gen_height_def
        next_height_def checked_add_def get_skip_height_def invert_lowest_one_def gen_chain_transaction_count_def
        gen_chain_trust_def example_block_def gen_timestamp_def)
qed

theorem new_block_index_extends_tree_witness:
  "\<exists>b. tree_wf ((db_block_index example_db)(13 := Inr (Some b))) example_config \<and> 2 < index_chain_trust b"
proof -
  have "db_block_index example_db 13 = Inr None" by (simp add: example_db_def)
  moreover obtain b where "create_block_index_for_new_block example_db example_config exact_weights 13 example_new_header 1 2 = Inr b"
    using example_new_index by blast
  moreover have "gen_block_index_getter (db_block_index example_db) example_config (header_prev_block_id (signed_header example_new_header))
      = Inr (Some (BlockIdx (example_block 12 11 2)))"
    by (simp add: example_new_header_def with_signature_def example_getter)
  ultimately show ?thesis
    using new_block_index_extends_tree [OF example_wf _ _ exact_weights, of 13 example_new_header 1 2 b]
    by (auto simp: example_genesis gen_chain_trust_def example_block_def)
qed

end
