(* ===== verification/PoSAdapter.thy ===== *)
theory PoSAdapter
  imports PoSUndo
begin

text \<open>
  The adapter through which the transaction verifier changes the accounting of pools
  (\<open>chainstate/tx-verifier/src/transaction_verifier/pos_accounting_delta_adapter.rs\<close>). An operation runs on a new delta
  over the accumulated one, which is then merged into the accumulated delta and into the delta of its source. The adapter
  behaves as the accumulated delta itself, and undoing operations through it restores both deltas.
\<close>

section \<open>The adapter\<close>

datatype transaction_source = SourceChain h256 | SourceMempool

record pos_adapter =
  accounting_delta :: pos_delta_data
  accounting_block_deltas :: "(transaction_source, pos_delta_data) fmap"

definition pos_adapter_new :: pos_adapter where
  "pos_adapter_new = \<lparr>accounting_delta = pos_delta_data_new, accounting_block_deltas = fmempty\<rparr>"

definition block_delta :: "transaction_source \<Rightarrow> pos_adapter \<Rightarrow> pos_delta_data" where
  "block_delta source a = (case fmlookup (accounting_block_deltas a) source of None \<Rightarrow> pos_delta_data_new | Some d \<Rightarrow> d)"

text \<open>The merge into the delta of a source: the entry is created before the merge, also when the merge fails.\<close>

definition merge_block_delta :: "transaction_source \<Rightarrow> pos_delta_data \<Rightarrow> (pos_adapter, pos_error, unit) op" where
  "merge_block_delta source delta =
    op_bind (op_zoom (block_delta source) (\<lambda>d. accounting_block_deltas_update (fmupd source d))
      (pos_merge_with_delta delta)) (\<lambda>_. op_return ())"

definition adapter_merge_delta :: "transaction_source \<Rightarrow> pos_delta_data \<Rightarrow> (pos_adapter, pos_error, unit) op" where
  "adapter_merge_delta source delta =
    op_bind (op_zoom accounting_delta (\<lambda>d. accounting_delta_update (\<lambda>_. d)) (pos_merge_with_delta delta)) (\<lambda>_.
    merge_block_delta source delta)"

text \<open>The body that the operations share: run on a new delta over the accumulated one, then merge.\<close>

definition on_new_delta ::
  "'e pos_view \<Rightarrow> transaction_source \<Rightarrow> (pos_error pos_view \<Rightarrow> (pos_delta_data, pos_error, 'a) op) \<Rightarrow> (pos_adapter, pos_error, 'a) op" where
  "on_new_delta P source m a = (case m (delta_view P (accounting_delta a)) pos_delta_data_new of
      (Inl e, _) \<Rightarrow> (Inl e, a)
    | (Inr r, delta) \<Rightarrow> op_bind (adapter_merge_delta source delta) (\<lambda>_. op_return r) a)"

text \<open>The methods of \<open>PoSAccountingOperations\<close> for the adapter, by the operation called.\<close>

definition adapter_apply ::
  "id_hasher \<Rightarrow> 'e pos_view \<Rightarrow> transaction_source \<Rightarrow> pos_command \<Rightarrow> (pos_adapter, pos_error, pos_undo) op" where
  "adapter_apply h P source cmd = on_new_delta P source (\<lambda>view. pos_apply h view cmd)"

definition adapter_undo :: "'e pos_view \<Rightarrow> transaction_source \<Rightarrow> pos_undo \<Rightarrow> (pos_adapter, pos_error, unit) op" where
  "adapter_undo P source u = on_new_delta P source (\<lambda>view. pos_undo_op view u)"

section \<open>An operation through a new delta\<close>

lemma delta_view_select [simp]:
  "get_pool_data (delta_view P d) = delta_get_pool_data P d"
  "get_delegation_data (delta_view P d) = delta_get_delegation_data P d"
  "get_pool_balance (delta_view P d) = delta_get_pool_balance P d"
  "get_delegation_balance (delta_view P d) = delta_get_delegation_balance P d"
  "get_pool_delegation_share (delta_view P d) = delta_get_pool_delegation_share P d"
  "get_pool_delegations_shares (delta_view P d) = delta_get_pool_delegations_shares P d"
  by (simp_all add: delta_view_def)

lemma add_unsigned_empty:
  "add_unsigned k a fmempty = (Inr (), c) \<longleftrightarrow> amt a < 2 ^ 127 \<and> c = fm_put k (net_slot (amt a)) fmempty"
proof (cases "amt a < 2 ^ 127")
  case True
  then have r: "i128_range (amt a)" using amt_range(1) [of a] by linarith
  have "add_unsigned k a fmempty = (Inr (), fm_put k (net_slot (amt a)) fmempty)"
    using True r by (simp add: add_unsigned_Inr wf_amounts_fm_put)
  then show ?thesis using True by auto
qed (simp add: add_unsigned_Inr)

lemma sub_unsigned_empty:
  "sub_unsigned k a fmempty = (Inr (), c) \<longleftrightarrow> amt a < 2 ^ 127 \<and> c = fm_put k (net_slot (- amt a)) fmempty"
proof (cases "amt a < 2 ^ 127")
  case True
  then have r: "i128_range (- amt a)" using amt_range(1) [of a] by linarith
  have "sub_unsigned k a fmempty = (Inr (), fm_put k (net_slot (- amt a)) fmempty)"
    using True r by (simp add: sub_unsigned_Inr wf_amounts_fm_put)
  then show ?thesis using True by auto
qed (simp add: sub_unsigned_Inr)

lemma merge_one_add:
  assumes "wf_amounts c"
  shows "add_unsigned k a c = (Inr (), c') \<longleftrightarrow>
    amt a < 2 ^ 127 \<and> merge_delta_amounts (fm_put k (net_slot (amt a)) fmempty) c = (Inr (), c')"
proof (cases "amt a < 2 ^ 127")
  case True
  then have r: "i128_range (amt a)" using amt_range(1) [of a] by linarith
  then have "net (fm_put k (net_slot (amt a)) fmempty) k' = (if k' = k then amt a else 0)" for k' by simp
  then show ?thesis using True by (simp add: add_unsigned_Inr merge_delta_amounts_Inr assms)
qed (simp add: add_unsigned_Inr assms)

lemma merge_one_sub:
  assumes "wf_amounts c"
  shows "sub_unsigned k a c = (Inr (), c') \<longleftrightarrow>
    amt a < 2 ^ 127 \<and> merge_delta_amounts (fm_put k (net_slot (- amt a)) fmempty) c = (Inr (), c')"
proof (cases "amt a < 2 ^ 127")
  case True
  then have r: "i128_range (- amt a)" using amt_range(1) [of a] by linarith
  then have "net (fm_put k (net_slot (- amt a)) fmempty) k' = (if k' = k then - amt a else 0)" for k' by simp
  then show ?thesis using True by (auto simp: sub_unsigned_Inr merge_delta_amounts_Inr assms)
qed (simp add: sub_unsigned_Inr assms)

lemma merge_one_data:
  "merge_delta_data (fmupd k x fmempty) c = (Inr u, c') \<longleftrightarrow>
    composable (fmlookup c k) (Some x) \<and> c' = fm_put k (delta_comp (fmlookup c k) (Some x)) c \<and> u = fmmap invert (fmupd k x fmempty)"
  by (auto simp: merge_delta_data_Inr intro!: fmap_ext)

lemma merge_empty [simp]:
  "merge_delta_amounts fmempty c = (Inr (), c)"
  "merge_delta_data fmempty c2 = (Inr fmempty, c2)"
  by (simp_all add: merge_delta_amounts_def merge_delta_data_Inr)

lemma query_data_empty: "query_data fail q fmempty k = map_err (\<lambda>_. fail) (q k)"
  by (simp add: query_data_def get_data_def)

lemma fresh_queries:
  "delta_get_pool_data (delta_view P d) pos_delta_data_new p = Inr x \<longleftrightarrow> delta_get_pool_data P d p = Inr x"
  "delta_get_delegation_data (delta_view P d) pos_delta_data_new del = Inr y \<longleftrightarrow> delta_get_delegation_data P d del = Inr y"
  "delta_get_pool_balance (delta_view P d) pos_delta_data_new p = Inr b \<longleftrightarrow> delta_get_pool_balance P d p = Inr b"
  "delta_get_delegation_balance (delta_view P d) pos_delta_data_new del = Inr b \<longleftrightarrow> delta_get_delegation_balance P d del = Inr b"
  "delta_get_pool_delegation_share (delta_view P d) pos_delta_data_new p del = Inr b \<longleftrightarrow> delta_get_pool_delegation_share P d p del = Inr b"
  "delta_pool_exists (delta_view P d) pos_delta_data_new p = Inr e \<longleftrightarrow> delta_pool_exists P d p = Inr e"
  by (auto simp: delta_get_data_query(1) [of "delta_view P d"] delta_get_data_query(2) [of "delta_view P d"]
      delta_get_pool_balance_def [of "delta_view P d"] delta_get_delegation_balance_def [of "delta_view P d"]
      delta_get_pool_delegation_share_def [of "delta_view P d"] delta_pool_exists_def pos_delta_data_new_def
      query_data_empty res_simps combine_amount_delta_def)


lemma fresh_query_data:
  "query_data ViewFail (delta_get_pool_data P d) fmempty p = Inr x \<longleftrightarrow>
    query_data ViewFail (get_pool_data P) (pool_data d) p = Inr x"
  "query_data ViewFail (delta_get_delegation_data P d) fmempty del = Inr y \<longleftrightarrow>
    query_data ViewFail (get_delegation_data P) (delegation_data d) del = Inr y"
  by (simp_all add: delta_get_data_query query_data_empty res_simps)

lemma pos_merge_Inr:
  "pos_merge_with_delta n d = (Inr m, d') \<longleftrightarrow> (\<exists>pb sh db pd dd u v.
    merge_delta_amounts (pool_balances n) (pool_balances d) = (Inr (), pb)
    \<and> merge_delta_amounts (pool_delegation_shares n) (pool_delegation_shares d) = (Inr (), sh)
    \<and> merge_delta_amounts (delegation_balances n) (delegation_balances d) = (Inr (), db)
    \<and> merge_delta_data (pool_data n) (pool_data d) = (Inr u, pd)
    \<and> merge_delta_data (delegation_data n) (delegation_data d) = (Inr v, dd)
    \<and> d' = \<lparr>pool_data = pd, pool_balances = pb, pool_delegation_shares = sh, delegation_balances = db, delegation_data = dd\<rparr>
    \<and> m = \<lparr>pool_data_undo = u, delegation_data_undo = v, pool_balances_undo = pool_balances n,
        pool_delegation_shares_undo = pool_delegation_shares n, delegation_balances_undo = delegation_balances n\<rparr>)"
  by (cases d) (auto simp: pos_merge_with_delta_def op_simps)

lemmas pos_op_Inr = create_pool_Inr decommission_pool_Inr increase_staker_rewards_Inr create_delegation_id_Inr
  delete_delegation_id_Inr delegate_staking_Inr spend_share_from_delegation_id_Inr

lemma new_fields [simp]:
  "pool_data pos_delta_data_new = fmempty" "pool_balances pos_delta_data_new = fmempty"
  "pool_delegation_shares pos_delta_data_new = fmempty" "delegation_balances pos_delta_data_new = fmempty"
  "delegation_data pos_delta_data_new = fmempty"
  by (simp_all add: pos_delta_data_new_def)

lemma fresh_apply:
  assumes "pos_wf d"
  shows "(\<exists>n m. pos_apply h (delta_view P d) cmd pos_delta_data_new = (Inr u, n) \<and> pos_merge_with_delta n d = (Inr m, d'))
    \<longleftrightarrow> pos_apply h P cmd d = (Inr u, d')"
proof -
  obtain pd pb sh db dd where d: "d = \<lparr>pool_data = pd, pool_balances = pb, pool_delegation_shares = sh,
      delegation_balances = db, delegation_data = dd\<rparr>" by (cases d)
  have wf: "wf_amounts pb" "wf_amounts sh" "wf_amounts db" using assms by (simp_all add: pos_wf_def d)
  note fresh = d pos_apply_def pos_op_Inr op_simps pos_merge_Inr fresh_query_data fresh_queries add_unsigned_empty sub_unsigned_empty
    merge_one_data query_composable wf [THEN merge_one_add] wf [THEN merge_one_sub]
  show ?thesis by (cases cmd) (auto simp: fresh)
qed

lemma fresh_query_twice:
  "query_data ViewFail (query_data ViewFail q c) fmempty k = query_data ViewFail q c k"
  "query_amount ViewFail AccountingError (query_amount ViewFail AccountingError r e) fmempty k = Inr b
    \<longleftrightarrow> query_amount ViewFail AccountingError r e k = Inr b"
  by (auto simp: query_data_def get_data_def query_amount_def combine_amount_delta_def map_err_def
      split: option.splits sum.splits get_data_result.splits)

lemma fresh_undo:
  assumes "pos_wf d"
  shows "(\<exists>n m. pos_undo_op (delta_view P d) u pos_delta_data_new = (Inr (), n) \<and> pos_merge_with_delta n d = (Inr m, d'))
    \<longleftrightarrow> pos_undo_op P u d = (Inr (), d')"
proof -
  obtain pd pb sh db dd where d: "d = \<lparr>pool_data = pd, pool_balances = pb, pool_delegation_shares = sh,
      delegation_balances = db, delegation_data = dd\<rparr>" by (cases d)
  have wf: "wf_amounts pb" "wf_amounts sh" "wf_amounts db" using assms by (simp_all add: pos_wf_def d)
  note fresh = d pos_undo_op_def pos_defs Let_def op_simps res_simps pos_merge_Inr add_unsigned_empty sub_unsigned_empty
    merge_one_data wf [THEN merge_one_add] wf [THEN merge_one_sub] delta_get_data_query delta_get_amount_query delta_pool_exists_def
    fresh_query_twice pos_delta_data_new_def
  show ?thesis
  proof (cases u)
    case (UndoCreatePool p a w)
    then show ?thesis by (auto simp: fresh)
  next
    case (UndoDecommissionPool p a w)
    then show ?thesis by (auto simp: fresh)
  next
    case (UndoCreateDelegationId del w)
    then show ?thesis by (auto simp: fresh)
  next
    case (UndoDeleteDelegationId del w)
    then show ?thesis by (auto simp: fresh)
  next
    case (UndoDelegateStaking del a)
    then show ?thesis by (auto simp: fresh)
  next
    case (UndoSpendFromShare del a)
    then show ?thesis by (auto simp: fresh ex_bool_eq)
  next
    case (UndoIncreaseStakerRewards p a w)
    then show ?thesis by (auto simp: fresh)
  qed
qed

section \<open>The adapter refines the accumulated delta\<close>

lemma block_delta_upd [simp]:
  "block_delta source (a\<lparr>accounting_delta := d, accounting_block_deltas := fmupd source b m\<rparr>) = b"
  "source' \<noteq> source \<Longrightarrow> block_delta source' (a\<lparr>accounting_delta := d, accounting_block_deltas := fmupd source b (accounting_block_deltas a)\<rparr>)
    = block_delta source' a"
  "block_delta source (a\<lparr>accounting_delta := d\<rparr>) = block_delta source a"
  by (simp_all add: block_delta_def)

lemma on_new_delta_Inr:
  "on_new_delta P source f a = (Inr r, a') \<longleftrightarrow> (\<exists>n m1 d m2 b. f (delta_view P (accounting_delta a)) pos_delta_data_new = (Inr r, n)
    \<and> pos_merge_with_delta n (accounting_delta a) = (Inr m1, d) \<and> pos_merge_with_delta n (block_delta source a) = (Inr m2, b)
    \<and> a' = a\<lparr>accounting_delta := d, accounting_block_deltas := fmupd source b (accounting_block_deltas a)\<rparr>)"
  by (auto simp: on_new_delta_def adapter_merge_delta_def merge_block_delta_def op_simps split: prod.splits sum.splits)

definition adapter_wf :: "pos_adapter \<Rightarrow> bool" where
  "adapter_wf a \<longleftrightarrow> pos_wf (accounting_delta a) \<and> (\<forall>source. pos_wf (block_delta source a))"

lemma adapter_wf_new: "adapter_wf pos_adapter_new"
  by (simp add: adapter_wf_def pos_adapter_new_def block_delta_def)

lemma pos_merge_wf: "pos_wf d \<Longrightarrow> pos_merge_with_delta n d = (Inr m, d') \<Longrightarrow> pos_wf d'"
  by (auto simp: pos_wf_def pos_merge_Inr merge_delta_amounts_Inr)

lemma on_new_delta_wf:
  assumes "adapter_wf a" "on_new_delta P source f a = (Inr r, a')"
  shows "adapter_wf a'"
proof -
  obtain n m1 d m2 b where "pos_merge_with_delta n (accounting_delta a) = (Inr m1, d)" "pos_merge_with_delta n (block_delta source a) = (Inr m2, b)"
    and a': "a' = a\<lparr>accounting_delta := d, accounting_block_deltas := fmupd source b (accounting_block_deltas a)\<rparr>"
    using assms(2) by (auto simp: on_new_delta_Inr)
  then have "pos_wf d" "pos_wf b" using assms(1) by (auto simp: adapter_wf_def intro: pos_merge_wf)
  then have "pos_wf (block_delta s a')" for s using assms(1) by (cases "s = source") (simp_all add: adapter_wf_def a')
  then show ?thesis using \<open>pos_wf d\<close> by (simp add: adapter_wf_def a')
qed

lemma adapter_apply_delta:
  assumes "adapter_wf a" "adapter_apply h P source cmd a = (Inr u, a')"
  shows "pos_apply h P cmd (accounting_delta a) = (Inr u, accounting_delta a')"
  using assms fresh_apply [of "accounting_delta a" h P cmd u "accounting_delta a'"]
  by (auto simp: adapter_apply_def on_new_delta_Inr adapter_wf_def)

section \<open>Undo through the adapter\<close>

text \<open>
  A delta \<open>n'\<close> that takes back a delta \<open>n\<close>, and deltas that differ only in entries from a value to itself.
\<close>

definition inverse_data :: "('k, 'a) delta_data \<Rightarrow> ('k, 'a) delta_data \<Rightarrow> bool" where
  "inverse_data n n' \<longleftrightarrow> (\<forall>k. fmlookup n' k = map_option (\<lambda>x. DataDelta (new x) (old x)) (fmlookup n k))"

definition inverse_delta :: "pos_delta_data \<Rightarrow> pos_delta_data \<Rightarrow> bool" where
  "inverse_delta n n' \<longleftrightarrow> (\<forall>k. net (pool_balances n') k = - net (pool_balances n) k)
    \<and> (\<forall>k. net (pool_delegation_shares n') k = - net (pool_delegation_shares n) k)
    \<and> (\<forall>k. net (delegation_balances n') k = - net (delegation_balances n) k)
    \<and> inverse_data (pool_data n) (pool_data n') \<and> inverse_data (delegation_data n) (delegation_data n')"

definition data_like :: "('k, 'a) delta_data \<Rightarrow> ('k, 'a) delta_data \<Rightarrow> bool" where
  "data_like c c' \<longleftrightarrow> (\<forall>k. fmlookup c' k = fmlookup c k \<or> fmlookup c k = None \<and> (\<exists>x. fmlookup c' k = Some (DataDelta x x)))"

definition delta_like :: "pos_delta_data \<Rightarrow> pos_delta_data \<Rightarrow> bool" where
  "delta_like d e \<longleftrightarrow> pool_balances e = pool_balances d \<and> pool_delegation_shares e = pool_delegation_shares d
    \<and> delegation_balances e = delegation_balances d \<and> data_like (pool_data d) (pool_data e)
    \<and> data_like (delegation_data d) (delegation_data e)"

lemma delta_like_refl [simp]: "delta_like d d"
  by (simp add: delta_like_def data_like_def)

lemma merge_delta_data_ok:
  assumes "\<And>k. composable (fmlookup c k) (fmlookup n k)"
  shows "\<exists>u c'. merge_delta_data n c = (Inr u, c')"
proof -
  define base where "base k = (case fmlookup c k of Some x \<Rightarrow> old x | None \<Rightarrow> (case fmlookup n k of Some y \<Rightarrow> old y | None \<Rightarrow> None))" for k
  have "based base c" by (simp add: based_def base_def)
  moreover have "based (data_at base c) n"
    unfolding based_def
  proof (intro allI impI)
    fix k y assume "fmlookup n k = Some y"
    then show "old y = data_at base c k" using assms [of k] by (cases "fmlookup c k") (simp_all add: data_at_def base_def)
  qed
  ultimately show ?thesis by (rule merge_delta_data_based(2))
qed

lemma data_like_back:
  assumes "merge_delta_data n c = (Inr u, c')" "data_like c' e'" "inverse_data n n'"
  shows "\<exists>v e. merge_delta_data n' e' = (Inr v, e) \<and> data_like c e"
proof -
  have m: "composable (fmlookup c k) (fmlookup n k)" "fmlookup c' k = delta_comp (fmlookup c k) (fmlookup n k)" for k
    using assms(1) by (auto simp: merge_delta_data_Inr)
  have e': "fmlookup e' k = fmlookup c' k \<or> fmlookup c' k = None \<and> (\<exists>x. fmlookup e' k = Some (DataDelta x x))" for k
    using assms(2) by (simp add: data_like_def)
  have n': "fmlookup n' k = map_option (\<lambda>x. DataDelta (new x) (old x)) (fmlookup n k)" for k
    using assms(3) by (simp add: inverse_data_def)
  have "composable (fmlookup e' k) (fmlookup n' k)" for k
    using m [of k] e' [of k] by (cases "fmlookup n k"; cases "fmlookup c k") (auto simp: n')
  then obtain v e where e: "merge_delta_data n' e' = (Inr v, e)" using merge_delta_data_ok by blast
  then have l: "fmlookup e k = delta_comp (fmlookup e' k) (fmlookup n' k)" for k by (simp add: merge_delta_data_Inr)
  have "fmlookup e k = fmlookup c k \<or> fmlookup c k = None \<and> (\<exists>x. fmlookup e k = Some (DataDelta x x))" for k
    using m [of k] e' [of k] by (cases "fmlookup n k"; cases "fmlookup c k") (auto simp: n' l data_delta.expand)
  then show ?thesis using e by (auto simp: data_like_def)
qed

lemma amounts_back:
  assumes "wf_amounts c" "merge_delta_amounts n c = (Inr (), c')" "\<And>k. net n' k = - net n k"
  shows "merge_delta_amounts n' c' = (Inr (), c)"
  using assms by (auto simp: merge_delta_amounts_Inr)

lemma delta_like_back:
  assumes "pos_wf d" "pos_merge_with_delta n d = (Inr m, d')" "delta_like d' e'" "inverse_delta n n'"
  shows "\<exists>m' e. pos_merge_with_delta n' e' = (Inr m', e) \<and> delta_like d e"
proof -
  obtain u v where am: "merge_delta_amounts (pool_balances n) (pool_balances d) = (Inr (), pool_balances d')"
      "merge_delta_amounts (pool_delegation_shares n) (pool_delegation_shares d) = (Inr (), pool_delegation_shares d')"
      "merge_delta_amounts (delegation_balances n) (delegation_balances d) = (Inr (), delegation_balances d')"
    and dm: "merge_delta_data (pool_data n) (pool_data d) = (Inr u, pool_data d')"
      "merge_delta_data (delegation_data n) (delegation_data d) = (Inr v, delegation_data d')"
    using assms(2) by (auto simp: pos_merge_Inr)
  note inv = assms(4) [unfolded inverse_delta_def] and like = assms(3) [unfolded delta_like_def]
  obtain pd u' where pd: "merge_delta_data (pool_data n') (pool_data e') = (Inr u', pd)" "data_like (pool_data d) pd"
    using data_like_back [OF dm(1), of "pool_data e'" "pool_data n'"] inv like by blast
  obtain dd v' where dd: "merge_delta_data (delegation_data n') (delegation_data e') = (Inr v', dd)" "data_like (delegation_data d) dd"
    using data_like_back [OF dm(2), of "delegation_data e'" "delegation_data n'"] inv like by blast
  have "merge_delta_amounts (pool_balances n') (pool_balances e') = (Inr (), pool_balances d)"
    "merge_delta_amounts (pool_delegation_shares n') (pool_delegation_shares e') = (Inr (), pool_delegation_shares d)"
    "merge_delta_amounts (delegation_balances n') (delegation_balances e') = (Inr (), delegation_balances d)"
    using amounts_back [OF _ am(1), of "pool_balances n'"] amounts_back [OF _ am(2), of "pool_delegation_shares n'"]
      amounts_back [OF _ am(3), of "delegation_balances n'"] inv like assms(1) by (simp_all add: pos_wf_def)
  with pd dd show ?thesis by (simp add: pos_merge_Inr delta_like_def)
qed

lemma net_one [simp]:
  "amt a < 2 ^ 127 \<Longrightarrow> net (fm_put k (net_slot (amt a)) fmempty) j = (if j = k then amt a else 0)"
  "amt a < 2 ^ 127 \<Longrightarrow> net (fm_put k (net_slot (- amt a)) fmempty) j = (if j = k then - amt a else 0)"
proof -
  assume a: "amt a < 2 ^ 127"
  have "i128_range (amt a)" "i128_range (- amt a)" using a amt_range(1) [of a] by linarith+
  then show "net (fm_put k (net_slot (amt a)) fmempty) j = (if j = k then amt a else 0)"
    "net (fm_put k (net_slot (- amt a)) fmempty) j = (if j = k then - amt a else 0)" by simp_all
qed

lemma inverse_data_one [simp]:
  "inverse_data (fmupd k (DataDelta x y) fmempty) (fmupd k (DataDelta y x) fmempty)" "inverse_data fmempty fmempty"
  by (simp_all add: inverse_data_def)

lemmas pos_undo_defs = pos_undo_op_def undo_create_pool_def undo_decommission_pool_def undo_create_delegation_id_def
  undo_delete_delegation_id_def undo_delegate_staking_def undo_spend_share_from_delegation_id_def undo_increase_staker_balance_def Let_def

lemma fresh_inverse:
  assumes "pos_apply h (delta_view P d) cmd pos_delta_data_new = (Inr u, n)" "pos_merge_with_delta n d = (Inr m, d')"
    "pos_sim P d' e'" "pos_undo_op (delta_view P e') u pos_delta_data_new = (Inr (), n')"
  shows "inverse_delta n n'"
proof -
  note q = pos_sim_queries [OF assms(3)]
  note fresh = pos_apply_def pos_op_Inr op_simps pos_undo_defs res_simps
    fresh_queries fresh_query_data add_unsigned_empty sub_unsigned_empty inverse_delta_def invert_def
  show ?thesis
  proof (cases cmd)
    case (CmdCreatePool p data)
    then show ?thesis using assms(1,4) by (auto simp: fresh)
  next
    case (CmdDecommissionPool p)
    then show ?thesis using assms(1,4) by (auto simp: fresh)
  next
    case (CmdIncreaseStakerRewards p a)
    then show ?thesis using assms(1,4) by (auto simp: fresh)
  next
    case (CmdCreateDelegationId p dest i)
    then show ?thesis using assms(1,4) by (auto simp: fresh)
  next
    case (CmdDeleteDelegationId del)
    then show ?thesis using assms(1,4) by (auto simp: fresh)
  next
    case (CmdDelegateStaking del a)
    then have n: "pool_data n = fmempty" "delegation_data n = fmempty" using assms(1) by (auto simp: fresh)
    have "delta_get_delegation_data P e' = query_data ViewFail (get_delegation_data P) (delegation_data d)"
      unfolding q using assms(2) by (auto simp: delta_get_data_query pos_merge_Inr n)
    then show ?thesis using assms(1,4) CmdDelegateStaking
      by (auto simp: fresh)
  next
    case (CmdSpendShare del a)
    then have n: "pool_data n = fmempty" "delegation_data n = fmempty" using assms(1) by (auto simp: fresh)
    have "delta_get_delegation_data P e' = query_data ViewFail (get_delegation_data P) (delegation_data d)" "delta_pool_exists P e' = delta_pool_exists P d"
      unfolding q using assms(2) by (auto simp: delta_get_data_query pos_merge_Inr n delta_pool_exists_def fun_eq_iff)
    moreover have "delta_pool_exists V (pos_delta_data_new\<lparr>delegation_balances := x\<rparr>) = delta_pool_exists V pos_delta_data_new"
      for V :: "pos_error pos_view" and x by (simp add: fun_eq_iff delta_pool_exists_def delta_get_pool_data_def)
    ultimately show ?thesis using assms(1,4) CmdSpendShare by (auto simp: fresh)
  qed
qed

definition adapter_sim :: "'e pos_view \<Rightarrow> pos_adapter \<Rightarrow> pos_adapter \<Rightarrow> bool" where
  "adapter_sim P a b \<longleftrightarrow> pos_sim P (accounting_delta a) (accounting_delta b)
    \<and> (\<forall>source. delta_like (block_delta source a) (block_delta source b))"

lemma adapter_sim_refl [simp]: "adapter_sim P a a"
  by (simp add: adapter_sim_def)

lemma pos_sim_wf: "pos_sim P d e \<Longrightarrow> pos_wf d \<Longrightarrow> pos_wf e"
  by (simp add: pos_sim_def pos_wf_def)

lemma adapter_apply_wf: "adapter_wf a \<Longrightarrow> adapter_apply h P source cmd a = (Inr u, a') \<Longrightarrow> adapter_wf a'"
  unfolding adapter_apply_def by (rule on_new_delta_wf)

lemma adapter_apply_undo_sim:
  assumes "adapter_wf a" "adapter_apply h P source cmd a = (Inr u, a')" "adapter_sim P a' b'"
  shows "\<exists>b. adapter_undo P source u b' = (Inr (), b) \<and> adapter_sim P a b"
proof -
  obtain n m1 d m2 c where n: "pos_apply h (delta_view P (accounting_delta a)) cmd pos_delta_data_new = (Inr u, n)"
    "pos_merge_with_delta n (accounting_delta a) = (Inr m1, d)" "pos_merge_with_delta n (block_delta source a) = (Inr m2, c)"
    and a': "a' = a\<lparr>accounting_delta := d, accounting_block_deltas := fmupd source c (accounting_block_deltas a)\<rparr>"
    using assms(2) by (auto simp: adapter_apply_def on_new_delta_Inr)
  have wf: "pos_wf (accounting_delta a)" "pos_wf (block_delta source a)" using assms(1) by (simp_all add: adapter_wf_def)
  have sim: "pos_sim P d (accounting_delta b')" "delta_like c (block_delta source b')"
    using assms(3) by (auto simp: adapter_sim_def a' dest: spec [of _ source])
  have "pos_apply h P cmd (accounting_delta a) = (Inr u, d)" using adapter_apply_delta [OF assms(1,2)] by (simp add: a')
  then obtain e where e: "pos_undo_op P u (accounting_delta b') = (Inr (), e)" "pos_sim P (accounting_delta a) e"
    using pos_apply_undo_sim [OF wf(1) _ sim(1)] by blast
  have "pos_wf (accounting_delta b')" using sim(1) pos_merge_wf [OF wf(1) n(2)] by (rule pos_sim_wf)
  from fresh_undo [OF this, of P u e] e(1) obtain n' m3 where n': "pos_undo_op (delta_view P (accounting_delta b')) u pos_delta_data_new = (Inr (), n')"
    "pos_merge_with_delta n' (accounting_delta b') = (Inr m3, e)" by blast
  have "inverse_delta n n'" using fresh_inverse [OF n(1,2) sim(1) n'(1)] .
  then obtain m4 x where x: "pos_merge_with_delta n' (block_delta source b') = (Inr m4, x)" "delta_like (block_delta source a) x"
    using delta_like_back [OF wf(2) n(3) sim(2)] by blast
  define b where "b = b'\<lparr>accounting_delta := e, accounting_block_deltas := fmupd source x (accounting_block_deltas b')\<rparr>"
  have "adapter_undo P source u b' = (Inr (), b)" using n' x(1) by (auto simp: adapter_undo_def on_new_delta_Inr b_def)
  moreover have "delta_like (block_delta s a) (block_delta s b)" for s
    using x(2) assms(3) by (cases "s = source") (auto simp: b_def adapter_sim_def a' dest: spec [of _ s])
  then have "adapter_sim P a b" using e(2) by (simp add: adapter_sim_def b_def)
  ultimately show ?thesis by blast
qed

lemma adapter_run_wf: "adapter_wf a \<Longrightarrow> op_map (adapter_apply h P source) cmds a = (Inr us, a') \<Longrightarrow> adapter_wf a'"
  by (induction cmds arbitrary: a us) (auto simp: op_simps intro: adapter_apply_wf)

lemma adapter_run_delta:
  "adapter_wf a \<Longrightarrow> op_map (adapter_apply h P source) cmds a = (Inr us, a') \<Longrightarrow>
    op_map (pos_apply h P) cmds (accounting_delta a) = (Inr us, accounting_delta a')"
proof (induction cmds arbitrary: a us)
  case (Cons cmd cmds)
  then obtain u a1 vs where u: "adapter_apply h P source cmd a = (Inr u, a1)"
    and vs: "op_map (adapter_apply h P source) cmds a1 = (Inr vs, a')" and us: "us = u # vs"
    by (auto simp: op_simps)
  show ?case using adapter_apply_delta [OF Cons.prems(1) u] Cons.IH [OF adapter_apply_wf [OF Cons.prems(1) u] vs]
    by (auto simp: op_simps us)
qed (simp add: op_simps)

lemma adapter_run_other:
  assumes "op_map (adapter_apply h P source) cmds a = (Inr us, a')" "other \<noteq> source"
  shows "block_delta other a' = block_delta other a"
  using assms by (induction cmds arbitrary: a us) (auto simp: op_simps adapter_apply_def on_new_delta_Inr)

lemma adapter_run_undo_sim:
  assumes "adapter_wf a" "op_map (adapter_apply h P source) cmds a = (Inr us, a')" "adapter_sim P a' b'"
  shows "\<exists>b. op_for_each (adapter_undo P source) (rev us) b' = (Inr (), b) \<and> adapter_sim P a b"
  using assms
proof (induction cmds arbitrary: a us)
  case Nil
  then show ?case by (auto simp: op_simps)
next
  case (Cons cmd cmds)
  then obtain u a1 vs where u: "adapter_apply h P source cmd a = (Inr u, a1)"
    and vs: "op_map (adapter_apply h P source) cmds a1 = (Inr vs, a')" and us: "us = u # vs"
    by (auto simp: op_simps)
  obtain b1 where b1: "op_for_each (adapter_undo P source) (rev vs) b' = (Inr (), b1)" "adapter_sim P a1 b1"
    using Cons.IH [OF adapter_apply_wf [OF Cons.prems(1) u] vs Cons.prems(3)] by blast
  obtain b where b: "adapter_undo P source u b1 = (Inr (), b)" "adapter_sim P a b"
    using adapter_apply_undo_sim [OF Cons.prems(1) u b1(2)] by blast
  have "op_for_each (adapter_undo P source) (rev vs @ [u]) b' = (Inr (), b)"
    using b1(1) b(1) op_for_each_append [of "adapter_undo P source" "rev vs" "[u]" b' "()" b]
    by (auto simp: op_for_each_Cons)
  then show ?case using b(2) by (auto simp: us)
qed

section \<open>Properties\<close>

text \<open>
  The adapter is transparent. An operation that succeeds through the adapter succeeds directly on the accumulated
  delta with the same undo data and result; the block delta of its source absorbs the same change and no other block delta
  changes. Undoing a sequence of operations of one source in reverse order through the adapter succeeds and restores
  every query of the accumulated delta.
\<close>

theorem adapter_refines_delta:
  assumes "adapter_wf a" "op_map (adapter_apply h P source) cmds a = (Inr us, a')"
  shows "op_map (pos_apply h P) cmds (accounting_delta a) = (Inr us, accounting_delta a')
    \<and> (\<forall>other. other \<noteq> source \<longrightarrow> block_delta other a' = block_delta other a)
    \<and> (\<exists>b. op_for_each (adapter_undo P source) (rev us) a' = (Inr (), b)
        \<and> delta_view P (accounting_delta b) = delta_view P (accounting_delta a)
        \<and> delta_like (block_delta source a) (block_delta source b))"
proof -
  obtain b where "op_for_each (adapter_undo P source) (rev us) a' = (Inr (), b)" "adapter_sim P a b"
    using adapter_run_undo_sim [OF assms adapter_sim_refl] by blast
  then show ?thesis using adapter_run_delta [OF assms] adapter_run_other [OF assms(2)] pos_sim_view
    by (auto simp: adapter_sim_def)
qed

lemma example_adapter_run:
  "case op_map (adapter_apply sample_hasher empty_view SourceMempool) sample_commands pos_adapter_new of (Inr us, _) \<Rightarrow> length us = length sample_commands | _ \<Rightarrow> False"
  by code_simp

theorem adapter_refines_delta_witness:
  "\<exists>us a b. op_map (adapter_apply sample_hasher empty_view SourceMempool) sample_commands pos_adapter_new = (Inr us, a)
    \<and> op_map (pos_apply sample_hasher empty_view) sample_commands pos_delta_data_new = (Inr us, accounting_delta a)
    \<and> op_for_each (adapter_undo empty_view SourceMempool) (rev us) a = (Inr (), b)"
proof -
  obtain us a where r: "op_map (adapter_apply sample_hasher empty_view SourceMempool) sample_commands pos_adapter_new = (Inr us, a)"
    using example_adapter_run by (auto split: prod.splits sum.splits)
  with adapter_refines_delta [OF adapter_wf_new r] show ?thesis by (auto simp: pos_adapter_new_def)
qed

end
