(* ===== verification/RewardDistribution.thy ===== *)
theory RewardDistribution
  imports PoSAdapter OrdersSafety Config
begin

text \<open>
  The distribution of the block reward among the staker and the delegations of a pool
  (\<open>chainstate/tx-verifier/src/transaction_verifier/reward_distribution.rs\<close>): the shares are exact, the whole reward is
  paid out, and undoing the distribution in the order in which it was made restores the accounting.
\<close>

section \<open>Distribution of the reward\<close>

datatype reward_distribution_error =
    RewardPoSAccountingError pos_error
  | InvariantPoolBalanceIsZero pool_id
  | InvariantStakerBalanceGreaterThanPoolBalance pool_id amount amount
  | RewardAdditionError h256
  | TotalDelegationBalanceZero pool_id
  | RewardPoolDataNotFound pool_id
  | StakerRewardCalculationFailed h256 pool_id
  | StakerRewardCannotExceedTotalReward h256 pool_id amount amount
  | DistributedDelegationsRewardExceedTotal pool_id h256 amount amount
  | DelegationRewardOverflow delegation_id amount amount amount
  | DelegationsRewardSumFailed h256 pool_id
  | StakerRewardOverflow pool_id amount amount amount

text \<open>The traits \<open>PoSAccountingView\<close> and \<open>PoSAccountingOperations\<close> as far as the distribution uses them.\<close>

record 's reward_accounting =
  reward_view :: "'s \<Rightarrow> pos_error pos_view"
  reward_delegate_staking :: "delegation_id \<Rightarrow> amount \<Rightarrow> ('s, pos_error, pos_undo) op"
  reward_increase_staker_rewards :: "pool_id \<Rightarrow> amount \<Rightarrow> ('s, pos_error, pos_undo) op"

definition adapter_operations :: "id_hasher \<Rightarrow> 'e pos_view \<Rightarrow> transaction_source \<Rightarrow> pos_adapter reward_accounting" where
  "adapter_operations h P source = \<lparr>reward_view = (\<lambda>a. delta_view P (accounting_delta a)),
    reward_delegate_staking = (\<lambda>del amount. adapter_apply h P source (CmdDelegateStaking del amount)),
    reward_increase_staker_rewards = (\<lambda>pool amount. adapter_apply h P source (CmdIncreaseStakerRewards pool amount))\<rparr>"

definition calculate_staker_reward_v0 :: "amount \<Rightarrow> amount \<Rightarrow> per_thousand \<Rightarrow> amount option" where
  "calculate_staker_reward_v0 total_reward cost mpt = (case amount_sub total_reward cost of
      Some to_distribute \<Rightarrow>
        Option.bind (amount_mul to_distribute (ucast (per_thousand_value mpt))) (\<lambda>v.
        Option.bind (amount_div v 1000) (\<lambda>v. amount_add v cost))
    | None \<Rightarrow> Some total_reward)"

definition u256_to_atoms :: "u256 \<Rightarrow> u128 option" where
  "u256_to_atoms x = (if uint x < 2 ^ 128 then Some (ucast x) else None)"

abbreviation u256_from_amount :: "amount \<Rightarrow> u256" where
  "u256_from_amount a \<equiv> ucast (into_atoms a)"

definition calculate_staker_reward_v1 ::
  "amount \<Rightarrow> amount \<Rightarrow> amount \<Rightarrow> amount \<Rightarrow> per_thousand \<Rightarrow> pool_id \<Rightarrow> reward_distribution_error fault + amount" where
  "calculate_staker_reward_v1 total_reward balance staker_bal cost mpt pool =
    (if \<not> staker_bal \<le> balance then Inl (Err (InvariantStakerBalanceGreaterThanPoolBalance pool staker_bal balance))
     else if \<not> balance > amount_ZERO then Inl (Err (InvariantPoolBalanceIsZero pool))
     else case amount_sub total_reward cost of
       Some to_distribute \<Rightarrow>
         res_bind (expect (checked_mul (u256_from_amount to_distribute) (u256_from_amount staker_bal))) (\<lambda>numer.
         res_bind (expect (checked_div numer (u256_from_amount balance))) (\<lambda>quotient.
         res_bind (expect (u256_to_atoms quotient)) (\<lambda>pro_rata_atoms.
         let pro_rata_staker_reward = from_atoms pro_rata_atoms in
         res_bind (expect (amount_sub to_distribute pro_rata_staker_reward)) (\<lambda>delegators_reward.
         res_bind (expect (Option.bind (checked_mul (u256_from_amount delegators_reward) (ucast (per_thousand_value mpt)))
           (\<lambda>v. checked_div v 1000))) (\<lambda>margin.
         res_bind (expect (u256_to_atoms margin)) (\<lambda>margin_reward.
         ok_or (Err (StakerRewardOverflow pool (from_atoms margin_reward) pro_rata_staker_reward cost))
           (amount_sum_macro (Some (from_atoms margin_reward)) [pro_rata_staker_reward, cost])))))))
     | None \<Rightarrow> Inr total_reward)"

definition calculate_rewards_per_delegation ::
  "(delegation_id \<times> amount) list \<Rightarrow> pool_id \<Rightarrow> amount \<Rightarrow> amount
    \<Rightarrow> reward_distribution_error fault + (delegation_id \<times> amount) list" where
  "calculate_rewards_per_delegation shares pool total_balance total_reward =
    (if total_balance = amount_ZERO then Inl (Err (TotalDelegationBalanceZero pool))
     else res_map (\<lambda>(del, balance).
       res_bind (expect (checked_mul (u256_from_amount total_reward) (u256_from_amount balance))) (\<lambda>numer.
       res_bind (ok_or (Err (TotalDelegationBalanceZero pool)) (checked_div numer (u256_from_amount total_balance))) (\<lambda>reward.
       res_bind (ok_or (Err (DelegationRewardOverflow del total_balance total_reward balance)) (u256_to_atoms reward)) (\<lambda>atoms.
       Inr (del, from_atoms atoms))))) shares)"

definition distribute_delegations_pos_reward ::
  "'s reward_accounting \<Rightarrow> (delegation_id, amount) fmap \<Rightarrow> h256 \<Rightarrow> pool_id \<Rightarrow> amount \<Rightarrow> amount
    \<Rightarrow> ('s, reward_distribution_error fault, pos_undo list \<times> amount) op" where
  "distribute_delegations_pos_reward acc shares block_id pool total_balance total_reward =
    op_bind (op_read (\<lambda>_. calculate_rewards_per_delegation (sorted_list_of_fmap shares) pool total_balance total_reward)) (\<lambda>rewards.
    op_bind (op_map (\<lambda>(del, reward). op_map_err (\<lambda>e. Err (RewardPoSAccountingError e)) (reward_delegate_staking acc del reward))
      (filter (\<lambda>(_, reward). reward > amount_ZERO) rewards)) (\<lambda>undos.
    op_bind (op_read (\<lambda>_. ok_or (Err (DelegationsRewardSumFailed block_id pool)) (amount_sum (map snd rewards)))) (\<lambda>distributed.
    op_bind (op_read (\<lambda>_. ok_or (Err (DistributedDelegationsRewardExceedTotal pool block_id distributed total_reward))
      (amount_sub total_reward distributed))) (\<lambda>remainder.
    op_return (undos, remainder)))))"

definition distribute_pos_reward ::
  "'s reward_accounting \<Rightarrow> h256 \<Rightarrow> pool_id \<Rightarrow> amount \<Rightarrow> reward_distribution_version
    \<Rightarrow> ('s, reward_distribution_error fault, pos_undo list) op" where
  "distribute_pos_reward acc block_id pool total_reward version =
    op_bind (op_read (\<lambda>s. res_bind (map_err (\<lambda>e. Err (RewardPoSAccountingError e)) (get_pool_data (reward_view acc s) pool))
      (ok_or (Err (RewardPoolDataNotFound pool))))) (\<lambda>data.
    op_bind (op_read (\<lambda>s. map_err (\<lambda>e. Err (RewardPoSAccountingError e)) (get_pool_balance (reward_view acc s) pool))) (\<lambda>balance.
    op_bind (op_read (\<lambda>_. case version of
        RewardDistributionV0 \<Rightarrow> ok_or (Err (StakerRewardCalculationFailed block_id pool))
          (calculate_staker_reward_v0 total_reward (cost_per_block data) (margin_ratio_per_thousand data))
      | RewardDistributionV1 \<Rightarrow>
          res_bind (map_err (\<lambda>e. Err (RewardPoSAccountingError e)) (staker_balance data)) (\<lambda>staker_bal.
          calculate_staker_reward_v1 total_reward balance staker_bal (cost_per_block data) (margin_ratio_per_thousand data) pool))) (\<lambda>staker_reward.
    op_bind (op_read (\<lambda>_. ok_or (Err (StakerRewardCannotExceedTotalReward block_id pool staker_reward total_reward))
      (amount_sub total_reward staker_reward))) (\<lambda>total_delegations_reward.
    op_bind (if total_delegations_reward > amount_ZERO then
        op_bind (op_read (\<lambda>s. map_err (\<lambda>e. Err (RewardPoSAccountingError e)) (get_pool_delegations_shares (reward_view acc s) pool))) (\<lambda>found.
        case found of
          Some delegation_shares \<Rightarrow>
            op_bind (op_read (\<lambda>_. ok_or (Err (DelegationsRewardSumFailed block_id pool))
              (amount_sum (map snd (sorted_list_of_fmap delegation_shares))))) (\<lambda>total_delegations_balance.
            if total_delegations_balance > amount_ZERO
            then distribute_delegations_pos_reward acc delegation_shares block_id pool total_delegations_balance total_delegations_reward
            else op_return ([], total_delegations_reward))
        | None \<Rightarrow> op_return ([], total_delegations_reward))
      else op_return ([], amount_ZERO)) (\<lambda>(delegation_undos, unallocated_reward).
    op_bind (op_read (\<lambda>_. ok_or (Err (RewardAdditionError block_id)) (amount_add staker_reward unallocated_reward))) (\<lambda>total_staker_reward.
    op_bind (op_map_err (\<lambda>e. Err (RewardPoSAccountingError e)) (reward_increase_staker_rewards acc pool total_staker_reward)) (\<lambda>u.
    op_return (delegation_undos @ [u]))))))))"


section \<open>Exactness of the rewards\<close>

lemma u256_to_atoms_Some: "u256_to_atoms x = Some w \<longleftrightarrow> uint w = uint x"
proof
  show "uint w = uint x" if "u256_to_atoms x = Some w"
    using that by (auto simp: u256_to_atoms_def unsigned_ucast_eq take_bit_int_eq_self_iff split: if_splits)
  assume w: "uint w = uint x"
  then have "uint x < 2 ^ 128" using uint_range [of w] by simp
  then have "take_bit 128 (uint x) = uint x" by (simp add: take_bit_int_eq_self)
  then have "w = ucast x" using w by (intro word_uint_eqI) (simp add: unsigned_ucast_eq)
  with \<open>uint x < 2 ^ 128\<close> show "u256_to_atoms x = Some w" by (simp add: u256_to_atoms_def)
qed

lemma uint_u256_from_amount [simp]: "uint (u256_from_amount a) = amt a"
  by (simp add: uint_ucast_u256 amt_def into_atoms_def)

lemma amt_from_atoms [simp]: "amt (from_atoms w) = uint w"
  by (simp add: amt_def from_atoms_def)

text \<open>A product of an amount and a value of at most 128 bits, divided, as the code computes it over 256 bits.\<close>

lemma u256_mul_div:
  fixes w v z :: u256
  assumes "uint z = x" "uint v = c" "uint w = b" "x * c < 2 ^ 256" "0 < b" "x * c div b < 2 ^ 128"
  shows "\<exists>p q r. checked_mul z v = Some p \<and> checked_div p w = Some q \<and> u256_to_atoms q = Some r \<and> uint r = x * c div b"
proof -
  obtain p where p: "checked_mul z v = Some p" using assms by (cases "checked_mul z v") (auto simp: checked_mul_None)
  then have up: "uint p = x * c" using assms by (simp add: checked_mul_Some)
  obtain q where q: "checked_div p w = Some q" using assms by (cases "checked_div p w") (auto simp: checked_div_None)
  then have uq: "uint q = x * c div b" using assms up by (simp add: checked_div_Some)
  then have "u256_to_atoms q = Some (ucast q)" using assms by (simp add: u256_to_atoms_def)
  with p q uq show ?thesis by (auto simp: u256_to_atoms_Some)
qed

lemma pro_rata:
  assumes "amt s \<le> amt b" "0 < amt b"
  shows "\<exists>p q r. checked_mul (u256_from_amount a) (u256_from_amount s) = Some p
    \<and> checked_div p (u256_from_amount b) = Some q \<and> u256_to_atoms q = Some r
    \<and> uint r = amt a * amt s div amt b \<and> uint r \<le> amt a"
proof -
  have le: "amt a * amt s div amt b \<le> amt a"
    using assms amt_range(1) [of a] by (intro order_trans [OF zdiv_mono1 [of "amt a * amt s" "amt a * amt b"]]) (simp_all add: mult_left_mono)
  have "amt a * amt s < 2 ^ 128 * 2 ^ 128"
    using amt_range [of a] amt_range [of s] by (intro mult_strict_mono') simp_all
  then have "amt a * amt s < 2 ^ 256" by simp
  moreover have "amt a * amt s div amt b < 2 ^ 128" using le amt_range(2) [of a] by linarith
  ultimately show ?thesis using u256_mul_div [of "u256_from_amount a" "amt a" "u256_from_amount s" "amt s" "u256_from_amount b" "amt b"] assms(2) le
    by auto
qed

definition margin :: "per_thousand \<Rightarrow> int" where
  "margin m = uint (per_thousand_value m)"

lemma margin_nonneg [simp]: "0 \<le> margin m"
  by (simp add: margin_def)

lemma calculate_staker_reward_v1_value:
  assumes "amt staker_bal \<le> amt bal" "0 < amt bal" "margin mpt \<le> 1000"
  shows "\<exists>r. calculate_staker_reward_v1 total_reward bal staker_bal cost mpt pool = Inr r \<and> amt r \<le> amt total_reward
    \<and> amt r = (if amt cost \<le> amt total_reward
        then let rest = amt total_reward - amt cost; pro_rata = rest * amt staker_bal div amt bal
          in amt cost + pro_rata + (rest - pro_rata) * margin mpt div 1000
        else amt total_reward)"
proof (cases "amt cost \<le> amt total_reward")
  case False
  then have "amount_sub total_reward cost = None" by (simp add: amount_simps)
  then show ?thesis using False assms by (simp add: calculate_staker_reward_v1_def amount_le amount_less)
next
  case True
  then obtain rest where rest: "amount_sub total_reward cost = Some rest" "amt rest = amt total_reward - amt cost"
    using amount_sub_exists by blast
  obtain p q r where pqr: "checked_mul (u256_from_amount rest) (u256_from_amount staker_bal) = Some p"
    "checked_div p (u256_from_amount bal) = Some q" "u256_to_atoms q = Some r"
    and r: "uint r = amt rest * amt staker_bal div amt bal" "uint r \<le> amt rest"
    using pro_rata [OF assms(1,2), of rest] by blast
  obtain del where del: "amount_sub rest (from_atoms r) = Some del" "amt del = amt rest - uint r"
    using amount_sub_exists [of "from_atoms r" rest] r(2) by auto
  have m: "uint (ucast (per_thousand_value mpt) :: u256) = margin mpt"
    by (simp add: margin_def unsigned_ucast_eq take_bit_int_eq_self_iff order.strict_trans2 [OF uint_bounded])
  have "amt del * margin mpt \<le> amt del * 1000" using assms(3) by (intro mult_left_mono) simp_all
  then have le1: "amt del * margin mpt div 1000 \<le> amt del" and lt: "amt del * margin mpt < 2 ^ 128 * 1000"
    using amt_range(2) [of del] by linarith+
  have le: "amt del * margin mpt div 1000 \<le> amt del" "amt del * margin mpt < 2 ^ 256" "amt del * margin mpt div 1000 < 2 ^ 128"
    using le1 order.strict_trans2 [OF lt, of "2 ^ 256"] order.strict_trans1 [OF le1 amt_range(2)] by simp_all
  have "uint (1000 :: u256) = 1000" by simp
  from u256_mul_div [of "u256_from_amount del" "amt del", OF _ m this le(2) _ le(3)] obtain p' q' r' where
    p': "checked_mul (u256_from_amount del) (ucast (per_thousand_value mpt)) = Some p'" "checked_div p' 1000 = Some q'"
    "u256_to_atoms q' = Some r'" and r': "uint r' = amt del * margin mpt div 1000" by auto
  have sum: "uint r' + uint r + amt cost \<le> amt total_reward" using le(1) r' del(2) rest(2) by linarith
  then have lt: "uint r' + uint r < 2 ^ 128" "uint r' + uint r + amt cost < 2 ^ 128"
    using amt_range(1) [of cost] amt_range(2) [of total_reward] by linarith+
  then obtain x where x: "amount_add (from_atoms r') (from_atoms r) = Some x" "amt x = uint r' + uint r"
    using amount_add_exists [of "from_atoms r'" "from_atoms r"] by auto
  obtain y where y: "amount_add x cost = Some y" "amt y = uint r' + uint r + amt cost"
    using amount_add_exists [of x cost] x(2) lt by auto
  have "calculate_staker_reward_v1 total_reward bal staker_bal cost mpt pool = Inr y"
    using assms rest(1) pqr del(1) p' x(1) y(1) by (simp add: calculate_staker_reward_v1_def amount_le amount_less Let_def)
  then show ?thesis using True y(2) sum r(1) r' del(2) rest(2) by (simp add: Let_def)
qed

lemma calculate_staker_reward_v0_value:
  assumes "calculate_staker_reward_v0 total_reward cost mpt = Some r" "margin mpt \<le> 1000"
  shows "amt r = (if amt cost \<le> amt total_reward then amt cost + (amt total_reward - amt cost) * margin mpt div 1000 else amt total_reward)"
    and "amt r \<le> amt total_reward"
proof -
  have m: "uint (ucast (per_thousand_value mpt) :: u128) = margin mpt"
    by (simp add: margin_def unsigned_ucast_eq take_bit_int_eq_self_iff order.strict_trans2 [OF uint_bounded])
  show eq: "amt r = (if amt cost \<le> amt total_reward then amt cost + (amt total_reward - amt cost) * margin mpt div 1000 else amt total_reward)"
  proof (cases "amount_sub total_reward cost")
    case None
    then have "amt total_reward < amt cost" by (simp add: amount_sub_None)
    then show ?thesis using assms(1) None by (simp add: calculate_staker_reward_v0_def)
  next
    case (Some rest)
    then obtain v w where v: "amount_mul rest (ucast (per_thousand_value mpt)) = Some v" "amount_div v 1000 = Some w" "amount_add w cost = Some r"
      using assms(1) by (auto simp: calculate_staker_reward_v0_def bind_eq_Some_conv)
    then have "amt r = amt cost + amt rest * margin mpt div 1000" by (simp add: amount_simps m)
    moreover have "amt rest = amt total_reward - amt cost" using Some by (simp add: amount_simps)
    ultimately show ?thesis using amt_range(1) [of rest] by simp
  qed
  show "amt r \<le> amt total_reward"
  proof (cases "amt cost \<le> amt total_reward")
    case True
    then have "(amt total_reward - amt cost) * margin mpt \<le> (amt total_reward - amt cost) * 1000"
      using assms(2) by (intro mult_left_mono) simp_all
    then show ?thesis using True eq by simp
  qed (simp add: eq)
qed

section \<open>The reward is distributed completely\<close>

definition share_reward :: "int \<Rightarrow> int \<Rightarrow> amount \<Rightarrow> int" where
  "share_reward reward balances s = reward * amt s div balances"

lemma calculate_rewards_per_delegation_Inr:
  assumes "calculate_rewards_per_delegation shares pool total_balance total_reward = Inr rewards"
  shows "0 < amt total_balance" "map fst rewards = map fst shares"
    "map (amt \<circ> snd) rewards = map (share_reward (amt total_reward) (amt total_balance) \<circ> snd) shares"
proof -
  have "amt total_balance \<noteq> 0" using assms by (auto simp: calculate_rewards_per_delegation_def)
  then show "0 < amt total_balance" using amt_range(1) [of total_balance] by linarith
  have "list_all2 (\<lambda>x y. fst y = fst x \<and> amt (snd y) = share_reward (amt total_reward) (amt total_balance) (snd x)) shares rewards"
    using assms
    by (auto simp: calculate_rewards_per_delegation_def res_simps checked_simps u256_to_atoms_Some share_reward_def
        split: if_splits elim!: list_all2_mono)
  then show "map fst rewards = map fst shares"
    "map (amt \<circ> snd) rewards = map (share_reward (amt total_reward) (amt total_balance) \<circ> snd) shares"
    by (induction rule: list_all2_induct) simp_all
qed

lemma res_map_Inl: "res_map f xs = Inl e \<Longrightarrow> \<exists>x \<in> set xs. f x = Inl e"
  by (induction xs) (auto simp: res_simps)

lemma calculate_rewards_per_delegation_no_panic:
  "calculate_rewards_per_delegation shares pool total_balance total_reward \<noteq> Inl Panic"
proof
  assume "calculate_rewards_per_delegation shares pool total_balance total_reward = Inl Panic"
  then obtain s where "checked_mul (u256_from_amount total_reward) (u256_from_amount s) = None"
    by (auto simp: calculate_rewards_per_delegation_def res_simps dest!: res_map_Inl split: if_splits)
  then have "\<not> amt total_reward * amt s < 2 ^ 256" by (simp add: checked_mul_None)
  moreover have "amt total_reward * amt s < 2 ^ 128 * 2 ^ 128"
    using amt_range [of total_reward] amt_range [of s] by (intro mult_strict_mono') simp_all
  ultimately show False by simp
qed

lemma sum_filter_positive: "(\<Sum>x\<leftarrow>filter (\<lambda>(_, r). r \<noteq> amount_ZERO) xs. amt (snd x)) = (\<Sum>x\<leftarrow>xs. amt (snd x))"
  by (induction xs) auto

lemma op_map_map_err: "op_map (\<lambda>x. op_map_err g (f x)) xs s = (Inr us, t) \<longleftrightarrow> op_map f xs s = (Inr us, t)"
  by (induction xs arbitrary: s us) (simp_all add: op_simps)

lemma distribute_delegations_Inr:
  assumes "distribute_delegations_pos_reward acc shares block_id pool total_balance total_reward s = (Inr (us, rest), s')"
  shows "\<exists>rewards. calculate_rewards_per_delegation (sorted_list_of_fmap shares) pool total_balance total_reward = Inr rewards
    \<and> op_map (\<lambda>(del, r). reward_delegate_staking acc del r) (filter (\<lambda>(_, r). r \<noteq> amount_ZERO) rewards) s = (Inr us, s')
    \<and> amt rest = amt total_reward - (\<Sum>x\<leftarrow>filter (\<lambda>(_, r). r \<noteq> amount_ZERO) rewards. amt (snd x))"
proof -
  have c: "(\<lambda>(del, reward). op_map_err g (f del reward)) = (\<lambda>x. op_map_err g (case x of (del, reward) \<Rightarrow> f del reward))"
    for g :: "pos_error \<Rightarrow> reward_distribution_error fault" and f :: "delegation_id \<Rightarrow> amount \<Rightarrow> ('a, pos_error, pos_undo) op"
    by (simp add: fun_eq_iff split: prod.splits)
  show ?thesis using assms
    by (auto simp: distribute_delegations_pos_reward_def op_simps res_simps c op_map_map_err amount_sum_Some amount_sub_Some sum_filter_positive comp_def)
qed

text \<open>
  A successful distribution runs the operations for some positive rewards of delegations and then the reward of
  the staker, which add up to the total reward.
\<close>

definition reward_commands :: "(delegation_id \<times> amount) list \<Rightarrow> pool_id \<Rightarrow> amount \<Rightarrow> pos_command list" where
  "reward_commands rewards pool r = map (\<lambda>(del, a). CmdDelegateStaking del a) rewards @ [CmdIncreaseStakerRewards pool r]"

definition delegation_rewards :: "int \<Rightarrow> (delegation_id, amount) fmap \<Rightarrow> (delegation_id \<times> amount) list \<Rightarrow> bool" where
  "delegation_rewards reward shares rewards \<longleftrightarrow> (\<forall>(del, r) \<in> set rewards. \<exists>s. fmlookup shares del = Some s \<and> 0 < amt r
    \<and> amt r = reward * amt s div (\<Sum>x\<leftarrow>sorted_list_of_fmap shares. amt (snd x)))"

lemma distribute_delegations_run:
  assumes "distribute_delegations_pos_reward (adapter_operations h P source) shares block_id pool total_balance total_reward a = (Inr (us, rest), a')"
    "amount_sum (map snd (sorted_list_of_fmap shares)) = Some total_balance"
  shows "\<exists>rewards. op_map (adapter_apply h P source) (map (\<lambda>(del, a). CmdDelegateStaking del a) rewards) a = (Inr us, a')
    \<and> amt rest = amt total_reward - (\<Sum>x\<leftarrow>rewards. amt (snd x)) \<and> delegation_rewards (amt total_reward) shares rewards"
proof -
  obtain rewards where c: "calculate_rewards_per_delegation (sorted_list_of_fmap shares) pool total_balance total_reward = Inr rewards"
    and r: "op_map (\<lambda>(del, r). reward_delegate_staking (adapter_operations h P source) del r) (filter (\<lambda>(_, r). r \<noteq> amount_ZERO) rewards) a = (Inr us, a')"
    "amt rest = amt total_reward - (\<Sum>x\<leftarrow>filter (\<lambda>(_, r). r \<noteq> amount_ZERO) rewards. amt (snd x))"
    using distribute_delegations_Inr [OF assms(1)] by blast
  note v = calculate_rewards_per_delegation_Inr [OF c]
  have b: "amt total_balance = (\<Sum>x\<leftarrow>sorted_list_of_fmap shares. amt (snd x))"
    using assms(2) by (simp add: amount_sum_Some comp_def)
  have "delegation_rewards (amt total_reward) shares (filter (\<lambda>(_, r). r \<noteq> amount_ZERO) rewards)"
    unfolding delegation_rewards_def
  proof clarsimp
    fix del x assume x: "(del, x) \<in> set rewards" "x \<noteq> amount_ZERO"
    then obtain i where i: "i < length rewards" "rewards ! i = (del, x)" by (auto simp: in_set_conv_nth)
    have len: "length rewards = length (sorted_list_of_fmap shares)" using arg_cong [OF v(2), of length] by simp
    obtain s where s: "sorted_list_of_fmap shares ! i = (del, s)"
      using arg_cong [OF v(2), of "\<lambda>l. l ! i"] i len by (cases "sorted_list_of_fmap shares ! i") simp
    then have "fmlookup shares del = Some s" using i(1) len nth_mem [of i "sorted_list_of_fmap shares"] by simp
    moreover have "amt x = share_reward (amt total_reward) (amt total_balance) s"
      using arg_cong [OF v(3), of "\<lambda>l. l ! i"] i len s by simp
    moreover have "0 < amt x" using x(2) amt_range(1) [of x] amt_zero_iff [of x] by linarith
    ultimately show "\<exists>s. fmlookup shares del = Some s \<and> 0 < amt x \<and> amt x = amt total_reward * amt s div (\<Sum>x\<leftarrow>sorted_list_of_fmap shares. amt (snd x))"
      by (auto simp: share_reward_def b)
  qed
  moreover have "op_map (adapter_apply h P source) (map (\<lambda>(del, a). CmdDelegateStaking del a) (filter (\<lambda>(_, r). r \<noteq> amount_ZERO) rewards)) a = (Inr us, a')"
    using r(1) by (simp add: op_map_map adapter_operations_def case_prod_unfold)
  ultimately show ?thesis using r(2) by blast
qed

definition staker_base_reward :: "reward_distribution_version \<Rightarrow> pool_data \<Rightarrow> amount \<Rightarrow> amount \<Rightarrow> int" where
  "staker_base_reward version data balance total_reward =
    (let cost = amt (cost_per_block data); rest = amt total_reward - cost; m = margin (margin_ratio_per_thousand data) in
     if rest < 0 then amt total_reward
     else case version of
       RewardDistributionV0 \<Rightarrow> cost + rest * m div 1000
     | RewardDistributionV1 \<Rightarrow>
         let pro_rata = rest * (amt (pledge_amount data) + amt (staker_rewards data)) div amt balance
         in cost + pro_rata + (rest - pro_rata) * m div 1000)"

lemma staker_reward_value:
  assumes "(case version of
        RewardDistributionV0 \<Rightarrow> ok_or e (calculate_staker_reward_v0 total_reward (cost_per_block data) (margin_ratio_per_thousand data))
      | RewardDistributionV1 \<Rightarrow> res_bind (map_err f (staker_balance data)) (\<lambda>staker_bal.
          calculate_staker_reward_v1 total_reward balance staker_bal (cost_per_block data) (margin_ratio_per_thousand data) pool)) = Inr base"
    "margin (margin_ratio_per_thousand data) \<le> 1000"
  shows "amt base = staker_base_reward version data balance total_reward"
proof (cases version)
  case RewardDistributionV0
  then show ?thesis using assms calculate_staker_reward_v0_value(1) [OF _ assms(2)]
    by (auto simp: res_simps staker_base_reward_def Let_def)
next
  case RewardDistributionV1
  then obtain st where st: "staker_balance data = Inr st"
    "calculate_staker_reward_v1 total_reward balance st (cost_per_block data) (margin_ratio_per_thousand data) pool = Inr base"
    using assms(1) by (auto simp: res_simps)
  then have sum: "amt st = amt (pledge_amount data) + amt (staker_rewards data)" by (simp add: staker_balance_def res_simps amount_simps)
  have "amt st \<le> amt balance" "0 < amt balance"
    using st(2) by (auto simp: calculate_staker_reward_v1_def amount_le amount_less split: if_splits)
  from calculate_staker_reward_v1_value [OF this assms(2), of total_reward "cost_per_block data" pool] st(2)
  show ?thesis by (auto simp: staker_base_reward_def Let_def RewardDistributionV1 sum)
qed

lemma distribute_pos_reward_run:
  assumes "distribute_pos_reward (adapter_operations h P source) block_id pool total_reward version a = (Inr us, a')"
  shows "\<exists>data balance base rewards r. delta_get_pool_data P (accounting_delta a) pool = Inr (Some data)
    \<and> delta_get_pool_balance P (accounting_delta a) pool = Inr balance
    \<and> (margin (margin_ratio_per_thousand data) \<le> 1000 \<longrightarrow> amt base = staker_base_reward version data balance total_reward)
    \<and> op_map (adapter_apply h P source) (reward_commands rewards pool r) a = (Inr us, a')
    \<and> (\<Sum>x\<leftarrow>rewards. amt (snd x)) + amt r = amt total_reward
    \<and> (rewards = [] \<or> (\<exists>shares. delta_get_pool_delegations_shares P (accounting_delta a) pool = Inr (Some shares)
        \<and> delegation_rewards (amt total_reward - amt base) shares rewards))"
proof -
  define acc where "acc = adapter_operations h P source"
  have view: "reward_view acc a = delta_view P (accounting_delta a)" for a by (simp add: acc_def adapter_operations_def)
  define deleg where "deleg rest = (if rest > amount_ZERO then
        op_bind (op_read (\<lambda>s. map_err (\<lambda>e. Err (RewardPoSAccountingError e)) (get_pool_delegations_shares (reward_view acc s) pool))) (\<lambda>found.
        case found of
          Some delegation_shares \<Rightarrow>
            op_bind (op_read (\<lambda>_. ok_or (Err (DelegationsRewardSumFailed block_id pool))
              (amount_sum (map snd (sorted_list_of_fmap delegation_shares))))) (\<lambda>total_delegations_balance.
            if total_delegations_balance > amount_ZERO
            then distribute_delegations_pos_reward acc delegation_shares block_id pool total_delegations_balance rest
            else op_return ([], rest))
        | None \<Rightarrow> op_return ([], rest))
      else op_return ([], amount_ZERO))" for rest
  obtain data balance base rest dus un a1 r u where data: "delta_get_pool_data P (accounting_delta a) pool = Inr (Some data)"
      "delta_get_pool_balance P (accounting_delta a) pool = Inr balance"
    and base: "(case version of
        RewardDistributionV0 \<Rightarrow> ok_or (Err (StakerRewardCalculationFailed block_id pool))
          (calculate_staker_reward_v0 total_reward (cost_per_block data) (margin_ratio_per_thousand data))
      | RewardDistributionV1 \<Rightarrow> res_bind (map_err (\<lambda>e. Err (RewardPoSAccountingError e)) (staker_balance data)) (\<lambda>staker_bal.
          calculate_staker_reward_v1 total_reward balance staker_bal (cost_per_block data) (margin_ratio_per_thousand data) pool)) = Inr base"
    and rest: "amount_sub total_reward base = Some rest"
    and del: "deleg rest a = (Inr (dus, un), a1)" and r: "amount_add base un = Some r"
    and u: "adapter_apply h P source (CmdIncreaseStakerRewards pool r) a1 = (Inr u, a')" and us: "us = dus @ [u]"
    using assms
    unfolding distribute_pos_reward_def acc_def [symmetric] deleg_def [symmetric]
    by (auto simp: op_simps ok_or_Inr res_bind_Inr map_err_Inr view) (auto simp: acc_def adapter_operations_def)
  have ar: "amt rest = amt total_reward - amt base" "amt r = amt base + amt un" using rest r by (simp_all add: amount_simps)
  have "\<exists>rewards. op_map (adapter_apply h P source) (map (\<lambda>(del, a). CmdDelegateStaking del a) rewards) a = (Inr dus, a1)
      \<and> amt un = amt rest - (\<Sum>x\<leftarrow>rewards. amt (snd x))
      \<and> (rewards = [] \<or> (\<exists>shares. delta_get_pool_delegations_shares P (accounting_delta a) pool = Inr (Some shares)
          \<and> delegation_rewards (amt rest) shares rewards))"
  proof -
    have none: ?thesis if "dus = []" "amt un = amt rest" "a1 = a"
      using that by (intro exI [of _ "[]"]) (simp add: op_simps)
    show ?thesis
    proof (cases "rest = amount_ZERO")
      case True
      then show ?thesis using del none by (simp add: deleg_def op_simps)
    next
      case False
      then obtain found where found: "delta_get_pool_delegations_shares P (accounting_delta a) pool = Inr found"
        using del by (auto simp: deleg_def op_simps map_err_Inr view)
      show ?thesis
      proof (cases found)
        case None
        then show ?thesis using del none False found by (simp add: deleg_def op_simps map_err_Inr view)
      next
        case (Some shares)
        then obtain b where b: "amount_sum (map snd (sorted_list_of_fmap shares)) = Some b"
          using del False found by (auto simp: deleg_def op_simps map_err_Inr ok_or_Inr view)
        show ?thesis
        proof (cases "b = amount_ZERO")
          case True
          then show ?thesis using del none False found Some b by (simp add: deleg_def op_simps map_err_Inr ok_or_Inr view)
        next
          case nz: False
          then have "distribute_delegations_pos_reward acc shares block_id pool b rest a = (Inr (dus, un), a1)"
            using del False found Some b by (simp add: deleg_def op_simps map_err_Inr ok_or_Inr view)
          from distribute_delegations_run [OF this [unfolded acc_def] b] show ?thesis using found Some by blast
        qed
      qed
    qed
  qed
  then obtain rewards where rw: "op_map (adapter_apply h P source) (map (\<lambda>(del, a). CmdDelegateStaking del a) rewards) a = (Inr dus, a1)"
    "amt un = amt rest - (\<Sum>x\<leftarrow>rewards. amt (snd x))"
    "rewards = [] \<or> (\<exists>shares. delta_get_pool_delegations_shares P (accounting_delta a) pool = Inr (Some shares)
          \<and> delegation_rewards (amt rest) shares rewards)" by blast
  have "op_map (adapter_apply h P source) (reward_commands rewards pool r) a = (Inr us, a')"
    unfolding reward_commands_def op_map_append us using rw(1) u by (auto simp: op_simps)
  moreover have "(\<Sum>x\<leftarrow>rewards. amt (snd x)) + amt r = amt total_reward" using rw(2) ar by simp
  ultimately show ?thesis using data staker_reward_value [OF base] rw(3) unfolding ar(1) by blast
qed

section \<open>Undo in the order of the distribution\<close>

text \<open>Two operations that can be swapped, and a run that can be reversed.\<close>

definition swaps :: "('x \<Rightarrow> ('s, 'e, 'a) op) \<Rightarrow> ('s \<Rightarrow> bool) \<Rightarrow> 'x \<Rightarrow> 'x \<Rightarrow> bool" where
  "swaps f I x y \<longleftrightarrow> (\<forall>s u s1 v s2. I s \<longrightarrow> f x s = (Inr u, s1) \<longrightarrow> f y s1 = (Inr v, s2) \<longrightarrow>
    (\<exists>t. f y s = (Inr v, t) \<and> f x t = (Inr u, s2)))"

lemma op_map_move_last:
  assumes inv: "\<And>x s u t. I s \<Longrightarrow> f x s = (Inr u, t) \<Longrightarrow> I t"
    and "I s" "op_map f (xs @ [y]) s = (Inr us, t)" "\<And>x. x \<in> set xs \<Longrightarrow> swaps f I x y"
  shows "\<exists>vs v. us = vs @ [v] \<and> op_map f (y # xs) s = (Inr (v # vs), t)"
  using assms(2-)
proof (induction xs arbitrary: s us)
  case Nil
  then show ?case by (auto simp: op_simps)
next
  case (Cons x xs)
  then obtain u s1 ws where x: "f x s = (Inr u, s1)" and r: "op_map f (xs @ [y]) s1 = (Inr ws, t)" and us: "us = u # ws"
    by (auto simp: op_simps)
  have "I s1" using inv Cons.prems(1) x by blast
  then obtain vs v where vs: "ws = vs @ [v]" "op_map f (y # xs) s1 = (Inr (v # vs), t)"
    using Cons.IH [OF _ r] Cons.prems(3) by auto
  then obtain s2 where y: "f y s1 = (Inr v, s2)" and rest: "op_map f xs s2 = (Inr vs, t)" by (auto simp: op_simps)
  obtain t1 where "f y s = (Inr v, t1)" "f x t1 = (Inr u, s2)"
    using Cons.prems(1,3) x y unfolding swaps_def by (metis list.set_intros(1))
  then have "op_map f (y # x # xs) s = (Inr (v # u # vs), t)" using rest by (auto simp: op_simps)
  then show ?case using us vs(1) by auto
qed

lemma op_map_reversed:
  assumes inv: "\<And>x s u t. I s \<Longrightarrow> f x s = (Inr u, t) \<Longrightarrow> I t"
    and "I s" "op_map f xs s = (Inr us, t)" "sorted_wrt (swaps f I) xs"
  shows "op_map f (rev xs) s = (Inr (rev us), t)"
  using assms(2-)
proof (induction xs arbitrary: s us t rule: rev_induct)
  case Nil
  then show ?case by (simp add: op_simps)
next
  case (snoc y xs)
  have sw: "\<And>x. x \<in> set xs \<Longrightarrow> swaps f I x y" using snoc.prems(3) by (simp add: sorted_wrt_append)
  have "\<exists>vs v. us = vs @ [v] \<and> op_map f (y # xs) s = (Inr (v # vs), t)"
    by (rule op_map_move_last [of I f]) (fact inv snoc.prems sw)+
  then obtain vs v where v: "us = vs @ [v]" "op_map f (y # xs) s = (Inr (v # vs), t)" by blast
  then obtain s1 where y: "f y s = (Inr v, s1)" "op_map f xs s1 = (Inr vs, t)" by (auto simp: op_simps)
  have "op_map f (rev xs) s1 = (Inr (rev vs), t)"
    using snoc.IH [OF _ y(2)] inv [OF snoc.prems(1) y(1)] snoc.prems(3) by (simp add: sorted_wrt_append)
  then show ?case using y(1) v(1) by (auto simp: op_simps)
qed

lemma merge_delta_amounts_ok:
  assumes "\<And>k. i128_range (net c k + net d k)"
  shows "\<exists>t. merge_delta_amounts d c = (Inr (), t)"
proof -
  have "\<exists>us t. op_map (\<lambda>(key, other_amount). merge_delta_amount_element key other_amount) (sorted_list_of_fmap d) c = (Inr us, t)"
  proof (rule merge_amounts.map_succeeds)
    fix x assume "x \<in> set (sorted_list_of_fmap d)"
    then have "net d (fst x) = samt (snd x)" by (simp add: net_def)
    then show "\<exists>u v. merge_amount_slot x (fmlookup c (fst x)) = (Inr u, v)"
      using assms [of "fst x"] merge_amount_slot_Inr [of "fst x" "snd x" c] by simp
  qed simp
  then show ?thesis by (auto simp: merge_delta_amounts_def op_simps)
qed

lemma merge_amounts_swap:
  assumes "wf_amounts c" "merge_delta_amounts n1 c = (Inr (), c1)" "merge_delta_amounts n2 c1 = (Inr (), c2)"
    "\<And>k. 0 \<le> net n1 k" "\<And>k. 0 \<le> net n2 k"
  shows "\<exists>t. merge_delta_amounts n2 c = (Inr (), t) \<and> merge_delta_amounts n1 t = (Inr (), c2)"
proof -
  have c1: "wf_amounts c1" "\<And>k. net c1 k = net c k + net n1 k" using assms(1,2) by (simp_all add: merge_delta_amounts_Inr)
  then have c2: "wf_amounts c2" "\<And>k. net c2 k = net c k + net n1 k + net n2 k" using assms(3) by (simp_all add: merge_delta_amounts_Inr)
  have "i128_range (net c k + net n2 k)" for k
    using net_range [of c k] net_range [of c2 k] assms(4,5) [of k] c2(2) [of k] by linarith
  then obtain t where t: "merge_delta_amounts n2 c = (Inr (), t)" using merge_delta_amounts_ok by blast
  then have "wf_amounts t" "\<And>k. net t k = net c k + net n2 k" using assms(1) by (simp_all add: merge_delta_amounts_Inr)
  then have "merge_delta_amounts n1 t = (Inr (), c2)" using c2 by (simp add: merge_delta_amounts_Inr)
  with t show ?thesis by blast
qed

definition adding :: "pos_delta_data \<Rightarrow> bool" where
  "adding n \<longleftrightarrow> (\<forall>k. 0 \<le> net (pool_balances n) k) \<and> (\<forall>k. 0 \<le> net (pool_delegation_shares n) k) \<and> (\<forall>k. 0 \<le> net (delegation_balances n) k)"

lemma pos_merge_swap:
  assumes "pos_wf c" "pos_merge_with_delta n1 c = (Inr m1, c1)" "pos_merge_with_delta n2 c1 = (Inr m2, c2)"
    "adding n1" "adding n2" "pool_data n1 = fmempty" "delegation_data n1 = fmempty"
  shows "\<exists>m t m'. pos_merge_with_delta n2 c = (Inr m, t) \<and> pos_merge_with_delta n1 t = (Inr m', c2)"
proof -
  have wf: "wf_amounts (pool_balances c)" "wf_amounts (pool_delegation_shares c)" "wf_amounts (delegation_balances c)"
    using assms(1) by (simp_all add: pos_wf_def)
  have "\<exists>t. merge_delta_amounts (pool_balances n2) (pool_balances c) = (Inr (), t) \<and> merge_delta_amounts (pool_balances n1) t = (Inr (), pool_balances c2)"
    by (rule merge_amounts_swap [OF wf(1), of _ "pool_balances c1"]) (use assms(2-5) in \<open>auto simp: pos_merge_Inr adding_def\<close>)
  moreover have "\<exists>t. merge_delta_amounts (pool_delegation_shares n2) (pool_delegation_shares c) = (Inr (), t)
      \<and> merge_delta_amounts (pool_delegation_shares n1) t = (Inr (), pool_delegation_shares c2)"
    by (rule merge_amounts_swap [OF wf(2), of _ "pool_delegation_shares c1"]) (use assms(2-5) in \<open>auto simp: pos_merge_Inr adding_def\<close>)
  moreover have "\<exists>t. merge_delta_amounts (delegation_balances n2) (delegation_balances c) = (Inr (), t)
      \<and> merge_delta_amounts (delegation_balances n1) t = (Inr (), delegation_balances c2)"
    by (rule merge_amounts_swap [OF wf(3), of _ "delegation_balances c1"]) (use assms(2-5) in \<open>auto simp: pos_merge_Inr adding_def\<close>)
  moreover have "\<exists>u v. merge_delta_data (pool_data n2) (pool_data c) = (Inr u, pool_data c2)
      \<and> merge_delta_data (delegation_data n2) (delegation_data c) = (Inr v, delegation_data c2)"
    using assms(2,3,6,7) by (auto simp: pos_merge_Inr)
  ultimately show ?thesis using assms(6,7) by (auto simp: pos_merge_Inr)
qed

lemma reward_fresh:
  assumes "pos_apply h (delta_view P d) cmd pos_delta_data_new = (Inr u, n)"
  shows "cmd = CmdDelegateStaking del x \<Longrightarrow> adding n \<and> pool_data n = fmempty \<and> delegation_data n = fmempty
      \<and> (delegation_data e = delegation_data d \<longrightarrow> pos_apply h (delta_view P e) cmd pos_delta_data_new = (Inr u, n))"
    and "cmd = CmdIncreaseStakerRewards pool x \<Longrightarrow> adding n \<and> delegation_data n = fmempty
      \<and> (pool_data e = pool_data d \<longrightarrow> pos_apply h (delta_view P e) cmd pos_delta_data_new = (Inr u, n))"
  using assms by (auto simp: pos_apply_def pos_op_Inr adding_def add_unsigned_empty fresh_query_data)

lemma reward_swaps:
  assumes "y = CmdDelegateStaking del' z \<or> y = CmdIncreaseStakerRewards pool z"
  shows "swaps (adapter_apply h P source) adapter_wf (CmdDelegateStaking del x) y"
  unfolding swaps_def
proof (intro allI impI)
  fix a u a1 v a2
  assume wf: "adapter_wf a" and 1: "adapter_apply h P source (CmdDelegateStaking del x) a = (Inr u, a1)"
    and 2: "adapter_apply h P source y a1 = (Inr v, a2)"
  obtain n1 m d m' b where n1: "pos_apply h (delta_view P (accounting_delta a)) (CmdDelegateStaking del x) pos_delta_data_new = (Inr u, n1)"
    "pos_merge_with_delta n1 (accounting_delta a) = (Inr m, d)" "pos_merge_with_delta n1 (block_delta source a) = (Inr m', b)"
    and a1: "a1 = a\<lparr>accounting_delta := d, accounting_block_deltas := fmupd source b (accounting_block_deltas a)\<rparr>"
    using 1 by (auto simp: adapter_apply_def on_new_delta_Inr)
  obtain n2 k e k' c where n2: "pos_apply h (delta_view P d) y pos_delta_data_new = (Inr v, n2)"
    "pos_merge_with_delta n2 d = (Inr k, e)" "pos_merge_with_delta n2 b = (Inr k', c)"
    and a2: "a2 = a1\<lparr>accounting_delta := e, accounting_block_deltas := fmupd source c (accounting_block_deltas a1)\<rparr>"
    using 2 by (auto simp: adapter_apply_def on_new_delta_Inr a1)
  have f1: "adding n1" "pool_data n1 = fmempty" "delegation_data n1 = fmempty"
    using reward_fresh(1) [OF n1(1)] by auto
  have same: "pool_data d = pool_data (accounting_delta a)" "delegation_data d = delegation_data (accounting_delta a)"
    using n1(2) f1 by (auto simp: pos_merge_Inr)
  have f2: "adding n2" "delegation_data n2 = fmempty" "pos_apply h (delta_view P (accounting_delta a)) y pos_delta_data_new = (Inr v, n2)"
    using reward_fresh [OF n2(1), of _ _ "accounting_delta a"] same assms by auto
  have w: "pos_wf (accounting_delta a)" "pos_wf (block_delta source a)" using wf by (simp_all add: adapter_wf_def)
  obtain p1 t p2 where t: "pos_merge_with_delta n2 (accounting_delta a) = (Inr p1, t)" "pos_merge_with_delta n1 t = (Inr p2, e)"
    using pos_merge_swap [OF w(1) n1(2) n2(2) f1(1) f2(1) f1(2,3)] by blast
  obtain q1 r q2 where r: "pos_merge_with_delta n2 (block_delta source a) = (Inr q1, r)" "pos_merge_with_delta n1 r = (Inr q2, c)"
    using pos_merge_swap [OF w(2) n1(3) n2(3) f1(1) f2(1) f1(2,3)] by blast
  have "delegation_data t = delegation_data (accounting_delta a)" using t(1) f2(2) by (auto simp: pos_merge_Inr)
  then have g: "pos_apply h (delta_view P t) (CmdDelegateStaking del x) pos_delta_data_new = (Inr u, n1)"
    using reward_fresh(1) [OF n1(1), of _ _ t] by blast
  define s where "s = a\<lparr>accounting_delta := t, accounting_block_deltas := fmupd source r (accounting_block_deltas a)\<rparr>"
  have "adapter_apply h P source y a = (Inr v, s)" using f2(3) t(1) r(1) by (auto simp: adapter_apply_def on_new_delta_Inr s_def)
  moreover have "adapter_apply h P source (CmdDelegateStaking del x) s = (Inr u, a2)"
    using g t(2) r(2) by (auto simp: adapter_apply_def on_new_delta_Inr s_def a2 a1)
  ultimately show "\<exists>t. adapter_apply h P source y a = (Inr v, t) \<and> adapter_apply h P source (CmdDelegateStaking del x) t = (Inr u, a2)"
    by blast
qed

lemma reward_undo_sim:
  assumes "adapter_wf a" "op_map (adapter_apply h P source) (reward_commands rewards pool r) a = (Inr us, a')" "adapter_sim P a' b'"
  shows "\<exists>b. op_for_each (adapter_undo P source) us b' = (Inr (), b) \<and> adapter_sim P a b"
proof -
  have "sorted_wrt (swaps (adapter_apply h P source) adapter_wf) (reward_commands rewards pool r)"
    unfolding reward_commands_def
    by (induction rewards) (auto intro: reward_swaps)
  then have "op_map (adapter_apply h P source) (rev (reward_commands rewards pool r)) a = (Inr (rev us), a')"
    using op_map_reversed [of adapter_wf "adapter_apply h P source"] adapter_apply_wf assms(1,2) by blast
  from adapter_run_undo_sim [OF assms(1) this assms(3)] show ?thesis by simp
qed



section \<open>Properties\<close>


text \<open>
  Taking back a block reward. The undo data of a distribution is applied in the order in which it was produced, not in
  reverse; this still succeeds and restores every query of the accounting, because the operations of a distribution commute.
\<close>

theorem block_reward_undo_in_order:
  assumes "adapter_wf a" "distribute_pos_reward (adapter_operations h P source) block_id pool total_reward version a = (Inr us, a')"
  shows "\<exists>b. op_for_each (adapter_undo P source) us a' = (Inr (), b)
    \<and> delta_view P (accounting_delta b) = delta_view P (accounting_delta a)"
proof -
  obtain rewards r where "op_map (adapter_apply h P source) (reward_commands rewards pool r) a = (Inr us, a')"
    using distribute_pos_reward_run [OF assms(2)] by blast
  from reward_undo_sim [OF assms(1) this adapter_sim_refl] show ?thesis using pos_sim_view by (auto simp: adapter_sim_def)
qed

text \<open>
  The reward of the staker under version 1 of the distribution never panics and never fails for a staker balance within
  the balance of the pool, is exact, and never exceeds the total reward.
\<close>

theorem staker_reward_v1_exact:
  assumes "amt staker_bal \<le> amt balance" "0 < amt balance" "uint (per_thousand_value mpt) \<le> 1000"
  shows "\<exists>r. calculate_staker_reward_v1 total_reward balance staker_bal cost mpt pool = Inr r \<and> amt r \<le> amt total_reward
    \<and> amt r = (if amt cost \<le> amt total_reward
        then let rest = amt total_reward - amt cost; pro_rata = rest * amt staker_bal div amt balance
          in amt cost + pro_rata + (rest - pro_rata) * uint (per_thousand_value mpt) div 1000
        else amt total_reward)"
  using calculate_staker_reward_v1_value [OF assms [folded margin_def], of total_reward cost pool] unfolding margin_def .

section \<open>Examples\<close>

definition reward_pool :: pool_data where
  "reward_pool = sample_pool\<lparr>margin_ratio_per_thousand := PerThousand 100, cost_per_block := Amount 10\<rparr>"

definition reward_setup :: "pos_command list" where
  "reward_setup = [CmdCreatePool 7 reward_pool,
    CmdCreateDelegationId 7 AnyoneCanSpend (UtxoOutPoint (SourceTransaction 1) 0), CmdDelegateStaking 4 (Amount 50)]"

definition reward_example :: pos_adapter where
  "reward_example = snd (op_map (adapter_apply sample_hasher empty_view (SourceChain 5)) reward_setup pos_adapter_new)"

lemma reward_example_wf: "adapter_wf reward_example"
proof -
  have "case op_map (adapter_apply sample_hasher empty_view (SourceChain 5)) reward_setup pos_adapter_new of (Inr us, _) \<Rightarrow> True | _ \<Rightarrow> False"
    by code_simp
  then obtain us a where "op_map (adapter_apply sample_hasher empty_view (SourceChain 5)) reward_setup pos_adapter_new = (Inr us, a)"
    by (auto split: prod.splits sum.splits)
  then show ?thesis using adapter_run_wf [OF adapter_wf_new] by (simp add: reward_example_def)
qed

lemma reward_example_run:
  "case distribute_pos_reward (adapter_operations sample_hasher empty_view (SourceChain 5)) 5 7 (Amount 1000) RewardDistributionV1 reward_example of
    (Inr us, _) \<Rightarrow> length us = 2 | _ \<Rightarrow> False"
  by code_simp



theorem block_reward_undo_in_order_witness:
  "\<exists>us a' b. distribute_pos_reward (adapter_operations sample_hasher empty_view (SourceChain 5)) 5 7 (Amount 1000) RewardDistributionV1 reward_example
      = (Inr us, a')
    \<and> op_for_each (adapter_undo empty_view (SourceChain 5)) us a' = (Inr (), b)"
proof -
  obtain us a' where r: "distribute_pos_reward (adapter_operations sample_hasher empty_view (SourceChain 5)) 5 7 (Amount 1000) RewardDistributionV1 reward_example
      = (Inr us, a')"
    using reward_example_run by (auto split: prod.splits sum.splits)
  then show ?thesis using block_reward_undo_in_order [OF reward_example_wf r] by blast
qed

theorem staker_reward_v1_exact_witness:
  "\<exists>r. calculate_staker_reward_v1 (Amount 1000) (Amount 150) (Amount 100) (Amount 10) (PerThousand 100) 7 = Inr r \<and> amt r = 703"
  using staker_reward_v1_exact [of "Amount 100" "Amount 150" "PerThousand 100" "Amount 1000" "Amount 10" 7]
  by (auto simp: amt_def)

end
