(* ===== verification/Spec2Isabelle.thy ===== *)
theory Spec2Isabelle
  imports PoSConsistency TokensStorage OrdersStorage UtxoFlush Emission ValueFlow Compact BlockStatus Consensus ChainTrust RewardDistribution
begin

text \<open>
  A verification development of the ledger layers of mintlayer-core.

  \<^bold>\<open>The program and its parts.\<close> A block moves coins and tokens between unspent outputs (\<open>utxo\<close>), pools and
  delegations (\<open>pos-accounting\<close>), tokens (\<open>tokens-accounting\<close>) and orders (\<open>orders-accounting\<close>). Every one of
  these crates keeps a local delta over a parent view, can undo each operation, and flushes the delta into
  its parent or a database; \<open>accounting\<close> holds the delta collections that they share. The value of a
  transaction is balanced by \<open>chainstate/constraints-value-accumulator\<close>. All of them use the amounts, heights,
  configuration and big integers of \<open>common\<close>.

  \<^bold>\<open>Conventions.\<close> A Rust \<open>Result\<close> is a value of \<open>'e + 'a\<close> with \<open>Inl\<close> for \<open>Err\<close>. A method on \<open>&mut self\<close> is an
  operation of type \<open>('s, 'e, 'a) op\<close> (theory \<open>Prelude\<close>): it returns the new state also when it fails, since the
  code does not roll back. A place where the code may panic (\<open>expect\<close>, \<open>assert\<close>, arithmetic overflow, which
  every build profile checks) has errors of type \<open>'f fault\<close> with the constructor \<open>Panic\<close>; assertions of debug builds
  only are left out. A \<open>BTreeMap\<close> is a finite map
  read in the order of its keys. Generic parents, stores, hash functions, signatures and other code outside
  the sources are arguments of the definitions; what the proofs need of them is a hypothesis or the
  assumption of a locale, and every locale is interpreted on the in-memory stores of the sources.

  \<^bold>\<open>Theories.\<close>
  \<^item> \<open>Prelude\<close>: machine integers with checked operations, results, operations on a state, lookups in finite
    maps, and the locale \<open>keyed_op\<close> of loops that touch one key at a time.
  \<^item> \<open>Amounts\<close> (\<open>common/src/primitives/amount\<close>): \<open>Amount\<close> and \<open>SignedAmount\<close> and their exactness.
  \<^item> \<open>Chain\<close> (\<open>common/src/chain\<close>): identifiers, destinations, inputs, outputs, commands.
  \<^item> \<open>Config\<close>, \<open>Emission\<close> (\<open>common/src/chain/config\<close>, \<open>common/src/primitives/height.rs\<close>): heights, network
    upgrades, fees by version, epochs and the emission schedule. The schedule computed from its table
    is the sum of the subsidies, and the supply of the main network is bounded.
  \<^item> \<open>Uint\<close>, \<open>UintCorrect\<close>, \<open>UintDivision\<close>, \<open>Compact\<close> (\<open>common/src/uint\<close>, \<open>common/src/primitives/compact.rs\<close>): arrays
    of 64-bit words. The arithmetic and the bit operations refine machine words of any size, the division loop ends, bytes and
    compact targets round-trip. The loop of the division counts down its shift, which is the
    variable of the code; no fuel is needed.
  \<^item> \<open>Accounting\<close> (\<open>accounting\<close>): delta collections; merging is addition, or composition, per key; undo restores.
  \<^item> \<open>DeltaView\<close>, \<open>Storage\<close>: queries through a delta, and flushing deltas into a store (locales \<open>balance_store\<close>
    and \<open>data_store\<close>).
  \<^item> \<open>PoSAccounting\<close>, \<open>PoSUndo\<close>, \<open>PoSStorage\<close>, \<open>PoSConsistency\<close> (\<open>pos-accounting\<close>): operations, their reversal, the database,
    an abstract machine over integers and the consistency of balances and shares.
  \<^item> \<open>TokensAccounting\<close>, \<open>TokensSafety\<close>, \<open>TokensStorage\<close> (\<open>tokens-accounting\<close>): reversal, supply limits, locking, freezing.
  \<^item> \<open>OrdersAccounting\<close>, \<open>OrdersSafety\<close>, \<open>OrdersStorage\<close> (\<open>orders-accounting\<close>): reversal and fairness of fills.
  \<^item> \<open>UtxoCache\<close>, \<open>UtxoSafety\<close>, \<open>UtxoTransactions\<close>, \<open>UtxoFlush\<close> (\<open>utxo\<close>): the cache with fresh and dirty flags refines a plain
    set of unspent outputs, connecting is reversible, flushing is transparent (locales \<open>utxo_ledger\<close> and
    \<open>utxos_storage\<close>).
  \<^item> \<open>ValueAccumulator\<close>, \<open>ValueSafety\<close>, \<open>ValueFlow\<close> (\<open>constraints-value-accumulator\<close>): an accepted transaction conserves
    every currency and respects every time lock.
  \<^item> \<open>BlockIndex\<close>, \<open>BlockStatus\<close>, \<open>BlockTree\<close>, \<open>ChainTrust\<close> (\<open>chainstate/types\<close>, \<open>chainstate/src/detail/chainstateref\<close>): the index of blocks.
    The packed status keeps its fields apart; in a well-formed tree the search over skip links, the last
    common ancestor and the path to a new tip end and are exact, and a new index keeps the tree
    well-formed and adds to the chain trust. The weights of time slots are computed with floating-point
    numbers, which are not modelled: the table of weights is any one close to the exact function. The two loops over the tree may run forever on a malformed store and are partial
    functions with the value \<open>None\<close> for not returning.
  \<^item> \<open>ProofOfWork\<close>, \<open>PoSTarget\<close>, \<open>Consensus\<close> (\<open>consensus/src\<close>): the consensus rules. Retargeting of both kinds and the
    effective balance of a pool are exact up to the rounding of compact targets; a mined or staked block meets the check
    of the verification; a header is accepted exactly when it has the required consensus data and meets its target. The hash of a header,
    the signature check and the VRF are the parameters \<open>crypto\<close>. Mining runs over nonces below a bound, staking
    over time slots up to a maximum, so both end.
  \<^item> \<open>PoSAdapter\<close>, \<open>RewardDistribution\<close> (\<open>chainstate/tx-verifier/src/transaction_verifier\<close>): pool accounting as the transaction
    verifier uses it. The adapter with its deltas per block behaves as the accumulated delta; the block reward
    is paid out completely, and undoing a distribution in the order in which it was made restores the accounting.

  \<^bold>\<open>Not modelled.\<close> Printing, parsing and serialisation (\<open>serde\<close>, SCALE codec, addresses) are derived or call
  third-party code. Databases, networking, RPC, wallets, user interfaces and the asynchronous
  subsystems are driven by I/O. Hashing, signatures and verifiable random functions are third-party
  code and appear as parameters.
\<close>

end
